(* ===== verification/Prelude.thy ===== *)
theory Prelude
  imports Complex_Main "HOL-Library.Char_ord" "HOL-Library.List_Lexorder"
    "HOL-Library.Code_Target_Nat"
begin

text \<open>
  The shared vocabulary of the development: Python strings and bytes, decimal rendering,
  the exceptions the program raises and the result type they are returned in, and the
  generic list lemmas that several components use.

  A Python \<^verbatim>\<open>bytes\<close> object is a \<^typ>\<open>string\<close> (a list of 8-bit characters). A Python
  \<^verbatim>\<open>str\<close> is the \<^typ>\<open>string\<close> of its UTF-8 encoding, so that literals with non-ASCII
  punctuation can be written down exactly; \<open>py_len\<close> counts code points, not bytes.
  Case conversion and whitespace stripping act on ASCII characters. Clock readings and
  durations, floats in the program, are exact rationals.
\<close>

named_theorems py_defs \<open>definitions of the Python string primitives\<close>
named_theorems asgi_defs \<open>definitions of the middleware\<close>
named_theorems store_defs \<open>definitions of the persistence operations\<close>

subsection \<open>Python strings\<close>

type_synonym bytes = string
type_synonym time = rat

definition code :: "char \<Rightarrow> nat" where
  "code c = of_char c"

definition py_lower_char :: "char \<Rightarrow> char" where
  "py_lower_char c = (if 65 \<le> code c \<and> code c \<le> 90 then char_of (code c + 32) else c)"

definition py_upper_char :: "char \<Rightarrow> char" where
  "py_upper_char c = (if 97 \<le> code c \<and> code c \<le> 122 then char_of (code c - 32) else c)"

definition py_lower :: "string \<Rightarrow> string" where
  "py_lower s = map py_lower_char s"

definition py_upper :: "string \<Rightarrow> string" where
  "py_upper s = map py_upper_char s"

definition py_isspace :: "char \<Rightarrow> bool" where
  "py_isspace c \<longleftrightarrow> (9 \<le> code c \<and> code c \<le> 13) \<or> (28 \<le> code c \<and> code c \<le> 32)"

definition py_strip :: "string \<Rightarrow> string" where
  "py_strip s = rev (dropWhile py_isspace (rev (dropWhile py_isspace s)))"

definition py_rstrip :: "char \<Rightarrow> string \<Rightarrow> string" where
  "py_rstrip c s = rev (dropWhile (\<lambda>x. x = c) (rev s))"

definition startswith :: "string \<Rightarrow> string \<Rightarrow> bool" where
  "startswith s p \<longleftrightarrow> take (length p) s = p"

definition removesuffix :: "string \<Rightarrow> string \<Rightarrow> string" where
  "removesuffix suf s =
     (if suf \<noteq> [] \<and> length suf \<le> length s \<and> drop (length s - length suf) s = suf
      then take (length s - length suf) s else s)"

fun py_split :: "char \<Rightarrow> string \<Rightarrow> string list" where
  "py_split sep [] = [[]]"
| "py_split sep (c # cs) =
     (if c = sep then [] # py_split sep cs
      else (case py_split sep cs of [] \<Rightarrow> [[c]] | w # ws \<Rightarrow> (c # w) # ws))"

fun py_join :: "string \<Rightarrow> string list \<Rightarrow> string" where
  "py_join sep [] = []"
| "py_join sep [w] = w"
| "py_join sep (w # ws) = w @ sep @ py_join sep ws"

fun py_contains :: "string \<Rightarrow> string \<Rightarrow> bool" where
  "py_contains [] p = (p = [])"
| "py_contains (c # cs) p = (startswith (c # cs) p \<or> py_contains cs p)"

text \<open>The number of code points of a UTF-8 encoded string: its non-continuation bytes.\<close>

definition py_len :: "string \<Rightarrow> nat" where
  "py_len s = length (filter (\<lambda>c. code c < 128 \<or> 192 \<le> code c) s)"

definition ljust :: "nat \<Rightarrow> string \<Rightarrow> string" where
  "ljust n s = s @ replicate (n - py_len s) (CHR '' '')"

definition py_isascii :: "string \<Rightarrow> bool" where
  "py_isascii s \<longleftrightarrow> list_all (\<lambda>c. code c < 128) s"

definition py_isdigit :: "char \<Rightarrow> bool" where
  "py_isdigit c \<longleftrightarrow> 48 \<le> code c \<and> code c \<le> 57"

definition py_isalnum :: "char \<Rightarrow> bool" where
  "py_isalnum c \<longleftrightarrow> py_isdigit c \<or> (65 \<le> code c \<and> code c \<le> 90) \<or> (97 \<le> code c \<and> code c \<le> 122)"

fun utf8_valid :: "bytes \<Rightarrow> bool" where
  "utf8_valid [] = True"
| "utf8_valid (c # cs) =
     (let n = code c; tail = (\<lambda>x. 128 \<le> code x \<and> code x \<le> 191) in
      if n < 128 then utf8_valid cs
      else if 194 \<le> n \<and> n \<le> 223 then (case cs of a # r \<Rightarrow> tail a \<and> utf8_valid r | [] \<Rightarrow> False)
      else if 224 \<le> n \<and> n \<le> 239 then
        (case cs of a # b # r \<Rightarrow>
           tail a \<and> tail b \<and> (n = 224 \<longrightarrow> 160 \<le> code a) \<and> (n = 237 \<longrightarrow> code a \<le> 159) \<and> utf8_valid r
         | _ \<Rightarrow> False)
      else if 240 \<le> n \<and> n \<le> 244 then
        (case cs of a # b # d # r \<Rightarrow>
           tail a \<and> tail b \<and> tail d \<and> (n = 240 \<longrightarrow> 144 \<le> code a) \<and> (n = 244 \<longrightarrow> code a \<le> 143) \<and>
           utf8_valid r
         | _ \<Rightarrow> False)
      else False)"

text \<open>Decimal rendering (\<^verbatim>\<open>str(int)\<close>) and parsing (\<^verbatim>\<open>int(str)\<close>).\<close>

definition digit_char :: "nat \<Rightarrow> char" where
  "digit_char d = char_of (48 + d)"

definition digit_val :: "char \<Rightarrow> nat" where
  "digit_val c = code c - 48"

fun show_nat :: "nat \<Rightarrow> string" where
  "show_nat n = (if n < 10 then [digit_char n] else show_nat (n div 10) @ [digit_char (n mod 10)])"

declare show_nat.simps [simp del]

definition show_int :: "int \<Rightarrow> string" where
  "show_int i = (if i < 0 then CHR ''-'' # show_nat (nat (- i)) else show_nat (nat i))"

definition read_digits :: "string \<Rightarrow> nat" where
  "read_digits s = foldl (\<lambda>n c. 10 * n + digit_val c) 0 s"

text \<open>
  The digits of a Python integer literal: decimal digits with single underscores between them.
\<close>

fun py_digits :: "bool \<Rightarrow> string \<Rightarrow> string option" where
  "py_digits after_digit [] = (if after_digit then Some [] else None)"
| "py_digits after_digit (c # cs) =
     (if py_isdigit c then map_option (Cons c) (py_digits True cs)
      else if c = CHR ''_'' \<and> after_digit then py_digits False cs
      else None)"

text \<open>\<^verbatim>\<open>int()\<close> refuses more than 4300 digits.\<close>

definition digits_value :: "string \<Rightarrow> nat option" where
  "digits_value s =
     (case py_digits False s of
        Some d \<Rightarrow> if length d \<le> 4300 then Some (read_digits d) else None
      | None \<Rightarrow> None)"

definition py_int :: "string \<Rightarrow> int option" where
  "py_int s =
     (let t = py_strip s in
      case t of
        [] \<Rightarrow> None
      | c # cs \<Rightarrow>
          if c = CHR ''-'' then map_option (\<lambda>n. - int n) (digits_value cs)
          else if c = CHR ''+'' then map_option int (digits_value cs)
          else map_option int (digits_value t))"

text \<open>\<^verbatim>\<open>list(dict.fromkeys(xs))\<close>: first occurrences, in order.\<close>

fun fromkeys :: "'a list \<Rightarrow> 'a list" where
  "fromkeys [] = []"
| "fromkeys (x # xs) = x # removeAll x (fromkeys xs)"

text \<open>
  Assignment to a dictionary in insertion order: an existing key keeps its position.
\<close>

fun od_set :: "'k \<Rightarrow> 'v \<Rightarrow> ('k \<times> 'v) list \<Rightarrow> ('k \<times> 'v) list" where
  "od_set k v [] = [(k, v)]"
| "od_set k v ((k', v') # xs) = (if k' = k then (k, v) # xs else (k', v') # od_set k v xs)"

text \<open>\<^verbatim>\<open>repr(str)\<close> and \<^verbatim>\<open>str(list of str)\<close>, as f-strings render them.\<close>

definition hex_digit :: "nat \<Rightarrow> char" where
  "hex_digit d = (if d < 10 then char_of (48 + d) else char_of (87 + d))"

definition repr_char :: "char \<Rightarrow> char \<Rightarrow> string" where
  "repr_char q c =
     (if c = q \<or> c = CHR 0x5C then [CHR 0x5C, c]
      else if code c = 9 then [CHR 0x5C, CHR ''t'']
      else if code c = 10 then [CHR 0x5C, CHR ''n'']
      else if code c = 13 then [CHR 0x5C, CHR ''r'']
      else if code c < 32 \<or> code c = 127 then
        [CHR 0x5C, CHR ''x'', hex_digit (code c div 16), hex_digit (code c mod 16)]
      else [c])"

definition py_repr :: "string \<Rightarrow> string" where
  "py_repr s =
     (let q = (if CHR 0x27 \<in> set s \<and> CHR 0x22 \<notin> set s then CHR 0x22 else CHR 0x27) in
      [q] @ concat (map (repr_char q) s) @ [q])"

definition py_repr_list :: "string list \<Rightarrow> string" where
  "py_repr_list xs = ''['' @ py_join '', '' (map py_repr xs) @ '']''"

text \<open>Rounding to the nearest integer, ties to even.\<close>

definition round_half_even :: "rat \<Rightarrow> int" where
  "round_half_even q =
     (let n = floor q; r = q - of_int n in
      if r < 1 / 2 then n else if r > 1 / 2 then n + 1 else if even n then n else n + 1)"

text \<open>Insertion sort by a comparison, for the orders a query asks of the database.\<close>

fun insort_by :: "('a \<Rightarrow> 'a \<Rightarrow> bool) \<Rightarrow> 'a \<Rightarrow> 'a list \<Rightarrow> 'a list" where
  "insort_by le x [] = [x]"
| "insort_by le x (y # ys) = (if le x y then x # y # ys else y # insort_by le x ys)"

definition isort_by :: "('a \<Rightarrow> 'a \<Rightarrow> bool) \<Rightarrow> 'a list \<Rightarrow> 'a list" where
  "isort_by le xs = foldr (insort_by le) xs []"

subsection \<open>Exceptions and results\<close>

text \<open>
  The exceptions the program raises or lets through. \<open>RequestExpired\<close> and
  \<open>DatabaseUnavailableError\<close> are subclasses of Starlette's \<^verbatim>\<open>HTTPException\<close>.
\<close>

datatype exn =
    HTTPException int string "(string \<times> string) list"
  | RequestExpired string
  | DatabaseUnavailableError string
  | RequestValidationError "(string list \<times> string) list" bool
  | RuntimeError string
  | ValueError string
  | TypeError string
  | KeyError string
  | UnicodeDecodeError
  | SQLAlchemyError string
  | OSError
  | TimeoutError
  | CancelledError
  | SyntaxError string
  | TokenError string

type_synonym 'a result = "exn + 'a"

text \<open>The (status, detail, headers) of an exception that is an \<^verbatim>\<open>HTTPException\<close>.\<close>

fun http_exception :: "exn \<Rightarrow> (int \<times> string \<times> (string \<times> string) list) option" where
  "http_exception (HTTPException st detail hs) = Some (st, detail, hs)"
| "http_exception (RequestExpired detail) = Some (408, detail, [])"
| "http_exception (DatabaseUnavailableError c) =
     Some (503, ''Database temporarily unavailable.'', [])"
| "http_exception _ = None"

text \<open>\<^verbatim>\<open>except Exception\<close> catches everything but cancellation.\<close>

fun is_exception :: "exn \<Rightarrow> bool" where
  "is_exception CancelledError = False"
| "is_exception _ = True"

definition bindR :: "'a result \<Rightarrow> ('a \<Rightarrow> 'b result) \<Rightarrow> 'b result" where
  "bindR m f = (case m of Inl e \<Rightarrow> Inl e | Inr x \<Rightarrow> f x)"

definition guardR :: "bool \<Rightarrow> exn \<Rightarrow> unit result" where
  "guardR b e = (if b then Inr () else Inl e)"

subsection \<open>Lemmas\<close>

lemma bindR_simps [simp]:
  "bindR (Inl e) f = Inl e"
  "bindR (Inr x) f = f x"
  by (simp_all add: bindR_def)

lemma bindR_eq_Inr: "bindR m f = Inr y \<longleftrightarrow> (\<exists>x. m = Inr x \<and> f x = Inr y)"
  by (cases m) auto

lemma bindR_eq_Inl: "bindR m f = Inl e \<longleftrightarrow> m = Inl e \<or> (\<exists>x. m = Inr x \<and> f x = Inl e)"
  by (cases m) auto

lemma guardR_simps [simp]:
  "guardR True e = Inr ()"
  "guardR False e = Inl e"
  by (simp_all add: guardR_def)

lemma guardR_eq_Inr: "guardR b e = Inr u \<longleftrightarrow> b"
  by (simp add: guardR_def)

lemmas result_splits = bindR_eq_Inr bindR_eq_Inl guardR_eq_Inr

lemma set_fromkeys [simp]: "set (fromkeys xs) = set xs"
  by (induction xs) auto

lemma distinct_fromkeys [simp]: "distinct (fromkeys xs)"
  by (induction xs) (auto simp: distinct_removeAll)

lemma fromkeys_distinct: "distinct xs \<Longrightarrow> fromkeys xs = xs"
  by (induction xs) (auto simp: removeAll_id)

lemma map_of_od_set [simp]: "map_of (od_set k v xs) k = Some v"
  by (induction xs) auto

lemma map_of_od_set_other [simp]: "j \<noteq> k \<Longrightarrow> map_of (od_set k v xs) j = map_of xs j"
  by (induction xs) auto

lemma sorted_le_last: "sorted xs \<Longrightarrow> x \<in> set xs \<Longrightarrow> x \<le> last xs"
  by (induction xs) auto

lemma py_split_not_Nil [simp]: "py_split sep s \<noteq> []"
  by (cases s) (auto split: list.splits)

lemma startswith_append [simp]: "startswith (p @ s) p"
  by (simp add: startswith_def)

lemma startswith_iff: "startswith s p \<longleftrightarrow> (\<exists>t. s = p @ t)"
  by (metis append_eq_conv_conj append_take_drop_id startswith_def)

lemma code_less: "code c < 256"
  by (simp add: code_def)

lemma code_inject [simp]: "code c = code d \<longleftrightarrow> c = d"
  by (simp add: code_def)

lemma code_char_of [simp]: "n < 256 \<Longrightarrow> code (char_of n) = n"
  by (simp add: code_def)

lemma py_lower_char_idem [simp]: "py_lower_char (py_lower_char c) = py_lower_char c"
  by (simp add: py_lower_char_def)

lemma py_lower_idem [simp]: "py_lower (py_lower s) = py_lower s"
  by (simp add: py_lower_def)

lemma length_py_lower [simp]: "length (py_lower s) = length s"
  by (simp add: py_lower_def)

lemma py_split_word: "c \<notin> set w \<Longrightarrow> py_split c w = [w]"
  by (induction w) auto

lemma py_split_append: "c \<notin> set w \<Longrightarrow> py_split c (w @ c # s) = w # py_split c s"
  by (induction w) auto

lemma py_split_parts: "w \<in> set (py_split c s) \<Longrightarrow> c \<notin> set w"
  by (induction s arbitrary: w) (force split: if_splits list.splits)+

text \<open>Joining words without the separator and splitting again gives the words back.\<close>

lemma py_split_join:
  assumes "ws \<noteq> []" "\<And>w. w \<in> set ws \<Longrightarrow> c \<notin> set w" "c \<notin> set pad"
  shows "py_split c (py_join (c # pad) ws) = hd ws # map ((@) pad) (tl ws)"
  using assms
proof (induction "c # pad" ws rule: py_join.induct)
  case (2 w)
  then show ?case by (simp add: py_split_word)
next
  case (3 w v vs)
  have more: "py_split c (pad @ s) = (pad @ hd (py_split c s)) # tl (py_split c s)" for s
    using assms(3)
  proof (induction pad)
    case Nil
    then show ?case using py_split_not_Nil [of c s] by (cases "py_split c s") auto
  next
    case (Cons a pad)
    then show ?case by (auto split: list.splits)
  qed
  have "py_split c (py_join (c # pad) (w # v # vs)) = w # py_split c (pad @ py_join (c # pad) (v # vs))"
    using 3 by (simp add: py_split_append)
  then show ?case using 3 more by simp
qed simp

lemma py_strip_Cons_space: "py_isspace c \<Longrightarrow> py_strip (c # s) = py_strip s"
  by (simp add: py_strip_def)

lemma set_py_strip: "set (py_strip t) \<subseteq> set t"
proof
  fix x
  assume "x \<in> set (py_strip t)"
  then have "x \<in> set (dropWhile py_isspace (rev (dropWhile py_isspace t)))" by (simp add: py_strip_def)
  then have "x \<in> set (dropWhile py_isspace t)" using set_dropWhileD by fastforce
  then show "x \<in> set t" by (rule set_dropWhileD)
qed

lemma rstrip_hd:
  assumes "u = [] \<or> \<not> P (hd u)"
  shows "dropWhile P (rev (dropWhile P (rev u))) = rev (dropWhile P (rev u))"
proof -
  obtain tail where tail: "u = rev (dropWhile P (rev u)) @ tail"
    by (metis rev_append rev_rev_ident takeWhile_dropWhile_id)
  show ?thesis
  proof (cases "rev (dropWhile P (rev u))")
    case Nil
    then show ?thesis by (metis dropWhile.simps(1))
  next
    case (Cons a as)
    then have "hd u = a" using tail by (metis append_Cons list.sel(1))
    moreover have "u \<noteq> []" using Cons by auto
    ultimately show ?thesis using Cons assms by simp
  qed
qed

lemma py_strip_idem [simp]: "py_strip (py_strip t) = py_strip t"
proof -
  have "dropWhile py_isspace t = [] \<or> \<not> py_isspace (hd (dropWhile py_isspace t))"
    by (metis hd_dropWhile)
  then have "dropWhile py_isspace (py_strip t) = py_strip t"
    unfolding py_strip_def by (rule rstrip_hd)
  then show ?thesis
    by (metis dropWhile_idem py_strip_def rev_rev_ident)
qed

lemma set_od_set: "set (od_set k v d) \<subseteq> insert (k, v) (set d)"
  by (induction d) (auto split: if_splits)

lemma round_half_even_int [simp]: "round_half_even (of_int n) = n"
  by (simp add: round_half_even_def)

lemma set_insort_by [simp]: "set (insort_by le x ys) = insert x (set ys)"
  by (induction ys) auto

lemma set_isort_by [simp]: "set (isort_by le xs) = set xs"
  by (induction xs) (auto simp: isort_by_def)

lemma distinct_insort_by [simp]: "distinct (insort_by le x ys) \<longleftrightarrow> x \<notin> set ys \<and> distinct ys"
  by (induction ys) auto

lemma distinct_isort_by [simp]: "distinct (isort_by le xs) \<longleftrightarrow> distinct xs"
proof (induction xs)
  case (Cons x xs)
  have "set (foldr (insort_by le) xs []) = set xs" using set_isort_by [of le xs] by (simp add: isort_by_def)
  then show ?case using Cons by (auto simp: isort_by_def)
qed (simp add: isort_by_def)

lemma length_insort_by [simp]: "length (insort_by le x ys) = Suc (length ys)"
  by (induction ys) auto

lemma length_isort_by [simp]: "length (isort_by le xs) = length xs"
  by (induction xs) (auto simp: isort_by_def)

lemma sorted_isort_by:
  assumes "\<And>a b. le a b \<or> le b a" "\<And>a b c. le a b \<Longrightarrow> le b c \<Longrightarrow> le a c"
  shows "sorted_wrt le (isort_by le xs)"
proof (induction xs)
  case (Cons x xs)
  have "sorted_wrt le (insort_by le x ys)" if "sorted_wrt le ys" for ys
    using that by (induction ys) (use assms in auto)
  then show ?case using Cons by (simp add: isort_by_def)
qed (simp add: isort_by_def)

lemma code_digit_char: "d < 10 \<Longrightarrow> code (digit_char d) = 48 + d"
  by (simp add: digit_char_def)

lemma digit_val_char: "d < 10 \<Longrightarrow> digit_val (digit_char d) = d"
  by (simp add: digit_val_def code_digit_char)

lemma show_nat_digits: "c \<in> set (show_nat n) \<Longrightarrow> py_isdigit c"
proof (induction n rule: show_nat.induct)
  case (1 n)
  then show ?case
    by (subst (asm) (2) show_nat.simps) (auto simp: py_isdigit_def code_digit_char split: if_splits)
qed

lemma show_nat_not_Nil [simp]: "show_nat n \<noteq> []"
  by (subst show_nat.simps) simp

lemma read_digits_snoc: "read_digits (s @ [c]) = 10 * read_digits s + digit_val c"
  by (simp add: read_digits_def)

text \<open>Printing and reading a number is the identity.\<close>

lemma read_digits_show_nat [simp]: "read_digits (show_nat n) = n"
proof (induction n rule: show_nat.induct)
  case (1 n)
  show ?case
  proof (cases "n < 10")
    case True
    then show ?thesis by (subst show_nat.simps) (simp add: read_digits_def digit_val_char)
  next
    case False
    then show ?thesis using 1 by (subst show_nat.simps) (simp add: read_digits_snoc digit_val_char)
  qed
qed

lemma show_nat_inject [simp]: "show_nat m = show_nat n \<longleftrightarrow> m = n"
  by (metis read_digits_show_nat)

lemma show_nat_hd_not_minus: "show_nat n \<noteq> CHR ''-'' # s"
proof
  assume a: "show_nat n = CHR ''-'' # s"
  have "py_isdigit (CHR ''-'')" by (rule show_nat_digits [of _ n]) (simp add: a)
  then show False by (simp add: py_isdigit_def code_def)
qed

lemma show_int_inject [simp]: "show_int i = show_int j \<longleftrightarrow> i = j"
  by (auto simp: show_int_def show_nat_hd_not_minus dest: sym)

end
