(* ===== verification/RateLimit.thy ===== *)
theory RateLimit
  imports Prelude
begin

text \<open>
  The rolling-window rate limiter: \<^verbatim>\<open>app/config/rate_limit_policy.py\<close>,
  \<^verbatim>\<open>app/common/store/rate_limit.py\<close> and \<^verbatim>\<open>app/config/rate_limiter.py\<close>.

  Each client owns a ring of \<open>max_requests\<close> timestamps; the clients are an ordered dictionary
  (an association list in insertion order) whose first entry expires first. The model keeps the
  ring arithmetic and the in-place mutation of the stored client. The hash of the identity is a
  parameter \<open>h\<close>; the lock makes each \<open>admit\<close> atomic, so a history is a list of calls.
\<close>

subsection \<open>Policy\<close>

record RateLimitPolicy =
  window_ms :: nat
  max_requests :: nat
  max_clients :: nat

definition MAX_TIMESTAMP_SLOTS :: nat where
  "MAX_TIMESTAMP_SLOTS = 2000000"

definition DEFAULT_WINDOW_MS :: int where "DEFAULT_WINDOW_MS = 60000"
definition DEFAULT_MAX_REQUESTS :: int where "DEFAULT_MAX_REQUESTS = 200"
definition DEFAULT_MAX_CLIENTS :: int where "DEFAULT_MAX_CLIENTS = 10000"

definition new_policy :: "int \<Rightarrow> int \<Rightarrow> int \<Rightarrow> RateLimitPolicy result" where
  "new_policy window requests clients =
     (if \<not> (1 \<le> window \<and> window \<le> 86400000) then Inl (ValueError ''window_ms'')
      else if \<not> (1 \<le> requests \<and> requests \<le> 10000) then Inl (ValueError ''max_requests'')
      else if \<not> (1 \<le> clients \<and> clients \<le> 100000) then Inl (ValueError ''max_clients'')
      else if requests * clients > int MAX_TIMESTAMP_SLOTS then
        Inl (ValueError ''rate limiter storage must not exceed 2000000 timestamp slots'')
      else Inr \<lparr>window_ms = nat window, max_requests = nat requests, max_clients = nat clients\<rparr>)"

definition valid_policy :: "RateLimitPolicy \<Rightarrow> bool" where
  "valid_policy p \<longleftrightarrow>
     1 \<le> window_ms p \<and> window_ms p \<le> 86400000 \<and>
     1 \<le> max_requests p \<and> max_requests p \<le> 10000 \<and>
     1 \<le> max_clients p \<and> max_clients p \<le> 100000 \<and>
     max_requests p * max_clients p \<le> MAX_TIMESTAMP_SLOTS"

subsection \<open>State\<close>

record RateLimitState =
  timestamps :: "time list"
  ring_head :: nat
  ring_count :: nat
  rs_expires_at :: time

definition new_state :: "nat \<Rightarrow> RateLimitState" where
  "new_state capacity =
     \<lparr>timestamps = replicate capacity 0, ring_head = 0, ring_count = 0, rs_expires_at = 0\<rparr>"

record RateLimitDecision =
  allowed :: bool
  decision_status :: "nat option"
  retry_after_seconds :: int

record RateLimitUsage =
  usage_clients :: nat
  usage_stored_requests :: int
  usage_timestamp_slots :: nat

record RateLimiter =
  rl_policy :: RateLimitPolicy
  rl_clients :: "(bytes \<times> RateLimitState) list"
  rl_stored :: int

definition new_limiter :: "RateLimitPolicy \<Rightarrow> RateLimiter" where
  "new_limiter p = \<lparr>rl_policy = p, rl_clients = [], rl_stored = 0\<rparr>"

definition usage :: "RateLimiter \<Rightarrow> RateLimitUsage" where
  "usage rl =
     \<lparr>usage_clients = length (rl_clients rl), usage_stored_requests = rl_stored rl,
      usage_timestamp_slots = length (rl_clients rl) * max_requests (rl_policy rl)\<rparr>"

subsection \<open>Ring operations\<close>

definition ring_front :: "RateLimitState \<Rightarrow> time" where
  "ring_front c = timestamps c ! ring_head c"

definition ring_pop :: "nat \<Rightarrow> RateLimitState \<Rightarrow> RateLimitState" where
  "ring_pop cap c = c\<lparr>ring_head := (ring_head c + 1) mod cap, ring_count := ring_count c - 1\<rparr>"

definition ring_push :: "nat \<Rightarrow> time \<Rightarrow> RateLimitState \<Rightarrow> RateLimitState" where
  "ring_push cap now c =
     (let tail = (ring_head c + ring_count c) mod cap
      in c\<lparr>timestamps := (timestamps c)[tail := now], ring_count := ring_count c + 1\<rparr>)"

text \<open>The loop that drops the timestamps at or before the cutoff.\<close>

function drop_expired :: "nat \<Rightarrow> time \<Rightarrow> RateLimitState \<Rightarrow> RateLimitState" where
  "drop_expired cap cutoff c =
     (if ring_count c \<noteq> 0 \<and> ring_front c \<le> cutoff
      then drop_expired cap cutoff (ring_pop cap c) else c)"
  by pat_completeness auto
termination
  by (relation "measure (\<lambda>(cap, cutoff, c). ring_count c)") (auto simp: ring_pop_def)

declare drop_expired.simps [simp del]

subsection \<open>Ordered dictionary\<close>

definition od_del :: "'k \<Rightarrow> ('k \<times> 'v) list \<Rightarrow> ('k \<times> 'v) list" where
  "od_del k xs = filter (\<lambda>(k', v). k' \<noteq> k) xs"

definition od_move_to_end :: "'k \<Rightarrow> ('k \<times> 'v) list \<Rightarrow> ('k \<times> 'v) list" where
  "od_move_to_end k xs =
     (case map_of xs k of None \<Rightarrow> xs | Some v \<Rightarrow> od_del k xs @ [(k, v)])"

subsection \<open>Admission\<close>

fun expire_loop :: "time \<Rightarrow> (bytes \<times> RateLimitState) list \<Rightarrow> int \<Rightarrow>
    (bytes \<times> RateLimitState) list \<times> int" where
  "expire_loop now [] stored = ([], stored)"
| "expire_loop now ((key, client) # rest) stored =
     (if rs_expires_at client > now then ((key, client) # rest, stored)
      else expire_loop now rest (stored - int (ring_count client)))"

definition expire_clients :: "time \<Rightarrow> RateLimiter \<Rightarrow> RateLimiter" where
  "expire_clients now rl =
     (case expire_loop now (rl_clients rl) (rl_stored rl) of
        (cs, stored) \<Rightarrow> rl\<lparr>rl_clients := cs, rl_stored := stored\<rparr>)"

definition reject :: "nat \<Rightarrow> time \<Rightarrow> time \<Rightarrow> RateLimitDecision" where
  "reject st available_at now =
     \<lparr>allowed = False, decision_status = Some st,
      retry_after_seconds = max 1 \<lceil>(available_at - now) / 1000\<rceil>\<rparr>"

definition accept :: RateLimitDecision where
  "accept = \<lparr>allowed = True, decision_status = None, retry_after_seconds = 0\<rparr>"

definition admit_client :: "bytes \<Rightarrow> time \<Rightarrow> RateLimitState \<Rightarrow> RateLimiter \<Rightarrow>
    RateLimitDecision \<times> RateLimiter" where
  "admit_client key now client rl =
     (let cap = max_requests (rl_policy rl);
          window = of_nat (window_ms (rl_policy rl));
          client' = drop_expired cap (now - window) client;
          stored = rl_stored rl - (int (ring_count client) - int (ring_count client'));
          cs = (if map_of (rl_clients rl) key = None then rl_clients rl
                else od_set key client' (rl_clients rl))
      in if ring_count client' = cap
         then (reject 429 (ring_front client' + window) now,
               rl\<lparr>rl_clients := cs, rl_stored := stored\<rparr>)
         else (accept,
               rl\<lparr>rl_clients := od_move_to_end key
                    (od_set key ((ring_push cap now client')\<lparr>rs_expires_at := now + window\<rparr>) cs),
                  rl_stored := stored + 1\<rparr>))"

definition admit :: "(string \<Rightarrow> bytes) \<Rightarrow> time \<Rightarrow> string \<Rightarrow> RateLimiter \<Rightarrow>
    RateLimitDecision \<times> RateLimiter" where
  "admit h now identity rl =
     (let key = h identity; rl1 = expire_clients now rl in
      case map_of (rl_clients rl1) key of
        Some client \<Rightarrow> admit_client key now client rl1
      | None \<Rightarrow>
          if length (rl_clients rl1) \<ge> max_clients (rl_policy rl1)
          then (reject 503 (rs_expires_at (snd (hd (rl_clients rl1)))) now, rl1)
          else admit_client key now (new_state (max_requests (rl_policy rl1))) rl1)"

subsection \<open>The ring as a bounded queue\<close>

text \<open>
  What the admission loop needs of the ring: a first-in first-out queue of at most \<open>capacity\<close>
  elements. The dropping loop is proved correct once, against this interface.
\<close>

locale bounded_fifo =
  fixes capacity :: nat
    and contents :: "'s \<Rightarrow> 'a list"
    and invar :: "'s \<Rightarrow> bool"
    and size_of :: "'s \<Rightarrow> nat"
    and front :: "'s \<Rightarrow> 'a"
    and pop :: "'s \<Rightarrow> 's"
    and push :: "'a \<Rightarrow> 's \<Rightarrow> 's"
  assumes size_contents: "invar s \<Longrightarrow> size_of s = length (contents s)"
    and bounded: "invar s \<Longrightarrow> length (contents s) \<le> capacity"
    and front_hd: "invar s \<Longrightarrow> contents s \<noteq> [] \<Longrightarrow> front s = hd (contents s)"
    and pop_tl: "invar s \<Longrightarrow> contents s \<noteq> [] \<Longrightarrow> contents (pop s) = tl (contents s)"
    and pop_invar: "invar s \<Longrightarrow> contents s \<noteq> [] \<Longrightarrow> invar (pop s)"
    and push_snoc: "invar s \<Longrightarrow> length (contents s) < capacity \<Longrightarrow> contents (push x s) = contents s @ [x]"
    and push_invar: "invar s \<Longrightarrow> length (contents s) < capacity \<Longrightarrow> invar (push x s)"

locale draining_fifo = bounded_fifo +
  fixes stale :: "'b \<Rightarrow> 'a \<Rightarrow> bool"
    and drain :: "'b \<Rightarrow> 's \<Rightarrow> 's"
  assumes drain_unfold:
    "drain b s = (if size_of s \<noteq> 0 \<and> stale b (front s) then drain b (pop s) else s)"
begin

lemma drain_contents: "invar s \<Longrightarrow> contents (drain b s) = dropWhile (stale b) (contents s) \<and> invar (drain b s)"
proof (induction "length (contents s)" arbitrary: s)
  case 0
  then show ?case by (simp add: drain_unfold [of b s] size_contents)
next
  case (Suc n)
  show ?case
  proof (cases "stale b (front s)")
    case True
    have ne: "contents s \<noteq> []" using Suc.hyps(2) by auto
    have "n = length (contents (pop s))" using Suc.hyps(2) Suc.prems ne by (simp add: pop_tl)
    then have "contents (drain b (pop s)) = dropWhile (stale b) (tl (contents s)) \<and> invar (drain b (pop s))"
      using Suc.hyps(1) [of "pop s"] Suc.prems ne by (simp add: pop_invar pop_tl)
    moreover have "stale b (hd (contents s))" using True Suc.prems ne by (simp add: front_hd)
    ultimately show ?thesis
      using True Suc.prems ne by (cases "contents s") (auto simp: drain_unfold [of b s] size_contents)
  next
    case False
    have "\<not> stale b (hd (contents s))" using False Suc.prems Suc.hyps(2) by (metis Zero_not_Suc front_hd list.size(3))
    then show ?thesis
      using False Suc.prems by (cases "contents s") (auto simp: drain_unfold [of b s])
  qed
qed

end

definition window_of :: "nat \<Rightarrow> RateLimitState \<Rightarrow> time list" where
  "window_of cap c = map (\<lambda>i. timestamps c ! ((ring_head c + i) mod cap)) [0..<ring_count c]"

definition ring_inv :: "nat \<Rightarrow> RateLimitState \<Rightarrow> bool" where
  "ring_inv cap c \<longleftrightarrow>
     0 < cap \<and> length (timestamps c) = cap \<and> ring_head c < cap \<and> ring_count c \<le> cap"

lemma length_window [simp]: "length (window_of cap c) = ring_count c"
  by (simp add: window_of_def)

lemma window_empty [simp]: "window_of cap c = [] \<longleftrightarrow> ring_count c = 0"
  by (metis length_0_conv length_window)

lemma ring_slot_distinct:
  fixes h i n cap :: nat
  assumes "i < n" "n < cap" "(h + i) mod cap = (h + n) mod cap"
  shows False
proof -
  have "(h + n) - (h + i) = n - i" by simp
  moreover have "((h + n) - (h + i)) mod cap = 0"
    using assms by (metis mod_eq_dvd_iff_nat dvd_imp_mod_0 add_le_mono le_refl less_imp_le)
  ultimately have "(n - i) mod cap = 0" by simp
  then show False using assms by (simp add: mod_less)
qed

lemma ring_pop_window:
  assumes "ring_inv cap c" "ring_count c \<noteq> 0"
  shows "window_of cap (ring_pop cap c) = tl (window_of cap c)"
proof (rule nth_equalityI)
  show "length (window_of cap (ring_pop cap c)) = length (tl (window_of cap c))"
    by (simp add: ring_pop_def)
next
  fix i assume "i < length (window_of cap (ring_pop cap c))"
  then have i: "i < ring_count c - 1" by (simp add: ring_pop_def)
  have "((ring_head c + 1) mod cap + i) mod cap = (ring_head c + Suc i) mod cap"
    by (simp add: mod_add_left_eq)
  with i show "window_of cap (ring_pop cap c) ! i = tl (window_of cap c) ! i"
    by (simp add: window_of_def ring_pop_def nth_tl less_diff_conv)
qed

lemma ring_push_window:
  assumes "ring_inv cap c" "ring_count c < cap"
  shows "window_of cap (ring_push cap t c) = window_of cap c @ [t]"
proof -
  have tail: "(ring_head c + ring_count c) mod cap < length (timestamps c)"
    using assms by (simp add: ring_inv_def)
  have "(timestamps c)[(ring_head c + ring_count c) mod cap := t] ! ((ring_head c + i) mod cap)
      = timestamps c ! ((ring_head c + i) mod cap)" if "i < ring_count c" for i
    using ring_slot_distinct [OF that assms(2)] by (metis nth_list_update_neq)
  with tail show ?thesis
    by (simp add: window_of_def ring_push_def Let_def)
qed

interpretation ring: bounded_fifo cap "window_of cap" "ring_inv cap" ring_count ring_front
    "ring_pop cap" "ring_push cap" for cap
proof unfold_locales
  fix c :: RateLimitState and t
  assume inv: "ring_inv cap c"
  show "ring_count c = length (window_of cap c)" by simp
  show "length (window_of cap c) \<le> cap" using inv by (simp add: ring_inv_def)
  {
    assume ne: "window_of cap c \<noteq> []"
    then have "window_of cap c ! 0 = ring_front c"
      using inv by (simp add: window_of_def ring_front_def ring_inv_def)
    then show "ring_front c = hd (window_of cap c)" using ne by (simp add: hd_conv_nth)
    show "window_of cap (ring_pop cap c) = tl (window_of cap c)"
      using ring_pop_window [OF inv] ne by simp
    show "ring_inv cap (ring_pop cap c)" using inv by (auto simp: ring_inv_def ring_pop_def)
  next
    assume "length (window_of cap c) < cap"
    then show "window_of cap (ring_push cap t c) = window_of cap c @ [t]"
      using ring_push_window [OF inv] by simp
    show "ring_inv cap (ring_push cap t c)"
      using inv \<open>length (window_of cap c) < cap\<close> by (auto simp: ring_inv_def ring_push_def Let_def)
  }
qed

interpretation ring_drain: draining_fifo cap "window_of cap" "ring_inv cap" ring_count ring_front
    "ring_pop cap" "ring_push cap" "\<lambda>cutoff t. t \<le> cutoff" "drop_expired cap" for cap
  by unfold_locales (rule drop_expired.simps)

subsection \<open>Ordered-dictionary lemmas\<close>

lemma od_del_od_set [simp]: "od_del k (od_set k v xs) = od_del k xs"
  by (induction xs) (auto simp: od_del_def)

lemma od_move_to_end_set [simp]: "od_move_to_end k (od_set k v xs) = od_del k xs @ [(k, v)]"
  by (simp add: od_move_to_end_def)

lemma od_set_same: "map_of xs k = Some v \<Longrightarrow> od_set k v xs = xs"
  by (induction xs) auto

lemma map_of_od_del: "map_of (od_del k xs) k' = (if k' = k then None else map_of xs k')"
  by (induction xs) (auto simp: od_del_def)

lemma set_od_del: "set (od_del k xs) = {(k', v) \<in> set xs. k' \<noteq> k}"
  by (auto simp: od_del_def)

lemma distinct_od_del: "distinct (map fst xs) \<Longrightarrow> distinct (map fst (od_del k xs))"
  by (induction xs) (auto simp: od_del_def)

lemma sorted_od_del: "sorted (map f xs) \<Longrightarrow> sorted (map f (od_del k xs))"
  unfolding od_del_def by (rule sorted_filter)

lemma od_del_absent: "map_of xs k = None \<Longrightarrow> od_del k xs = xs"
  by (force simp: od_del_def map_of_eq_None_iff filter_id_conv)

lemma length_od_del:
  "distinct (map fst xs) \<Longrightarrow> map_of xs k = Some v \<Longrightarrow> Suc (length (od_del k xs)) = length xs"
proof (induction xs)
  case (Cons a xs)
  show ?case
  proof (cases "fst a = k")
    case True
    then have "map_of xs k = None" using Cons.prems by (auto simp: map_of_eq_None_iff)
    then have "od_del k xs = xs" by (rule od_del_absent)
    then show ?thesis using True by (auto simp: od_del_def)
  next
    case False
    with Cons show ?thesis by (auto simp: od_del_def split: if_splits)
  qed
qed simp

lemma sum_od_del:
  fixes f :: "'v \<Rightarrow> int"
  assumes "distinct (map fst xs)" "map_of xs k = Some v"
  shows "(\<Sum>(k, c)\<leftarrow>od_del k xs. f c) = (\<Sum>(k, c)\<leftarrow>xs. f c) - f v"
  using assms
proof (induction xs)
  case (Cons a xs)
  show ?case
  proof (cases "fst a = k")
    case True
    then have "map_of xs k = None" using Cons.prems by (auto simp: map_of_eq_None_iff)
    then have "od_del k xs = xs" by (rule od_del_absent)
    then show ?thesis using True Cons.prems by (auto simp: od_del_def)
  next
    case False
    with Cons show ?thesis by (auto simp: od_del_def split: if_splits)
  qed
qed simp

subsection \<open>Invariant\<close>

text \<open>
  A stored client at clock reading \<open>T\<close>: a well-formed, non-empty, sorted ring whose last
  timestamp is at most \<open>T\<close> and fixes the expiry. The limiter keeps its clients in the order
  of their expiries, with distinct keys, within the policy's capacity, and counts the stored
  timestamps exactly.
\<close>

definition client_inv :: "RateLimitPolicy \<Rightarrow> time \<Rightarrow> RateLimitState \<Rightarrow> bool" where
  "client_inv p T c \<longleftrightarrow>
     ring_inv (max_requests p) c \<and> ring_count c \<noteq> 0 \<and> sorted (window_of (max_requests p) c) \<and>
     rs_expires_at c = last (window_of (max_requests p) c) + of_nat (window_ms p) \<and>
     last (window_of (max_requests p) c) \<le> T"

definition rl_inv :: "time \<Rightarrow> RateLimiter \<Rightarrow> bool" where
  "rl_inv T rl \<longleftrightarrow>
     valid_policy (rl_policy rl) \<and>
     distinct (map fst (rl_clients rl)) \<and>
     (\<forall>(k, c) \<in> set (rl_clients rl). client_inv (rl_policy rl) T c) \<and>
     sorted (map (\<lambda>(k, c). rs_expires_at c) (rl_clients rl)) \<and>
     length (rl_clients rl) \<le> max_clients (rl_policy rl) \<and>
     rl_stored rl = (\<Sum>(k, c)\<leftarrow>rl_clients rl. int (ring_count c))"

lemma expire_loop_eq:
  "expire_loop now cs stored =
     (dropWhile (\<lambda>(k, c). rs_expires_at c \<le> now) cs,
      stored - (\<Sum>(k, c)\<leftarrow>takeWhile (\<lambda>(k, c). rs_expires_at c \<le> now) cs. int (ring_count c)))"
  by (induction now cs stored rule: expire_loop.induct) auto

lemma sorted_dropWhile_le:
  fixes f :: "'a \<Rightarrow> time"
  assumes "sorted (map f xs)" "x \<in> set (dropWhile (\<lambda>x. f x \<le> b) xs)"
  shows "b < f x"
  using assms by (induction xs) (fastforce split: if_splits)+

lemma expire_clients_policy [simp]: "rl_policy (expire_clients now rl) = rl_policy rl"
  by (simp add: expire_clients_def expire_loop_eq)

lemma expire_clients_clients:
  "rl_clients (expire_clients now rl) = dropWhile (\<lambda>(k, c). rs_expires_at c \<le> now) (rl_clients rl)"
  by (simp add: expire_clients_def expire_loop_eq)

lemma sum_takeWhile_dropWhile:
  fixes f :: "'a \<Rightarrow> int"
  shows "(\<Sum>x\<leftarrow>xs. f x) - (\<Sum>x\<leftarrow>takeWhile P xs. f x) = (\<Sum>x\<leftarrow>dropWhile P xs. f x)"
proof -
  have "(\<Sum>x\<leftarrow>takeWhile P xs @ dropWhile P xs. f x) =
      (\<Sum>x\<leftarrow>takeWhile P xs. f x) + (\<Sum>x\<leftarrow>dropWhile P xs. f x)"
    by (simp only: map_append sum_list_append)
  then show ?thesis by simp
qed

lemma client_inv_mono: "client_inv p T c \<Longrightarrow> T \<le> now \<Longrightarrow> client_inv p now c"
  by (auto simp: client_inv_def)

lemma rl_inv_expire:
  assumes inv: "rl_inv T rl" and le: "T \<le> now"
  shows "rl_inv now (expire_clients now rl)"
proof -
  let ?P = "\<lambda>(k :: bytes, c). rs_expires_at c \<le> now"
  have sub: "set (dropWhile ?P (rl_clients rl)) \<subseteq> set (rl_clients rl)"
    by (auto dest: set_dropWhileD)
  have "distinct (map fst (dropWhile ?P (rl_clients rl)))"
    using inv by (metis rl_inv_def distinct_append map_append takeWhile_dropWhile_id)
  moreover have "sorted (map (\<lambda>(k, c). rs_expires_at c) (dropWhile ?P (rl_clients rl)))"
    using inv by (metis rl_inv_def sorted_append map_append takeWhile_dropWhile_id)
  moreover have "length (dropWhile ?P (rl_clients rl)) \<le> max_clients (rl_policy rl)"
    using inv length_dropWhile_le [of ?P "rl_clients rl"] by (simp add: rl_inv_def)
  moreover have "rl_stored (expire_clients now rl) = (\<Sum>(k, c)\<leftarrow>dropWhile ?P (rl_clients rl). int (ring_count c))"
    using inv by (simp add: rl_inv_def expire_clients_def expire_loop_eq sum_takeWhile_dropWhile)
  moreover have "\<forall>(k, c) \<in> set (dropWhile ?P (rl_clients rl)). client_inv (rl_policy rl) now c"
  proof clarify
    fix k c assume "(k, c) \<in> set (dropWhile ?P (rl_clients rl))"
    then have "client_inv (rl_policy rl) T c" using inv sub by (auto simp: rl_inv_def)
    then show "client_inv (rl_policy rl) now c" using le by (rule client_inv_mono)
  qed
  ultimately show ?thesis using inv by (simp add: rl_inv_def expire_clients_clients)
qed

lemma expire_clients_live:
  assumes "rl_inv T rl" "(k, c) \<in> set (rl_clients (expire_clients now rl))"
  shows "now < rs_expires_at c"
  using assms sorted_dropWhile_le [of "\<lambda>(k, c). rs_expires_at c" "rl_clients rl" "(k, c)" now]
  by (auto simp: rl_inv_def expire_clients_clients case_prod_unfold)

subsection \<open>Admission, case by case\<close>

lemma drop_expired_window:
  assumes "ring_inv cap c"
  shows "window_of cap (drop_expired cap cutoff c) = dropWhile (\<lambda>t. t \<le> cutoff) (window_of cap c)"
    and "ring_inv cap (drop_expired cap cutoff c)"
  using ring_drain.drain_contents [OF assms] by auto

lemma drop_expired_expires [simp]: "rs_expires_at (drop_expired cap cutoff c) = rs_expires_at c"
  by (induction cap cutoff c rule: drop_expired.induct)
    (subst drop_expired.simps, auto simp: ring_pop_def)

lemma drop_expired_count:
  assumes "ring_inv cap c"
  shows "ring_count (drop_expired cap cutoff c) \<le> ring_count c"
  using drop_expired_window(1) [OF assms, of cutoff] length_dropWhile_le [of _ "window_of cap c"]
  by (metis length_window)

lemma drop_expired_full:
  assumes "ring_inv cap c" "ring_count (drop_expired cap cutoff c) = cap"
  shows "drop_expired cap cutoff c = c"
proof (cases "ring_count c \<noteq> 0 \<and> ring_front c \<le> cutoff")
  case True
  have "ring_inv cap (ring_pop cap c)"
    using ring.pop_invar [OF assms(1)] True by (metis window_empty)
  then have "ring_count (drop_expired cap cutoff (ring_pop cap c)) \<le> ring_count (ring_pop cap c)"
    by (rule drop_expired_count)
  moreover have "drop_expired cap cutoff c = drop_expired cap cutoff (ring_pop cap c)"
    using True by (simp add: drop_expired.simps [of cap cutoff c])
  moreover have "ring_count (ring_pop cap c) < cap"
    using assms(1) True by (auto simp: ring_inv_def ring_pop_def)
  ultimately have "ring_count (drop_expired cap cutoff c) < cap" by simp
  then show ?thesis using assms(2) by simp
next
  case False
  then show ?thesis by (subst drop_expired.simps) auto
qed

lemma new_state_count [simp]: "ring_count (new_state cap) = 0"
  by (simp add: new_state_def)

lemma new_state_ring: "0 < cap \<Longrightarrow> ring_inv cap (new_state cap)"
  by (simp add: ring_inv_def new_state_def)

lemma new_state_window [simp]: "window_of cap (new_state cap) = []"
  by (simp add: window_of_def new_state_def)

text \<open>The client an admission works on: the stored one, or a fresh ring.\<close>

definition client_for :: "bytes \<Rightarrow> RateLimiter \<Rightarrow> RateLimitState" where
  "client_for key rl =
     (case map_of (rl_clients rl) key of Some c \<Rightarrow> c | None \<Rightarrow> new_state (max_requests (rl_policy rl)))"

definition pushed :: "RateLimitPolicy \<Rightarrow> time \<Rightarrow> RateLimitState \<Rightarrow> RateLimitState" where
  "pushed p now c =
     (ring_push (max_requests p) now (drop_expired (max_requests p) (now - of_nat (window_ms p)) c))
       \<lparr>rs_expires_at := now + of_nat (window_ms p)\<rparr>"

lemma client_for_ring: "rl_inv T rl \<Longrightarrow> ring_inv (max_requests (rl_policy rl)) (client_for key rl)"
  by (auto simp: client_for_def rl_inv_def client_inv_def valid_policy_def new_state_ring
      dest!: map_of_SomeD split: option.splits)

lemma admit_client_cases:
  assumes "rl_inv T rl" "client = client_for key rl"
    "c' = drop_expired (max_requests (rl_policy rl)) (now - of_nat (window_ms (rl_policy rl))) client"
  shows "admit_client key now client rl =
    (if ring_count c' = max_requests (rl_policy rl)
     then (reject 429 (ring_front client + of_nat (window_ms (rl_policy rl))) now, rl)
     else (accept,
       rl\<lparr>rl_clients := od_del key (rl_clients rl) @ [(key, pushed (rl_policy rl) now client)],
          rl_stored := rl_stored rl - int (ring_count client) + int (ring_count c') + 1\<rparr>))"
proof -
  have same: "c' = client" if "ring_count c' = max_requests (rl_policy rl)"
    using drop_expired_full [OF client_for_ring [OF assms(1)]] that assms(2,3) by metis
  have stored: "map_of (rl_clients rl) key = Some client" if "map_of (rl_clients rl) key \<noteq> None"
    using that assms(2) by (auto simp: client_for_def)
  have upd: "rl\<lparr>rl_clients := cs, rl_stored := n\<rparr> = rl" if "cs = rl_clients rl" "n = rl_stored rl" for cs n
    using that by simp
  show ?thesis
  proof (cases "ring_count c' = max_requests (rl_policy rl)")
    case True
    then show ?thesis
      using same stored assms(3)
      by (cases "map_of (rl_clients rl) key") (auto simp: admit_client_def Let_def od_set_same)
  next
    case False
    then show ?thesis
      using assms(3) by (cases "map_of (rl_clients rl) key") (auto simp: admit_client_def Let_def pushed_def)
  qed
qed

lemma admit_cases:
  assumes "rl_inv T rl" "T \<le> now"
    and "rl1 = expire_clients now rl" "key = h identity"
    and "client = client_for key rl1"
    and "c' = drop_expired (max_requests (rl_policy rl)) (now - of_nat (window_ms (rl_policy rl))) client"
  shows "admit h now identity rl =
    (if map_of (rl_clients rl1) key = None \<and> max_clients (rl_policy rl) \<le> length (rl_clients rl1)
     then (reject 503 (rs_expires_at (snd (hd (rl_clients rl1)))) now, rl1)
     else if ring_count c' = max_requests (rl_policy rl)
     then (reject 429 (ring_front client + of_nat (window_ms (rl_policy rl))) now, rl1)
     else (accept,
       rl1\<lparr>rl_clients := od_del key (rl_clients rl1) @ [(key, pushed (rl_policy rl) now client)],
          rl_stored := rl_stored rl1 - int (ring_count client) + int (ring_count c') + 1\<rparr>))"
proof -
  have inv: "rl_inv now rl1" using rl_inv_expire [OF assms(1,2)] assms(3) by simp
  have pol: "rl_policy rl1 = rl_policy rl" using assms(3) by simp
  note cases = admit_client_cases [OF inv refl refl, of key now, unfolded pol]
  show ?thesis
  proof (cases "map_of (rl_clients rl1) key")
    case None
    then have "client = new_state (max_requests (rl_policy rl))"
      using assms(5) pol by (simp add: client_for_def)
    then show ?thesis
      using None assms(3-6) cases pol by (simp add: admit_def Let_def client_for_def)
  next
    case (Some c)
    then show ?thesis
      using assms(3-6) cases pol by (simp add: admit_def Let_def client_for_def)
  qed
qed

lemma client_for_window:
  assumes "rl_inv T rl"
  shows "sorted (window_of (max_requests (rl_policy rl)) (client_for key rl))"
    and "t \<in> set (window_of (max_requests (rl_policy rl)) (client_for key rl)) \<Longrightarrow> t \<le> T"
proof -
  let ?w = "window_of (max_requests (rl_policy rl)) (client_for key rl)"
  have "?w = [] \<or> sorted ?w \<and> last ?w \<le> T"
    using assms by (auto simp: client_for_def rl_inv_def client_inv_def dest!: map_of_SomeD split: option.splits)
  then show "sorted ?w" and "t \<in> set ?w \<Longrightarrow> t \<le> T"
    by (auto dest: sorted_le_last simp del: window_empty)
qed

lemma pushed_inv:
  assumes inv: "rl_inv now rl" and p: "p = rl_policy rl" and c: "c = client_for key rl"
    and free: "ring_count (drop_expired (max_requests p) (now - of_nat (window_ms p)) c) < max_requests p"
  shows "client_inv p now (pushed p now c)"
    and "window_of (max_requests p) (pushed p now c) =
      dropWhile (\<lambda>t. t \<le> now - of_nat (window_ms p)) (window_of (max_requests p) c) @ [now]"
    and "ring_count (pushed p now c) =
      Suc (ring_count (drop_expired (max_requests p) (now - of_nat (window_ms p)) c))"
    and "rs_expires_at (pushed p now c) = now + of_nat (window_ms p)"
proof -
  let ?cap = "max_requests p" let ?cut = "now - of_nat (window_ms p) :: time"
  let ?d = "drop_expired ?cap ?cut c"
  have ring: "ring_inv ?cap c" using client_for_ring [OF inv] p c by simp
  note d = drop_expired_window [OF ring, of ?cut]
  have ext: "window_of n (x\<lparr>rs_expires_at := e\<rparr>) = window_of n x" "ring_inv n (x\<lparr>rs_expires_at := e\<rparr>) = ring_inv n x"
    for n x e by (simp_all add: window_of_def ring_inv_def)
  have len: "length (window_of ?cap ?d) < ?cap" using free by simp
  show win: "window_of ?cap (pushed p now c) = dropWhile (\<lambda>t. t \<le> ?cut) (window_of ?cap c) @ [now]"
    using ring.push_snoc [OF d(2) len, of now] d(1) by (simp add: pushed_def ext)
  show "ring_count (pushed p now c) = Suc (ring_count ?d)"
    by (simp add: pushed_def ring_push_def Let_def)
  show exp: "rs_expires_at (pushed p now c) = now + of_nat (window_ms p)" by (simp add: pushed_def)
  have "ring_inv ?cap (pushed p now c)"
    using ring.push_invar [OF d(2) len, of now] by (simp add: pushed_def ext)
  moreover have "sorted (dropWhile (\<lambda>t. t \<le> ?cut) (window_of ?cap c) @ [now])"
    using client_for_window [OF inv, where key = key] p c
    by (auto simp: sorted_append sorted_dropWhile dest: set_dropWhileD)
  moreover have "ring_count (pushed p now c) \<noteq> 0" by (simp add: pushed_def ring_push_def Let_def)
  ultimately show "client_inv p now (pushed p now c)" by (simp add: client_inv_def win exp)
qed

lemma expires_bound:
  assumes "rl_inv now rl" "(k, c) \<in> set (rl_clients rl)"
  shows "rs_expires_at c \<le> now + of_nat (window_ms (rl_policy rl))"
  using assms by (fastforce simp: rl_inv_def client_inv_def)

subsection \<open>Invariant preservation\<close>

lemma rl_inv_pushed:
  assumes inv: "rl_inv now rl" and p: "p = rl_policy rl" and c: "c = client_for key rl"
    and c': "c' = drop_expired (max_requests p) (now - of_nat (window_ms p)) c"
    and free: "ring_count c' < max_requests p"
    and room: "map_of (rl_clients rl) key = None \<Longrightarrow> length (rl_clients rl) < max_clients p"
  shows "rl_inv now (rl\<lparr>rl_clients := od_del key (rl_clients rl) @ [(key, pushed p now c)],
      rl_stored := rl_stored rl - int (ring_count c) + int (ring_count c') + 1\<rparr>)"
proof -
  let ?cs = "od_del key (rl_clients rl)"
  note push = pushed_inv [OF inv p c, folded c', OF free]
  have dist: "distinct (map fst (rl_clients rl))" using inv by (simp add: rl_inv_def)
  have sum: "(\<Sum>(k, c)\<leftarrow>?cs. int (ring_count c)) = rl_stored rl - int (ring_count c)"
  proof (cases "map_of (rl_clients rl) key")
    case None
    then show ?thesis using inv c by (simp add: od_del_absent client_for_def rl_inv_def)
  next
    case (Some d)
    then show ?thesis using inv c sum_od_del [OF dist Some, of "\<lambda>c. int (ring_count c)"]
      by (simp add: client_for_def rl_inv_def)
  qed
  have len: "length ?cs < max_clients p"
  proof (cases "map_of (rl_clients rl) key")
    case None
    then show ?thesis using room by (simp add: od_del_absent)
  next
    case (Some d)
    then show ?thesis using inv p length_od_del [OF dist Some] by (simp add: rl_inv_def)
  qed
  have "sorted (map (\<lambda>(k, c). rs_expires_at c) (?cs @ [(key, pushed p now c)]))"
    using inv expires_bound [OF inv] push(4) p
    by (auto simp: sorted_append rl_inv_def set_od_del intro!: sorted_od_del)
  moreover have "distinct (map fst (?cs @ [(key, pushed p now c)]))"
    using dist by (auto simp: distinct_od_del set_od_del)
  moreover have "\<forall>(k, d) \<in> set (?cs @ [(key, pushed p now c)]). client_inv p now d"
    using inv push(1) p by (auto simp: rl_inv_def set_od_del)
  ultimately show ?thesis
    using inv p len sum push(3) c' by (simp add: rl_inv_def)
qed

lemma rl_inv_admit:
  assumes inv: "rl_inv T rl" and le: "T \<le> now"
  shows "rl_inv now (snd (admit h now identity rl))"
    and "rl_policy (snd (admit h now identity rl)) = rl_policy rl"
proof -
  let ?rl1 = "expire_clients now rl" let ?c = "client_for (h identity) ?rl1"
  let ?c' = "drop_expired (max_requests (rl_policy rl)) (now - of_nat (window_ms (rl_policy rl))) ?c"
  have inv1: "rl_inv now ?rl1" by (rule rl_inv_expire [OF inv le])
  have ring: "ring_inv (max_requests (rl_policy rl)) ?c'"
    using client_for_ring [OF inv1] by (simp add: drop_expired_window(2))
  then have full: "ring_count ?c' < max_requests (rl_policy rl)"
    if "ring_count ?c' \<noteq> max_requests (rl_policy rl)" using that by (simp add: ring_inv_def)
  show "rl_inv now (snd (admit h now identity rl))"
    using inv1 full rl_inv_pushed [OF inv1, of "rl_policy rl" ?c "h identity" ?c']
    by (auto simp: admit_cases [OF inv le refl refl refl refl])
  show "rl_policy (snd (admit h now identity rl)) = rl_policy rl"
    by (auto simp: admit_cases [OF inv le refl refl refl refl])
qed

lemma rl_inv_new: "valid_policy p \<Longrightarrow> rl_inv T (new_limiter p)"
  by (simp add: rl_inv_def new_limiter_def)

lemma new_policy_valid: "new_policy w r c = Inr p \<Longrightarrow> valid_policy p"
  by (auto simp: new_policy_def valid_policy_def nat_mult_distrib [symmetric] MAX_TIMESTAMP_SLOTS_def
      split: if_splits)

subsection \<open>Reference limiter\<close>

text \<open>
  The specification of the limiter keeps the whole log of admissions and looks only at the
  entries of the preceding window: no rings, no expiry bookkeeping.
\<close>

type_synonym admission_log = "(bytes \<times> time) list"

definition live :: "RateLimitPolicy \<Rightarrow> time \<Rightarrow> admission_log \<Rightarrow> admission_log" where
  "live p now hist = filter (\<lambda>(k, t). now - of_nat (window_ms p) < t) hist"

definition live_times :: "RateLimitPolicy \<Rightarrow> time \<Rightarrow> bytes \<Rightarrow> admission_log \<Rightarrow> time list" where
  "live_times p now key hist = map snd (filter (\<lambda>(k, t). k = key) (live p now hist))"

definition spec_status :: "RateLimitPolicy \<Rightarrow> time \<Rightarrow> bytes \<Rightarrow> admission_log \<Rightarrow> nat option" where
  "spec_status p now key hist =
     (if live_times p now key hist = [] \<and> max_clients p \<le> card (fst ` set (live p now hist)) then Some 503
      else if max_requests p \<le> length (live_times p now key hist) then Some 429
      else None)"

definition spec_log :: "RateLimitPolicy \<Rightarrow> time \<Rightarrow> bytes \<Rightarrow> admission_log \<Rightarrow> admission_log" where
  "spec_log p now key hist = (if spec_status p now key hist = None then hist @ [(key, now)] else hist)"

text \<open>The ring contents of a key, and the simulation relation.\<close>

definition ring_times :: "RateLimiter \<Rightarrow> bytes \<Rightarrow> time list" where
  "ring_times rl key = window_of (max_requests (rl_policy rl)) (client_for key rl)"

definition simulates :: "time \<Rightarrow> RateLimiter \<Rightarrow> admission_log \<Rightarrow> bool" where
  "simulates T rl hist \<longleftrightarrow>
     rl_inv T rl \<and> (\<forall>(k, t) \<in> set hist. t \<le> T) \<and>
     (\<forall>now key. T \<le> now \<longrightarrow> live_times (rl_policy rl) now key hist =
        filter (\<lambda>t. now - of_nat (window_ms (rl_policy rl)) < t) (ring_times rl key))"

lemma map_of_dropWhile_sorted:
  fixes f :: "'v \<Rightarrow> time"
  assumes "distinct (map fst xs)" "sorted (map (\<lambda>(k, c). f c) xs)"
  shows "map_of (dropWhile (\<lambda>(k, c). f c \<le> b) xs) key =
    (case map_of xs key of None \<Rightarrow> None | Some c \<Rightarrow> if b < f c then Some c else None)"
  using assms
proof (induction xs)
  case (Cons a xs)
  obtain k c where a: "a = (k, c)" by (cases a)
  show ?case
  proof (cases "f c \<le> b")
    case True
    have "map_of xs k = None" using Cons.prems(1) a by (simp add: map_of_eq_None_iff)
    with True Cons a show ?thesis by (cases "key = k") auto
  next
    case False
    have "b < f d" if "map_of xs key = Some d" for d
      using Cons.prems(2) a False map_of_SomeD [OF that] by fastforce
    with False a show ?thesis by (auto split: option.splits)
  qed
qed simp

lemma expire_lookup:
  assumes "rl_inv T rl"
  shows "map_of (rl_clients (expire_clients now rl)) key =
    (case map_of (rl_clients rl) key of None \<Rightarrow> None
     | Some c \<Rightarrow> if now < rs_expires_at c then Some c else None)"
  using assms by (simp add: expire_clients_clients map_of_dropWhile_sorted rl_inv_def)

lemma client_inv_lookup: "rl_inv T rl \<Longrightarrow> map_of (rl_clients rl) key = Some c \<Longrightarrow> client_inv (rl_policy rl) T c"
  by (auto simp: rl_inv_def dest!: map_of_SomeD)

lemma client_inv_last:
  assumes "client_inv p T c" "t \<in> set (window_of (max_requests p) c)"
  shows "t \<le> rs_expires_at c - of_nat (window_ms p)"
  using assms sorted_le_last by (fastforce simp: client_inv_def)

lemma ring_times_expire:
  assumes "rl_inv T rl" "now \<le> later"
  shows "filter (\<lambda>t. later - of_nat (window_ms (rl_policy rl)) < t) (ring_times (expire_clients now rl) key)
    = filter (\<lambda>t. later - of_nat (window_ms (rl_policy rl)) < t) (ring_times rl key)"
proof (cases "map_of (rl_clients rl) key")
  case None
  then show ?thesis by (simp add: ring_times_def client_for_def expire_lookup [OF assms(1)])
next
  case (Some c)
  have "\<not> later - of_nat (window_ms (rl_policy rl)) < t"
    if "t \<in> set (window_of (max_requests (rl_policy rl)) c)" "rs_expires_at c \<le> now" for t
    using client_inv_last [OF client_inv_lookup [OF assms(1) Some] that(1)] that(2) assms(2) by simp
  with Some show ?thesis
    by (auto simp: ring_times_def client_for_def expire_lookup [OF assms(1)] filter_empty_conv)
qed

lemma sorted_filter_dropWhile:
  "sorted (xs :: time list) \<Longrightarrow> filter (\<lambda>t. b < t) xs = dropWhile (\<lambda>t. t \<le> b) xs"
proof (induction xs)
  case (Cons a xs)
  show ?case
  proof (cases "a \<le> b")
    case False
    then have "\<forall>t \<in> set (a # xs). b < t" using Cons.prems by fastforce
    then show ?thesis using False by (simp add: filter_id_conv)
  qed (use Cons in simp)
qed simp

lemma simulates_expire:
  assumes "simulates T rl hist" "T \<le> now"
  shows "simulates now (expire_clients now rl) hist"
  unfolding simulates_def
proof (intro conjI allI impI)
  show "rl_inv now (expire_clients now rl)" using assms by (auto simp: simulates_def intro: rl_inv_expire)
  show "\<forall>(k, t) \<in> set hist. t \<le> now" using assms by (fastforce simp: simulates_def)
  fix later key assume "now \<le> later"
  then show "live_times (rl_policy (expire_clients now rl)) later key hist =
      filter (\<lambda>t. later - of_nat (window_ms (rl_policy (expire_clients now rl))) < t)
        (ring_times (expire_clients now rl) key)"
    using assms ring_times_expire [of T rl now later key] by (auto simp: simulates_def)
qed

lemma live_times_stored:
  assumes sim: "simulates now rl hist" and fresh: "\<forall>(k, c) \<in> set (rl_clients rl). now < rs_expires_at c"
  shows "live_times (rl_policy rl) now key hist = [] \<longleftrightarrow> map_of (rl_clients rl) key = None"
    and "live_times (rl_policy rl) now key hist = window_of (max_requests (rl_policy rl))
      (drop_expired (max_requests (rl_policy rl)) (now - of_nat (window_ms (rl_policy rl))) (client_for key rl))"
proof -
  have inv: "rl_inv now rl" using sim by (simp add: simulates_def)
  have live: "live_times (rl_policy rl) now key hist =
      filter (\<lambda>t. now - of_nat (window_ms (rl_policy rl)) < t) (ring_times rl key)"
    using sim by (simp add: simulates_def)
  show "live_times (rl_policy rl) now key hist = [] \<longleftrightarrow> map_of (rl_clients rl) key = None"
  proof (cases "map_of (rl_clients rl) key")
    case None
    then show ?thesis by (simp add: live ring_times_def client_for_def)
  next
    case (Some c)
    let ?w = "window_of (max_requests (rl_policy rl)) c"
    have c: "client_inv (rl_policy rl) now c" by (rule client_inv_lookup [OF inv Some])
    then have "last ?w \<in> set ?w" "now - of_nat (window_ms (rl_policy rl)) < last ?w"
      using fresh map_of_SomeD [OF Some] by (auto simp: client_inv_def)
    then show ?thesis using Some by (auto simp: live ring_times_def client_for_def filter_empty_conv)
  qed
  show "live_times (rl_policy rl) now key hist = window_of (max_requests (rl_policy rl))
      (drop_expired (max_requests (rl_policy rl)) (now - of_nat (window_ms (rl_policy rl))) (client_for key rl))"
    using client_for_window(1) [OF inv] client_for_ring [OF inv]
    by (simp add: live ring_times_def sorted_filter_dropWhile drop_expired_window(1))
qed

lemma live_clients:
  assumes sim: "simulates now rl hist" and fresh: "\<forall>(k, c) \<in> set (rl_clients rl). now < rs_expires_at c"
  shows "card (fst ` set (live (rl_policy rl) now hist)) = length (rl_clients rl)"
proof -
  have "key \<in> fst ` set (live (rl_policy rl) now hist) \<longleftrightarrow> live_times (rl_policy rl) now key hist \<noteq> []" for key
    by (force simp: live_times_def filter_empty_conv)
  then have "key \<in> fst ` set (live (rl_policy rl) now hist) \<longleftrightarrow> key \<in> fst ` set (rl_clients rl)" for key
    using live_times_stored(1) [OF sim fresh] by (simp add: map_of_eq_None_iff)
  then have "fst ` set (live (rl_policy rl) now hist) = set (map fst (rl_clients rl))" by auto
  moreover have "distinct (map fst (rl_clients rl))" using sim by (simp add: simulates_def rl_inv_def)
  ultimately show ?thesis by (metis distinct_card length_map)
qed

lemma ring_times_pushed:
  assumes inv: "rl_inv now rl" and p: "p = rl_policy rl" and c: "c = client_for key rl"
    and free: "ring_count (drop_expired (max_requests p) (now - of_nat (window_ms p)) c) < max_requests p"
    and rl': "rl' = rl\<lparr>rl_clients := od_del key (rl_clients rl) @ [(key, pushed p now c)], rl_stored := n\<rparr>"
    and le: "now \<le> later"
  shows "filter (\<lambda>t. later - of_nat (window_ms p) < t) (ring_times rl' k) =
    filter (\<lambda>t. later - of_nat (window_ms p) < t) (ring_times rl k @ (if k = key then [now] else []))"
proof (cases "k = key")
  case False
  then have "map_of (rl_clients rl') k = map_of (rl_clients rl) k"
    by (simp add: rl' map_add_def map_of_od_del split: option.split)
  moreover have pol: "rl_policy rl' = rl_policy rl" by (simp add: rl')
  ultimately have "client_for k rl' = client_for k rl" by (simp add: client_for_def split: option.split)
  then show ?thesis using False pol by (simp add: ring_times_def)
next
  case True
  let ?w = "window_of (max_requests p) c"
  have "map_of (rl_clients rl') key = Some (pushed p now c)"
    by (simp add: rl' map_add_def map_of_od_del)
  then have "ring_times rl' k = dropWhile (\<lambda>t. t \<le> now - of_nat (window_ms p)) ?w @ [now]"
    using True pushed_inv(2) [OF inv p c free] by (simp add: ring_times_def client_for_def rl' p)
  moreover have "sorted ?w" using client_for_window(1) [OF inv] p c by simp
  then have "dropWhile (\<lambda>t. t \<le> now - of_nat (window_ms p)) ?w = filter (\<lambda>t. now - of_nat (window_ms p) < t) ?w"
    by (simp add: sorted_filter_dropWhile)
  moreover have "filter (\<lambda>t. later - of_nat (window_ms p) < t) (filter (\<lambda>t. now - of_nat (window_ms p) < t) ?w)
      = filter (\<lambda>t. later - of_nat (window_ms p) < t) ?w"
    using le by (auto intro!: filter_cong simp: filter_filter)
  ultimately show ?thesis using True by (simp add: ring_times_def p c)
qed

lemma live_times_append:
  "live_times p later k (hist @ [(key, now)]) =
     live_times p later k hist @ (if k = key \<and> later - of_nat (window_ms p) < now then [now] else [])"
  by (simp add: live_times_def live_def)

lemma admit_simulates:
  assumes sim: "simulates T rl hist" and le: "T \<le> now"
  shows "decision_status (fst (admit h now identity rl)) = spec_status (rl_policy rl) now (h identity) hist"
    and "allowed (fst (admit h now identity rl)) \<longleftrightarrow> spec_status (rl_policy rl) now (h identity) hist = None"
    and "simulates now (snd (admit h now identity rl)) (spec_log (rl_policy rl) now (h identity) hist)"
proof -
  let ?rl1 = "expire_clients now rl" let ?k = "h identity" let ?p = "rl_policy rl"
  let ?c = "client_for ?k ?rl1"
  let ?c' = "drop_expired (max_requests ?p) (now - of_nat (window_ms ?p)) ?c"
  have inv: "rl_inv T rl" using sim by (simp add: simulates_def)
  have sim1: "simulates now ?rl1 hist" by (rule simulates_expire [OF sim le])
  have inv1: "rl_inv now ?rl1" using sim1 by (simp add: simulates_def)
  have fresh: "\<forall>(k, c) \<in> set (rl_clients ?rl1). now < rs_expires_at c"
    using expire_clients_live [OF inv] by blast
  note stored = live_times_stored [OF sim1 fresh, where key = ?k, simplified]
  have "ring_inv (max_requests ?p) ?c'"
    using client_for_ring [OF inv1] by (simp add: drop_expired_window(2))
  then have bound: "ring_count ?c' \<le> max_requests ?p" by (simp add: ring_inv_def)
  have status: "spec_status ?p now ?k hist =
      (if map_of (rl_clients ?rl1) ?k = None \<and> max_clients ?p \<le> length (rl_clients ?rl1) then Some 503
       else if ring_count ?c' = max_requests ?p then Some 429 else None)"
  proof -
    have "max_requests ?p \<le> length (live_times ?p now ?k hist) \<longleftrightarrow> ring_count ?c' = max_requests ?p"
      using bound by (auto simp: stored(2))
    then show ?thesis
      using stored(1) live_clients [OF sim1 fresh, simplified] by (simp add: spec_status_def)
  qed
  show "decision_status (fst (admit h now identity rl)) = spec_status ?p now ?k hist"
    and "allowed (fst (admit h now identity rl)) \<longleftrightarrow> spec_status ?p now ?k hist = None"
    by (auto simp: admit_cases [OF inv le refl refl refl refl] status reject_def accept_def)
  show "simulates now (snd (admit h now identity rl)) (spec_log ?p now ?k hist)"
  proof (cases "spec_status ?p now ?k hist = None")
    case False
    then have "snd (admit h now identity rl) = ?rl1"
      by (auto simp: admit_cases [OF inv le refl refl refl refl] status split: if_splits)
    then show ?thesis using False sim1 by (auto simp: spec_log_def)
  next
    case True
    let ?rl' = "snd (admit h now identity rl)"
    have rl': "?rl' = ?rl1\<lparr>rl_clients := od_del ?k (rl_clients ?rl1) @ [(?k, pushed ?p now ?c)],
        rl_stored := rl_stored ?rl1 - int (ring_count ?c) + int (ring_count ?c') + 1\<rparr>"
      using True by (auto simp: admit_cases [OF inv le refl refl refl refl] status split: if_splits)
    have free: "ring_count ?c' < max_requests ?p"
      using True bound by (auto simp: status split: if_splits)
    note ring = ring_times_pushed [OF inv1 _ refl _ rl', simplified, OF free]
    have "\<forall>(k, t) \<in> set hist. t \<le> now" using sim1 by (simp add: simulates_def)
    moreover have "live_times ?p later k hist =
        filter (\<lambda>t. later - of_nat (window_ms ?p) < t) (ring_times ?rl1 k)" if "now \<le> later" for later k
      using sim1 that by (simp add: simulates_def)
    ultimately show ?thesis
      using True rl_inv_admit [OF inv le, of h identity] ring
      by (auto simp: simulates_def spec_log_def live_times_append)
  qed
qed

subsection \<open>Histories\<close>

text \<open>A history of calls, each with its clock reading and client identity.\<close>

fun run_admits :: "(string \<Rightarrow> bytes) \<Rightarrow> RateLimiter \<Rightarrow> (time \<times> string) list \<Rightarrow>
    RateLimitDecision list \<times> RateLimiter" where
  "run_admits h rl [] = ([], rl)"
| "run_admits h rl ((now, identity) # calls) =
     (case admit h now identity rl of
        (d, rl') \<Rightarrow> (case run_admits h rl' calls of (ds, rl'') \<Rightarrow> (d # ds, rl'')))"

definition admitted :: "(string \<Rightarrow> bytes) \<Rightarrow> (time \<times> string) list \<Rightarrow> RateLimitDecision list \<Rightarrow> admission_log" where
  "admitted h calls ds = map (\<lambda>((t, i), d). (h i, t)) (filter (\<lambda>(c, d). allowed d) (zip calls ds))"

definition within_quota :: "RateLimitPolicy \<Rightarrow> admission_log \<Rightarrow> bool" where
  "within_quota p hist \<longleftrightarrow>
     (\<forall>key t. length (filter (\<lambda>(k, s). k = key \<and> t - of_nat (window_ms p) < s \<and> s \<le> t) hist)
        \<le> max_requests p)"

lemma within_quota_spec_log:
  assumes quota: "within_quota p hist" and old: "\<forall>(k, t) \<in> set hist. t \<le> now"
  shows "within_quota p (spec_log p now key hist)"
proof (cases "spec_status p now key hist = None")
  case True
  then have room: "length (live_times p now key hist) < max_requests p"
    by (auto simp: spec_status_def split: if_splits)
  have "length (filter (\<lambda>(k, s). k = key' \<and> t - of_nat (window_ms p) < s \<and> s \<le> t) (hist @ [(key, now)]))
      \<le> max_requests p" for key' t
  proof (cases "key' = key \<and> now \<le> t")
    case True
    have "length (filter (\<lambda>(k, s). k = key' \<and> t - of_nat (window_ms p) < s \<and> s \<le> t) hist)
        \<le> length (filter (\<lambda>(k, s). k = key \<and> now - of_nat (window_ms p) < s) hist)"
      using True by (induction hist) auto
    also have "\<dots> = length (live_times p now key hist)"
      by (simp add: live_times_def live_def filter_filter conj_commute case_prod_unfold)
    finally show ?thesis using room by simp
  next
    case False
    then show ?thesis using quota by (auto simp: within_quota_def)
  qed
  then show ?thesis using True by (simp add: spec_log_def within_quota_def)
next
  case False
  then show ?thesis using quota by (auto simp: spec_log_def)
qed

lemma run_simulates:
  assumes "simulates T rl hist" "within_quota (rl_policy rl) hist"
    "sorted (map fst calls)" "\<forall>t \<in> fst ` set calls. T \<le> t"
  shows "within_quota (rl_policy rl) (hist @ admitted h calls (fst (run_admits h rl calls)))"
  using assms
proof (induction calls arbitrary: rl hist T)
  case Nil
  then show ?case by (simp add: admitted_def)
next
  case (Cons call calls)
  obtain now i where call: "call = (now, i)" by (cases call)
  have le: "T \<le> now" using Cons.prems(4) call by auto
  let ?rl' = "snd (admit h now i rl)" let ?hist' = "spec_log (rl_policy rl) now (h i) hist"
  have sim: "simulates now ?rl' ?hist'" by (rule admit_simulates(3) [OF Cons.prems(1) le])
  have inv: "rl_inv T rl" using Cons.prems(1) by (simp add: simulates_def)
  have pol: "rl_policy ?rl' = rl_policy rl" by (rule rl_inv_admit(2) [OF inv le])
  have "\<forall>(k, t) \<in> set hist. t \<le> now" using Cons.prems(1) le by (fastforce simp: simulates_def)
  then have "within_quota (rl_policy ?rl') ?hist'"
    using within_quota_spec_log [OF Cons.prems(2)] pol by simp
  then have "within_quota (rl_policy ?rl') (?hist' @ admitted h calls (fst (run_admits h ?rl' calls)))"
    using Cons.IH [OF sim] Cons.prems(3) call by simp
  moreover have "?hist' @ admitted h calls (fst (run_admits h ?rl' calls)) =
      hist @ admitted h (call # calls) (fst (run_admits h rl (call # calls)))"
    using admit_simulates(2) [OF Cons.prems(1) le, of h i] call
    by (auto simp: spec_log_def admitted_def split: prod.split)
  ultimately show ?case using pol by simp
qed

lemma simulates_new: "valid_policy p \<Longrightarrow> simulates T (new_limiter p) []"
  by (simp add: simulates_def rl_inv_new ring_times_def client_for_def live_times_def live_def)
    (simp add: new_limiter_def)

subsection \<open>Retry-After\<close>

lemma live_times_empty_iff: "live_times p now key hist = [] \<longleftrightarrow> key \<notin> fst ` set (live p now hist)"
  by (force simp: live_times_def filter_empty_conv)

lemma live_mono: "now \<le> later \<Longrightarrow> set (live p later hist) \<subseteq> set (live p now hist)"
  by (auto simp: live_def)

lemma live_clients_decrease:
  assumes "now \<le> later" "live_times p now key hist \<noteq> []" "live_times p later key hist = []"
  shows "card (fst ` set (live p later hist)) < card (fst ` set (live p now hist))"
proof (rule psubset_card_mono)
  have "fst ` set (live p later hist) \<subseteq> fst ` set (live p now hist)"
    using live_mono [OF assms(1)] by (rule image_mono)
  moreover have "key \<in> fst ` set (live p now hist) - fst ` set (live p later hist)"
    using assms(2,3) by (simp add: live_times_empty_iff)
  ultimately show "fst ` set (live p later hist) \<subset> fst ` set (live p now hist)" by blast
qed simp

lemma reject_wait:
  assumes "later \<ge> now + 1000 * of_int (retry_after_seconds (reject st av now))"
  shows "av \<le> later" "now + 1000 \<le> later"
proof -
  let ?s = "max 1 \<lceil>(av - now) / 1000\<rceil>"
  have "(av - now) / 1000 \<le> of_int \<lceil>(av - now) / 1000\<rceil>" by (rule le_of_int_ceiling)
  also have "of_int \<lceil>(av - now) / 1000\<rceil> \<le> (of_int ?s :: rat)" by simp
  finally have "av - now \<le> 1000 * of_int ?s" by simp
  moreover have "later \<ge> now + 1000 * of_int ?s" using assms by (simp add: reject_def)
  ultimately show "av \<le> later" by linarith
  have "(1 :: rat) \<le> of_int ?s" by simp
  then show "now + 1000 \<le> later" using \<open>later \<ge> now + 1000 * of_int ?s\<close> by linarith
qed

lemma rejected_client_expires:
  assumes sim: "simulates T rl hist" and le: "T \<le> now"
    and d: "d = fst (admit h now identity rl)" "\<not> allowed d"
    and wait: "later \<ge> now + 1000 * of_int (retry_after_seconds d)"
  shows "\<exists>key. live_times (rl_policy rl) now key hist \<noteq> [] \<and> live_times (rl_policy rl) later key hist = [] \<and>
      live_times (rl_policy rl) now (h identity) hist = [] \<or>
    length (live_times (rl_policy rl) later (h identity) hist) < max_requests (rl_policy rl) \<and>
      live_times (rl_policy rl) now (h identity) hist \<noteq> []"
proof -
  let ?rl1 = "expire_clients now rl" let ?k = "h identity" let ?p = "rl_policy rl"
  let ?c = "client_for ?k ?rl1"
  have inv: "rl_inv T rl" using sim by (simp add: simulates_def)
  have sim1: "simulates now ?rl1 hist" by (rule simulates_expire [OF sim le])
  have inv1: "rl_inv now ?rl1" using sim1 by (simp add: simulates_def)
  have fresh: "\<forall>(k, c) \<in> set (rl_clients ?rl1). now < rs_expires_at c"
    using expire_clients_live [OF inv] by blast
  note stored = live_times_stored [OF sim1 fresh, simplified]
  have later: "live_times ?p later key hist = filter (\<lambda>t. later - of_nat (window_ms ?p) < t) (ring_times ?rl1 key)"
    if "now \<le> later" for key using sim1 that by (simp add: simulates_def)
  show ?thesis
  proof (cases "map_of (rl_clients ?rl1) ?k = None \<and> max_clients ?p \<le> length (rl_clients ?rl1)")
    case True
    obtain k0 c0 cs where first: "rl_clients ?rl1 = (k0, c0) # cs"
      using True inv by (cases "rl_clients ?rl1") (auto simp: rl_inv_def valid_policy_def)
    have dist: "distinct (map fst (rl_clients ?rl1))" using inv1 by (simp add: rl_inv_def)
    have c0: "map_of (rl_clients ?rl1) k0 = Some c0" using first by simp
    have "d = reject 503 (rs_expires_at c0) now"
      using True first by (simp add: d(1) admit_cases [OF inv le refl refl refl refl])
    then have av: "rs_expires_at c0 \<le> later" "now \<le> later" using reject_wait wait by fastforce+
    have "t \<le> later - of_nat (window_ms ?p)" if "t \<in> set (ring_times ?rl1 k0)" for t
      using client_inv_last [OF client_inv_lookup [OF inv1 c0], of t] that c0 av(1)
      by (simp add: ring_times_def client_for_def)
    then have "live_times ?p later k0 hist = []" by (fastforce simp: later [OF av(2)] filter_empty_conv)
    then show ?thesis using stored(1) c0 True by (metis option.distinct(1))
  next
    case False
    let ?w = "window_of (max_requests ?p) ?c"
    have ring: "ring_inv (max_requests ?p) ?c" using client_for_ring [OF inv1] by simp
    have full: "ring_count (drop_expired (max_requests ?p) (now - of_nat (window_ms ?p)) ?c) = max_requests ?p"
      using False d(2) by (auto simp: d(1) admit_cases [OF inv le refl refl refl refl] accept_def split: if_splits)
    then have cnt: "ring_count ?c = max_requests ?p" using drop_expired_full [OF ring full] by simp
    have pos: "0 < max_requests ?p" using inv by (simp add: rl_inv_def valid_policy_def)
    have ne: "live_times ?p now ?k hist \<noteq> []" using full pos by (simp add: stored(2))
    have "d = reject 429 (ring_front ?c + of_nat (window_ms ?p)) now"
      using False full by (auto simp: d(1) admit_cases [OF inv le refl refl refl refl])
    then have av: "ring_front ?c + of_nat (window_ms ?p) \<le> later" "now \<le> later" using reject_wait wait by fastforce+
    have "?w \<noteq> []" using cnt pos by simp
    then obtain ts where w: "?w = ring_front ?c # ts"
      using ring.front_hd [OF ring] by (cases ?w) auto
    have "Suc (length ts) = max_requests ?p"
      using w cnt length_window [of "max_requests ?p" ?c] by simp
    moreover have "\<not> later - of_nat (window_ms ?p) < ring_front ?c" using av(1) by simp
    then have "filter (\<lambda>t. later - of_nat (window_ms ?p) < t) ?w = filter (\<lambda>t. later - of_nat (window_ms ?p) < t) ts"
      by (simp add: w)
    then have "length (live_times ?p later ?k hist) \<le> length ts"
      by (simp add: later [OF av(2)] ring_times_def)
    ultimately have "length (live_times ?p later ?k hist) < max_requests ?p" by simp
    then show ?thesis using ne by blast
  qed
qed

lemma run_admits_policy:
  assumes "rl_inv T rl" "sorted (map fst calls)" "\<forall>t \<in> fst ` set calls. T \<le> t"
  shows "rl_policy (snd (run_admits h rl calls)) = rl_policy rl \<and>
    (\<exists>T'. rl_inv T' (snd (run_admits h rl calls)) \<and> (\<forall>t. T \<le> t \<longrightarrow> (\<forall>s \<in> fst ` set calls. s \<le> t) \<longrightarrow> T' \<le> t))"
  using assms
proof (induction calls arbitrary: rl T)
  case Nil
  then show ?case by auto
next
  case (Cons call calls)
  obtain now i where call: "call = (now, i)" by (cases call)
  have le: "T \<le> now" using Cons.prems(3) call by auto
  note step = rl_inv_admit [OF Cons.prems(1) le, of h i]
  have "\<forall>t \<in> fst ` set calls. now \<le> t" using Cons.prems(2) call by auto
  then show ?case
    using Cons.IH [OF step(1)] Cons.prems(2) step(2) call le by (fastforce split: prod.splits)
qed

lemma stored_bound:
  assumes "rl_inv T rl"
  shows "0 \<le> rl_stored rl" "rl_stored rl \<le> int (length (rl_clients rl) * max_requests (rl_policy rl))"
proof -
  have cap: "ring_count c \<le> max_requests (rl_policy rl)" if "(k, c) \<in> set (rl_clients rl)" for k c
    using assms that by (auto simp: rl_inv_def client_inv_def ring_inv_def)
  have "0 \<le> (\<Sum>(k, c)\<leftarrow>xs. int (ring_count c)) \<and>
      (\<Sum>(k, c)\<leftarrow>xs. int (ring_count c)) \<le> int (length xs * max_requests (rl_policy rl))"
    if "set xs \<subseteq> set (rl_clients rl)" for xs
    using that by (induction xs) (fastforce dest: cap)+
  then show "0 \<le> rl_stored rl" "rl_stored rl \<le> int (length (rl_clients rl) * max_requests (rl_policy rl))"
    using assms by (auto simp: rl_inv_def)
qed

definition demo_policy :: RateLimitPolicy where
  "demo_policy = \<lparr>window_ms = 20, max_requests = 2, max_clients = 5\<rparr>"

definition demo_full :: RateLimiter where
  "demo_full = snd (run_admits id (new_limiter demo_policy) [(0, ''a''), (10, ''a'')])"

lemma demo_policy_valid: "valid_policy demo_policy"
  by (simp add: valid_policy_def demo_policy_def MAX_TIMESTAMP_SLOTS_def)

lemma demo_full_simulates: "\<exists>hist. simulates 10 demo_full hist"
proof -
  have "simulates 0 (new_limiter demo_policy) []" by (rule simulates_new [OF demo_policy_valid])
  note one = admit_simulates(3) [OF this order_refl, of id "''a''"]
  have "(0 :: rat) \<le> 10" by simp
  from admit_simulates(3) [OF one this, of id "''a''"] show ?thesis
    unfolding demo_full_def by (auto simp: case_prod_unfold)
qed

subsection \<open>Properties\<close>

text \<open>
  Property C1. Sliding-window quota: in any history of calls with a monotonic clock, no client
  key is admitted more than \<open>max_requests\<close> times in any window of \<open>window_ms\<close>, wherever the
  window is placed. (Rings, expiry and client eviction never let an admission be forgotten.)
\<close>

theorem sliding_window_quota:
  assumes "new_policy w r c = Inr p" and "sorted (map fst calls)"
  shows "length (filter (\<lambda>(k, s). k = key \<and> t - of_nat (window_ms p) < s \<and> s \<le> t)
      (admitted h calls (fst (run_admits h (new_limiter p) calls)))) \<le> max_requests p"
proof (cases calls)
  case Nil
  then show ?thesis by (simp add: admitted_def)
next
  case (Cons call rest)
  have "simulates (fst call) (new_limiter p) []"
    using new_policy_valid [OF assms(1)] by (rule simulates_new)
  moreover have "within_quota (rl_policy (new_limiter p)) []" by (simp add: within_quota_def)
  moreover have "\<forall>t \<in> fst ` set calls. fst call \<le> t" using assms(2) Cons by auto
  ultimately have "within_quota (rl_policy (new_limiter p)) ([] @ admitted h calls (fst (run_admits h (new_limiter p) calls)))"
    using assms(2) by (intro run_simulates)
  then show ?thesis by (simp add: within_quota_def new_limiter_def)
qed

theorem sliding_window_quota_witness:
  "length (filter (\<lambda>(k, s). k = ''a'' \<and> 24 - of_nat (window_ms demo_policy) < s \<and> s \<le> 24)
      (admitted id [(0, ''a''), (5, ''a''), (9, ''a''), (21, ''a'')]
        (fst (run_admits id (new_limiter demo_policy)
          [(0, ''a''), (5, ''a''), (9, ''a''), (21, ''a'')]))))
     \<le> max_requests demo_policy"
  by (rule sliding_window_quota [of 20 2 5]) (simp_all add: new_policy_def MAX_TIMESTAMP_SLOTS_def demo_policy_def)

text \<open>
  Property C17. Refinement: on every state that represents an admission log, \<open>admit\<close> answers
  exactly as the reference limiter that scans the whole log, and the next state represents the
  next log; in particular a rejection leaves the log, and so every later decision, unchanged.
\<close>

theorem admit_refines_reference:
  assumes "simulates T rl hist" and "T \<le> now"
  shows "decision_status (fst (admit h now identity rl)) = spec_status (rl_policy rl) now (h identity) hist \<and>
    simulates now (snd (admit h now identity rl)) (spec_log (rl_policy rl) now (h identity) hist)"
  using admit_simulates [OF assms] by blast

theorem admit_refines_reference_witness:
  "decision_status (fst (admit id 5 ''a'' (new_limiter demo_policy)))
      = spec_status (rl_policy (new_limiter demo_policy)) 5 (id ''a'') [] \<and>
   simulates 5 (snd (admit id 5 ''a'' (new_limiter demo_policy)))
     (spec_log (rl_policy (new_limiter demo_policy)) 5 (id ''a'') [])"
  by (rule admit_refines_reference [of 0])
    (simp_all add: simulates_new demo_policy_valid)



text \<open>
  Bounded storage: after any history the limiter holds at most \<open>max_clients\<close>
  clients and at most \<open>MAX_TIMESTAMP_SLOTS\<close> timestamp slots, and the number of stored requests
  it reports lies between zero and the number of slots.
\<close>

lemma bounded_storage:
  assumes "new_policy w r c = Inr p" and "sorted (map fst calls)"
    and "u = usage (snd (run_admits h (new_limiter p) calls))"
  shows "usage_clients u \<le> max_clients p \<and> usage_timestamp_slots u \<le> MAX_TIMESTAMP_SLOTS \<and>
    0 \<le> usage_stored_requests u \<and> usage_stored_requests u \<le> int (usage_timestamp_slots u)"
proof -
  define T where "T = (if calls = [] then 0 else fst (hd calls))"
  have "\<forall>t \<in> fst ` set calls. T \<le> t" using assms(2) by (cases calls) (auto simp: T_def)
  then obtain T' where inv: "rl_inv T' (snd (run_admits h (new_limiter p) calls))"
    and pol: "rl_policy (snd (run_admits h (new_limiter p) calls)) = p"
    using run_admits_policy [OF rl_inv_new [OF new_policy_valid [OF assms(1)]] assms(2), of T h]
    by (auto simp: new_limiter_def)
  have clients: "usage_clients u \<le> max_clients p" using inv pol by (simp add: assms(3) usage_def rl_inv_def)
  then have "usage_clients u * max_requests p \<le> max_clients p * max_requests p" by simp
  also have "\<dots> \<le> MAX_TIMESTAMP_SLOTS"
    using new_policy_valid [OF assms(1)] by (simp add: valid_policy_def mult.commute)
  finally show ?thesis
    using clients stored_bound [OF inv] pol by (simp add: assms(3) usage_def)
qed

end
