(* ===== verification/Asgi.thy ===== *)
theory Asgi
  imports Prelude
begin

text \<open>
  The ASGI interface the middleware is written against, and the renderers of
  \<^verbatim>\<open>app/common/models/error_model.py\<close> and
  \<^verbatim>\<open>app/common/handlers/exception_handler.py\<close>.

  An ASGI application is called with a scope and two awaitables, \<^verbatim>\<open>receive\<close> and \<^verbatim>\<open>send\<close>.
  One call is an interaction tree: it returns, raises, sends a message and continues with the
  transport's answer, or receives a message. The tree is a codatatype, so an application may
  read an unbounded body. A run feeds a finite list of transport answers to a tree.

  A middleware is a tree transformer. All of them are instances of \<open>wrap\<close>: a state, what
  happens to a message on its way out, what happens to a received message on its way in, and
  what an exception of the wrapped application becomes.

  Starlette's response and header classes are not part of the repository: they are the
  fields of the record \<open>framework\<close>, with the behaviour relied upon in \<open>framework_ok\<close>.
\<close>

subsection \<open>Messages, scopes and interaction trees\<close>

type_synonym raw_headers = "(bytes \<times> bytes) list"

datatype message =
    RequestMsg (msg_body: bytes) (msg_more: bool)
  | DisconnectMsg
  | ResponseStart (msg_status: int) (msg_headers: raw_headers)
  | ResponseBody (msg_body: bytes) (msg_more: bool)
  | OtherMsg string

codatatype prog =
    Return
  | Raise exn
  | Send message "exn option \<Rightarrow> prog"
  | Receive "message result \<Rightarrow> prog"

record RequestContextData =
  request_id :: string
  ctx_method :: string
  ctx_path :: string
  ctx_ip :: string

text \<open>
  The scope dictionary. \<open>sc_client\<close> is \<open>None\<close> when the key is absent and \<open>Some None\<close> when
  its value is \<^verbatim>\<open>None\<close>; \<open>sc_cors\<close> is the entry \<^verbatim>\<open>quickapi.cors_response_headers\<close>, a
  dictionary in insertion order; \<open>sc_ctx\<close> the entry \<^verbatim>\<open>ctx\<close>.
\<close>

record scope =
  sc_type :: string
  sc_method :: string
  sc_path :: string
  sc_root_path :: string
  sc_scheme :: string
  sc_headers :: raw_headers
  sc_client :: "(string \<times> int) option option"
  sc_ctx :: "RequestContextData option"
  sc_cors :: "(string \<times> string) list option"

type_synonym app = "scope \<Rightarrow> prog"

text \<open>\<^verbatim>\<open>scope.get("client")\<close>\<close>

definition client_of :: "scope \<Rightarrow> (string \<times> int) option" where
  "client_of sc = (case sc_client sc of Some c \<Rightarrow> c | None \<Rightarrow> None)"

definition is_http :: "scope \<Rightarrow> bool" where
  "is_http sc \<longleftrightarrow> sc_type sc = ''http''"

subsection \<open>Runs\<close>

datatype answer = SendAnswer "exn option" | ReceiveAnswer "message result"

datatype event = Sent message "exn option" | Received "message result"

datatype outcome = Returned | Raised exn | Pending

fun run :: "prog \<Rightarrow> answer list \<Rightarrow> event list \<times> outcome" where
  "run p [] = ([], case p of Return \<Rightarrow> Returned | Raise e \<Rightarrow> Raised e | _ \<Rightarrow> Pending)"
| "run p (a # as) =
     (case p of
        Return \<Rightarrow> ([], Returned)
      | Raise e \<Rightarrow> ([], Raised e)
      | Send m k \<Rightarrow>
          (case a of SendAnswer r \<Rightarrow> apfst (Cons (Sent m r)) (run (k r) as) | _ \<Rightarrow> ([], Pending))
      | Receive k \<Rightarrow>
          (case a of ReceiveAnswer r \<Rightarrow> apfst (Cons (Received r)) (run (k r) as) | _ \<Rightarrow> ([], Pending)))"

definition events :: "prog \<Rightarrow> answer list \<Rightarrow> event list" where
  "events p as = fst (run p as)"

definition outcome_of :: "prog \<Rightarrow> answer list \<Rightarrow> outcome" where
  "outcome_of p as = snd (run p as)"

fun sent :: "event list \<Rightarrow> message list" where
  "sent [] = []"
| "sent (Sent m r # es) = m # sent es"
| "sent (Received r # es) = sent es"

subsection \<open>The middleware combinator\<close>

primcorec wrap ::
  "('s \<Rightarrow> message \<Rightarrow> 's \<times> message) \<Rightarrow> ('s \<Rightarrow> message result \<Rightarrow> 's \<times> message result) \<Rightarrow>
   ('s \<Rightarrow> exn \<Rightarrow> prog option) \<Rightarrow> 's \<times> prog \<Rightarrow> prog" where
  "wrap out inp h sp =
     (case snd sp of
        Return \<Rightarrow> Return
      | Raise e \<Rightarrow>
          (case h (fst sp) e of
             None \<Rightarrow> Raise e
           | Some q \<Rightarrow>
               (case q of
                  Return \<Rightarrow> Return
                | Raise e' \<Rightarrow> Raise e'
                | Send m k \<Rightarrow> Send m k
                | Receive k \<Rightarrow> Receive k))
      | Send m k \<Rightarrow>
          Send (snd (out (fst sp) m)) (\<lambda>r. wrap out inp h (fst (out (fst sp) m), k r))
      | Receive k \<Rightarrow>
          Receive (\<lambda>r. wrap out inp h (fst (inp (fst sp) r), k (snd (inp (fst sp) r)))))"

definition keep_in :: "'s \<Rightarrow> message result \<Rightarrow> 's \<times> message result" where
  "keep_in s r = (s, r)"

definition keep_out :: "'s \<Rightarrow> message \<Rightarrow> 's \<times> message" where
  "keep_out s m = (s, m)"

definition no_catch :: "'s \<Rightarrow> exn \<Rightarrow> prog option" where
  "no_catch s e = None"

text \<open>A \<^verbatim>\<open>send\<close> wrapper that rewrites messages.\<close>

definition map_send :: "(message \<Rightarrow> message) \<Rightarrow> prog \<Rightarrow> prog" where
  "map_send f p = wrap (\<lambda>s m. (s, f m)) keep_in no_catch ((), p)"

text \<open>\<^verbatim>\<open>try: ... except\<close> around the call of an application.\<close>

definition catch :: "(exn \<Rightarrow> prog option) \<Rightarrow> prog \<Rightarrow> prog" where
  "catch h p = wrap keep_out keep_in (\<lambda>s. h) ((), p)"

text \<open>Appending headers to the response start, as most wrappers do.\<close>

fun add_headers :: "raw_headers \<Rightarrow> message \<Rightarrow> message" where
  "add_headers hs (ResponseStart st rh) = ResponseStart st (rh @ hs)"
| "add_headers hs m = m"

fun is_start :: "message \<Rightarrow> bool" where
  "is_start (ResponseStart st hs) = True"
| "is_start _ = False"

subsection \<open>The framework interface\<close>

record ErrorResponse =
  er_status :: int
  er_message :: string
  er_timestamp :: int

record framework =
  json_response :: "int \<Rightarrow> ErrorResponse \<Rightarrow> (string \<times> string) list \<Rightarrow> prog"
  empty_response :: "int \<Rightarrow> prog"
  headers_getlist :: "raw_headers \<Rightarrow> string \<Rightarrow> string list"
  headers_set :: "raw_headers \<Rightarrow> string \<Rightarrow> string \<Rightarrow> raw_headers"

text \<open>Sending a fully rendered response: its start, then its only body message.\<close>

definition send_all :: "int \<Rightarrow> raw_headers \<Rightarrow> bytes \<Rightarrow> prog" where
  "send_all st hs body =
     Send (ResponseStart st hs)
       (\<lambda>r. case r of
          Some e \<Rightarrow> Raise e
        | None \<Rightarrow> Send (ResponseBody body False) (\<lambda>r. case r of Some e \<Rightarrow> Raise e | None \<Rightarrow> Return))"

text \<open>
  The documented behaviour of Starlette that the program relies on: a response object sends
  its status, the given headers (names in lower case) and otherwise only the content length and
  type, and one body; setting a header replaces its values and touches no other header, and an
  absent header has no values.
\<close>

definition framework_ok :: "framework \<Rightarrow> bool" where
  "framework_ok fw \<longleftrightarrow>
     (\<forall>st c hs. \<exists>rh body. json_response fw st c hs = send_all st rh body \<and>
        (\<forall>n v. (n, v) \<in> set hs \<longrightarrow> (py_lower n, v) \<in> set rh) \<and>
        fst ` set rh \<subseteq> py_lower ` fst ` set hs \<union> {''content-length'', ''content-type''}) \<and>
     (\<forall>st. \<exists>rh. empty_response fw st = send_all st rh []) \<and>
     (\<forall>hs n. (\<forall>k \<in> fst ` set hs. py_lower k \<noteq> py_lower n) \<longrightarrow> headers_getlist fw hs n = []) \<and>
     (\<forall>hs n v. headers_getlist fw (headers_set fw hs n v) n = [v]) \<and>
     (\<forall>hs n v m. py_lower m \<noteq> py_lower n \<longrightarrow>
        headers_getlist fw (headers_set fw hs n v) m = headers_getlist fw hs m)"

subsection \<open>Error rendering\<close>

definition error_response :: "framework \<Rightarrow> int \<Rightarrow> int \<Rightarrow> string \<Rightarrow> (string \<times> string) list \<Rightarrow> prog" where
  "error_response fw ts status text hs =
     json_response fw status \<lparr>er_status = status, er_message = text, er_timestamp = ts\<rparr> hs"

text \<open>\<^verbatim>\<open>http_exception_handler\<close> on an exception that is an \<^verbatim>\<open>HTTPException\<close>.\<close>

definition http_exception_handler :: "framework \<Rightarrow> int \<Rightarrow> int \<times> string \<times> (string \<times> string) list \<Rightarrow> prog" where
  "http_exception_handler fw ts exc =
     (case exc of (status, detail, hs) \<Rightarrow> error_response fw ts status detail hs)"

text \<open>The arrow of the validation messages, U+2192.\<close>

definition arrow :: string where
  "arrow = [CHR '' '', char_of (226 :: nat), char_of (134 :: nat), char_of (146 :: nat), CHR '' '']"

definition validation_part :: "string list \<times> string \<Rightarrow> string" where
  "validation_part err =
     (case err of (loc, msg) \<Rightarrow>
        let field_path = py_join ''.'' loc in
        if field_path \<noteq> [] then field_path @ arrow @ msg else msg)"

definition validation_exception_handler ::
  "framework \<Rightarrow> int \<Rightarrow> (string list \<times> string) list \<Rightarrow> bool \<Rightarrow> prog" where
  "validation_exception_handler fw ts errors json_invalid =
     (if json_invalid then error_response fw ts 400 ''Malformed JSON request body.'' []
      else error_response fw ts 422
        (''Validation failed: '' @ py_join ''; '' (map validation_part errors) @ ''.'') [])"

definition unhandled_exception_handler :: "framework \<Rightarrow> int \<Rightarrow> exn \<Rightarrow> prog" where
  "unhandled_exception_handler fw ts e = error_response fw ts 500 ''Internal Server Error'' []"

text \<open>
  \<^verbatim>\<open>except HTTPException as exc: response = await http_exception_handler(...)\<close> followed by
  sending the response, as the gates of the stack write it.
\<close>

definition render_http_errors :: "framework \<Rightarrow> int \<Rightarrow> prog \<Rightarrow> prog" where
  "render_http_errors fw ts p =
     catch (\<lambda>e. map_option (http_exception_handler fw ts) (http_exception e)) p"

subsection \<open>Observing runs\<close>

definition sends_only :: "(message \<Rightarrow> bool) \<Rightarrow> prog \<Rightarrow> bool" where
  "sends_only P p \<longleftrightarrow> (\<forall>as. list_all P (sent (events p as)))"

text \<open>The answers the wrapped application is given while its wrapper is fed \<open>as\<close>.\<close>

fun inner_answers ::
  "('s \<Rightarrow> message \<Rightarrow> 's \<times> message) \<Rightarrow> ('s \<Rightarrow> message result \<Rightarrow> 's \<times> message result) \<Rightarrow>
   's \<Rightarrow> prog \<Rightarrow> answer list \<Rightarrow> answer list" where
  "inner_answers out inp s p [] = []"
| "inner_answers out inp s p (a # as) =
     (case p of
        Send m k \<Rightarrow>
          (case a of
             SendAnswer r \<Rightarrow> SendAnswer r # inner_answers out inp (fst (out s m)) (k r) as
           | _ \<Rightarrow> [])
      | Receive k \<Rightarrow>
          (case a of
             ReceiveAnswer r \<Rightarrow>
               ReceiveAnswer (snd (inp s r)) # inner_answers out inp (fst (inp s r)) (k (snd (inp s r))) as
           | _ \<Rightarrow> [])
      | _ \<Rightarrow> [])"

text \<open>The response protocol of ASGI: one start, then body messages up to the last one.\<close>

datatype phase = Idle | Streaming | Done

fun protocol :: "phase \<Rightarrow> message list \<Rightarrow> phase option" where
  "protocol ph [] = Some ph"
| "protocol Idle (ResponseStart st hs # ms) = protocol Streaming ms"
| "protocol Streaming (ResponseBody b mb # ms) = protocol (if mb then Streaming else Done) ms"
| "protocol ph (m # ms) = None"

definition protocol_ok :: "phase \<Rightarrow> prog \<Rightarrow> bool" where
  "protocol_ok ph p \<longleftrightarrow> (\<forall>as. protocol ph (sent (events p as)) \<noteq> None)"

subsection \<open>Lemmas on runs\<close>

lemma wrap_simps [simp]:
  "wrap out inp h (s, Return) = Return"
  "wrap out inp h (s, Raise e) = (case h s e of None \<Rightarrow> Raise e | Some q \<Rightarrow> q)"
  "wrap out inp h (s, Send m k) = Send (snd (out s m)) (\<lambda>r. wrap out inp h (fst (out s m), k r))"
  "wrap out inp h (s, Receive l) =
     Receive (\<lambda>x. wrap out inp h (fst (inp s x), l (snd (inp s x))))"
  by (subst wrap.code; simp split: option.splits prog.splits)+

lemma keep_simps [simp]:
  "fst (keep_in s x) = s" "snd (keep_in s x) = x" "fst (keep_out s m) = s" "snd (keep_out s m) = m"
  "no_catch s e = None"
  by (simp_all add: keep_in_def keep_out_def no_catch_def)

lemma events_simps [simp]:
  "events p [] = []"
  "events Return as = []"
  "events (Raise e) as = []"
  "events (Send m k) (SendAnswer r # as) = Sent m r # events (k r) as"
  "events (Send m k) (ReceiveAnswer x # as) = []"
  "events (Receive l) (ReceiveAnswer x # as) = Received x # events (l x) as"
  "events (Receive l) (SendAnswer r # as) = []"
  by (simp_all add: events_def) (cases as; simp)+

lemma outcome_simps [simp]:
  "outcome_of Return as = Returned"
  "outcome_of (Raise e) as = Raised e"
  "outcome_of (Send m k) [] = Pending"
  "outcome_of (Receive l) [] = Pending"
  "outcome_of (Send m k) (SendAnswer r # as) = outcome_of (k r) as"
  "outcome_of (Send m k) (ReceiveAnswer x # as) = Pending"
  "outcome_of (Receive l) (ReceiveAnswer x # as) = outcome_of (l x) as"
  "outcome_of (Receive l) (SendAnswer r # as) = Pending"
  by (simp_all add: outcome_of_def) (cases as; simp)+

lemma sends_only_intros:
  "sends_only P Return"
  "sends_only P (Raise e)"
  "P m \<Longrightarrow> (\<And>r. sends_only P (k r)) \<Longrightarrow> sends_only P (Send m k)"
  "(\<And>x. sends_only P (l x)) \<Longrightarrow> sends_only P (Receive l)"
proof -
  show "sends_only P (Send m k)" if "P m" "\<And>r. sends_only P (k r)" for m k
    unfolding sends_only_def
  proof
    fix as
    show "list_all P (sent (events (Send m k) as))"
    proof (cases as)
      case (Cons a list)
      then show ?thesis using that by (cases a) (auto simp: sends_only_def)
    qed simp
  qed
  show "sends_only P (Receive k)" if "\<And>r. sends_only P (k r)" for k
    unfolding sends_only_def
  proof
    fix as
    show "list_all P (sent (events (Receive k) as))"
    proof (cases as)
      case (Cons a list)
      then show ?thesis using that by (cases a) (auto simp: sends_only_def)
    qed simp
  qed
qed (simp_all add: sends_only_def)

lemma sends_only_dests:
  "sends_only P (Send m k) \<Longrightarrow> P m"
  "sends_only P (Send m k) \<Longrightarrow> sends_only P (k r)"
  "sends_only P (Receive l) \<Longrightarrow> sends_only P (l x)"
proof -
  assume a: "sends_only P (Send m k)"
  have "list_all P (sent (events (Send m k) (SendAnswer r # as)))" for r as
    using a unfolding sends_only_def by blast
  then show "P m" "sends_only P (k r)" by (auto simp: sends_only_def)
next
  assume a: "sends_only P (Receive l)"
  have "list_all P (sent (events (Receive l) (ReceiveAnswer x # as)))" for as
    using a unfolding sends_only_def by blast
  then show "sends_only P (l x)" by (auto simp: sends_only_def)
qed

text \<open>
  The main principle: every message a wrapper lets out satisfies \<open>P\<close> if its own rewriting
  establishes it from \<open>Q\<close> and its exception handlers keep it.
\<close>

lemma wrap_sends_only:
  assumes out: "\<And>s m. Q m \<Longrightarrow> P (snd (out s m))"
    and h: "\<And>s e q. h s e = Some q \<Longrightarrow> sends_only P q"
    and p: "sends_only Q p"
  shows "sends_only P (wrap out inp h (s, p))"
  unfolding sends_only_def
proof
  fix as
  show "list_all P (sent (events (wrap out inp h (s, p)) as))"
    using p
  proof (induction as arbitrary: s p)
    case (Cons a as)
    show ?case
    proof (cases p)
      case (Raise e)
      then show ?thesis using h by (auto simp: sends_only_def split: option.splits)
    next
      case (Send m k)
      then show ?thesis using Cons out sends_only_dests by (cases a) fastforce+
    next
      case (Receive k)
      then show ?thesis using Cons sends_only_dests(3) by (cases a) auto
    qed simp
  qed simp
qed

lemma sends_only_True [simp]: "sends_only (\<lambda>m. True) p"
  by (simp add: sends_only_def list_all_iff)

lemma map_send_sends_only:
  assumes "\<And>m. Q m \<Longrightarrow> P (f m)" "sends_only Q p"
  shows "sends_only P (map_send f p)"
  unfolding map_send_def using assms by (intro wrap_sends_only [where Q = Q]) auto

lemma catch_sends_only:
  assumes "\<And>e q. h e = Some q \<Longrightarrow> sends_only P q" "sends_only P p"
  shows "sends_only P (catch h p)"
  unfolding catch_def using assms by (intro wrap_sends_only [where Q = P]) auto

lemma sends_only_send_all:
  "P (ResponseStart st hs) \<Longrightarrow> P (ResponseBody b False) \<Longrightarrow> sends_only P (send_all st hs b)"
  unfolding send_all_def by (auto intro!: sends_only_intros split: option.split)

lemma map_send_simps [simp]:
  "map_send f Return = Return"
  "map_send f (Raise e) = Raise e"
  "map_send f (Send m k) = Send (f m) (\<lambda>r. map_send f (k r))"
  "map_send f (Receive l) = Receive (\<lambda>x. map_send f (l x))"
  by (simp_all add: map_send_def)

lemma catch_simps [simp]:
  "catch h Return = Return"
  "catch h (Raise e) = (case h e of None \<Rightarrow> Raise e | Some q \<Rightarrow> q)"
  "catch h (Send m k) = Send m (\<lambda>r. catch h (k r))"
  "catch h (Receive l) = Receive (\<lambda>x. catch h (l x))"
  by (simp_all add: catch_def)

text \<open>A message rewriter changes what is sent and nothing else of a run.\<close>

lemma sent_map_send: "sent (events (map_send f p) as) = map f (sent (events p as))"
proof (induction as arbitrary: p)
  case (Cons a as)
  then show ?case by (cases p; cases a) simp_all
qed simp

lemma outcome_map_send: "outcome_of (map_send f p) as = outcome_of p as"
proof (induction as arbitrary: p)
  case Nil
  then show ?case by (cases p) simp_all
next
  case (Cons a as)
  then show ?case by (cases p; cases a) simp_all
qed

lemma protocol_map:
  assumes "\<And>st hs. \<exists>hs'. f (ResponseStart st hs) = ResponseStart st hs'"
    and "\<And>b mb. \<exists>b'. f (ResponseBody b mb) = ResponseBody b' mb"
    and "protocol ph ms \<noteq> None"
  shows "protocol ph (map f ms) \<noteq> None"
  using assms(3)
proof (induction ph ms rule: protocol.induct)
  case (2 st hs ms)
  then show ?case using assms(1) [of st hs] by auto
next
  case (3 b mb ms)
  then show ?case using assms(2) [of b mb] by auto
qed auto

lemma add_headers_shape:
  "\<exists>hs'. add_headers new (ResponseStart st hs) = ResponseStart st hs'"
  "\<exists>b'. add_headers new (ResponseBody b mb) = ResponseBody b' mb"
  by simp_all

text \<open>
  The protocol survives an exception handler that renders a response, provided the handled
  exceptions are only raised before anything was sent.
\<close>

definition raises_before_start :: "(exn \<Rightarrow> bool) \<Rightarrow> prog \<Rightarrow> bool" where
  "raises_before_start E p \<longleftrightarrow>
     (\<forall>as e. outcome_of p as = Raised e \<longrightarrow> E e \<longrightarrow> sent (events p as) = [])"

lemma protocol_okI_Send:
  assumes "protocol_ok ph (Send m k)"
  shows "\<exists>ph'. (\<forall>ms. protocol ph (m # ms) = protocol ph' ms) \<and> protocol_ok ph' (k r)"
proof -
  have nz: "protocol ph (m # sent (events (k r) as)) \<noteq> None" for as
    using assms [unfolded protocol_ok_def, rule_format, of "SendAnswer r # as"] by simp
  have "protocol ph [m] \<noteq> None" using nz [of "[]"] by simp
  then obtain ph' where "\<forall>ms. protocol ph (m # ms) = protocol ph' ms"
    by (cases ph; cases m) auto
  then show ?thesis using nz by (auto simp: protocol_ok_def)
qed

lemma protocol_ok_Receive: "protocol_ok ph (Receive k) \<Longrightarrow> protocol_ok ph (k x)"
  unfolding protocol_ok_def
  by (metis events_simps(6) sent.simps(3))

lemma protocol_ok_send_all: "protocol_ok Idle (send_all st hs b)"
  unfolding protocol_ok_def
proof
  fix as
  show "protocol Idle (sent (events (send_all st hs b) as)) \<noteq> None"
  proof (cases as)
    case (Cons a as')
    then show ?thesis
    proof (cases a)
      case (SendAnswer r)
      then show ?thesis using Cons
        by (cases r; cases as'; cases "hd as'") (auto simp: send_all_def split: option.splits)
    qed (simp add: send_all_def)
  qed simp
qed

lemma catch_protocol:
  assumes "protocol_ok ph p" "raises_before_start (\<lambda>e. h e \<noteq> None) p"
    and "\<And>e q. h e = Some q \<Longrightarrow> protocol_ok ph q"
  shows "protocol ph (sent (events (catch h p) as)) \<noteq> None"
proof -
  have quiet: "protocol ph (sent (events (catch h p) as)) \<noteq> None"
    if "protocol_ok ph p" "\<And>as e. outcome_of p as = Raised e \<Longrightarrow> h e = None" for ph p as
    using that
  proof (induction as arbitrary: ph p)
    case (Cons a as)
    show ?case
    proof (cases p)
      case (Raise e)
      then show ?thesis using Cons.prems(2) [of "[]"] by simp
    next
      case (Send m k)
      then show ?thesis
      proof (cases a)
        case (SendAnswer r)
        obtain ph' where ph': "\<forall>ms. protocol ph (m # ms) = protocol ph' ms" "protocol_ok ph' (k r)"
          using protocol_okI_Send Cons.prems(1) Send by blast
        moreover have "h e = None" if "outcome_of (k r) as = Raised e" for as e
          using Cons.prems(2) [of "SendAnswer r # as" e] Send that by simp
        ultimately show ?thesis using Cons.IH Send SendAnswer by simp
      qed simp
    next
      case (Receive k)
      then show ?thesis
      proof (cases a)
        case (ReceiveAnswer x)
        have "h e = None" if "outcome_of (k x) as = Raised e" for as e
          using Cons.prems(2) [of "ReceiveAnswer x # as" e] Receive that by simp
        then show ?thesis using Cons.IH Cons.prems(1) protocol_ok_Receive Receive ReceiveAnswer by simp
      qed simp
    qed simp
  qed simp
  show ?thesis using assms
  proof (induction as arbitrary: p)
    case (Cons a as)
    show ?case
    proof (cases p)
      case (Raise e)
      then show ?thesis using Cons.prems(3) by (auto simp: protocol_ok_def split: option.splits)
    next
      case (Send m k)
      then show ?thesis
      proof (cases a)
        case (SendAnswer r)
        obtain ph' where ph': "\<forall>ms. protocol ph (m # ms) = protocol ph' ms" "protocol_ok ph' (k r)"
          using protocol_okI_Send Cons.prems(1) Send by blast
        moreover have "h e = None" if "outcome_of (k r) as = Raised e" for as e
          using Cons.prems(2) [unfolded raises_before_start_def, rule_format, of "SendAnswer r # as" e] Send that
          by (cases "h e") auto
        ultimately show ?thesis using quiet Send SendAnswer by simp
      qed simp
    next
      case (Receive k)
      then show ?thesis
      proof (cases a)
        case (ReceiveAnswer x)
        have "raises_before_start (\<lambda>e. h e \<noteq> None) (k x)"
          unfolding raises_before_start_def
        proof (intro allI impI)
          fix as e
          assume "outcome_of (k x) as = Raised e" "h e \<noteq> None"
          then show "sent (events (k x) as) = []"
            using Cons.prems(2) [unfolded raises_before_start_def, rule_format, of "ReceiveAnswer x # as" e] Receive
            by simp
        qed
        then show ?thesis
          using Cons.IH Cons.prems(1,3) protocol_ok_Receive Receive ReceiveAnswer by simp
      qed simp
    qed simp
  qed simp
qed

text \<open>A wrapper without a handler ends as its application does on the answers it is given.\<close>

lemma outcome_wrap:
  "outcome_of (wrap out inp no_catch (s, p)) as = outcome_of p (inner_answers out inp s p as)"
proof (induction as arbitrary: s p)
  case Nil
  then show ?case by (cases p) simp_all
next
  case (Cons a as)
  then show ?case by (cases p; cases a) simp_all
qed

end
