(* ===== verification/Gates.thy ===== *)
theory Gates
  imports Asgi
begin

text \<open>
  The request gates of the middleware stack (\<^verbatim>\<open>app/common/middleware/\<close>): header limits, header
  sanitization, content types, the method whitelist and the operational exposure gate, with the
  policy constants of \<^verbatim>\<open>app/config/http_policy.py\<close>.

  Four of them have one shape, stated by the locale \<open>http_gate\<close>: decide on the scope, raise an
  \<^verbatim>\<open>HTTPException\<close> or call the next application, and render any \<^verbatim>\<open>HTTPException\<close> that comes
  out. The locale's lemmas are shared by the interpretations on the four models.
\<close>

subsection \<open>HTTP policy\<close>

definition HTTP_METHODS :: "string list" where
  "HTTP_METHODS = [''GET'', ''POST'', ''PUT'', ''PATCH'', ''DELETE'', ''HEAD'', ''OPTIONS'']"

definition FORBIDDEN_HEADERS :: "string list" where
  "FORBIDDEN_HEADERS =
     [''keep-alive'', ''proxy-authenticate'', ''proxy-authorization'', ''te'', ''trailer'',
      ''transfer-encoding'', ''upgrade'', ''proxy-connection'', ''x-forwarded-for'',
      ''x-forwarded-host'', ''x-forwarded-proto'', ''forwarded'', ''via'', ''client-ip'',
      ''true-client-ip'']"

subsection \<open>Header limits\<close>

record HeaderLimits =
  max_header_count :: nat
  max_single_header_bytes :: nat
  max_total_header_bytes :: nat
  allow_chunked :: bool

text \<open>The loop over the headers: the total so far, or the rejection of the first long header.\<close>

fun sum_header_sizes :: "nat \<Rightarrow> nat \<Rightarrow> raw_headers \<Rightarrow> nat result" where
  "sum_header_sizes single tot [] = Inr tot"
| "sum_header_sizes single tot ((k, v) # hs) =
     (if length k + length v > single then
        Inl (HTTPException 431
          (''Header exceeds per-header size limit ('' @ show_nat single @ '' bytes).'') [])
      else sum_header_sizes single (tot + (length k + length v)) hs)"

definition transfer_encoding :: "raw_headers \<Rightarrow> string option" where
  "transfer_encoding hs =
     map_option (\<lambda>(k, v). filter (\<lambda>c. code c < 128) v)
       (find (\<lambda>(k, v). py_lower k = ''transfer-encoding'') hs)"

definition header_limit_check :: "HeaderLimits \<Rightarrow> scope \<Rightarrow> scope result" where
  "header_limit_check limits sc =
     (let raw_headers = sc_headers sc in
      if length raw_headers > max_header_count limits then
        Inl (HTTPException 431 (''Too many headers (limit = '' @ show_nat (max_header_count limits) @ '').'') [])
      else bindR (sum_header_sizes (max_single_header_bytes limits) 0 raw_headers) (\<lambda>total_bytes.
        if total_bytes > max_total_header_bytes limits then
          Inl (HTTPException 431
            (''Total header size exceeds limit ('' @ show_nat (max_total_header_bytes limits) @ '' bytes).'') [])
        else
          (case transfer_encoding raw_headers of
             Some transfer \<Rightarrow>
               if \<not> allow_chunked limits \<and> transfer \<noteq> [] \<and> py_contains (py_lower transfer) ''chunked''
               then Inl (HTTPException 501 ''Chunked request bodies are not allowed.'' [])
               else Inr sc
           | None \<Rightarrow> Inr sc)))"

definition header_limit_run :: "HeaderLimits \<Rightarrow> app \<Rightarrow> app" where
  "header_limit_run limits app sc =
     (case header_limit_check limits sc of Inl e \<Rightarrow> Raise e | Inr sc' \<Rightarrow> app sc')"

definition header_limit_call :: "framework \<Rightarrow> int \<Rightarrow> HeaderLimits \<Rightarrow> app \<Rightarrow> app" where
  "header_limit_call fw ts limits app sc =
     (if \<not> is_http sc then app sc
      else render_http_errors fw ts (header_limit_run limits app sc))"

subsection \<open>Header sanitization\<close>

definition ALLOWLIST :: "string list" where
  "ALLOWLIST =
     [''host'', ''connection'', ''content-type'', ''content-length'', ''accept'',
      ''accept-language'', ''accept-encoding'', ''user-agent'', ''referer'', ''origin'',
      ''access-control-request-method'', ''access-control-request-headers'', ''cookie'',
      ''sec-fetch-site'', ''sec-fetch-mode'', ''sec-fetch-dest'', ''sec-ch-ua'',
      ''sec-ch-ua-mobile'', ''sec-ch-ua-platform'', ''authorization'', ''x-csrf-token'',
      ''x-request-id'', ''x-api-key'', ''idempotency-key'']"

text \<open>The en dash of the message is U+2013.\<close>

definition KEY_ERROR :: string where
  "KEY_ERROR = ''Idempotency-Key must be one opaque 1'' @
     [char_of (226 :: nat), char_of (128 :: nat), char_of (147 :: nat)] @
     ''128 character printable ASCII value without whitespace or commas.''"

text \<open>
  \<^verbatim>\<open>^[A-Za-z0-9-]+$\<close> with \<^verbatim>\<open>re.match\<close>: the dollar also matches before one final newline.
\<close>

definition name_chars :: "string \<Rightarrow> bool" where
  "name_chars s \<longleftrightarrow> s \<noteq> [] \<and> list_all (\<lambda>c. py_isalnum c \<or> c = CHR ''-'') s"

definition valid_name :: "string \<Rightarrow> bool" where
  "valid_name s \<longleftrightarrow> name_chars s \<or> (s \<noteq> [] \<and> last s = CHR 0x0A \<and> name_chars (butlast s))"

definition bad_request :: "string \<Rightarrow> exn" where
  "bad_request detail = HTTPException 400 detail []"

fun sanitize_loop :: "string list \<Rightarrow> string list \<Rightarrow> raw_headers \<Rightarrow> raw_headers result" where
  "sanitize_loop allowed seen [] = Inr []"
| "sanitize_loop allowed seen ((raw_name, raw_value) # hs) =
     (if \<not> py_isascii raw_name \<or> \<not> py_isascii raw_value then
        Inl (bad_request ''Header contains non-ASCII bytes.'')
      else
        (let name = py_lower raw_name in
         if name \<in> set FORBIDDEN_HEADERS then
           Inl (bad_request (''Header '' @ [CHR 0x27] @ name @ [CHR 0x27] @ '' is not allowed.''))
         else if name \<in> set seen then
           Inl (bad_request
             (if name = ''idempotency-key'' then KEY_ERROR
              else ''Duplicate header '' @ [CHR 0x27] @ name @ [CHR 0x27] @ '' is not permitted.''))
         else if \<not> valid_name name then
           Inl (bad_request (''Header name '' @ [CHR 0x27] @ name @ [CHR 0x27] @ '' contains invalid characters.''))
         else if CHR 0x0D \<in> set raw_value \<or> CHR 0x0A \<in> set raw_value then
           Inl (bad_request ''Header value contains prohibited control characters.'')
         else
           bindR (sanitize_loop allowed (name # seen) hs) (\<lambda>cleaned.
             Inr (if name \<in> set allowed then (raw_name, raw_value) # cleaned else cleaned))))"

text \<open>\<open>extra\<close> is the constructor's \<^verbatim>\<open>extra_allowed\<close>.\<close>

definition sanitize_check :: "string list \<Rightarrow> scope \<Rightarrow> scope result" where
  "sanitize_check extra sc =
     bindR (sanitize_loop (ALLOWLIST @ extra) [] (sc_headers sc)) (\<lambda>cleaned.
       Inr (sc \<lparr>sc_headers := cleaned\<rparr>))"

definition sanitize_run :: "string list \<Rightarrow> app \<Rightarrow> app" where
  "sanitize_run extra app sc =
     (case sanitize_check extra sc of Inl e \<Rightarrow> Raise e | Inr sc' \<Rightarrow> app sc')"

definition sanitize_call :: "framework \<Rightarrow> int \<Rightarrow> string list \<Rightarrow> app \<Rightarrow> app" where
  "sanitize_call fw ts extra app sc =
     (if \<not> is_http sc then app sc else render_http_errors fw ts (sanitize_run extra app sc))"

subsection \<open>Content types\<close>

text \<open>
  \<^verbatim>\<open>{k.decode().lower(): v.decode() for k, v in headers}\<close>: undecodable bytes raise, a later
  header of the same name wins.
\<close>

definition header_dict :: "raw_headers \<Rightarrow> (string \<times> string) list result" where
  "header_dict hs =
     (if list_all (\<lambda>(k, v). utf8_valid k \<and> utf8_valid v) hs
      then Inr (map (\<lambda>(k, v). (py_lower k, v)) hs) else Inl UnicodeDecodeError)"

definition dict_get :: "('k \<times> 'v) list \<Rightarrow> 'k \<Rightarrow> 'v option" where
  "dict_get d k = map_of (rev d) k"

record ContentTypePolicy =
  default_allowed :: "string list"
  ct_overrides :: "(string \<times> string list) list"

definition allowed_for_path :: "ContentTypePolicy \<Rightarrow> string \<Rightarrow> string list" where
  "allowed_for_path pol pth =
     (case find (\<lambda>(prefix, al). startswith pth prefix) (ct_overrides pol) of
        Some (prefix, al) \<Rightarrow> al | None \<Rightarrow> default_allowed pol)"

definition no_body_methods :: "string list" where
  "no_body_methods = [''GET'', ''DELETE'', ''HEAD'', ''OPTIONS'']"

definition media_type :: "string \<Rightarrow> string" where
  "media_type content_type = py_lower (py_strip (hd (py_split (CHR '';'') content_type)))"

definition content_type_check :: "ContentTypePolicy \<Rightarrow> scope \<Rightarrow> scope result" where
  "content_type_check pol sc =
     (let meth = py_upper (sc_method sc) in
      bindR (header_dict (sc_headers sc)) (\<lambda>header_map.
        let content_type = dict_get header_map ''content-type'' in
        if meth \<in> set no_body_methods then
          (if content_type \<noteq> None then
             Inl (HTTPException 415
               (''HTTP method '' @ [CHR 0x27] @ meth @ [CHR 0x27] @ '' does not accept a request body.'') [])
           else Inr sc)
        else if meth \<in> {''POST'', ''PUT'', ''PATCH''} then
          (case content_type of
             None \<Rightarrow> Inl (HTTPException 415 ''Missing Content-Type header.'' [])
           | Some ct \<Rightarrow>
               if media_type ct \<notin> set (allowed_for_path pol (sc_path sc)) then
                 Inl (HTTPException 415
                   (''Content-Type '' @ [CHR 0x27] @ ct @ [CHR 0x27] @
                    '' is not allowed on this endpoint. Expected one of: '' @
                    py_repr_list (sorted_list_of_set (set (allowed_for_path pol (sc_path sc)))) @ ''.'') [])
               else Inr sc)
        else Inr sc))"

definition content_type_run :: "ContentTypePolicy \<Rightarrow> app \<Rightarrow> app" where
  "content_type_run pol app sc =
     (case content_type_check pol sc of Inl e \<Rightarrow> Raise e | Inr sc' \<Rightarrow> app sc')"

definition content_type_call :: "framework \<Rightarrow> int \<Rightarrow> ContentTypePolicy \<Rightarrow> app \<Rightarrow> app" where
  "content_type_call fw ts pol app sc =
     (if \<not> is_http sc then app sc else render_http_errors fw ts (content_type_run pol app sc))"

subsection \<open>Method whitelist\<close>

definition method_check :: "string list \<Rightarrow> scope \<Rightarrow> scope result" where
  "method_check allowed_methods sc =
     (let meth = py_upper (sc_method sc) in
      if meth \<notin> set (map py_upper allowed_methods) then
        Inl (HTTPException 405
          (''HTTP method '' @ [CHR 0x27] @ meth @ [CHR 0x27] @ '' is not allowed on this server.'') [])
      else Inr sc)"

definition method_run :: "string list \<Rightarrow> app \<Rightarrow> app" where
  "method_run allowed_methods app sc =
     (case method_check allowed_methods sc of Inl e \<Rightarrow> Raise e | Inr sc' \<Rightarrow> app sc')"

definition method_call :: "framework \<Rightarrow> int \<Rightarrow> string list \<Rightarrow> app \<Rightarrow> app" where
  "method_call fw ts allowed_methods app sc =
     (if \<not> is_http sc then app sc else render_http_errors fw ts (method_run allowed_methods app sc))"

subsection \<open>Operational exposure\<close>

definition strip_root :: "scope \<Rightarrow> string" where
  "strip_root sc =
     (let pth = sc_path sc; root = sc_root_path sc in
      if root \<noteq> [] \<and> (pth = root \<or> startswith pth (root @ ''/'')) then drop (length root) pth else pth)"

definition disabled_paths :: "bool \<Rightarrow> bool \<Rightarrow> bool \<Rightarrow> string list" where
  "disabled_paths docs diagnostics metrics =
     concat (map snd (filter (\<lambda>(enabled, paths). \<not> enabled)
       [(docs, [''/docs'', ''/redoc'', ''/openapi.json'']),
        (diagnostics, [''/info'', ''/system'']),
        (metrics, [''/metrics''])]))"

definition exposure_hidden :: "string list \<Rightarrow> scope \<Rightarrow> bool" where
  "exposure_hidden disabled sc \<longleftrightarrow>
     (let pth = py_lower (strip_root sc) in
      list_ex (\<lambda>prefix. pth = prefix \<or> startswith pth (prefix @ ''/'')) disabled)"

definition exposure_call :: "framework \<Rightarrow> int \<Rightarrow> string list \<Rightarrow> app \<Rightarrow> app" where
  "exposure_call fw ts disabled app sc =
     (if is_http sc \<and> exposure_hidden disabled sc
      then http_exception_handler fw ts (404, ''Not Found'', []) else app sc)"

lemmas [asgi_defs] = header_limit_call_def header_limit_run_def sanitize_call_def sanitize_run_def
  content_type_call_def content_type_run_def method_call_def method_run_def

subsection \<open>The gate interface\<close>

locale http_gate =
  fixes fw :: framework and ts :: int
    and decide :: "scope \<Rightarrow> scope result"
    and call :: "app \<Rightarrow> app"
  assumes call_http: "is_http sc \<Longrightarrow>
      call app sc = render_http_errors fw ts (case decide sc of Inl e \<Rightarrow> Raise e | Inr sc' \<Rightarrow> app sc')"
    and call_other: "\<not> is_http sc \<Longrightarrow> call app sc = app sc"
begin

lemma rejected:
  assumes "is_http sc" "decide sc = Inl e" "http_exception e = Some x"
  shows "call app sc = http_exception_handler fw ts x"
  using assms by (simp add: call_http render_http_errors_def)

lemma crashed:
  assumes "is_http sc" "decide sc = Inl e" "http_exception e = None"
  shows "call app sc = Raise e"
  using assms by (simp add: call_http render_http_errors_def)

lemma accepted:
  assumes "is_http sc" "decide sc = Inr sc'"
  shows "call app sc = render_http_errors fw ts (app sc')"
  using assms by (simp add: call_http)

lemma gate_sends_only:
  assumes "\<And>sc. sends_only P (app sc)" "\<And>x. sends_only P (http_exception_handler fw ts x)"
  shows "sends_only P (call app sc)"
proof (cases "is_http sc")
  case True
  have "sends_only P (case decide sc of Inl e \<Rightarrow> Raise e | Inr sc' \<Rightarrow> app sc')"
    using assms(1) by (auto split: sum.splits intro: sends_only_intros)
  then show ?thesis
    unfolding call_http [OF True] render_http_errors_def using assms(2)
    by (intro catch_sends_only) auto
qed (simp add: call_other assms)

end

interpretation header_limit: http_gate fw ts "header_limit_check limits" "header_limit_call fw ts limits"
  for fw ts limits
  by unfold_locales (simp_all add: asgi_defs)

interpretation sanitize: http_gate fw ts "sanitize_check extra" "sanitize_call fw ts extra"
  for fw ts extra
  by unfold_locales (simp_all add: asgi_defs)

interpretation content_type: http_gate fw ts "content_type_check pol" "content_type_call fw ts pol"
  for fw ts pol
  by unfold_locales (simp_all add: asgi_defs)

interpretation method_whitelist: http_gate fw ts "method_check methods" "method_call fw ts methods"
  for fw ts methods
  by unfold_locales (simp_all add: asgi_defs)

subsection \<open>What the gates decide\<close>

lemma sum_header_sizes_iff:
  "sum_header_sizes single tot hs = Inr n \<longleftrightarrow>
     (\<forall>(k, v) \<in> set hs. length k + length v \<le> single) \<and>
     n = tot + (\<Sum>(k, v)\<leftarrow>hs. length k + length v)"
  by (induction hs arbitrary: tot) (auto split: if_splits)

lemma sum_header_sizes_error:
  "sum_header_sizes single tot hs = Inl e \<Longrightarrow> \<exists>d. e = HTTPException 431 d []"
  by (induction hs arbitrary: tot) (auto split: if_splits)

definition within_limits :: "HeaderLimits \<Rightarrow> raw_headers \<Rightarrow> bool" where
  "within_limits limits hs \<longleftrightarrow>
     length hs \<le> max_header_count limits \<and>
     (\<forall>(k, v) \<in> set hs. length k + length v \<le> max_single_header_bytes limits) \<and>
     (\<Sum>(k, v)\<leftarrow>hs. length k + length v) \<le> max_total_header_bytes limits"

definition chunked :: "raw_headers \<Rightarrow> bool" where
  "chunked hs \<longleftrightarrow> (\<exists>t. transfer_encoding hs = Some t \<and> py_contains (py_lower t) ''chunked'')"

lemma chunked_case:
  "(case transfer_encoding hs of
      Some transfer \<Rightarrow>
        if A \<and> transfer \<noteq> [] \<and> py_contains (py_lower transfer) ''chunked'' then X else Y
    | None \<Rightarrow> Y) = (if chunked hs \<and> A then X else Y)"
  by (auto simp: chunked_def py_lower_def split: option.splits)

lemma header_limit_check_cases:
  "\<exists>d. header_limit_check limits sc =
     (if \<not> within_limits limits (sc_headers sc) then Inl (HTTPException 431 d [])
      else if chunked (sc_headers sc) \<and> \<not> allow_chunked limits
        then Inl (HTTPException 501 ''Chunked request bodies are not allowed.'' [])
      else Inr sc)"
proof -
  let ?hs = "sc_headers sc"
  consider (many) "length ?hs > max_header_count limits"
    | (long) e where "length ?hs \<le> max_header_count limits"
        "sum_header_sizes (max_single_header_bytes limits) 0 ?hs = Inl e"
    | (sized) n where "length ?hs \<le> max_header_count limits"
        "sum_header_sizes (max_single_header_bytes limits) 0 ?hs = Inr n"
    by (cases "sum_header_sizes (max_single_header_bytes limits) 0 ?hs") fastforce+
  then show ?thesis
  proof cases
    case many
    then show ?thesis by (auto simp: header_limit_check_def within_limits_def)
  next
    case long
    have "\<not> within_limits limits ?hs"
    proof
      assume "within_limits limits ?hs"
      then have "sum_header_sizes (max_single_header_bytes limits) 0 ?hs =
          Inr (0 + (\<Sum>(k, v)\<leftarrow>?hs. length k + length v))"
        by (subst sum_header_sizes_iff) (auto simp: within_limits_def)
      then show False using long(2) by simp
    qed
    then show ?thesis using long sum_header_sizes_error [OF long(2)]
      by (auto simp: header_limit_check_def)
  next
    case sized
    then have "within_limits limits ?hs \<longleftrightarrow> n \<le> max_total_header_bytes limits"
      by (auto simp: within_limits_def sum_header_sizes_iff)
    then show ?thesis using sized by (auto simp: header_limit_check_def Let_def chunked_case)
  qed
qed

text \<open>The headers the sanitizer accepts.\<close>

definition acceptable :: "raw_headers \<Rightarrow> bool" where
  "acceptable hs \<longleftrightarrow>
     distinct (map (\<lambda>(k, v). py_lower k) hs) \<and>
     (\<forall>(k, v) \<in> set hs. py_isascii k \<and> py_isascii v \<and> valid_name (py_lower k) \<and>
        py_lower k \<notin> set FORBIDDEN_HEADERS \<and> CHR 0x0D \<notin> set v \<and> CHR 0x0A \<notin> set v)"

lemma sanitize_loop_Inr:
  "sanitize_loop allowed seen hs = Inr cleaned \<longleftrightarrow>
     acceptable hs \<and> (\<forall>(k, v) \<in> set hs. py_lower k \<notin> set seen) \<and>
     cleaned = filter (\<lambda>(k, v). py_lower k \<in> set allowed) hs"
proof (induction allowed seen hs arbitrary: cleaned rule: sanitize_loop.induct)
  case (1 allowed seen)
  then show ?case by (auto simp: acceptable_def)
next
  case (2 allowed seen n v hs)
  let ?ok = "py_isascii n \<and> py_isascii v \<and> py_lower n \<notin> set FORBIDDEN_HEADERS \<and>
      py_lower n \<notin> set seen \<and> valid_name (py_lower n) \<and> CHR 0x0D \<notin> set v \<and> CHR 0x0A \<notin> set v"
  show ?case
  proof (cases ?ok)
    case True
    then have "sanitize_loop allowed seen ((n, v) # hs) =
        bindR (sanitize_loop allowed (py_lower n # seen) hs) (\<lambda>cleaned.
          Inr (if py_lower n \<in> set allowed then (n, v) # cleaned else cleaned))"
      by (simp add: Let_def)
    moreover have "sanitize_loop allowed (py_lower n # seen) hs = Inr c \<longleftrightarrow>
        acceptable hs \<and> (\<forall>(k, v) \<in> set hs. py_lower k \<notin> set (py_lower n # seen)) \<and>
        c = filter (\<lambda>(k, v). py_lower k \<in> set allowed) hs" for c
      using 2 [OF _ refl] True by simp
    moreover have "acceptable ((n, v) # hs) \<longleftrightarrow> acceptable hs \<and> (\<forall>(k, v) \<in> set hs. py_lower k \<noteq> py_lower n)"
      using True by (auto simp: acceptable_def image_def split_beta)
    ultimately show ?thesis using True by (auto simp: bindR_eq_Inr)
  next
    case False
    then show ?thesis by (auto simp: Let_def acceptable_def split: if_splits)
  qed
qed

lemma sanitize_loop_Inl:
  "sanitize_loop allowed seen hs = Inl e \<Longrightarrow> \<exists>d. e = HTTPException 400 d []"
  by (induction allowed seen hs rule: sanitize_loop.induct)
    (auto simp: bad_request_def Let_def bindR_eq_Inl split: if_splits)

lemma sanitize_check_cases:
  "\<exists>d. sanitize_check extra sc =
     (if acceptable (sc_headers sc)
      then Inr (sc \<lparr>sc_headers := filter (\<lambda>(k, v). py_lower k \<in> set (ALLOWLIST @ extra)) (sc_headers sc)\<rparr>)
      else Inl (HTTPException 400 d []))"
proof (cases "sanitize_loop (ALLOWLIST @ extra) [] (sc_headers sc)")
  case (Inl e)
  then have "\<not> acceptable (sc_headers sc)"
    using sanitize_loop_Inr [of "ALLOWLIST @ extra" "[]" "sc_headers sc"] by auto
  then show ?thesis using Inl sanitize_loop_Inl [OF Inl] by (auto simp: sanitize_check_def)
next
  case (Inr cleaned)
  then show ?thesis using sanitize_loop_Inr [of "ALLOWLIST @ extra" "[]" "sc_headers sc" cleaned]
    by (auto simp: sanitize_check_def)
qed

subsection \<open>Instances for witnesses\<close>

text \<open>
  A framework with the documented behaviour: a response carries its headers in lower case,
  and setting a header drops the old values and appends the new one.
\<close>

definition demo_framework :: framework where
  "demo_framework =
     \<lparr>json_response = (\<lambda>st c hs. send_all st (map (\<lambda>(k, v). (py_lower k, v)) hs) (er_message c)),
      empty_response = (\<lambda>st. send_all st [] []),
      headers_getlist = (\<lambda>hs n. map snd (filter (\<lambda>(k, v). py_lower k = py_lower n) hs)),
      headers_set = (\<lambda>hs n v. filter (\<lambda>(k, w). py_lower k \<noteq> py_lower n) hs @ [(py_lower n, v)])\<rparr>"

lemma demo_framework_ok: "framework_ok demo_framework"
proof -
  have "\<exists>rh body. json_response demo_framework st c hs = send_all st rh body \<and>
      (\<forall>n v. (n, v) \<in> set hs \<longrightarrow> (py_lower n, v) \<in> set rh) \<and>
      fst ` set rh \<subseteq> py_lower ` fst ` set hs \<union> {''content-length'', ''content-type''}" for st c hs
    by (intro exI [of _ "map (\<lambda>(k, v). (py_lower k, v)) hs"] exI [of _ "er_message c"])
      (force simp: demo_framework_def)
  moreover have "filter (\<lambda>(k, v). py_lower k = py_lower m) (filter (\<lambda>(k, w). py_lower k \<noteq> py_lower n) hs) =
      filter (\<lambda>(k, v). py_lower k = py_lower m) hs" if "py_lower m \<noteq> py_lower n" for m n and hs :: raw_headers
    using that by (induction hs) auto
  moreover have "filter (\<lambda>(k, v). py_lower k = py_lower n) (filter (\<lambda>(k, w). py_lower k \<noteq> py_lower n) hs) = []"
    for n and hs :: raw_headers
    by (induction hs) auto
  moreover have "headers_getlist demo_framework hs n = []" if "\<forall>k \<in> fst ` set hs. py_lower k \<noteq> py_lower n" for hs n
    using that by (force simp: demo_framework_def filter_empty_conv)
  ultimately show ?thesis unfolding framework_ok_def by (auto simp: demo_framework_def)
qed

definition demo_scope :: scope where
  "demo_scope =
     \<lparr>sc_type = ''http'', sc_method = ''GET'', sc_path = ''/items'', sc_root_path = [], sc_scheme = ''http'',
      sc_headers = [(''Host'', ''a''), (''X-Odd'', ''1'')], sc_client = Some (Some (''10.0.0.1'', 1)),
      sc_ctx = None, sc_cors = None\<rparr>"

subsection \<open>Properties\<close>

text \<open>
  Header sanitization decides exactly on \<open>acceptable\<close> headers. An acceptable
  request reaches the next application with the headers of the allow list only, in order; any
  other request (a non-ASCII, duplicate, forbidden or malformed header, or a line break in a
  value) is answered with status 400 whatever the next application is.
\<close>

lemma sanitization_exact:
  assumes "is_http sc"
  shows "\<exists>d. sanitize_call fw ts extra app sc =
    (if acceptable (sc_headers sc)
     then render_http_errors fw ts
       (app (sc \<lparr>sc_headers := filter (\<lambda>(k, v). py_lower k \<in> set (ALLOWLIST @ extra)) (sc_headers sc)\<rparr>))
     else http_exception_handler fw ts (400, d, []))"
proof -
  obtain d where d: "sanitize_check extra sc =
     (if acceptable (sc_headers sc)
      then Inr (sc \<lparr>sc_headers := filter (\<lambda>(k, v). py_lower k \<in> set (ALLOWLIST @ extra)) (sc_headers sc)\<rparr>)
      else Inl (HTTPException 400 d []))" using sanitize_check_cases by blast
  show ?thesis
  proof (cases "acceptable (sc_headers sc)")
    case True
    then show ?thesis using sanitize.accepted [OF assms] d by simp
  next
    case False
    then have "sanitize_check extra sc = Inl (HTTPException 400 d [])" using d by simp
    from sanitize.rejected [OF assms this] False show ?thesis by auto
  qed
qed

text \<open>
  The header budget is enforced before anything inside it runs: a request over the
  count, per-header or total limit is answered with 431, one with a chunked transfer encoding
  with 501 (unless allowed), and any other is passed on unchanged.
\<close>

lemma header_budget_exact:
  assumes "is_http sc"
  shows "\<exists>d. header_limit_call fw ts limits app sc =
    (if \<not> within_limits limits (sc_headers sc) then http_exception_handler fw ts (431, d, [])
     else if chunked (sc_headers sc) \<and> \<not> allow_chunked limits
       then http_exception_handler fw ts (501, ''Chunked request bodies are not allowed.'', [])
     else render_http_errors fw ts (app sc))"
proof -
  obtain d where d: "header_limit_check limits sc =
     (if \<not> within_limits limits (sc_headers sc) then Inl (HTTPException 431 d [])
      else if chunked (sc_headers sc) \<and> \<not> allow_chunked limits
        then Inl (HTTPException 501 ''Chunked request bodies are not allowed.'' [])
      else Inr sc)" using header_limit_check_cases by blast
  show ?thesis
    using d header_limit.rejected [OF assms, of limits] header_limit.accepted [OF assms, of limits]
    by (cases "within_limits limits (sc_headers sc)";
        cases "chunked (sc_headers sc) \<and> \<not> allow_chunked limits") fastforce+
qed

text \<open>
  Content types: a request passes exactly when its headers decode, a method without
  a body declares no content type, and a \<open>POST\<close>, \<open>PUT\<close> or \<open>PATCH\<close> declares a media type of the
  policy of its path; it is passed on unchanged.
\<close>

lemma content_type_exact:
  "content_type_check pol sc = Inr sc' \<longleftrightarrow>
     sc' = sc \<and>
     (\<exists>header_map. header_dict (sc_headers sc) = Inr header_map \<and>
       (py_upper (sc_method sc) \<in> set no_body_methods \<longrightarrow> dict_get header_map ''content-type'' = None) \<and>
       (py_upper (sc_method sc) \<in> {''POST'', ''PUT'', ''PATCH''} \<longrightarrow>
         (\<exists>ct. dict_get header_map ''content-type'' = Some ct \<and>
            media_type ct \<in> set (allowed_for_path pol (sc_path sc)))))"
proof -
  have "set no_body_methods \<inter> {''POST'', ''PUT'', ''PATCH''} = {}" by (simp add: no_body_methods_def)
  then show ?thesis
    by (cases "header_dict (sc_headers sc)")
      (auto simp: content_type_check_def Let_def split: option.splits if_splits)
qed

text \<open>
  Disabled operational routes: when a family is disabled, a request whose path
  (below the mount point, in any letter case) is one of its paths or lies below one is answered
  with 404 and no handler runs; every other request is passed on unchanged.
\<close>

lemma disabled_routes_hidden:
  "exposure_call fw ts (disabled_paths docs diagnostics metrics) app sc =
     (if is_http sc \<and>
        (let pth = py_lower (strip_root sc); under = (\<lambda>p. pth = p \<or> (\<exists>t. pth = p @ ''/'' @ t)) in
          (\<not> docs \<and> (under ''/docs'' \<or> under ''/redoc'' \<or> under ''/openapi.json'')) \<or>
          (\<not> diagnostics \<and> (under ''/info'' \<or> under ''/system'')) \<or>
          (\<not> metrics \<and> under ''/metrics''))
      then http_exception_handler fw ts (404, ''Not Found'', []) else app sc)"
  by (auto simp: exposure_call_def exposure_hidden_def disabled_paths_def startswith_iff Let_def)

end
