(* ===== verification/Responses.thy ===== *)
theory Responses
  imports Gates RateLimit
begin

text \<open>
  The middleware that acts on the response: security headers, the request id, HEAD bodies, the
  last error renderer, the rate-limit gate and the body limit
  (\<^verbatim>\<open>security_headers.py\<close>, \<^verbatim>\<open>request_context.py\<close>, \<^verbatim>\<open>request_error.py\<close>, \<^verbatim>\<open>rate_limit.py\<close>,
  \<^verbatim>\<open>request_body_limit.py\<close> under \<^verbatim>\<open>app/common/middleware/\<close>, and
  \<^verbatim>\<open>HeadResponseASGIMiddleware\<close> of \<^verbatim>\<open>app/common/handlers/flexible_router.py\<close>).
\<close>

subsection \<open>Security headers\<close>

definition SECURITY_HEADERS :: raw_headers where
  "SECURITY_HEADERS =
     [(''x-frame-options'', ''DENY''),
      (''x-content-type-options'', ''nosniff''),
      (''referrer-policy'', ''strict-origin-when-cross-origin''),
      (''x-xss-protection'', ''0''),
      (''strict-transport-security'', ''max-age=63072000; includeSubDomains; preload''),
      (''cross-origin-opener-policy'', ''same-origin''),
      (''cross-origin-embedder-policy'', ''require-corp''),
      (''cross-origin-resource-policy'', ''same-origin''),
      (''permissions-policy'', ''geolocation=(), microphone=(), camera=()''),
      (''content-security-policy'',
        ''default-src 'self'; img-src 'self' data:; object-src 'none'; frame-ancestors 'none'; base-uri 'self'' @ [CHR 0x27])]"

definition docs_path :: "scope \<Rightarrow> bool" where
  "docs_path sc \<longleftrightarrow>
     list_ex (startswith (py_lower (sc_path sc))) [''/docs'', ''/redoc'', ''/openapi.json'']"

definition security_headers_call :: "bool \<Rightarrow> app \<Rightarrow> app" where
  "security_headers_call docs_enabled app sc =
     (if \<not> is_http sc \<or> (docs_enabled \<and> docs_path sc) then app sc
      else map_send (add_headers SECURITY_HEADERS) (app sc))"

subsection \<open>Request context\<close>

text \<open>\<^verbatim>\<open>scope.get("client", ["unknown"])[0]\<close>: indexing \<^verbatim>\<open>None\<close> raises a \<^verbatim>\<open>TypeError\<close>.\<close>

definition context_client :: "scope \<Rightarrow> string result" where
  "context_client sc =
     (case sc_client sc of
        None \<Rightarrow> Inr ''unknown''
      | Some None \<Rightarrow> Inl (TypeError '''NoneType' object is not subscriptable'')
      | Some (Some (host, port)) \<Rightarrow> Inr host)"

text \<open>\<open>rid\<close> is the fresh \<^verbatim>\<open>uuid4().hex[:8]\<close>.\<close>

definition request_context_call :: "string \<Rightarrow> app \<Rightarrow> app" where
  "request_context_call rid app sc =
     (if \<not> is_http sc then app sc
      else
        (case context_client sc of
           Inl e \<Rightarrow> Raise e
         | Inr ip \<Rightarrow>
             map_send (add_headers [(''x-request-id'', rid)])
               (app (sc \<lparr>sc_ctx := Some \<lparr>request_id = rid, ctx_method = sc_method sc,
                  ctx_path = sc_path sc, ctx_ip = ip\<rparr>\<rparr>))))"

subsection \<open>HEAD responses\<close>

fun drop_body :: "message \<Rightarrow> message" where
  "drop_body (ResponseBody b mb) = ResponseBody [] mb"
| "drop_body m = m"

definition head_response_call :: "app \<Rightarrow> app" where
  "head_response_call app sc =
     (if \<not> is_http sc \<or> sc_method sc \<noteq> ''HEAD'' then app sc else map_send drop_body (app sc))"

subsection \<open>Request errors\<close>

definition track_start :: "bool \<Rightarrow> message \<Rightarrow> bool \<times> message" where
  "track_start started m = (started \<or> is_start m, m)"

definition render_unhandled :: "framework \<Rightarrow> int \<Rightarrow> bool \<Rightarrow> exn \<Rightarrow> prog option" where
  "render_unhandled fw ts started e =
     (if is_exception e \<and> \<not> started then Some (unhandled_exception_handler fw ts e) else None)"

definition request_error_call :: "framework \<Rightarrow> int \<Rightarrow> app \<Rightarrow> app" where
  "request_error_call fw ts app sc =
     (if \<not> is_http sc then app sc
      else wrap track_start keep_in (render_unhandled fw ts) (False, app sc))"

subsection \<open>Rate limiting\<close>

definition get_client_ip :: "scope \<Rightarrow> string" where
  "get_client_ip sc = (case client_of sc of Some (host, port) \<Rightarrow> host | None \<Rightarrow> ''unknown'')"

definition pad_left :: "nat \<Rightarrow> string \<Rightarrow> string" where
  "pad_left n s = replicate (n - length s) (CHR ''0'') @ s"

text \<open>\<^verbatim>\<open>f"{window_ms / 1000:.3f}".rstrip("0").rstrip(".")\<close>\<close>

definition window_seconds :: "nat \<Rightarrow> string" where
  "window_seconds w =
     py_rstrip (CHR ''.'') (py_rstrip (CHR ''0'')
       (show_nat (w div 1000) @ ''.'' @ pad_left 3 (show_nat (w mod 1000))))"

text \<open>The em dash of the message is U+2014.\<close>

definition rate_limit_message :: "RateLimitPolicy \<Rightarrow> RateLimitDecision \<Rightarrow> string" where
  "rate_limit_message pol d =
     (if decision_status d = Some 503 then ''Rate limiter capacity is exhausted. Try again later.''
      else ''Too many requests '' @ [char_of (226 :: nat), char_of (128 :: nat), char_of (148 :: nat)] @
        '' limit is '' @ show_nat (max_requests pol) @ '' per '' @ window_seconds (window_ms pol) @ ''s.'')"

definition is_favicon :: "scope \<Rightarrow> bool" where
  "is_favicon sc \<longleftrightarrow>
     py_rstrip (CHR ''/'') (py_lower (strip_root sc)) = ''/favicon.ico'' \<and> sc_method sc \<in> {''GET'', ''HEAD''}"

text \<open>The call, with the limiter before and after it; \<open>h\<close> hashes the client identity.\<close>

definition rate_limit_call ::
  "framework \<Rightarrow> int \<Rightarrow> (string \<Rightarrow> bytes) \<Rightarrow> time \<Rightarrow> app \<Rightarrow> scope \<Rightarrow> RateLimiter \<Rightarrow> prog \<times> RateLimiter" where
  "rate_limit_call fw ts h now app sc limiter =
     (if \<not> is_http sc then (app sc, limiter)
      else if is_favicon sc then (app sc, limiter)
      else
        (case admit h now (get_client_ip sc) limiter of (d, limiter') \<Rightarrow>
           if \<not> allowed d then
             (http_exception_handler fw ts
                ((case decision_status d of Some st \<Rightarrow> int st | None \<Rightarrow> 429),
                 rate_limit_message (rl_policy limiter) d,
                 [(''Retry-After'', show_int (retry_after_seconds d)), (''X-RateLimit-Result'', ''rejected'')]),
              limiter')
           else (map_send (add_headers [(''x-ratelimit-result'', ''accepted'')]) (app sc), limiter')))"

subsection \<open>Body limit\<close>

text \<open>\<^verbatim>\<open>f"{q:.2f}"\<close> of a non-negative number.\<close>

definition fixed2 :: "rat \<Rightarrow> string" where
  "fixed2 q =
     (let n = nat (round_half_even (q * 100)) in show_nat (n div 100) @ ''.'' @ pad_left 2 (show_nat (n mod 100)))"

definition format_bytes :: "nat \<Rightarrow> string" where
  "format_bytes value =
     (if value < 1024 then show_nat value @ '' B''
      else
        (let kb = of_nat value / 1024 in
         if kb < 1024 then fixed2 kb @ '' KB''
         else (let mb = kb / 1024 in if mb < 1024 then fixed2 mb @ '' MB'' else fixed2 (mb / 1024) @ '' GB'')))"

record BodyLimit =
  max_body_bytes :: nat

definition select_limit :: "BodyLimit \<Rightarrow> (string \<times> BodyLimit) list \<Rightarrow> string \<Rightarrow> BodyLimit" where
  "select_limit default_limit overrides pth =
     (case find (\<lambda>(prefix, l). startswith pth prefix) overrides of
        Some (prefix, l) \<Rightarrow> l | None \<Rightarrow> default_limit)"

definition too_large :: "nat \<Rightarrow> exn" where
  "too_large max_bytes =
     HTTPException 413
       (''Request body exceeds maximum allowed size (limit = '' @ format_bytes max_bytes @ '').'') []"

definition declared_length_check :: "nat \<Rightarrow> scope \<Rightarrow> unit result" where
  "declared_length_check max_bytes sc =
     bindR (header_dict (sc_headers sc)) (\<lambda>hs.
       (case dict_get hs ''content-length'' of
          None \<Rightarrow> Inr ()
        | Some content_length \<Rightarrow>
            (case py_int content_length of
               None \<Rightarrow> Inl (HTTPException 413 ''Invalid Content-Length header.'' [])
             | Some declared \<Rightarrow>
                 if declared < 0 then Inl (HTTPException 413 ''Invalid Content-Length header.'' [])
                 else if declared > int max_bytes then Inl (too_large max_bytes)
                 else Inr ())))"

text \<open>The state of one request: the bytes counted so far and the chunks kept for a replay.\<close>

record body_state =
  bs_total :: nat
  bs_chunks :: "bytes list"

definition limited_receive :: "nat \<Rightarrow> body_state \<Rightarrow> message result \<Rightarrow> body_state \<times> message result" where
  "limited_receive max_bytes s r =
     (case r of
        Inr (RequestMsg chunk mb) \<Rightarrow>
          if chunk = [] then (s, r)
          else if bs_total s + length chunk > max_bytes
            then (s \<lparr>bs_total := bs_total s + length chunk\<rparr>, Inl (too_large max_bytes))
          else (s \<lparr>bs_total := bs_total s + length chunk, bs_chunks := bs_chunks s @ [chunk]\<rparr>, r)
      | _ \<Rightarrow> (s, r))"

definition replay_body :: "body_state \<Rightarrow> body_state \<times> message" where
  "replay_body s =
     (if bs_chunks s \<noteq> [] then (s \<lparr>bs_chunks := []\<rparr>, RequestMsg (concat (bs_chunks s)) False)
      else (s, RequestMsg [] False))"

definition body_limit_headers :: "nat \<Rightarrow> body_state \<Rightarrow> message \<Rightarrow> body_state \<times> message" where
  "body_limit_headers max_bytes s m =
     (s, add_headers
        [(''x-body-limit-bytes'', show_nat max_bytes),
         (''x-body-remaining-bytes'', show_int (max (int max_bytes - int (bs_total s)) 0))] m)"

definition body_limit_run :: "BodyLimit \<Rightarrow> (string \<times> BodyLimit) list \<Rightarrow> app \<Rightarrow> app" where
  "body_limit_run default_limit overrides app sc =
     (let max_bytes = max_body_bytes (select_limit default_limit overrides (sc_path sc)) in
      case declared_length_check max_bytes sc of
        Inl e \<Rightarrow> Raise e
      | Inr _ \<Rightarrow>
          wrap (body_limit_headers max_bytes) (limited_receive max_bytes) no_catch
            (\<lparr>bs_total = 0, bs_chunks = []\<rparr>, app sc))"

definition body_limit_call :: "framework \<Rightarrow> int \<Rightarrow> BodyLimit \<Rightarrow> (string \<times> BodyLimit) list \<Rightarrow> app \<Rightarrow> app" where
  "body_limit_call fw ts default_limit overrides app sc =
     (if \<not> is_http sc then app sc
      else render_http_errors fw ts (body_limit_run default_limit overrides app sc))"

subsection \<open>The body an application sees\<close>

text \<open>The body bytes in a list of answers.\<close>

fun body_bytes :: "answer list \<Rightarrow> nat" where
  "body_bytes [] = 0"
| "body_bytes (ReceiveAnswer (Inr (RequestMsg b mb)) # as) = length b + body_bytes as"
| "body_bytes (a # as) = body_bytes as"

lemma limited_receive_cases:
  fixes s :: body_state and m :: nat
  assumes "limited_receive m s r = (s', r')"
  shows "body_bytes [ReceiveAnswer r'] + bs_total s \<le> bs_total s'"
    and "r' \<noteq> r \<Longrightarrow> m < bs_total s' \<and> r' = Inl (too_large m)"
    and "bs_total s \<le> m \<Longrightarrow> r' = r \<Longrightarrow> bs_total s' \<le> m"
    and "bs_total s' = bs_total s + body_bytes [ReceiveAnswer r]"
  using assms
  by (auto simp: limited_receive_def split: sum.splits message.splits if_splits)

lemma body_bytes_Cons: "body_bytes (ReceiveAnswer r # as) = body_bytes [ReceiveAnswer r] + body_bytes as"
proof (cases r)
  case (Inr m)
  then show ?thesis by (cases m) auto
qed simp

lemma body_bytes_limited:
  "bs_total s + body_bytes (inner_answers (body_limit_headers m) (limited_receive m) s p as) \<le> max m (bs_total s)"
proof (induction as arbitrary: s p)
  case (Cons a as)
  show ?case
  proof (cases p)
    case (Send ms k)
    then show ?thesis using Cons [of s] by (cases a) (auto simp: body_limit_headers_def)
  next
    case (Receive k)
    show ?thesis
    proof (cases a)
      case (ReceiveAnswer r)
      obtain s' r' where sr: "limited_receive m s r = (s', r')" by force
      note c = limited_receive_cases [OF sr]
      show ?thesis
      proof (cases "r' = r")
        case True
        have "bs_total s' \<le> max m (bs_total s)"
          using sr True by (auto simp: limited_receive_def split: sum.splits message.splits if_splits)
        then show ?thesis
          using Receive ReceiveAnswer Cons [of s' "k r'"] c(4) True sr
            body_bytes_Cons [of r' "inner_answers (body_limit_headers m) (limited_receive m) s' (k r') as"]
          by simp
      next
        case False
        then have "m < bs_total s'" "r' = Inl (too_large m)" using c(2) by simp_all
        moreover have "body_bytes (inner_answers (body_limit_headers m) (limited_receive m) s' (k r') as) = 0"
          using Cons [of s' "k r'"] \<open>m < bs_total s'\<close> by simp
        ultimately show ?thesis using Receive ReceiveAnswer sr by simp
      qed
    qed (simp add: Receive)
  qed auto
qed simp

lemma limit_transparent:
  assumes "bs_total s + body_bytes as \<le> m"
  shows "inner_answers (body_limit_headers m) (limited_receive m) s p as = inner_answers keep_out keep_in u p as"
  using assms
proof (induction as arbitrary: s p)
  case (Cons a as)
  show ?case
  proof (cases p)
    case (Send ms k)
    then show ?thesis using Cons by (cases a) (auto simp: body_limit_headers_def)
  next
    case (Receive k)
    show ?thesis
    proof (cases a)
      case (ReceiveAnswer r)
      obtain s' r' where sr: "limited_receive m s r = (s', r')" by force
      note c = limited_receive_cases [OF sr]
      have tot: "bs_total s' + body_bytes as \<le> m"
        using Cons.prems c(4) ReceiveAnswer body_bytes_Cons [of r as] by simp
      then have "r' = r" using c(2) by fastforce
      then show ?thesis using Receive ReceiveAnswer sr Cons.IH [OF tot] by simp
    qed (simp add: Receive)
  qed auto
qed simp

subsection \<open>The last error renderer\<close>

lemma framework_ok_render:
  assumes "framework_ok fw"
  shows "\<exists>rh body. error_response fw ts st d hs = send_all st rh body"
  using assms unfolding framework_ok_def error_response_def by blast

lemma protocol_ok_render: "framework_ok fw \<Longrightarrow> protocol_ok Idle (error_response fw ts st d hs)"
  using framework_ok_render [of fw ts st d hs] protocol_ok_send_all by auto

lemma protocol_ok_http_handler: "framework_ok fw \<Longrightarrow> protocol_ok Idle (http_exception_handler fw ts x)"
  by (cases x) (simp add: http_exception_handler_def protocol_ok_render)

lemma track_start_simps [simp]:
  "fst (track_start started m) = (started \<or> is_start m)" "snd (track_start started m) = m"
  by (simp_all add: track_start_def)

lemma request_error_started:
  assumes "protocol_ok ph p"
  shows "protocol ph (sent (events (wrap track_start keep_in (render_unhandled fw ts) (True, p)) as)) \<noteq> None"
  using assms
proof (induction as arbitrary: ph p)
  case (Cons a as)
  show ?case
  proof (cases p)
    case (Send m k)
    then show ?thesis
    proof (cases a)
      case (SendAnswer r)
      obtain ph' where "\<forall>ms. protocol ph (m # ms) = protocol ph' ms" "protocol_ok ph' (k r)"
        using protocol_okI_Send Cons.prems Send by blast
      then show ?thesis using Cons.IH Send SendAnswer by simp
    qed simp
  next
    case (Receive k)
    then show ?thesis using Cons protocol_ok_Receive by (cases a) auto
  qed (simp_all add: render_unhandled_def)
qed simp

lemma request_error_protocol:
  assumes "framework_ok fw" "protocol_ok Idle p"
  shows "protocol_ok Idle (wrap track_start keep_in (render_unhandled fw ts) (False, p))"
  unfolding protocol_ok_def
proof
  fix as
  show "protocol Idle (sent (events (wrap track_start keep_in (render_unhandled fw ts) (False, p)) as)) \<noteq> None"
    using assms(2)
  proof (induction as arbitrary: p)
    case (Cons a as)
    show ?case
    proof (cases p)
      case (Raise e)
      then show ?thesis using protocol_ok_render [OF assms(1)]
        by (auto simp: render_unhandled_def unhandled_exception_handler_def protocol_ok_def)
    next
      case (Send m k)
      then obtain st hs where m: "m = ResponseStart st hs"
        using protocol_okI_Send Cons.prems by (cases m) (fastforce simp: protocol_ok_def)+
      have "protocol_ok Streaming (k r)" for r
        using Cons.prems [unfolded protocol_ok_def Send m, rule_format, of "SendAnswer r # _"]
        by (simp add: protocol_ok_def)
      then show ?thesis using Send m request_error_started
        by (cases a) simp_all
    next
      case (Receive k)
      then show ?thesis using Cons protocol_ok_Receive by (cases a) auto
    qed simp
  qed simp
qed

lemma request_error_escapes:
  assumes "framework_ok fw"
    "outcome_of (wrap track_start keep_in (render_unhandled fw ts) (False, p)) as = Raised e" "is_exception e"
  shows "sent (events (wrap track_start keep_in (render_unhandled fw ts) (False, p)) as) \<noteq> []"
  using assms(2)
proof (induction as arbitrary: p)
  case Nil
  obtain rh body where "error_response fw ts 500 ''Internal Server Error'' [] = send_all 500 rh body"
    using framework_ok_render [OF assms(1)] by blast
  then show ?case using Nil assms(3)
    by (cases p) (auto simp: render_unhandled_def unhandled_exception_handler_def send_all_def split: if_splits)
next
  case (Cons a as)
  show ?case
  proof (cases p)
    case (Raise e')
    show ?thesis
    proof (cases "is_exception e'")
      case True
      obtain rh body where "unhandled_exception_handler fw ts e' = send_all 500 rh body"
        using framework_ok_render [OF assms(1)] unfolding unhandled_exception_handler_def by blast
      then show ?thesis using Cons.prems Raise True by (cases a) (auto simp: render_unhandled_def send_all_def)
    next
      case False
      then show ?thesis using Cons.prems Raise assms(3) by (auto simp: render_unhandled_def)
    qed
  next
    case (Send m k)
    then show ?thesis using Cons by (cases a) simp_all
  next
    case (Receive k)
    then show ?thesis using Cons by (cases a) simp_all
  qed (use Cons in simp)
qed

subsection \<open>Properties\<close>



text \<open>
  A declared length that is not a number, negative or above the limit is refused
  with 413 before the application runs; a request without one, or with one within the limit,
  runs under the limit of its path.
\<close>

lemma declared_length_enforced:
  assumes "is_http sc" and "header_dict (sc_headers sc) = Inr hs"
    and "m = max_body_bytes (select_limit default_limit overrides (sc_path sc))"
  shows "\<exists>d. body_limit_call fw ts default_limit overrides app sc =
    (case dict_get hs ''content-length'' of
       Some cl \<Rightarrow>
         (if \<exists>n. py_int cl = Some n \<and> 0 \<le> n \<and> n \<le> int m
          then render_http_errors fw ts (wrap (body_limit_headers m) (limited_receive m) no_catch
                 (\<lparr>bs_total = 0, bs_chunks = []\<rparr>, app sc))
          else http_exception_handler fw ts (413, d, []))
     | None \<Rightarrow> render_http_errors fw ts (wrap (body_limit_headers m) (limited_receive m) no_catch
                 (\<lparr>bs_total = 0, bs_chunks = []\<rparr>, app sc)))"
proof -
  have run: "body_limit_call fw ts default_limit overrides app sc = render_http_errors fw ts
      (case declared_length_check m sc of Inl e \<Rightarrow> Raise e
       | Inr _ \<Rightarrow> wrap (body_limit_headers m) (limited_receive m) no_catch
            (\<lparr>bs_total = 0, bs_chunks = []\<rparr>, app sc))"
    unfolding assms(3) using assms(1) by (simp add: body_limit_call_def body_limit_run_def Let_def)
  have check: "\<exists>d. declared_length_check m sc =
      (case dict_get hs ''content-length'' of
         Some cl \<Rightarrow> (if \<exists>n. py_int cl = Some n \<and> 0 \<le> n \<and> n \<le> int m then Inr () else Inl (HTTPException 413 d []))
       | None \<Rightarrow> Inr ())"
    using assms(2) by (auto simp: declared_length_check_def too_large_def split: option.splits)
  then show ?thesis unfolding run
    by (auto simp: render_http_errors_def split: option.splits if_splits)
qed

definition demo_post :: scope where
  "demo_post = demo_scope \<lparr>sc_method := ''POST'', sc_headers := [(''content-length'', ''99'')]\<rparr>"

text \<open>
  The last error renderer keeps the response protocol (one start, then body
  messages up to the last one) of the application it wraps, and lets an exception escape only
  after the start of a response was sent.
\<close>

lemma request_error_one_response:
  assumes "framework_ok fw" and "is_http sc" and "protocol_ok Idle (app sc)"
  shows "protocol_ok Idle (request_error_call fw ts app sc) \<and>
    (\<forall>as e. outcome_of (request_error_call fw ts app sc) as = Raised e \<and> is_exception e \<longrightarrow>
      sent (events (request_error_call fw ts app sc) as) \<noteq> [])"
  using request_error_protocol [OF assms(1,3)] request_error_escapes [OF assms(1)] assms(2)
  by (simp add: request_error_call_def)

text \<open>
  Rate limiting at the HTTP boundary: a rejected request is answered with 429 or
  503 and a positive \<open>Retry-After\<close> without running the application; an admitted one runs with
  the result header added; favicon probes and other protocols leave the limiter untouched.
\<close>

lemma rate_limit_boundary:
  assumes "rl_inv T limiter" and "T \<le> now" and "admit h now (get_client_ip sc) limiter = (d, limiter')"
  shows "rate_limit_call fw ts h now app sc limiter =
    (if \<not> is_http sc \<or> is_favicon sc then (app sc, limiter)
     else if allowed d then (map_send (add_headers [(''x-ratelimit-result'', ''accepted'')]) (app sc), limiter')
     else (http_exception_handler fw ts
       (int (the (decision_status d)), rate_limit_message (rl_policy limiter) d,
        [(''Retry-After'', show_int (retry_after_seconds d)), (''X-RateLimit-Result'', ''rejected'')]), limiter')) \<and>
    (\<not> allowed d \<longrightarrow> decision_status d \<in> {Some 429, Some 503} \<and> 1 \<le> retry_after_seconds d)"
proof -
  have "\<not> allowed d \<longrightarrow> decision_status d \<in> {Some 429, Some 503} \<and> 1 \<le> retry_after_seconds d"
    using assms(3) admit_cases [OF assms(1,2) refl refl refl refl, of h "get_client_ip sc"]
    by (auto simp: accept_def reject_def split: if_splits)
  then show ?thesis using assms(3) by (auto simp: rate_limit_call_def)
qed

end
