(* ===== verification/Proxy.thy ===== *)
theory Proxy
  imports Gates
begin

text \<open>
  Forwarding headers from trusted proxies: \<^verbatim>\<open>app/common/middleware/trusted_proxy.py\<close> and
  \<^verbatim>\<open>proxy_network\<close> of \<^verbatim>\<open>app/config/http_policy.py\<close>, with the parts of Python's \<^verbatim>\<open>ipaddress\<close>
  module they use: parsing and printing of IPv4 and IPv6 addresses and membership in a network.
\<close>

subsection \<open>The ipaddress module\<close>

datatype ip = V4 nat | V6 nat "string option"

definition parse_octet :: "string \<Rightarrow> nat option" where
  "parse_octet s =
     (if s = [] \<or> \<not> list_all py_isdigit s \<or> length s > 3 \<or> (s \<noteq> ''0'' \<and> hd s = CHR ''0'') then None
      else if read_digits s > 255 then None else Some (read_digits s))"

fun collect :: "'a option list \<Rightarrow> 'a list option" where
  "collect [] = Some []"
| "collect (None # xs) = None"
| "collect (Some x # xs) = map_option (Cons x) (collect xs)"

definition be_value :: "nat \<Rightarrow> nat list \<Rightarrow> nat" where
  "be_value base ds = foldl (\<lambda>n d. base * n + d) 0 ds"

definition parse_v4 :: "string \<Rightarrow> nat option" where
  "parse_v4 s =
     (let octets = py_split (CHR ''.'') s in
      if length octets \<noteq> 4 then None else map_option (be_value 256) (collect (map parse_octet octets)))"

definition hex_val :: "char \<Rightarrow> nat option" where
  "hex_val c =
     (if py_isdigit c then Some (code c - 48)
      else if 97 \<le> code c \<and> code c \<le> 102 then Some (code c - 87)
      else if 65 \<le> code c \<and> code c \<le> 70 then Some (code c - 55)
      else None)"

definition parse_hextet :: "string \<Rightarrow> nat option" where
  "parse_hextet s =
     (if s = [] \<or> length s > 4 then None else map_option (be_value 16) (collect (map hex_val s)))"

text \<open>The optional dotted suffix becomes two hextets.\<close>

definition v6_parts :: "string list \<Rightarrow> nat option list option" where
  "v6_parts parts =
     (if CHR ''.'' \<in> set (last parts) then
        (case parse_v4 (last parts) of
           None \<Rightarrow> None
         | Some n \<Rightarrow> Some (map parse_hextet (butlast parts) @ [Some (n div 65536), Some (n mod 65536)]))
      else Some (map parse_hextet parts))"

definition parse_v6 :: "string \<Rightarrow> nat option" where
  "parse_v6 s =
     (let raw = py_split (CHR '':'') s in
      if s = [] \<or> length raw < 3 then None
      else
        (case v6_parts raw of
           None \<Rightarrow> None
         | Some parts \<Rightarrow>
             (let n = length parts;
                  empties = map (\<lambda>w. w = []) (if CHR ''.'' \<in> set (last raw) then butlast raw @ [''0'', ''0''] else raw);
                  skips = filter (\<lambda>i. empties ! i) [1..<n - 1] in
              if n > 9 \<or> length skips > 1 then None
              else if skips = [] then
                (if n \<noteq> 8 then None else map_option (be_value 65536) (collect parts))
              else
                (let skip = hd skips;
                     hi = (if hd empties then skip - 1 else skip);
                     lo = (if last empties then n - skip - 2 else n - skip - 1) in
                 if (hd empties \<and> hi \<noteq> 0) \<or> (last empties \<and> lo \<noteq> 0) \<or> hi + lo > 7 then None
                 else
                   map_option (be_value 65536)
                     (collect (take hi parts @ replicate (8 - (hi + lo)) (Some 0) @ drop (n - lo) parts))))))"

text \<open>An IPv6 zone: \<^verbatim>\<open>addr%zone\<close>, with exactly one non-empty zone.\<close>

definition split_scope_id :: "string \<Rightarrow> (string \<times> string option) option" where
  "split_scope_id s =
     (case py_split (CHR ''%'') s of
        [a] \<Rightarrow> Some (a, None)
      | [a, z] \<Rightarrow> if z = [] then None else Some (a, Some z)
      | _ \<Rightarrow> None)"

definition ip_address :: "string \<Rightarrow> ip option" where
  "ip_address s =
     (case parse_v4 s of
        Some n \<Rightarrow> Some (V4 n)
      | None \<Rightarrow>
          if CHR ''/'' \<in> set s then None
          else
            (case split_scope_id s of
               None \<Rightarrow> None
             | Some (a, zone) \<Rightarrow> map_option (\<lambda>n. V6 n zone) (parse_v6 a)))"

fun show_hex :: "nat \<Rightarrow> string" where
  "show_hex n = (if n < 16 then [hex_digit n] else show_hex (n div 16) @ [hex_digit (n mod 16)])"

declare show_hex.simps [simp del]

definition hextets :: "nat \<Rightarrow> nat list" where
  "hextets n = map (\<lambda>i. (n div 65536 ^ i) mod 65536) (rev [0..<8])"

text \<open>The start and the length of the first longest run of zeros.\<close>

fun longest_zeros :: "nat \<Rightarrow> nat \<Rightarrow> nat \<Rightarrow> nat \<Rightarrow> nat list \<Rightarrow> nat \<times> nat" where
  "longest_zeros i len best_start best_len [] = (best_start, best_len)"
| "longest_zeros i len best_start best_len (h # hs) =
     (if h = 0 then
        (if len + 1 > best_len then longest_zeros (i + 1) (len + 1) (i - len) (len + 1) hs
         else longest_zeros (i + 1) (len + 1) best_start best_len hs)
      else longest_zeros (i + 1) 0 best_start best_len hs)"

definition compress_hextets :: "nat list \<Rightarrow> string list" where
  "compress_hextets hs =
     (case longest_zeros 0 0 0 0 hs of (start, len) \<Rightarrow>
        if len > 1 then
          (if start = 0 then [[]] else []) @ map show_hex (take start hs) @ [[]] @
          map show_hex (drop (start + len) hs) @ (if start + len = length hs then [[]] else [])
        else map show_hex hs)"

fun show_ip :: "ip \<Rightarrow> string" where
  "show_ip (V4 n) = py_join ''.'' (map (\<lambda>i. show_nat ((n div 256 ^ i) mod 256)) (rev [0..<4]))"
| "show_ip (V6 n zone) =
     py_join '':'' (compress_hextets (hextets n)) @ (case zone of None \<Rightarrow> [] | Some z \<Rightarrow> CHR ''%'' # z)"

record ip_network =
  net_v6 :: bool
  net_address :: nat
  net_prefixlen :: nat

definition mask_to :: "nat \<Rightarrow> nat \<Rightarrow> nat \<Rightarrow> nat" where
  "mask_to width prefix a = (a div 2 ^ (width - prefix)) * 2 ^ (width - prefix)"

fun in_network :: "ip \<Rightarrow> ip_network \<Rightarrow> bool" where
  "in_network (V4 a) net \<longleftrightarrow> \<not> net_v6 net \<and> mask_to 32 (net_prefixlen net) a = net_address net"
| "in_network (V6 a zone) net \<longleftrightarrow> net_v6 net \<and> mask_to 128 (net_prefixlen net) a = net_address net"

text \<open>\<^verbatim>\<open>ip_network(value, strict=False)\<close> for an address with an optional decimal prefix length.\<close>

definition make_network :: "bool \<Rightarrow> nat \<Rightarrow> nat option \<Rightarrow> ip_network option" where
  "make_network v6 a prefix =
     (let width = (if v6 then 128 else 32); p = (case prefix of None \<Rightarrow> width | Some p \<Rightarrow> p) in
      if p > width then None else Some \<lparr>net_v6 = v6, net_address = mask_to width p a, net_prefixlen = p\<rparr>)"

definition ip_network :: "string \<Rightarrow> nat option \<Rightarrow> ip_network option" where
  "ip_network addr prefix =
     (case parse_v4 addr of
        Some a \<Rightarrow> make_network False a prefix
      | None \<Rightarrow>
          (case split_scope_id addr of
             None \<Rightarrow> None
           | Some (b, zone) \<Rightarrow> (case parse_v6 b of None \<Rightarrow> None | Some a \<Rightarrow> make_network True a prefix)))"

definition show_network :: "ip_network \<Rightarrow> string" where
  "show_network net =
     show_ip (if net_v6 net then V6 (net_address net) None else V4 (net_address net)) @ ''/'' @
     show_nat (net_prefixlen net)"

subsection \<open>Trusted networks\<close>

text \<open>\<^verbatim>\<open>value.split("/", 1)\<close>\<close>

definition split_slash :: "string \<Rightarrow> string \<times> string" where
  "split_slash v = (takeWhile (\<lambda>c. c \<noteq> CHR ''/'') v, drop 1 (dropWhile (\<lambda>c. c \<noteq> CHR ''/'') v))"

definition proxy_network :: "string \<Rightarrow> ip_network result" where
  "proxy_network v =
     (if CHR ''%'' \<in> set v then Inl (ValueError ''Scoped proxy addresses are not supported'')
      else if CHR ''/'' \<in> set v \<and> \<not> py_isascii (snd (split_slash v)) then
        Inl (ValueError ''Use a numeric CIDR prefix'')
      else if CHR ''/'' \<in> set v \<and> (snd (split_slash v) = [] \<or> \<not> list_all py_isdigit (snd (split_slash v))) then
        Inl (ValueError ''Use a numeric CIDR prefix'')
      else
        (case ip_network (fst (split_slash v))
            (if CHR ''/'' \<in> set v then Some (read_digits (snd (split_slash v))) else None) of
           None \<Rightarrow> Inl (ValueError (py_repr v @ '' does not appear to be an IPv4 or IPv6 network''))
         | Some net \<Rightarrow>
             if net_prefixlen net = 0 then Inl (ValueError ''Blanket proxy trust is not supported'')
             else Inr net))"

subsection \<open>The middleware\<close>

record TrustedProxy =
  tp_networks :: "ip_network list"
  tp_max_header_bytes :: nat
  tp_max_header_count :: nat
  tp_max_total_header_bytes :: nat

definition trusted :: "TrustedProxy \<Rightarrow> string \<Rightarrow> bool" where
  "trusted tp host =
     (case ip_address host of
        None \<Rightarrow> False
      | Some a \<Rightarrow> list_ex (in_network a) (tp_networks tp))"

definition over_budget :: "TrustedProxy \<Rightarrow> raw_headers \<Rightarrow> bool" where
  "over_budget tp hs \<longleftrightarrow>
     length hs > tp_max_header_count tp \<or>
     (\<Sum>(k, v)\<leftarrow>hs. length k + length v) > tp_max_total_header_bytes tp \<or>
     list_ex (\<lambda>(k, v). length k + length v > tp_max_header_bytes tp) hs"

definition is_forwarding :: "bytes \<Rightarrow> bool" where
  "is_forwarding key \<longleftrightarrow> key = ''x-forwarded-for'' \<or> key = ''x-forwarded-proto''"

text \<open>The selection loop; \<open>None\<close> is the early return that leaves the scope alone.\<close>

fun select_forwarding :: "(bytes \<times> string) list \<Rightarrow> raw_headers \<Rightarrow> (bytes \<times> string) list option" where
  "select_forwarding selected [] = Some selected"
| "select_forwarding selected ((name, v) # hs) =
     (let key = py_lower name in
      if \<not> is_forwarding key then select_forwarding selected hs
      else if map_of selected key \<noteq> None then None
      else if \<not> py_isascii v then None
      else if list_ex (\<lambda>c. code c < 32 \<or> code c = 127) v then None
      else select_forwarding (od_set key (py_strip v) selected) hs)"

definition forwarded_hosts :: "string \<Rightarrow> string list option" where
  "forwarded_hosts v =
     (let raw_hosts = py_split (CHR '','') v in
      if list_ex (\<lambda>w. CHR ''%'' \<in> set w) raw_hosts then None
      else map_option (map show_ip) (collect (map (\<lambda>w. ip_address (py_strip w)) raw_hosts)))"

text \<open>The nearest hop that is not a trusted proxy, or the first hop if all are.\<close>

definition pick_client :: "TrustedProxy \<Rightarrow> string list \<Rightarrow> string" where
  "pick_client tp hosts =
     (case find (\<lambda>h. \<not> trusted tp h) (rev hosts) of Some h \<Rightarrow> h | None \<Rightarrow> hd hosts)"

definition apply_forwarding :: "TrustedProxy \<Rightarrow> scope \<Rightarrow> scope" where
  "apply_forwarding tp sc =
     (if over_budget tp (sc_headers sc) then sc
      else
        (case select_forwarding [] (sc_headers sc) of
           None \<Rightarrow> sc
         | Some selected \<Rightarrow>
             (case (case map_of selected ''x-forwarded-for'' of
                      None \<Rightarrow> Some None
                    | Some v \<Rightarrow> map_option (\<lambda>hosts. Some (pick_client tp hosts)) (forwarded_hosts v)) of
                None \<Rightarrow> sc
              | Some forwarded_client \<Rightarrow>
                  (let scheme = map_of selected ''x-forwarded-proto'' in
                   if scheme \<noteq> None \<and> scheme \<notin> {Some ''http'', Some ''https''} then sc
                   else
                     sc \<lparr>sc_client := (case forwarded_client of
                             Some h \<Rightarrow> Some (Some (h, 0)) | None \<Rightarrow> sc_client sc),
                         sc_scheme := (case scheme of Some s \<Rightarrow> s | None \<Rightarrow> sc_scheme sc),
                         sc_headers := filter (\<lambda>(k, v). map_of selected (py_lower k) = None) (sc_headers sc)\<rparr>))))"

definition trusted_proxy_call :: "TrustedProxy \<Rightarrow> app \<Rightarrow> app" where
  "trusted_proxy_call tp app sc =
     (case client_of sc of
        Some (host, port) \<Rightarrow>
          if is_http sc \<and> trusted tp host then app (apply_forwarding tp sc) else app sc
      | None \<Rightarrow> app sc)"

subsection \<open>Lemmas\<close>

lemma select_forwarding_complete:
  assumes "select_forwarding sel hs = Some s"
  shows "map_of sel k \<noteq> None \<Longrightarrow> map_of s k \<noteq> None"
    and "(n, v) \<in> set hs \<Longrightarrow> is_forwarding (py_lower n) \<Longrightarrow> map_of s (py_lower n) \<noteq> None"
proof -
  have keep: "map_of s k \<noteq> None" if "map_of sel k \<noteq> None" "select_forwarding sel hs = Some s" for sel hs k
    using that
  proof (induction sel hs rule: select_forwarding.induct)
    case (2 sel name v hs)
    then show ?case
      by (cases "k = py_lower name") (auto simp: Let_def split: if_splits)
  qed simp
  then show "map_of sel k \<noteq> None \<Longrightarrow> map_of s k \<noteq> None" using assms by blast
  show "(n, v) \<in> set hs \<Longrightarrow> is_forwarding (py_lower n) \<Longrightarrow> map_of s (py_lower n) \<noteq> None"
    using assms
  proof (induction sel hs rule: select_forwarding.induct)
    case (2 sel name w hs)
    show ?case
    proof (cases "(n, v) = (name, w)")
      case True
      then have "select_forwarding (od_set (py_lower name) (py_strip w) sel) hs = Some s"
        using 2(4,5) by (auto simp: Let_def split: if_splits)
      from keep [OF _ this, of "py_lower name"] show ?thesis using True by simp
    next
      case False
      then show ?thesis using 2 by (auto simp: Let_def split: if_splits)
    qed
  qed simp
qed

lemma select_forwarding_keys:
  assumes "select_forwarding sel hs = Some s" "\<And>k. map_of sel k \<noteq> None \<Longrightarrow> is_forwarding k"
  shows "map_of s k \<noteq> None \<Longrightarrow> is_forwarding k"
  using assms
proof (induction sel hs rule: select_forwarding.induct)
  case (2 sel name v hs)
  show ?case
  proof (cases "is_forwarding (py_lower name)")
    case True
    then have step: "select_forwarding (od_set (py_lower name) (py_strip v) sel) hs = Some s"
      using 2(4) by (auto simp: Let_def split: if_splits)
    have "is_forwarding k'" if "map_of (od_set (py_lower name) (py_strip v) sel) k' \<noteq> None" for k'
      using that True 2(5) by (cases "k' = py_lower name") auto
    then show ?thesis using 2 True step by (auto simp: Let_def split: if_splits)
  next
    case False
    then show ?thesis using 2 by (simp add: Let_def)
  qed
qed simp

lemma pick_client_index:
  assumes "hosts \<noteq> []"
  shows "\<exists>i < length hosts. pick_client tp hosts = hosts ! i \<and>
    (\<forall>j < length hosts. i < j \<longrightarrow> trusted tp (hosts ! j)) \<and> (0 < i \<longrightarrow> \<not> trusted tp (hosts ! i))"
  using assms
proof (induction hosts rule: rev_induct)
  case (snoc h hosts)
  show ?case
  proof (cases "trusted tp h \<and> hosts \<noteq> []")
    case True
    then obtain i where i: "i < length hosts" "pick_client tp hosts = hosts ! i"
      "\<forall>j < length hosts. i < j \<longrightarrow> trusted tp (hosts ! j)" "0 < i \<longrightarrow> \<not> trusted tp (hosts ! i)"
      using snoc.IH by blast
    moreover have "pick_client tp (hosts @ [h]) = pick_client tp hosts"
      using True by (auto simp: pick_client_def split: option.splits)
    ultimately show ?thesis using True
      by (intro exI [of _ i]) (auto simp: nth_append less_Suc_eq)
  next
    case False
    then show ?thesis
      by (intro exI [of _ "length hosts"]) (auto simp: pick_client_def nth_append)
  qed
qed simp

lemma collect_not_Nil: "collect xs = Some ys \<Longrightarrow> length ys = length xs"
  by (induction xs arbitrary: ys rule: collect.induct) auto

lemma forwarded_hosts_not_Nil: "forwarded_hosts v = Some hosts \<Longrightarrow> hosts \<noteq> []"
  using py_split_not_Nil [of "CHR '',''" v]
  by (auto simp: forwarded_hosts_def Let_def dest!: collect_not_Nil split: if_splits)

subsection \<open>Properties\<close>

text \<open>
  Forwarding is applied as a whole or not at all. If it is, every consumed
  forwarding header is gone and no other header is, the scheme is \<open>http\<close> or \<open>https\<close> as
  announced, and the client is a hop of \<open>X-Forwarded-For\<close> such that all later hops are trusted
  proxies and it is not one itself, unless it is the first hop.
\<close>

lemma forwarding_outcome:
  assumes "sc' = apply_forwarding tp sc" and "sc' \<noteq> sc"
  shows "\<exists>selected. select_forwarding [] (sc_headers sc) = Some selected \<and>
    sc_headers sc' = filter (\<lambda>(k, v). \<not> is_forwarding (py_lower k)) (sc_headers sc) \<and>
    (case map_of selected ''x-forwarded-proto'' of
       None \<Rightarrow> sc_scheme sc' = sc_scheme sc
     | Some s \<Rightarrow> sc_scheme sc' = s \<and> s \<in> {''http'', ''https''}) \<and>
    (case map_of selected ''x-forwarded-for'' of
       None \<Rightarrow> sc_client sc' = sc_client sc
     | Some v \<Rightarrow> \<exists>hosts i. forwarded_hosts v = Some hosts \<and> i < length hosts \<and>
         client_of sc' = Some (hosts ! i, 0) \<and>
         (\<forall>j < length hosts. i < j \<longrightarrow> trusted tp (hosts ! j)) \<and> (0 < i \<longrightarrow> \<not> trusted tp (hosts ! i)))"
proof -
  obtain selected where sel: "select_forwarding [] (sc_headers sc) = Some selected"
    using assms by (auto simp: apply_forwarding_def split: if_splits option.splits)
  have drop: "filter (\<lambda>(k, v). map_of selected (py_lower k) = None) (sc_headers sc) =
      filter (\<lambda>(k, v). \<not> is_forwarding (py_lower k)) (sc_headers sc)"
  proof (intro filter_cong [OF refl])
    fix kv
    assume "kv \<in> set (sc_headers sc)"
    then show "(case kv of (k, v) \<Rightarrow> map_of selected (py_lower k) = None) = (case kv of (k, v) \<Rightarrow> \<not> is_forwarding (py_lower k))"
      using select_forwarding_complete(2) [OF sel, of "fst kv" "snd kv"]
        select_forwarding_keys [OF sel, of "py_lower (fst kv)"]
      by (cases kv; cases "map_of selected (py_lower (fst kv))") auto
  qed
  have hs: "sc_headers sc' = filter (\<lambda>(k, v). \<not> is_forwarding (py_lower k)) (sc_headers sc)"
    using assms sel by (auto simp: drop [symmetric] apply_forwarding_def Let_def split: if_splits option.splits)
  have sch: "case map_of selected ''x-forwarded-proto'' of
      None \<Rightarrow> sc_scheme sc' = sc_scheme sc | Some s \<Rightarrow> sc_scheme sc' = s \<and> s \<in> {''http'', ''https''}"
    using assms sel by (auto simp: apply_forwarding_def Let_def split: if_splits option.splits)
  have cl: "case map_of selected ''x-forwarded-for'' of
      None \<Rightarrow> sc_client sc' = sc_client sc
    | Some v \<Rightarrow> \<exists>hosts. forwarded_hosts v = Some hosts \<and> client_of sc' = Some (pick_client tp hosts, 0)"
    using assms sel by (auto simp: apply_forwarding_def Let_def client_of_def split: if_splits option.splits)
  show ?thesis
  proof (intro exI conjI)
    show "case map_of selected ''x-forwarded-for'' of
       None \<Rightarrow> sc_client sc' = sc_client sc
     | Some v \<Rightarrow> \<exists>hosts i. forwarded_hosts v = Some hosts \<and> i < length hosts \<and>
         client_of sc' = Some (hosts ! i, 0) \<and>
         (\<forall>j < length hosts. i < j \<longrightarrow> trusted tp (hosts ! j)) \<and> (0 < i \<longrightarrow> \<not> trusted tp (hosts ! i))"
      using cl pick_client_index [OF forwarded_hosts_not_Nil] by (fastforce split: option.splits)
  qed (use sel hs sch in simp_all)
qed

definition demo_proxy :: TrustedProxy where
  "demo_proxy =
     \<lparr>tp_networks = [\<lparr>net_v6 = False, net_address = 167772160, net_prefixlen = 8\<rparr>],
      tp_max_header_bytes = 4096, tp_max_header_count = 100, tp_max_total_header_bytes = 8192\<rparr>"

definition demo_forwarded :: scope where
  "demo_forwarded = demo_scope
     \<lparr>sc_headers := [(''X-Forwarded-For'', ''6.6.6.6, 1.2.3.4, 10.0.0.2''), (''Host'', ''a'')]\<rparr>"



text \<open>
  A trusted network is never the whole address space: \<open>proxy_network\<close> returns only
  networks with a prefix of at least one bit and at most the address width, whose base address
  has no bits beyond the prefix, and it rejects scoped addresses.
\<close>

lemma proxy_network_sound:
  assumes "proxy_network v = Inr net"
  shows "1 \<le> net_prefixlen net \<and> net_prefixlen net \<le> (if net_v6 net then 128 else 32) \<and>
    mask_to (if net_v6 net then 128 else 32) (net_prefixlen net) (net_address net) = net_address net \<and>
    CHR ''%'' \<notin> set v"
proof -
  have mk: "make_network v6 a p = Some net \<Longrightarrow>
      net_prefixlen net \<le> (if net_v6 net then 128 else 32) \<and>
      mask_to (if net_v6 net then 128 else 32) (net_prefixlen net) (net_address net) = net_address net" for v6 a p
    by (auto simp: make_network_def Let_def mask_to_def split: if_splits)
  obtain addr prefix where "ip_network addr prefix = Some net" "net_prefixlen net \<noteq> 0" "CHR ''%'' \<notin> set v"
    using assms by (auto simp: proxy_network_def split: if_splits option.splits)
  then show ?thesis using mk by (auto simp: ip_network_def split: option.splits prod.splits)
qed

end
