(* ===== verification/Cors.thy ===== *)
theory Cors
  imports Gates
begin

text \<open>
  Cross-origin policy: \<^verbatim>\<open>app/common/middleware/cors.py\<close>.

  The dictionary of response headers that the middleware puts into the scope is filled in steps;
  \<open>cors_decide\<close> returns what it holds when the decision is made, together with the decision.
  It does not change after that, so the send wrapper reads this value.
\<close>

subsection \<open>Options\<close>

datatype cors_origin = OriginStr string | OriginList "string list"

record CORSOptions =
  opts_origin :: cors_origin
  opts_methods :: "string list"
  opts_allowed_headers :: "string list"
  opts_exposed_headers :: "string list"
  opts_credentials :: bool
  opts_max_age :: int

definition new_cors ::
  "cors_origin \<Rightarrow> string list \<Rightarrow> string list \<Rightarrow> string list \<Rightarrow> bool \<Rightarrow> int \<Rightarrow> CORSOptions" where
  "new_cors origin methods allowed_headers exposed_headers credentials max_age =
     \<lparr>opts_origin = origin, opts_methods = fromkeys (map py_upper methods),
      opts_allowed_headers = allowed_headers, opts_exposed_headers = exposed_headers,
      opts_credentials = credentials, opts_max_age = max_age\<rparr>"

subsection \<open>Response headers\<close>

definition vary_dict :: "string list \<Rightarrow> (string \<times> string) list" where
  "vary_dict vals =
     fold (\<lambda>token d. od_set (py_lower (py_strip token)) (py_strip token) d)
       (filter (\<lambda>token. py_strip token \<noteq> []) (concat (map (py_split (CHR '','')) vals))) []"

definition setdefault :: "'k \<Rightarrow> 'v \<Rightarrow> ('k \<times> 'v) list \<Rightarrow> ('k \<times> 'v) list" where
  "setdefault k v d = (if map_of d k = None then d @ [(k, v)] else d)"

definition vary_names :: "scope \<Rightarrow> string list" where
  "vary_names sc = ''Origin'' #
     (if sc_method sc = ''OPTIONS''
      then [''Access-Control-Request-Method'', ''Access-Control-Request-Headers''] else [])"

definition vary_value :: "scope \<Rightarrow> string list \<Rightarrow> string" where
  "vary_value sc vals =
     (let vary = fold (\<lambda>name d. setdefault (py_lower name) name d) (vary_names sc) (vary_dict vals) in
      if map_of vary ''*'' \<noteq> None then ''*'' else py_join '', '' (map snd vary))"

definition apply_cors_response_headers :: "framework \<Rightarrow> scope \<Rightarrow> message \<Rightarrow> message" where
  "apply_cors_response_headers fw sc m =
     (case (m, sc_cors sc) of
        (ResponseStart st hs, Some response_headers) \<Rightarrow>
          ResponseStart st
            (fold (\<lambda>(name, v) out. headers_set fw out name v) response_headers
              (headers_set fw hs ''vary'' (vary_value sc (headers_getlist fw hs ''vary''))))
      | _ \<Rightarrow> m)"

subsection \<open>The decision\<close>

definition is_allowed_origin :: "CORSOptions \<Rightarrow> string option \<Rightarrow> bool" where
  "is_allowed_origin opts origin =
     (case origin of
        None \<Rightarrow> True
      | Some ori \<Rightarrow>
          ori = [] \<or>
          (case opts_origin opts of
             OriginStr s \<Rightarrow> s = ''*'' \<or> s = ori
           | OriginList os \<Rightarrow> ''*'' \<in> set os \<or> ori \<in> set os))"

definition requested_headers :: "(string \<times> string) list \<Rightarrow> string list" where
  "requested_headers hs =
     (case dict_get hs ''access-control-request-headers'' of
        None \<Rightarrow> []
      | Some v \<Rightarrow> map (\<lambda>item. py_lower (py_strip item)) (py_split (CHR '','') v))"

definition is_preflight :: "scope \<Rightarrow> (string \<times> string) list \<Rightarrow> bool" where
  "is_preflight sc hs \<longleftrightarrow>
     dict_get hs ''origin'' \<notin> {None, Some []} \<and> sc_method sc = ''OPTIONS'' \<and>
     dict_get hs ''access-control-request-method'' \<notin> {None, Some []}"

definition preflight_refused :: "CORSOptions \<Rightarrow> (string \<times> string) list \<Rightarrow> bool" where
  "preflight_refused opts hs \<longleftrightarrow>
     the (dict_get hs ''access-control-request-method'') \<notin> set (opts_methods opts) \<or>
     list_ex (\<lambda>item. item \<notin> set (map py_lower (opts_allowed_headers opts))) (requested_headers hs)"

definition origin_entry :: "(string \<times> string) list \<Rightarrow> (string \<times> string) list" where
  "origin_entry hs =
     (case dict_get hs ''origin'' of
        Some ori \<Rightarrow> if ori \<noteq> [] then [(''access-control-allow-origin'', ori)] else []
      | None \<Rightarrow> [])"

definition policy_entries :: "CORSOptions \<Rightarrow> (string \<times> string) list" where
  "policy_entries opts =
     [(''access-control-allow-methods'', py_join '', '' (opts_methods opts)),
      (''access-control-allow-headers'', py_join '', '' (opts_allowed_headers opts)),
      (''access-control-expose-headers'', py_join '', '' (opts_exposed_headers opts)),
      (''access-control-max-age'', show_int (opts_max_age opts))] @
     (if opts_credentials opts then [(''access-control-allow-credentials'', ''true'')] else [])"

definition cors_decide :: "CORSOptions \<Rightarrow> scope \<Rightarrow> (string \<times> string) list \<times> unit result" where
  "cors_decide opts sc =
     (case header_dict (sc_headers sc) of
        Inl e \<Rightarrow> ([], Inl e)
      | Inr hs \<Rightarrow>
          (let origin = dict_get hs ''origin'' in
           if \<not> is_allowed_origin opts origin then
             ([], Inl (HTTPException 403
                (''CORS origin '' @ [CHR 0x27] @ (case origin of Some ori \<Rightarrow> ori | None \<Rightarrow> ''None'') @ [CHR 0x27] @
                 '' not allowed.'') []))
           else if is_preflight sc hs \<and> preflight_refused opts hs then
             (origin_entry hs, Inl (HTTPException 403 ''CORS preflight method or headers not allowed.'' []))
           else (origin_entry hs @ policy_entries opts, Inr ())))"

definition cors_call :: "framework \<Rightarrow> int \<Rightarrow> CORSOptions \<Rightarrow> app \<Rightarrow> app" where
  "cors_call fw ts opts app sc =
     (if \<not> is_http sc then app sc
      else
        (case cors_decide opts sc of (response_headers, decision) \<Rightarrow>
           let sc' = sc \<lparr>sc_cors := Some response_headers\<rparr> in
           map_send (apply_cors_response_headers fw sc')
             (render_http_errors fw ts
               (case decision of
                  Inl e \<Rightarrow> Raise e
                | Inr _ \<Rightarrow> if sc_method sc = ''OPTIONS'' then empty_response fw 204 else app sc'))))"

subsection \<open>Header lemmas\<close>

lemma framework_set_same: "framework_ok fw \<Longrightarrow> headers_getlist fw (headers_set fw hs n v) n = [v]"
  by (simp add: framework_ok_def)

lemma framework_set_other:
  "framework_ok fw \<Longrightarrow> py_lower m \<noteq> py_lower n \<Longrightarrow>
     headers_getlist fw (headers_set fw hs n v) m = headers_getlist fw hs m"
  by (simp add: framework_ok_def)

lemma fold_set_other:
  assumes "framework_ok fw" "\<forall>n \<in> fst ` set kvs. py_lower m \<noteq> py_lower n"
  shows "headers_getlist fw (fold (\<lambda>(name, v) out. headers_set fw out name v) kvs hs) m = headers_getlist fw hs m"
  using assms by (induction kvs arbitrary: hs) (auto simp: framework_set_other)

lemma fold_set_in:
  assumes "framework_ok fw" "distinct (map (py_lower \<circ> fst) kvs)" "(n, v) \<in> set kvs"
  shows "headers_getlist fw (fold (\<lambda>(name, v) out. headers_set fw out name v) kvs hs) n = [v]"
  using assms(2,3)
proof (induction kvs arbitrary: hs)
  case (Cons kv kvs)
  show ?case
  proof (cases "(n, v) = kv")
    case True
    then have "\<forall>k \<in> fst ` set kvs. py_lower n \<noteq> py_lower k" using Cons.prems(1) by (auto simp: image_iff)
    then show ?thesis
      using True fold_set_other [OF assms(1)] framework_set_same [OF assms(1)] by (cases kv) auto
  next
    case False
    then show ?thesis using Cons by (cases kv) auto
  qed
qed simp

lemma cors_lower [simp]:
  "py_lower ''vary'' = ''vary''"
  "py_lower ''access-control-allow-origin'' = ''access-control-allow-origin''"
  "py_lower ''access-control-allow-methods'' = ''access-control-allow-methods''"
  "py_lower ''access-control-allow-headers'' = ''access-control-allow-headers''"
  "py_lower ''access-control-expose-headers'' = ''access-control-expose-headers''"
  "py_lower ''access-control-max-age'' = ''access-control-max-age''"
  "py_lower ''access-control-allow-credentials'' = ''access-control-allow-credentials''"
  by code_simp+

lemma error_response_start:
  assumes "framework_ok fw"
  shows "\<exists>rh body. http_exception_handler fw ts (st, d, []) = send_all st rh body \<and>
    fst ` set rh \<subseteq> {''content-length'', ''content-type''}"
proof -
  obtain rh body where "error_response fw ts st d [] = send_all st rh body"
      "fst ` set rh \<subseteq> py_lower ` fst ` set ([] :: (string \<times> string) list) \<union> {''content-length'', ''content-type''}"
    using assms unfolding framework_ok_def error_response_def by meson
  then show ?thesis by (auto simp: http_exception_handler_def)
qed

lemma content_lower: "py_lower ''content-length'' = ''content-length''" "py_lower ''content-type'' = ''content-type''"
  by code_simp+

lemma no_origin_header:
  assumes "framework_ok fw" "fst ` set rh \<subseteq> {''content-length'', ''content-type''}"
  shows "headers_getlist fw rh ''access-control-allow-origin'' = []"
proof -
  have "\<forall>k \<in> fst ` set rh. py_lower k \<noteq> py_lower ''access-control-allow-origin''"
    using assms(2) content_lower by fastforce
  then show ?thesis using assms(1) unfolding framework_ok_def by blast
qed

subsection \<open>The Vary header\<close>

lemma map_of_fold_od_set:
  "map_of (fold (\<lambda>t d. od_set (f t) (g t) d) ts d) k \<noteq> None \<longleftrightarrow> k \<in> f ` set ts \<or> map_of d k \<noteq> None"
proof (induction ts arbitrary: d)
  case (Cons t ts)
  have "map_of (od_set (f t) (g t) d) k \<noteq> None \<longleftrightarrow> k = f t \<or> map_of d k \<noteq> None"
    by (cases "k = f t") simp_all
  then show ?case using Cons by auto
qed simp

lemma vary_dict_values:
  "(k, v) \<in> set (vary_dict vs) \<Longrightarrow> CHR '','' \<notin> set v \<and> py_strip v = v \<and> k = py_lower v"
proof -
  have strip: "CHR '','' \<notin> set (py_strip t) \<and> py_strip (py_strip t) = py_strip t" if "CHR '','' \<notin> set t" for t
    using that set_py_strip [of t] by auto
  have inv: "CHR '','' \<notin> set v \<and> py_strip v = v \<and> k = py_lower v"
    if "(k, v) \<in> set (fold (\<lambda>t d. od_set (py_lower (py_strip t)) (py_strip t) d) ts d)"
      "\<forall>t \<in> set ts. CHR '','' \<notin> set t" "\<forall>(k, v) \<in> set d. CHR '','' \<notin> set v \<and> py_strip v = v \<and> k = py_lower v" for ts d
    using that
  proof (induction ts arbitrary: d)
    case (Cons t ts)
    have "\<forall>(k, v) \<in> set (od_set (py_lower (py_strip t)) (py_strip t) d). CHR '','' \<notin> set v \<and> py_strip v = v \<and> k = py_lower v"
      using Cons.prems(2,3) strip [of t] set_od_set [of "py_lower (py_strip t)" "py_strip t" d] by fastforce
    then show ?case using Cons by simp
  qed auto
  assume "(k, v) \<in> set (vary_dict vs)"
  then show ?thesis unfolding vary_dict_def
    by (rule inv) (auto dest: py_split_parts)
qed

lemma set_setdefault:
  "set (setdefault k v d) \<subseteq> insert (k, v) (set d)" "set d \<subseteq> set (setdefault k v d)"
  by (auto simp: setdefault_def split: if_splits)

lemma set_fold_setdefault:
  fixes d :: "(string \<times> string) list"
  shows "set (fold (\<lambda>name d. setdefault (py_lower name) name d) ns d) \<subseteq> set d \<union> (\<lambda>n. (py_lower n, n)) ` set ns"
    and "set d \<subseteq> set (fold (\<lambda>name d. setdefault (py_lower name) name d) ns d)"
proof -
  show "set (fold (\<lambda>name d. setdefault (py_lower name) name d) ns d) \<subseteq> set d \<union> (\<lambda>n. (py_lower n, n)) ` set ns"
  proof (induction ns arbitrary: d)
    case (Cons n ns)
    show ?case using Cons [of "setdefault (py_lower n) n d"] set_setdefault(1) [of "py_lower n" n d] by auto
  qed simp
  show "set d \<subseteq> set (fold (\<lambda>name d. setdefault (py_lower name) name d) ns d)"
  proof (induction ns arbitrary: d)
    case (Cons n ns)
    show ?case using Cons [of "setdefault (py_lower n) n d"] set_setdefault(2) [of d "py_lower n" n] by auto
  qed simp
qed

text \<open>Whatever the response said, its \<open>Vary\<close> header covers the origin.\<close>

definition varies_on_origin :: "string \<Rightarrow> bool" where
  "varies_on_origin v \<longleftrightarrow>
     v = ''*'' \<or> (\<exists>token \<in> set (py_split (CHR '','') v). py_lower (py_strip token) = ''origin'')"

lemma vary_value_origin: "varies_on_origin (vary_value sc vals)"
proof -
  define vary where "vary = fold (\<lambda>name d. setdefault (py_lower name) name d) (vary_names sc) (vary_dict vals)"
  have names: "py_lower ''Origin'' = ''origin''" "CHR '','' \<notin> set ''Origin''" "py_strip ''Origin'' = ''Origin''"
    "\<forall>n \<in> set [''Access-Control-Request-Method'', ''Access-Control-Request-Headers'']. CHR '','' \<notin> set n"
    by code_simp+
  have "\<exists>v. (''origin'', v) \<in> set (setdefault (py_lower ''Origin'') ''Origin'' (vary_dict vals))"
    using names(1) by (cases "map_of (vary_dict vals) ''origin''") (auto simp: setdefault_def dest: map_of_SomeD)
  then obtain v where v: "(''origin'', v) \<in> set vary"
    using set_fold_setdefault(2) [of "setdefault (py_lower ''Origin'') ''Origin'' (vary_dict vals)" "tl (vary_names sc)"]
    unfolding vary_def vary_names_def by auto
  have origin_of: "set vary \<subseteq> set (vary_dict vals) \<union> (\<lambda>n. (py_lower n, n)) ` set (vary_names sc)"
    unfolding vary_def by (rule set_fold_setdefault(1))
  have commas: "CHR '','' \<notin> set w" if "(k, w) \<in> set vary" for k w
    using that origin_of vary_dict_values [of k w vals] names by (auto simp: vary_names_def split: if_splits)
  have low: "py_lower (py_strip v) = ''origin''"
  proof -
    consider "(''origin'', v) \<in> set (vary_dict vals)" | n where "n \<in> set (vary_names sc)" "v = n" "py_lower n = ''origin''"
      using v origin_of by auto
    then show ?thesis
    proof cases
      case 1
      then show ?thesis using vary_dict_values by fastforce
    next
      case 2
      have "py_lower ''Access-Control-Request-Method'' \<noteq> ''origin''" "py_lower ''Access-Control-Request-Headers'' \<noteq> ''origin''"
        by code_simp+
      then have "v = ''Origin''" using 2 by (auto simp: vary_names_def split: if_splits)
      then show ?thesis using names by simp
    qed
  qed
  have "py_split (CHR '','') (py_join '', '' (map snd vary)) = hd (map snd vary) # map ((@) '' '') (tl (map snd vary))"
    using v commas by (intro py_split_join) auto
  moreover have "v \<in> set (map snd vary)" using v by force
  then have "v = hd (map snd vary) \<or> v \<in> set (tl (map snd vary))"
    by (cases "map snd vary") auto
  moreover have "py_strip ('' '' @ v) = py_strip v" by (simp add: py_strip_Cons_space py_isspace_def code_def)
  ultimately have "\<exists>token \<in> set (py_split (CHR '','') (py_join '', '' (map snd vary))). py_lower (py_strip token) = ''origin''"
    using low by (elim disjE) (simp_all, metis)
  then show ?thesis by (simp add: varies_on_origin_def vary_value_def Let_def vary_def [symmetric])
qed

subsection \<open>What leaves the middleware\<close>

lemma cors_entries:
  "distinct (map (py_lower \<circ> fst) (origin_entry hs @ policy_entries opts))"
  "\<forall>n \<in> fst ` set (origin_entry hs @ policy_entries opts). py_lower ''vary'' \<noteq> py_lower n"
  by (auto simp: origin_entry_def policy_entries_def split: option.splits)

lemma apply_cors_start:
  assumes "framework_ok fw" "sc_cors sc = Some kvs"
    and "distinct (map (py_lower \<circ> fst) kvs)" "\<forall>n \<in> fst ` set kvs. py_lower ''vary'' \<noteq> py_lower n"
  shows "\<exists>out. apply_cors_response_headers fw sc (ResponseStart st hs) = ResponseStart st out \<and>
    (\<exists>v. headers_getlist fw out ''vary'' = [v] \<and> varies_on_origin v) \<and>
    (\<forall>(n, v) \<in> set kvs. headers_getlist fw out n = [v]) \<and>
    (\<forall>n. py_lower n \<noteq> ''vary'' \<longrightarrow> (\<forall>k \<in> fst ` set kvs. py_lower n \<noteq> py_lower k) \<longrightarrow>
      headers_getlist fw out n = headers_getlist fw hs n)"
proof -
  let ?out = "fold (\<lambda>(name, v) out. headers_set fw out name v) kvs
      (headers_set fw hs ''vary'' (vary_value sc (headers_getlist fw hs ''vary'')))"
  have "apply_cors_response_headers fw sc (ResponseStart st hs) = ResponseStart st ?out"
    using assms(2) by (simp add: apply_cors_response_headers_def)
  moreover have "headers_getlist fw ?out ''vary'' = [vary_value sc (headers_getlist fw hs ''vary'')]"
    using fold_set_other [OF assms(1,4)] framework_set_same [OF assms(1)] by simp
  moreover have "\<forall>(n, v) \<in> set kvs. headers_getlist fw ?out n = [v]"
    using fold_set_in [OF assms(1,3)] by blast
  moreover have "headers_getlist fw ?out n = headers_getlist fw hs n"
    if "py_lower n \<noteq> ''vary''" "\<forall>k \<in> fst ` set kvs. py_lower n \<noteq> py_lower k" for n
    using fold_set_other [OF assms(1) that(2)] framework_set_other [OF assms(1)] that(1) by simp
  ultimately show ?thesis using vary_value_origin by blast
qed

lemma apply_cors_other: "\<not> is_start m \<Longrightarrow> apply_cors_response_headers fw sc m = m"
  by (cases m) (simp_all add: apply_cors_response_headers_def)

lemma cors_sends_only:
  assumes "is_http sc" "cors_decide opts sc = (kvs, decision)"
    and "\<And>st hs. P (apply_cors_response_headers fw (sc \<lparr>sc_cors := Some kvs\<rparr>) (ResponseStart st hs))"
    and "\<And>m. \<not> is_start m \<Longrightarrow> P m"
  shows "sends_only P (cors_call fw ts opts app sc)"
proof -
  have step: "P (apply_cors_response_headers fw (sc \<lparr>sc_cors := Some kvs\<rparr>) m)" for m
  proof (cases "is_start m")
    case True
    then show ?thesis using assms(3) by (cases m) auto
  next
    case False
    then show ?thesis using assms(4) [OF False] apply_cors_other [OF False] by simp
  qed
  have call: "cors_call fw ts opts app sc = map_send (apply_cors_response_headers fw (sc \<lparr>sc_cors := Some kvs\<rparr>))
      (render_http_errors fw ts (case decision of Inl e \<Rightarrow> Raise e
         | Inr _ \<Rightarrow> if sc_method sc = ''OPTIONS'' then empty_response fw 204 else app (sc \<lparr>sc_cors := Some kvs\<rparr>)))"
    using assms(1,2) by (simp add: cors_call_def Let_def)
  show ?thesis unfolding call by (rule map_send_sends_only [where Q = "\<lambda>m. True"]) (simp_all add: step)
qed

subsection \<open>Properties\<close>

text \<open>
  Property C23. A request from an origin that the policy does not list is answered with status
  403 without running the application, and the response names no allowed origin.
\<close>

theorem cors_foreign_origin:
  assumes "framework_ok fw" and "is_http sc" and "header_dict (sc_headers sc) = Inr hs"
    and "\<not> is_allowed_origin opts (dict_get hs ''origin'')"
  shows "sends_only (\<lambda>m. is_start m \<longrightarrow> msg_status m = 403 \<and>
      headers_getlist fw (msg_headers m) ''access-control-allow-origin'' = [])
    (cors_call fw ts opts app sc)"
proof -
  obtain d where dec: "cors_decide opts sc = ([], Inl (HTTPException 403 d []))"
    using assms(3,4) by (simp add: cors_decide_def)
  obtain rh body where rh: "http_exception_handler fw ts (403, d, []) = send_all 403 rh body"
      "fst ` set rh \<subseteq> {''content-length'', ''content-type''}"
    using error_response_start [OF assms(1)] by blast
  let ?sc = "sc \<lparr>sc_cors := Some []\<rparr>"
  have call: "cors_call fw ts opts app sc = map_send (apply_cors_response_headers fw ?sc) (send_all 403 rh body)"
    using assms(2) dec rh(1) by (simp add: cors_call_def render_http_errors_def)
  obtain out where out: "apply_cors_response_headers fw ?sc (ResponseStart 403 rh) = ResponseStart 403 out"
      "headers_getlist fw out ''access-control-allow-origin'' = headers_getlist fw rh ''access-control-allow-origin''"
    using apply_cors_start [OF assms(1), of ?sc "[]" 403 rh] by auto
  have "sends_only (\<lambda>m. m = ResponseStart 403 rh \<or> \<not> is_start m) (send_all 403 rh body)"
    by (intro sends_only_send_all) simp_all
  then show ?thesis
    unfolding call
    by (rule map_send_sends_only [rotated]) (use out no_origin_header [OF assms(1) rh(2)] apply_cors_other in auto)
qed

definition demo_cors :: CORSOptions where
  "demo_cors = new_cors (OriginList [''https://a.example'']) [''GET'', ''OPTIONS''] [''content-type''] [] True 60"

definition demo_foreign :: scope where
  "demo_foreign = demo_scope \<lparr>sc_headers := [(''Origin'', ''https://evil.example'')]\<rparr>"

theorem cors_foreign_origin_witness:
  "sends_only (\<lambda>m. is_start m \<longrightarrow> msg_status m = 403 \<and>
      headers_getlist demo_framework (msg_headers m) ''access-control-allow-origin'' = [])
    (cors_call demo_framework 0 demo_cors (\<lambda>sc. Return) demo_foreign)"
proof (rule cors_foreign_origin)
  show "framework_ok demo_framework" by (rule demo_framework_ok)
  show "is_http demo_foreign" by (simp add: demo_foreign_def demo_scope_def is_http_def)
  show "header_dict (sc_headers demo_foreign) = Inr [(''origin'', ''https://evil.example'')]" by code_simp
  show "\<not> is_allowed_origin demo_cors (dict_get [(''origin'', ''https://evil.example'')] ''origin'')" by code_simp
qed

text \<open>
  Every response to a request with an allowed origin, the application's, a rejection
  or a preflight answer, names exactly that origin; and whatever the request, the \<open>Vary\<close>
  header of every response covers the origin, so caches cannot mix origins.
\<close>

lemma cors_echo_and_vary:
  assumes "framework_ok fw" and "is_http sc" and "header_dict (sc_headers sc) = Inr hs"
  shows "sends_only (\<lambda>m. is_start m \<longrightarrow>
      (\<exists>v. headers_getlist fw (msg_headers m) ''vary'' = [v] \<and> varies_on_origin v) \<and>
      (\<forall>ori. dict_get hs ''origin'' = Some ori \<and> ori \<noteq> [] \<and> is_allowed_origin opts (Some ori) \<longrightarrow>
        headers_getlist fw (msg_headers m) ''access-control-allow-origin'' = [ori]))
    (cors_call fw ts opts app sc)"
proof -
  obtain kvs decision where dec: "cors_decide opts sc = (kvs, decision)" by force
  have kvs: "kvs = [] \<and> \<not> is_allowed_origin opts (dict_get hs ''origin'') \<or>
      kvs = origin_entry hs \<or> kvs = origin_entry hs @ policy_entries opts"
    using dec assms(3) by (auto simp: cors_decide_def Let_def split: if_splits)
  then have wf: "distinct (map (py_lower \<circ> fst) kvs)" "\<forall>n \<in> fst ` set kvs. py_lower ''vary'' \<noteq> py_lower n"
    using cors_entries [of hs opts] by auto
  have origin: "(''access-control-allow-origin'', ori) \<in> set kvs"
    if "dict_get hs ''origin'' = Some ori" "ori \<noteq> []" "is_allowed_origin opts (Some ori)" for ori
    using that kvs by (auto simp: origin_entry_def)
  show ?thesis
  proof (rule cors_sends_only [OF assms(2) dec])
    fix st rh
    obtain out where "apply_cors_response_headers fw (sc \<lparr>sc_cors := Some kvs\<rparr>) (ResponseStart st rh) = ResponseStart st out"
        "\<exists>v. headers_getlist fw out ''vary'' = [v] \<and> varies_on_origin v"
        "\<forall>(n, v) \<in> set kvs. headers_getlist fw out n = [v]"
      using apply_cors_start [OF assms(1) _ wf, of "sc \<lparr>sc_cors := Some kvs\<rparr>" st rh] by auto
    then show "is_start (apply_cors_response_headers fw (sc \<lparr>sc_cors := Some kvs\<rparr>) (ResponseStart st rh)) \<longrightarrow>
      (\<exists>v. headers_getlist fw (msg_headers (apply_cors_response_headers fw (sc \<lparr>sc_cors := Some kvs\<rparr>) (ResponseStart st rh))) ''vary'' = [v] \<and> varies_on_origin v) \<and>
      (\<forall>ori. dict_get hs ''origin'' = Some ori \<and> ori \<noteq> [] \<and> is_allowed_origin opts (Some ori) \<longrightarrow>
        headers_getlist fw (msg_headers (apply_cors_response_headers fw (sc \<lparr>sc_cors := Some kvs\<rparr>) (ResponseStart st rh))) ''access-control-allow-origin'' = [ori])"
      using origin by auto
  qed simp
qed

definition demo_same :: scope where
  "demo_same = demo_scope \<lparr>sc_headers := [(''Origin'', ''https://a.example'')]\<rparr>"

text \<open>
  Preflights never reach the application: an \<open>OPTIONS\<close> request is answered by the
  middleware with 403 or 204, and a preflight from an allowed origin with 204 exactly when the
  requested method and all requested headers are in the policy.
\<close>

lemma cors_preflight:
  assumes "is_http sc" and "sc_method sc = ''OPTIONS''" and "header_dict (sc_headers sc) = Inr hs"
  shows "\<exists>sc' d. cors_call fw ts opts app sc = map_send (apply_cors_response_headers fw sc')
    (if \<not> is_allowed_origin opts (dict_get hs ''origin'') \<or>
        (is_preflight sc hs \<and>
         (the (dict_get hs ''access-control-request-method'') \<notin> set (opts_methods opts) \<or>
          \<not> set (requested_headers hs) \<subseteq> set (map py_lower (opts_allowed_headers opts))))
     then http_exception_handler fw ts (403, d, [])
     else render_http_errors fw ts (empty_response fw 204))"
proof -
  have ref: "preflight_refused opts hs \<longleftrightarrow>
      the (dict_get hs ''access-control-request-method'') \<notin> set (opts_methods opts) \<or>
      \<not> set (requested_headers hs) \<subseteq> set (map py_lower (opts_allowed_headers opts))"
    by (auto simp: preflight_refused_def list_ex_iff)
  consider "\<not> is_allowed_origin opts (dict_get hs ''origin'')"
    | "is_allowed_origin opts (dict_get hs ''origin'')" "is_preflight sc hs \<and> preflight_refused opts hs"
    | "is_allowed_origin opts (dict_get hs ''origin'')" "\<not> (is_preflight sc hs \<and> preflight_refused opts hs)"
    by blast
  then show ?thesis
  proof cases
    case 1
    then have "\<exists>d. cors_call fw ts opts app sc = map_send (apply_cors_response_headers fw (sc \<lparr>sc_cors := Some []\<rparr>))
        (http_exception_handler fw ts (403, d, []))"
      using assms by (auto simp: cors_call_def cors_decide_def render_http_errors_def)
    then show ?thesis using 1 by auto
  next
    case 2
    then have "cors_call fw ts opts app sc = map_send (apply_cors_response_headers fw (sc \<lparr>sc_cors := Some (origin_entry hs)\<rparr>))
        (http_exception_handler fw ts (403, ''CORS preflight method or headers not allowed.'', []))"
      using assms by (simp add: cors_call_def cors_decide_def render_http_errors_def)
    then show ?thesis using 2 ref by auto
  next
    case 3
    then have "cors_call fw ts opts app sc = map_send
        (apply_cors_response_headers fw (sc \<lparr>sc_cors := Some (origin_entry hs @ policy_entries opts)\<rparr>))
        (render_http_errors fw ts (empty_response fw 204))"
      using assms by (auto simp: cors_call_def cors_decide_def)
    then show ?thesis using 3 ref by auto
  qed
qed

end
