(* ===== verification/ItemModels.thy ===== *)
theory ItemModels
  imports Prelude
begin

text \<open>
  Validated values of the item API: prices, revision numbers, identifiers, pagination and the
  request models (\<^verbatim>\<open>app/common/models/price_model.py\<close>, \<^verbatim>\<open>version_model.py\<close>,
  \<^verbatim>\<open>parameters_model.py\<close>, \<^verbatim>\<open>pagination.py\<close> and \<^verbatim>\<open>app/api/v1/items/models/\<close>).

  A request body is a dictionary of Python values. A float carries the decimal that \<^verbatim>\<open>str\<close>
  prints for it, or nothing when it is not finite. A rejected model is \<open>None\<close>: the wording of
  the framework's messages is not modelled, the declared constraints and the validators are.
\<close>

subsection \<open>Python values\<close>

datatype pyval =
    PyNone
  | PyBool bool
  | PyInt int
  | PyFloat "rat option"
  | PyDecimal "rat option"
  | PyStr string
  | PyList "pyval list"
  | PyDict "(string \<times> pyval) list"

type_synonym payload = "(string \<times> pyval) list"

subsection \<open>Prices\<close>

definition MIN_PRICE :: rat where "MIN_PRICE = 1 / 100"
definition MAX_PRICE :: rat where "MAX_PRICE = 9999999999 / 100"

datatype price_error = PriceFormat | PriceType | PriceRange | PricePrecision

definition all_digits :: "string \<Rightarrow> bool" where
  "all_digits s \<longleftrightarrow> s \<noteq> [] \<and> list_all py_isdigit s"

text \<open>\<^verbatim>\<open>re.fullmatch(r'^[0-9]+(?:\.[0-9]{1,2})?$', s)\<close> and the decimal it denotes.\<close>

definition plain_decimal :: "string \<Rightarrow> rat option" where
  "plain_decimal s =
     (case py_split (CHR ''.'') s of
        [whole] \<Rightarrow> if all_digits whole then Some (of_nat (read_digits whole)) else None
      | [whole, fr] \<Rightarrow>
          if all_digits whole \<and> all_digits fr \<and> length fr \<le> 2
          then Some (of_nat (read_digits whole) + of_nat (read_digits fr) / of_nat (10 ^ length fr)) else None
      | _ \<Rightarrow> None)"

text \<open>The decimal a value stands for: \<open>None\<close> inside means not finite.\<close>

definition price_value :: "pyval \<Rightarrow> price_error + rat option" where
  "price_value v =
     (case v of
        PyStr s \<Rightarrow> (case plain_decimal s of None \<Rightarrow> Inl PriceFormat | Some q \<Rightarrow> Inr (Some q))
      | PyInt i \<Rightarrow> Inr (Some (of_int i))
      | PyFloat q \<Rightarrow> Inr q
      | PyDecimal q \<Rightarrow> Inr q
      | _ \<Rightarrow> Inl PriceType)"

definition validate_price :: "pyval \<Rightarrow> price_error + rat" where
  "validate_price v =
     (case price_value v of
        Inl e \<Rightarrow> Inl e
      | Inr None \<Rightarrow> Inl PriceRange
      | Inr (Some price) \<Rightarrow>
          if \<not> (MIN_PRICE \<le> price \<and> price \<le> MAX_PRICE) then Inl PriceRange
          else
            (let cents = of_int (round_half_even (price * 100)) / 100 in
             if price \<noteq> cents then Inl PricePrecision else Inr cents))"

subsection \<open>Revision numbers and identifiers\<close>

definition MAX_VERSION :: int where "MAX_VERSION = 4294967295"

definition normalize_revision_number :: "pyval \<Rightarrow> pyval" where
  "normalize_revision_number v =
     (case v of PyFloat (Some q) \<Rightarrow> if q = of_int (floor q) then PyInt (floor q) else v | _ \<Rightarrow> v)"

text \<open>\<^verbatim>\<open>Field(strict=True, ge=1, le=MAX_VERSION)\<close>: only an integer, and not a Boolean.\<close>

definition validate_version :: "pyval \<Rightarrow> int option" where
  "validate_version v =
     (case normalize_revision_number v of
        PyInt i \<Rightarrow> if 1 \<le> i \<and> i \<le> MAX_VERSION then Some i else None
      | _ \<Rightarrow> None)"

definition valid_entity_id :: "string \<Rightarrow> bool" where
  "valid_entity_id s \<longleftrightarrow> length s = 16 \<and> list_all py_isalnum s"

subsection \<open>Item requests\<close>

record ItemBase =
  ib_name :: string
  ib_price :: rat
  ib_description :: "string option"

definition validate_name :: "pyval \<Rightarrow> string option" where
  "validate_name v =
     (case v of PyStr s \<Rightarrow> if 1 \<le> py_len s \<and> py_len s \<le> 120 then Some s else None | _ \<Rightarrow> None)"

definition validate_description :: "pyval \<Rightarrow> string option option" where
  "validate_description v =
     (case v of
        PyNone \<Rightarrow> Some None
      | PyStr s \<Rightarrow> if py_len s \<le> 500 then Some (Some s) else None
      | _ \<Rightarrow> None)"

definition price_option :: "pyval \<Rightarrow> rat option" where
  "price_option v = (case validate_price v of Inr q \<Rightarrow> Some q | Inl e \<Rightarrow> None)"

definition parse_item_base :: "payload \<Rightarrow> ItemBase option" where
  "parse_item_base body =
     (case (Option.bind (map_of body ''name'') validate_name,
            Option.bind (map_of body ''price'') price_option,
            (case map_of body ''description'' of None \<Rightarrow> Some None | Some v \<Rightarrow> validate_description v)) of
        (Some n, Some p, Some d) \<Rightarrow> Some \<lparr>ib_name = n, ib_price = p, ib_description = d\<rparr>
      | _ \<Rightarrow> None)"

record ReplaceItemRequest = ItemBase +
  rr_expected_version :: int

definition parse_version_input :: "payload \<Rightarrow> int option" where
  "parse_version_input body = Option.bind (map_of body ''expected_version'') validate_version"

definition parse_replace :: "payload \<Rightarrow> ReplaceItemRequest option" where
  "parse_replace body =
     (case (parse_item_base body, parse_version_input body) of
        (Some b, Some v) \<Rightarrow>
          Some \<lparr>ib_name = ib_name b, ib_price = ib_price b, ib_description = ib_description b,
                rr_expected_version = v\<rparr>
      | _ \<Rightarrow> None)"

text \<open>A field that was not sent is \<open>None\<close>; the description may be sent as null.\<close>

record UpdateItemRequest =
  ur_expected_version :: int
  ur_name :: "string option"
  ur_price :: "rat option"
  ur_description :: "string option option"

definition optional_field :: "('a \<Rightarrow> 'b option) \<Rightarrow> 'a option \<Rightarrow> 'b option option" where
  "optional_field f v = (case v of None \<Rightarrow> Some None | Some x \<Rightarrow> map_option Some (f x))"

definition reject_explicit_nulls :: "pyval \<Rightarrow> pyval option" where
  "reject_explicit_nulls v = (if v = PyNone then None else Some v)"

definition parse_update :: "payload \<Rightarrow> UpdateItemRequest option" where
  "parse_update body =
     (case (parse_version_input body,
            optional_field (\<lambda>v. Option.bind (reject_explicit_nulls v) validate_name) (map_of body ''name''),
            optional_field (\<lambda>v. Option.bind (reject_explicit_nulls v) price_option) (map_of body ''price''),
            optional_field validate_description (map_of body ''description'')) of
        (Some v, Some n, Some p, Some d) \<Rightarrow>
          if n = None \<and> p = None \<and> d = None then None
          else Some \<lparr>ur_expected_version = v, ur_name = n, ur_price = p, ur_description = d\<rparr>
      | _ \<Rightarrow> None)"

subsection \<open>Pagination\<close>

definition MAX_SAFE_INTEGER :: int where "MAX_SAFE_INTEGER = 9007199254740991"

datatype ItemSort = CREATED_AT | ITEM_NAME | PRICE

record ItemPaginationQuery =
  pq_page :: int
  pq_limit :: int
  pq_desc :: bool
  pq_search :: "string option"
  pq_sort :: ItemSort
  pq_min_price :: "rat option"
  pq_max_price :: "rat option"

definition offset :: "ItemPaginationQuery \<Rightarrow> int" where
  "offset q = (pq_page q - 1) * pq_limit q"

definition parse_order :: "string \<Rightarrow> bool option" where
  "parse_order s =
     (if py_lower s = ''desc'' then Some True else if py_lower s = ''asc'' then Some False else None)"

definition parse_sort :: "string \<Rightarrow> ItemSort option" where
  "parse_sort s =
     (if s = ''name'' then Some ITEM_NAME else if s = ''price'' then Some PRICE
      else if s = ''createdAt'' then Some CREATED_AT else None)"

definition price_filter :: "pyval option \<Rightarrow> rat option option" where
  "price_filter v = (case v of None \<Rightarrow> Some None | Some PyNone \<Rightarrow> Some None | Some x \<Rightarrow> map_option Some (price_option x))"

text \<open>The query model on typed page and limit values; defaults 1, 25, ascending, by price.\<close>

definition parse_query ::
  "int option \<Rightarrow> int option \<Rightarrow> string option \<Rightarrow> string option \<Rightarrow> string option \<Rightarrow>
   pyval option \<Rightarrow> pyval option \<Rightarrow> ItemPaginationQuery option" where
  "parse_query page limit order_by search sort_by min_price max_price =
     (let page = (case page of None \<Rightarrow> 1 | Some p \<Rightarrow> p); limit = (case limit of None \<Rightarrow> 25 | Some l \<Rightarrow> l) in
      case ((case order_by of None \<Rightarrow> Some False | Some s \<Rightarrow> parse_order s),
            (case sort_by of None \<Rightarrow> Some PRICE | Some s \<Rightarrow> parse_sort s),
            price_filter min_price, price_filter max_price) of
        (Some desc, Some srt, Some lo, Some hi) \<Rightarrow>
          (let q = \<lparr>pq_page = page, pq_limit = limit, pq_desc = desc, pq_search = search, pq_sort = srt,
                    pq_min_price = lo, pq_max_price = hi\<rparr> in
           if \<not> (1 \<le> page \<and> page \<le> MAX_SAFE_INTEGER) \<or> \<not> (1 \<le> limit \<and> limit \<le> 100) then None
           else if offset q > MAX_SAFE_INTEGER then None
           else if lo \<noteq> None \<and> hi \<noteq> None \<and> the lo > the hi then None
           else Some q)
      | _ \<Rightarrow> None)"

definition total_pages :: "int \<Rightarrow> int \<Rightarrow> int" where
  "total_pages tot limit = (if limit = 0 then 1 else max ((tot + limit - 1) div limit) 1)"

subsection \<open>Properties\<close>

lemma validate_price_Inr:
  "validate_price v = Inr q \<longleftrightarrow>
     price_value v = Inr (Some q) \<and> MIN_PRICE \<le> q \<and> q \<le> MAX_PRICE \<and> (\<exists>n. q * 100 = of_int n)"
proof -
  have "q = of_int (round_half_even (q * 100)) / 100 \<longleftrightarrow> (\<exists>n. q * 100 = of_int n)" for q :: rat
  proof
    assume "q = of_int (round_half_even (q * 100)) / 100"
    then have "q * 100 = of_int (round_half_even (q * 100))" by simp
    then show "\<exists>n. q * 100 = of_int n" by blast
  next
    assume "\<exists>n. q * 100 = of_int n"
    then obtain n where n: "q * 100 = of_int n" ..
    then have "q = of_int n / 100" by simp
    moreover have "round_half_even (q * 100) = n" by (simp add: n)
    ultimately show "q = of_int (round_half_even (q * 100)) / 100" by simp
  qed
  then show ?thesis
    by (auto simp: validate_price_def Let_def split: sum.splits option.splits if_splits, metis)
qed

text \<open>
  Prices are exact: a price is accepted exactly when the value denotes a finite
  decimal between 0.01 and 99999999.99 that is a whole number of cents, and the accepted price is
  that decimal, never a rounded one.
\<close>

lemma price_exact:
  "validate_price v = Inr q \<longleftrightarrow>
     price_value v = Inr (Some q) \<and> (\<exists>n. 1 \<le> n \<and> n \<le> 9999999999 \<and> q = of_int n / 100)"
proof -
  have "MIN_PRICE \<le> q \<and> q \<le> MAX_PRICE \<and> (\<exists>n. q * 100 = of_int n) \<longleftrightarrow>
      (\<exists>n. 1 \<le> n \<and> n \<le> 9999999999 \<and> q = of_int n / 100)" (is "?l \<longleftrightarrow> ?r")
  proof
    assume ?l
    then obtain n where n: "q * 100 = of_int n" by blast
    then have q: "q = of_int n / 100" by simp
    have "(1 :: rat) \<le> of_int n" "of_int n \<le> (9999999999 :: rat)"
      using \<open>?l\<close> by (simp_all add: q MIN_PRICE_def MAX_PRICE_def)
    then have "1 \<le> n" "n \<le> 9999999999" by linarith+
    then show ?r using q by blast
  next
    assume ?r
    then obtain n where n: "1 \<le> n" "n \<le> 9999999999" "q = of_int n / 100" by blast
    have "(1 :: rat) \<le> of_int n" "of_int n \<le> (9999999999 :: rat)" using n(1,2) by linarith+
    then show ?l using n(3) by (auto simp: MIN_PRICE_def MAX_PRICE_def)
  qed
  then show ?thesis by (simp add: validate_price_Inr)
qed

lemma total_pages_pos: "1 \<le> total_pages t l"
  by (simp add: total_pages_def)

end
