(* ===== verification/Items.thy ===== *)
theory Items
  imports ItemModels
begin

text \<open>
  Items: the repository (\<^verbatim>\<open>app/database/repositories/item_repo.py\<close>), the service
  (\<^verbatim>\<open>app/api/v1/items/services/item_service.py\<close>) and the handlers
  (\<^verbatim>\<open>app/api/v1/items/controllers/item_controller.py\<close>) over the table of
  \<^verbatim>\<open>app/database/entities/item_orm.py\<close>.

  The table is a list of rows. Operations take the table inside the caller's transaction and
  return the result and the table after them. What the database decides is a parameter: the
  weight \<open>coll\<close> by which it compares and orders strings, and the match \<open>ilike\<close> of a pattern.
  The row lock of \<^verbatim>\<open>SELECT ... FOR UPDATE\<close> makes the operations on one row sequential, so a
  history of requests is a list.
\<close>

subsection \<open>Rows\<close>

record ItemORM =
  item_id :: string
  item_version :: int
  item_name :: string
  item_price :: rat
  item_description :: "string option"
  created_at :: time
  updated_at :: time

type_synonym item_table = "ItemORM list"
type_synonym collation = "string \<Rightarrow> string"

definition alphabet :: string where
  "alphabet = ''0123456789ABCDEFGHIJKLMNOPQRSTUVWXYZabcdefghijklmnopqrstuvwxyz''"

text \<open>\<^verbatim>\<open>generate_id\<close> for the sixteen numbers drawn by \<^verbatim>\<open>secrets.choice\<close>.\<close>

definition generate_id :: "nat list \<Rightarrow> string" where
  "generate_id draws = map (\<lambda>d. alphabet ! (d mod 62)) (take 16 draws)"

subsection \<open>Repository\<close>

definition require_transaction :: "bool \<Rightarrow> unit result" where
  "require_transaction in_tx =
     guardR in_tx (RuntimeError ''Item mutations require a caller-owned transaction.'')"

text \<open>A primary key that is already taken makes the flush fail.\<close>

definition repo_create ::
  "collation \<Rightarrow> bool \<Rightarrow> time \<Rightarrow> string \<Rightarrow> ItemBase \<Rightarrow> item_table \<Rightarrow> ItemORM result \<times> item_table" where
  "repo_create coll in_tx now new_id item_in tbl =
     (case require_transaction in_tx of
        Inl e \<Rightarrow> (Inl e, tbl)
      | Inr _ \<Rightarrow>
          (let item = \<lparr>item_id = new_id, item_version = 1, item_name = ib_name item_in,
                 item_price = ib_price item_in, item_description = ib_description item_in,
                 created_at = now, updated_at = now\<rparr> in
           if list_ex (\<lambda>r. coll (item_id r) = coll new_id) tbl then (Inl (SQLAlchemyError ''IntegrityError''), tbl)
           else (Inr item, tbl @ [item])))"

definition repo_get_by_id :: "collation \<Rightarrow> string \<Rightarrow> item_table \<Rightarrow> ItemORM option" where
  "repo_get_by_id coll i tbl = find (\<lambda>r. coll (item_id r) = coll i) tbl"

definition repo_get_by_id_for_update ::
  "collation \<Rightarrow> bool \<Rightarrow> string \<Rightarrow> item_table \<Rightarrow> ItemORM option result" where
  "repo_get_by_id_for_update coll in_tx i tbl =
     bindR (require_transaction in_tx) (\<lambda>_. Inr (repo_get_by_id coll i tbl))"

text \<open>The columns an update sets; a missing column is left alone.\<close>

record ItemUpdateData =
  ud_name :: "string option"
  ud_price :: "rat option"
  ud_description :: "string option option"

definition apply_update :: "time \<Rightarrow> ItemUpdateData \<Rightarrow> ItemORM \<Rightarrow> ItemORM" where
  "apply_update now d r =
     r \<lparr>item_name := (case ud_name d of Some n \<Rightarrow> n | None \<Rightarrow> item_name r),
        item_price := (case ud_price d of Some p \<Rightarrow> p | None \<Rightarrow> item_price r),
        item_description := (case ud_description d of Some x \<Rightarrow> x | None \<Rightarrow> item_description r),
        item_version := item_version r + 1, updated_at := now\<rparr>"

definition version_conflict :: exn where
  "version_conflict = HTTPException 409 ''Item version conflict; reload the item before retrying.'' []"

definition repo_update ::
  "collation \<Rightarrow> bool \<Rightarrow> time \<Rightarrow> ItemORM \<Rightarrow> ItemUpdateData \<Rightarrow> int \<Rightarrow> item_table \<Rightarrow> ItemORM result \<times> item_table" where
  "repo_update coll in_tx now obj new_data expected_version tbl =
     (case require_transaction in_tx of
        Inl e \<Rightarrow> (Inl e, tbl)
      | Inr _ \<Rightarrow>
          (let hit = (\<lambda>r. coll (item_id r) = coll (item_id obj) \<and> item_version r = expected_version \<and>
                 item_version r < MAX_VERSION) in
           if length (filter hit tbl) \<noteq> 1 then (Inl version_conflict, tbl)
           else
             (let tbl' = map (\<lambda>r. if hit r then apply_update now new_data r else r) tbl in
              case repo_get_by_id coll (item_id obj) tbl' of
                Some r \<Rightarrow> (Inr r, tbl')
              | None \<Rightarrow> (Inl (SQLAlchemyError ''InvalidRequestError''), tbl'))))"

definition repo_delete ::
  "collation \<Rightarrow> bool \<Rightarrow> ItemORM \<Rightarrow> int \<Rightarrow> item_table \<Rightarrow> ItemORM result \<times> item_table" where
  "repo_delete coll in_tx obj expected_version tbl =
     (case require_transaction in_tx of
        Inl e \<Rightarrow> (Inl e, tbl)
      | Inr _ \<Rightarrow>
          (let hit = (\<lambda>r. coll (item_id r) = coll (item_id obj) \<and> item_version r = expected_version) in
           if length (filter hit tbl) \<noteq> 1 then (Inl version_conflict, tbl)
           else (Inr obj, filter (\<lambda>r. \<not> hit r) tbl)))"

subsection \<open>Listing\<close>

record ItemListQuery =
  lq_limit :: nat
  lq_offset :: nat
  lq_search :: "string option"
  lq_sort :: ItemSort
  lq_desc :: bool
  lq_min_price :: "rat option"
  lq_max_price :: "rat option"

definition matches_query :: "(string \<Rightarrow> string \<Rightarrow> bool) \<Rightarrow> ItemListQuery \<Rightarrow> ItemORM \<Rightarrow> bool" where
  "matches_query ilike q r \<longleftrightarrow>
     (case lq_search q of
        None \<Rightarrow> True
      | Some s \<Rightarrow>
          s = [] \<or>
          (let pattern = ''%'' @ py_strip s @ ''%'' in
           ilike (item_name r) pattern \<or>
           (case item_description r of None \<Rightarrow> False | Some d \<Rightarrow> ilike d pattern))) \<and>
     (case lq_min_price q of None \<Rightarrow> True | Some p \<Rightarrow> p \<le> item_price r) \<and>
     (case lq_max_price q of None \<Rightarrow> True | Some p \<Rightarrow> item_price r \<le> p)"

fun sort_less :: "collation \<Rightarrow> ItemSort \<Rightarrow> ItemORM \<Rightarrow> ItemORM \<Rightarrow> bool" where
  "sort_less coll CREATED_AT a b = (created_at a < created_at b)"
| "sort_less coll ITEM_NAME a b = (coll (item_name a) < coll (item_name b))"
| "sort_less coll PRICE a b = (item_price a < item_price b)"

definition sort_le :: "collation \<Rightarrow> ItemSort \<Rightarrow> ItemORM \<Rightarrow> ItemORM \<Rightarrow> bool" where
  "sort_le coll s a b \<longleftrightarrow>
     sort_less coll s a b \<or> (\<not> sort_less coll s b a \<and> coll (item_id a) \<le> coll (item_id b))"

definition order_by :: "collation \<Rightarrow> ItemListQuery \<Rightarrow> ItemORM \<Rightarrow> ItemORM \<Rightarrow> bool" where
  "order_by coll q a b = (if lq_desc q then sort_le coll (lq_sort q) b a else sort_le coll (lq_sort q) a b)"

definition base_query ::
  "collation \<Rightarrow> (string \<Rightarrow> string \<Rightarrow> bool) \<Rightarrow> ItemListQuery \<Rightarrow> item_table \<Rightarrow> ItemORM list" where
  "base_query coll ilike q tbl = isort_by (order_by coll q) (filter (matches_query ilike q) tbl)"

definition find_and_count ::
  "collation \<Rightarrow> (string \<Rightarrow> string \<Rightarrow> bool) \<Rightarrow> ItemListQuery \<Rightarrow> item_table \<Rightarrow> ItemORM list \<times> nat" where
  "find_and_count coll ilike q tbl =
     (let rows = base_query coll ilike q tbl in (take (lq_limit q) (drop (lq_offset q) rows), length rows))"

subsection \<open>Service\<close>

definition not_found :: exn where
  "not_found = HTTPException 404 ''No item exists with the provided identifier.'' []"

definition service_create ::
  "collation \<Rightarrow> bool \<Rightarrow> time \<Rightarrow> string \<Rightarrow> ItemBase \<Rightarrow> item_table \<Rightarrow> ItemORM result \<times> item_table" where
  "service_create coll in_tx now new_id body tbl = repo_create coll in_tx now new_id body tbl"

definition to_list_query :: "ItemPaginationQuery \<Rightarrow> ItemListQuery" where
  "to_list_query q =
     \<lparr>lq_limit = nat (pq_limit q), lq_offset = nat (offset q), lq_search = pq_search q,
      lq_sort = pq_sort q, lq_desc = pq_desc q, lq_min_price = pq_min_price q, lq_max_price = pq_max_price q\<rparr>"

definition service_get_all ::
  "collation \<Rightarrow> (string \<Rightarrow> string \<Rightarrow> bool) \<Rightarrow> ItemPaginationQuery \<Rightarrow> item_table \<Rightarrow> ItemORM list \<times> nat" where
  "service_get_all coll ilike q tbl = find_and_count coll ilike (to_list_query q) tbl"

definition service_get :: "collation \<Rightarrow> string \<Rightarrow> item_table \<Rightarrow> ItemORM result" where
  "service_get coll i tbl = (case repo_get_by_id coll i tbl of None \<Rightarrow> Inl not_found | Some r \<Rightarrow> Inr r)"

definition mutation_item :: "collation \<Rightarrow> bool \<Rightarrow> string \<Rightarrow> int \<Rightarrow> item_table \<Rightarrow> ItemORM result" where
  "mutation_item coll in_tx i expected_version tbl =
     bindR (repo_get_by_id_for_update coll in_tx i tbl) (\<lambda>found.
       case found of
         None \<Rightarrow> Inl not_found
       | Some r \<Rightarrow> if item_version r \<noteq> expected_version then Inl version_conflict else Inr r)"

definition service_update ::
  "collation \<Rightarrow> bool \<Rightarrow> time \<Rightarrow> string \<Rightarrow> UpdateItemRequest \<Rightarrow> item_table \<Rightarrow> ItemORM result \<times> item_table" where
  "service_update coll in_tx now i body tbl =
     (case mutation_item coll in_tx i (ur_expected_version body) tbl of
        Inl e \<Rightarrow> (Inl e, tbl)
      | Inr item \<Rightarrow>
          repo_update coll in_tx now item
            \<lparr>ud_name = ur_name body, ud_price = ur_price body, ud_description = ur_description body\<rparr>
            (ur_expected_version body) tbl)"

definition service_replace ::
  "collation \<Rightarrow> bool \<Rightarrow> time \<Rightarrow> string \<Rightarrow> ReplaceItemRequest \<Rightarrow> item_table \<Rightarrow> ItemORM result \<times> item_table" where
  "service_replace coll in_tx now i body tbl =
     (case mutation_item coll in_tx i (rr_expected_version body) tbl of
        Inl e \<Rightarrow> (Inl e, tbl)
      | Inr item \<Rightarrow>
          repo_update coll in_tx now item
            \<lparr>ud_name = Some (ib_name body), ud_price = Some (ib_price body),
             ud_description = Some (ib_description body)\<rparr>
            (rr_expected_version body) tbl)"

definition service_delete ::
  "collation \<Rightarrow> bool \<Rightarrow> string \<Rightarrow> int \<Rightarrow> item_table \<Rightarrow> ItemORM result \<times> item_table" where
  "service_delete coll in_tx i expected_version tbl =
     (case mutation_item coll in_tx i expected_version tbl of
        Inl e \<Rightarrow> (Inl e, tbl)
      | Inr item \<Rightarrow> repo_delete coll in_tx item expected_version tbl)"

subsection \<open>Handlers\<close>

text \<open>\<^verbatim>\<open>ItemResponse.model_validate\<close>: a row that breaks the response model is a server error.\<close>

definition response_ok :: "ItemORM \<Rightarrow> bool" where
  "response_ok r \<longleftrightarrow>
     valid_entity_id (item_id r) \<and> 1 \<le> item_version r \<and> item_version r \<le> MAX_VERSION \<and>
     1 \<le> py_len (item_name r) \<and> py_len (item_name r) \<le> 120 \<and>
     validate_price (PyDecimal (Some (item_price r))) = Inr (item_price r) \<and>
     (case item_description r of None \<Rightarrow> True | Some d \<Rightarrow> py_len d \<le> 500)"

definition item_response :: "ItemORM \<Rightarrow> ItemORM result" where
  "item_response r = bindR (guardR (response_ok r) (ValueError ''ValidationError'')) (\<lambda>_. Inr r)"

definition respond :: "ItemORM result \<times> item_table \<Rightarrow> ItemORM result \<times> item_table" where
  "respond rt = (bindR (fst rt) item_response, snd rt)"

definition handle_create ::
  "collation \<Rightarrow> bool \<Rightarrow> time \<Rightarrow> string \<Rightarrow> ItemBase \<Rightarrow> item_table \<Rightarrow> ItemORM result \<times> item_table" where
  "handle_create coll in_tx now new_id body tbl = respond (service_create coll in_tx now new_id body tbl)"

definition handle_get :: "collation \<Rightarrow> string \<Rightarrow> item_table \<Rightarrow> ItemORM result" where
  "handle_get coll i tbl = bindR (service_get coll i tbl) item_response"

record PaginatedResult =
  pr_data :: "ItemORM list"
  pr_total :: nat
  pr_page :: int
  pr_limit :: int

fun collect_responses :: "ItemORM list \<Rightarrow> ItemORM list result" where
  "collect_responses [] = Inr []"
| "collect_responses (r # rs) = bindR (item_response r) (\<lambda>x. bindR (collect_responses rs) (\<lambda>xs. Inr (x # xs)))"

definition handle_get_all ::
  "collation \<Rightarrow> (string \<Rightarrow> string \<Rightarrow> bool) \<Rightarrow> ItemPaginationQuery \<Rightarrow> item_table \<Rightarrow> PaginatedResult result" where
  "handle_get_all coll ilike q tbl =
     (case service_get_all coll ilike q tbl of (rows, count) \<Rightarrow>
        bindR (collect_responses rows) (\<lambda>xs.
          Inr \<lparr>pr_data = xs, pr_total = count, pr_page = pq_page q, pr_limit = pq_limit q\<rparr>))"

definition handle_update ::
  "collation \<Rightarrow> bool \<Rightarrow> time \<Rightarrow> string \<Rightarrow> UpdateItemRequest \<Rightarrow> item_table \<Rightarrow> ItemORM result \<times> item_table" where
  "handle_update coll in_tx now i body tbl = respond (service_update coll in_tx now i body tbl)"

definition handle_replace ::
  "collation \<Rightarrow> bool \<Rightarrow> time \<Rightarrow> string \<Rightarrow> ReplaceItemRequest \<Rightarrow> item_table \<Rightarrow> ItemORM result \<times> item_table" where
  "handle_replace coll in_tx now i body tbl = respond (service_replace coll in_tx now i body tbl)"

definition handle_delete ::
  "collation \<Rightarrow> bool \<Rightarrow> string \<Rightarrow> int \<Rightarrow> item_table \<Rightarrow> ItemORM result \<times> item_table" where
  "handle_delete coll in_tx i expected_version tbl = respond (service_delete coll in_tx i expected_version tbl)"

subsection \<open>Invariants\<close>

definition unique_ids :: "collation \<Rightarrow> item_table \<Rightarrow> bool" where
  "unique_ids coll tbl \<longleftrightarrow> distinct (map (coll \<circ> item_id) tbl)"

definition table_ok :: "collation \<Rightarrow> item_table \<Rightarrow> bool" where
  "table_ok coll tbl \<longleftrightarrow> unique_ids coll tbl \<and> list_all response_ok tbl"

text \<open>What the request models guarantee.\<close>

definition base_ok :: "('a) ItemBase_scheme \<Rightarrow> bool" where
  "base_ok b \<longleftrightarrow>
     1 \<le> py_len (ib_name b) \<and> py_len (ib_name b) \<le> 120 \<and>
     validate_price (PyDecimal (Some (ib_price b))) = Inr (ib_price b) \<and>
     (case ib_description b of None \<Rightarrow> True | Some d \<Rightarrow> py_len d \<le> 500)"

definition update_ok :: "UpdateItemRequest \<Rightarrow> bool" where
  "update_ok u \<longleftrightarrow>
     (case ur_name u of None \<Rightarrow> True | Some n \<Rightarrow> 1 \<le> py_len n \<and> py_len n \<le> 120) \<and>
     (case ur_price u of None \<Rightarrow> True | Some p \<Rightarrow> validate_price (PyDecimal (Some p)) = Inr p) \<and>
     (case ur_description u of Some (Some d) \<Rightarrow> py_len d \<le> 500 | _ \<Rightarrow> True) \<and>
     (ur_name u \<noteq> None \<or> ur_price u \<noteq> None \<or> ur_description u \<noteq> None)"

lemma price_option_ok: "price_option v = Some q \<Longrightarrow> validate_price (PyDecimal (Some q)) = Inr q"
  by (auto simp: price_option_def validate_price_Inr price_value_def split: sum.splits)

lemma parse_item_base_ok: "parse_item_base body = Some b \<Longrightarrow> base_ok b"
  by (auto simp: parse_item_base_def base_ok_def validate_name_def validate_description_def bind_eq_Some_conv
      dest!: price_option_ok split: option.splits pyval.splits if_splits)

lemma parse_replace_ok: "parse_replace body = Some b \<Longrightarrow> base_ok b"
  using parse_item_base_ok [of body] by (auto simp: parse_replace_def base_ok_def split: option.splits)

lemma validate_name_ok: "validate_name v = Some n \<Longrightarrow> 1 \<le> py_len n \<and> py_len n \<le> 120"
  by (auto simp: validate_name_def split: pyval.splits if_splits)

lemma validate_description_ok: "validate_description v = Some (Some d) \<Longrightarrow> py_len d \<le> 500"
  by (auto simp: validate_description_def split: pyval.splits if_splits)

lemma optional_field_Some:
  "optional_field f v = Some (Some y) \<longleftrightarrow> (\<exists>x. v = Some x \<and> f x = Some y)"
  by (auto simp: optional_field_def split: option.splits)

lemma parse_update_ok:
  assumes "parse_update body = Some u"
  shows "update_ok u"
proof -
  obtain v n p d where u: "u = \<lparr>ur_expected_version = v, ur_name = n, ur_price = p, ur_description = d\<rparr>"
    and n: "optional_field (\<lambda>v. Option.bind (reject_explicit_nulls v) validate_name) (map_of body ''name'') = Some n"
    and p: "optional_field (\<lambda>v. Option.bind (reject_explicit_nulls v) price_option) (map_of body ''price'') = Some p"
    and d: "optional_field validate_description (map_of body ''description'') = Some d"
    and ne: "\<not> (n = None \<and> p = None \<and> d = None)"
    using assms unfolding parse_update_def by (auto split: option.splits if_splits)
  have "case n of None \<Rightarrow> True | Some x \<Rightarrow> 1 \<le> py_len x \<and> py_len x \<le> 120"
    using n by (cases n) (auto simp: optional_field_Some bind_eq_Some_conv dest!: validate_name_ok)
  moreover have "case p of None \<Rightarrow> True | Some x \<Rightarrow> validate_price (PyDecimal (Some x)) = Inr x"
    using p by (cases p) (auto simp: optional_field_Some bind_eq_Some_conv dest!: price_option_ok)
  moreover have "case d of Some (Some x) \<Rightarrow> py_len x \<le> 500 | _ \<Rightarrow> True"
    using d by (auto simp: optional_field_Some dest!: validate_description_ok split: option.splits)
  ultimately show ?thesis using ne by (auto simp: u update_ok_def)
qed

lemma find_unique:
  assumes "unique_ids coll tbl" "r \<in> set tbl"
  shows "repo_get_by_id coll (item_id r) tbl = Some r"
  using assms unfolding repo_get_by_id_def unique_ids_def by (induction tbl) (auto simp: image_iff)

lemma find_Some:
  assumes "repo_get_by_id coll i tbl = Some r"
  shows "r \<in> set tbl" "coll (item_id r) = coll i"
  using assms unfolding repo_get_by_id_def by (auto simp: find_Some_iff)

lemma hit_unique:
  assumes "unique_ids coll tbl" "r \<in> set tbl"
  shows "filter (\<lambda>x. coll (item_id x) = coll (item_id r) \<and> Q x) tbl = (if Q r then [r] else [])"
  using assms unfolding unique_ids_def by (induction tbl) (auto simp: filter_empty_conv image_iff)

lemma apply_update_simps [simp]:
  "item_id (apply_update now d r) = item_id r" "item_version (apply_update now d r) = item_version r + 1"
  by (simp_all add: apply_update_def)

definition set_row :: "collation \<Rightarrow> ItemORM \<Rightarrow> item_table \<Rightarrow> item_table" where
  "set_row coll r tbl = map (\<lambda>x. if coll (item_id x) = coll (item_id r) then r else x) tbl"

definition drop_row :: "collation \<Rightarrow> string \<Rightarrow> item_table \<Rightarrow> item_table" where
  "drop_row coll i tbl = filter (\<lambda>x. coll (item_id x) \<noteq> coll i) tbl"

lemma unique_ids_set_row: "unique_ids coll (set_row coll r tbl) \<longleftrightarrow> unique_ids coll tbl"
proof -
  have "map (coll \<circ> item_id) (set_row coll r tbl) = map (coll \<circ> item_id) tbl"
    by (auto simp: set_row_def)
  then show ?thesis by (simp add: unique_ids_def)
qed

lemma unique_ids_drop_row: "unique_ids coll tbl \<Longrightarrow> unique_ids coll (drop_row coll i tbl)"
  by (simp add: unique_ids_def drop_row_def distinct_map_filter)

lemma repo_update_cases:
  assumes "unique_ids coll tbl" "r \<in> set tbl"
  shows "repo_update coll True now r d v tbl =
    (if item_version r = v \<and> v < MAX_VERSION
     then (Inr (apply_update now d r), set_row coll (apply_update now d r) tbl)
     else (Inl version_conflict, tbl))"
proof -
  let ?hit = "\<lambda>x. coll (item_id x) = coll (item_id r) \<and> item_version x = v \<and> item_version x < MAX_VERSION"
  have hits: "filter ?hit tbl = (if item_version r = v \<and> v < MAX_VERSION then [r] else [])"
    using hit_unique [OF assms, of "\<lambda>x. item_version x = v \<and> item_version x < MAX_VERSION"] by auto
  show ?thesis
  proof (cases "item_version r = v \<and> v < MAX_VERSION")
    case True
    have same: "x = r" if "x \<in> set tbl" "coll (item_id x) = coll (item_id r)" for x
      using find_unique [OF assms(1) that(1)] find_unique [OF assms] that(2) by (simp add: repo_get_by_id_def)
    then have upd: "map (\<lambda>x. if ?hit x then apply_update now d x else x) tbl = set_row coll (apply_update now d r) tbl"
      using True by (auto simp: set_row_def)
    have "apply_update now d r \<in> set (set_row coll (apply_update now d r) tbl)"
      using assms(2) by (force simp: set_row_def)
    then have "repo_get_by_id coll (item_id r) (set_row coll (apply_update now d r) tbl) = Some (apply_update now d r)"
      using find_unique [of coll "set_row coll (apply_update now d r) tbl"] assms(1) by (fastforce simp: unique_ids_set_row)
    then show ?thesis using True hits upd by (simp add: repo_update_def require_transaction_def Let_def)
  next
    case False
    then show ?thesis using hits by (auto simp: repo_update_def require_transaction_def Let_def)
  qed
qed

lemma repo_delete_cases:
  assumes "unique_ids coll tbl" "r \<in> set tbl"
  shows "repo_delete coll True r v tbl =
    (if item_version r = v then (Inr r, drop_row coll (item_id r) tbl) else (Inl version_conflict, tbl))"
proof -
  let ?hit = "\<lambda>x. coll (item_id x) = coll (item_id r) \<and> item_version x = v"
  have hits: "filter ?hit tbl = (if item_version r = v then [r] else [])"
    using hit_unique [OF assms, of "\<lambda>x. item_version x = v"] by auto
  have same: "x = r" if "x \<in> set tbl" "coll (item_id x) = coll (item_id r)" for x
    using find_unique [OF assms(1) that(1)] find_unique [OF assms] that(2) by (simp add: repo_get_by_id_def)
  show ?thesis
  proof (cases "item_version r = v")
    case True
    then have "filter (\<lambda>x. \<not> ?hit x) tbl = drop_row coll (item_id r) tbl"
      unfolding drop_row_def using same by (intro filter_cong) auto
    then show ?thesis using True hits by (simp add: repo_delete_def require_transaction_def Let_def)
  next
    case False
    then show ?thesis using hits by (auto simp: repo_delete_def require_transaction_def Let_def)
  qed
qed

subsection \<open>Mutations\<close>

datatype mutation =
    Update UpdateItemRequest
  | Replace ReplaceItemRequest
  | Delete int

fun expected_version :: "mutation \<Rightarrow> int" where
  "expected_version (Update u) = ur_expected_version u"
| "expected_version (Replace b) = rr_expected_version b"
| "expected_version (Delete v) = v"

fun mutate :: "collation \<Rightarrow> time \<Rightarrow> string \<Rightarrow> mutation \<Rightarrow> item_table \<Rightarrow> ItemORM result \<times> item_table" where
  "mutate coll now i (Update u) tbl = service_update coll True now i u tbl"
| "mutate coll now i (Replace b) tbl = service_replace coll True now i b tbl"
| "mutate coll now i (Delete v) tbl = service_delete coll True i v tbl"

text \<open>The columns a mutation sets; a replacement without a description clears it.\<close>

fun update_data :: "mutation \<Rightarrow> ItemUpdateData option" where
  "update_data (Update u) = Some \<lparr>ud_name = ur_name u, ud_price = ur_price u, ud_description = ur_description u\<rparr>"
| "update_data (Replace b) =
     Some \<lparr>ud_name = Some (ib_name b), ud_price = Some (ib_price b), ud_description = Some (ib_description b)\<rparr>"
| "update_data (Delete v) = None"

lemma mutation_item_cases:
  "mutation_item coll True i v tbl =
     (case repo_get_by_id coll i tbl of
        None \<Rightarrow> Inl not_found
      | Some r \<Rightarrow> if item_version r = v then Inr r else Inl version_conflict)"
  by (auto simp: mutation_item_def repo_get_by_id_for_update_def require_transaction_def split: option.splits)

lemma mutate_cases:
  assumes "unique_ids coll tbl"
  shows "mutate coll now i m tbl =
    (case repo_get_by_id coll i tbl of
       None \<Rightarrow> (Inl not_found, tbl)
     | Some r \<Rightarrow>
         if item_version r \<noteq> expected_version m then (Inl version_conflict, tbl)
         else
           (case update_data m of
              None \<Rightarrow> (Inr r, drop_row coll i tbl)
            | Some d \<Rightarrow>
                if item_version r < MAX_VERSION
                then (Inr (apply_update now d r), set_row coll (apply_update now d r) tbl)
                else (Inl version_conflict, tbl)))"
proof (cases "repo_get_by_id coll i tbl")
  case None
  then show ?thesis
    by (cases m) (simp_all add: service_update_def service_replace_def service_delete_def mutation_item_cases)
next
  case (Some r)
  note r = find_Some [OF Some]
  have "drop_row coll (item_id r) tbl = drop_row coll i tbl" using r(2) by (simp add: drop_row_def)
  then show ?thesis using Some
    by (cases m) (auto simp: service_update_def service_replace_def service_delete_def mutation_item_cases
        repo_update_cases [OF assms r(1)] repo_delete_cases [OF assms r(1)])
qed

lemma unique_ids_mutate: "unique_ids coll tbl \<Longrightarrow> unique_ids coll (snd (mutate coll now i m tbl))"
  by (subst mutate_cases) (auto simp: unique_ids_set_row unique_ids_drop_row split: option.splits)

text \<open>A sequence of mutations, and the (item, version) pairs that were accepted.\<close>

fun run_mutations :: "collation \<Rightarrow> item_table \<Rightarrow> (time \<times> string \<times> mutation) list \<Rightarrow>
    ItemORM result list \<times> item_table" where
  "run_mutations coll tbl [] = ([], tbl)"
| "run_mutations coll tbl ((now, i, m) # ms) =
     (case mutate coll now i m tbl of (r, tbl') \<Rightarrow> apfst (Cons r) (run_mutations coll tbl' ms))"

fun accepted :: "collation \<Rightarrow> item_table \<Rightarrow> (time \<times> string \<times> mutation) list \<Rightarrow> (string \<times> int) list" where
  "accepted coll tbl [] = []"
| "accepted coll tbl ((now, i, m) # ms) =
     (case mutate coll now i m tbl of
        (Inr r, tbl') \<Rightarrow> (coll i, expected_version m) # accepted coll tbl' ms
      | (Inl e, tbl') \<Rightarrow> accepted coll tbl' ms)"

lemma repo_get_set_row_other:
  "coll j \<noteq> coll (item_id r) \<Longrightarrow> repo_get_by_id coll j (set_row coll r tbl) = repo_get_by_id coll j tbl"
  unfolding repo_get_by_id_def set_row_def by (induction tbl) auto

lemma repo_get_set_row_same:
  "coll j = coll (item_id r) \<Longrightarrow> repo_get_by_id coll j tbl \<noteq> None \<Longrightarrow>
     repo_get_by_id coll j (set_row coll r tbl) = Some r"
  unfolding repo_get_by_id_def set_row_def by (induction tbl) (auto split: if_splits)

lemma repo_get_set_row:
  assumes "repo_get_by_id coll i tbl = Some r" "item_id r' = item_id r"
  shows "repo_get_by_id coll j (set_row coll r' tbl) =
    (if coll j = coll i then Some r' else repo_get_by_id coll j tbl)"
proof (cases "coll j = coll i")
  case True
  then have "repo_get_by_id coll j tbl \<noteq> None" using assms(1) by (simp add: repo_get_by_id_def)
  then show ?thesis using True assms(2) find_Some(2) [OF assms(1)] repo_get_set_row_same by simp
next
  case False
  then show ?thesis using assms(2) find_Some(2) [OF assms(1)] repo_get_set_row_other by simp
qed

lemma repo_get_drop_row:
  "repo_get_by_id coll j (drop_row coll i tbl) =
    (if coll j = coll i then None else repo_get_by_id coll j tbl)"
  unfolding repo_get_by_id_def drop_row_def by (induction tbl) auto

text \<open>An accepted mutation had the row at its expected version and moved it past that version.\<close>

lemma mutate_accepted:
  assumes "unique_ids coll tbl" "mutate coll now i m tbl = (Inr x, tbl')"
  shows "\<exists>r. repo_get_by_id coll i tbl = Some r \<and> item_version r = expected_version m"
    and "repo_get_by_id coll j tbl' = Some r' \<Longrightarrow>
      (if coll j = coll i then item_version r' = expected_version m + 1 else repo_get_by_id coll j tbl = Some r')"
proof -
  obtain r where r: "repo_get_by_id coll i tbl = Some r" "item_version r = expected_version m"
    using assms by (auto simp: mutate_cases split: option.splits if_splits)
  then show "\<exists>r. repo_get_by_id coll i tbl = Some r \<and> item_version r = expected_version m" by blast
  assume j: "repo_get_by_id coll j tbl' = Some r'"
  show "if coll j = coll i then item_version r' = expected_version m + 1 else repo_get_by_id coll j tbl = Some r'"
  proof (cases "update_data m")
    case None
    then have "tbl' = drop_row coll i tbl" using assms r by (simp add: mutate_cases)
    then show ?thesis using j by (simp add: repo_get_drop_row split: if_splits)
  next
    case (Some d)
    then have "tbl' = set_row coll (apply_update now d r) tbl" using assms r by (auto simp: mutate_cases split: if_splits)
    then show ?thesis using j r(2) repo_get_set_row [OF r(1), of "apply_update now d r" j]
      by (auto split: if_splits)
  qed
qed

lemma mutate_rejected: "unique_ids coll tbl \<Longrightarrow> mutate coll now i m tbl = (Inl e, tbl') \<Longrightarrow> tbl' = tbl"
  by (auto simp: mutate_cases split: option.splits if_splits)

lemma accepted_versions:
  assumes "unique_ids coll tbl" "(k, v) \<in> set (accepted coll tbl ms)"
  shows "\<exists>i r. k = coll i \<and> repo_get_by_id coll i tbl = Some r \<and> item_version r \<le> v"
  using assms
proof (induction ms arbitrary: tbl)
  case (Cons step ms)
  obtain now i m where step: "step = (now, i, m)" by (cases step)
  obtain res tbl' where mut: "mutate coll now i m tbl = (res, tbl')" by force
  have uniq: "unique_ids coll tbl'" using unique_ids_mutate [OF Cons.prems(1), of now i m] mut by simp
  show ?case
  proof (cases res)
    case (Inl e)
    then show ?thesis using Cons mut step mutate_rejected [OF Cons.prems(1)] uniq by fastforce
  next
    case (Inr x)
    note acc = mutate_accepted [OF Cons.prems(1) mut [unfolded Inr]]
    have "(k, v) = (coll i, expected_version m) \<or> (k, v) \<in> set (accepted coll tbl' ms)"
      using Cons.prems(2) mut step Inr by simp
    then show ?thesis
    proof
      assume "(k, v) = (coll i, expected_version m)"
      then show ?thesis using acc(1) by force
    next
      assume "(k, v) \<in> set (accepted coll tbl' ms)"
      then obtain j r' where j: "k = coll j" "repo_get_by_id coll j tbl' = Some r'" "item_version r' \<le> v"
        using Cons.IH [OF uniq] by blast
      show ?thesis
      proof (cases "coll j = coll i")
        case True
        then have "item_version r' = expected_version m + 1" using acc(2) [OF j(2)] by simp
        moreover obtain r where "repo_get_by_id coll i tbl = Some r" "item_version r = expected_version m"
          using acc(1) by blast
        ultimately show ?thesis using True j(1,3) by (intro exI [of _ i] exI [of _ r]) simp
      next
        case False
        then have "repo_get_by_id coll j tbl = Some r'" using acc(2) [OF j(2)] by simp
        then show ?thesis using j by blast
      qed
    qed
  qed
qed simp

subsection \<open>Reachable tables\<close>

text \<open>The tables that sequences of requests produce from an empty one.\<close>

inductive item_states :: "collation \<Rightarrow> item_table \<Rightarrow> bool" for coll where
  empty_table: "item_states coll []"
| after_create: "item_states coll tbl \<Longrightarrow> length draws = 16 \<Longrightarrow> parse_item_base body = Some b \<Longrightarrow>
    item_states coll (snd (handle_create coll True now (generate_id draws) b tbl))"
| after_update: "item_states coll tbl \<Longrightarrow> parse_update body = Some u \<Longrightarrow>
    item_states coll (snd (handle_update coll True now i u tbl))"
| after_replace: "item_states coll tbl \<Longrightarrow> parse_replace body = Some b \<Longrightarrow>
    item_states coll (snd (handle_replace coll True now i b tbl))"
| after_delete: "item_states coll tbl \<Longrightarrow> parse_version_input body = Some v \<Longrightarrow>
    item_states coll (snd (handle_delete coll True i v tbl))"

lemma alphabet_alnum: "list_all py_isalnum alphabet" "length alphabet = 62"
  by code_simp+

lemma generate_id_valid: "length draws = 16 \<Longrightarrow> valid_entity_id (generate_id draws)"
  using alphabet_alnum by (auto simp: valid_entity_id_def generate_id_def list_all_iff)

lemma response_ok_update:
  assumes "response_ok r" "update_ok u" "item_version r < MAX_VERSION"
  shows "response_ok (apply_update now \<lparr>ud_name = ur_name u, ud_price = ur_price u, ud_description = ur_description u\<rparr> r)"
  using assms by (auto simp: response_ok_def update_ok_def apply_update_def split: option.splits)

lemma response_ok_replace:
  assumes "response_ok r" "base_ok b" "item_version r < MAX_VERSION"
  shows "response_ok (apply_update now \<lparr>ud_name = Some (ib_name b), ud_price = Some (ib_price b), ud_description = Some (ib_description b)\<rparr> r)"
  using assms by (auto simp: response_ok_def base_ok_def apply_update_def)

lemma table_ok_set_row: "table_ok coll tbl \<Longrightarrow> response_ok r \<Longrightarrow> table_ok coll (set_row coll r tbl)"
  by (auto simp: table_ok_def unique_ids_set_row) (auto simp: set_row_def list_all_iff)

lemma table_ok_drop_row: "table_ok coll tbl \<Longrightarrow> table_ok coll (drop_row coll i tbl)"
  by (auto simp: table_ok_def unique_ids_drop_row) (auto simp: drop_row_def list_all_iff)

lemma snd_respond [simp]: "snd (respond x) = snd x"
  by (simp add: respond_def)

lemma table_ok_get: "table_ok coll tbl \<Longrightarrow> repo_get_by_id coll i tbl = Some r \<Longrightarrow> response_ok r"
  using find_Some(1) by (fastforce simp: table_ok_def list_all_iff)

lemma table_ok_create:
  assumes "table_ok coll tbl" "base_ok b" "valid_entity_id new_id"
  shows "table_ok coll (snd (service_create coll True now new_id b tbl))"
  using assms
  by (auto simp: service_create_def repo_create_def require_transaction_def Let_def table_ok_def unique_ids_def
      response_ok_def base_ok_def MAX_VERSION_def list_ex_iff)

lemma table_ok_mutate:
  assumes "table_ok coll tbl" "\<And>r d. update_data m = Some d \<Longrightarrow> response_ok r \<Longrightarrow>
      item_version r < MAX_VERSION \<Longrightarrow> response_ok (apply_update now d r)"
  shows "table_ok coll (snd (mutate coll now i m tbl))"
proof -
  have "unique_ids coll tbl" using assms(1) by (simp add: table_ok_def)
  then show ?thesis
    using assms table_ok_get [OF assms(1), of i]
    by (auto simp: mutate_cases table_ok_set_row table_ok_drop_row split: option.splits)
qed

lemma item_states_ok: "item_states coll tbl \<Longrightarrow> table_ok coll tbl"
proof (induction rule: item_states.induct)
  case empty_table
  then show ?case by (simp add: table_ok_def unique_ids_def)
next
  case (after_create tbl draws body b now)
  then show ?case using table_ok_create parse_item_base_ok generate_id_valid by (simp add: handle_create_def)
next
  case (after_update tbl body u now i)
  then show ?case
    using table_ok_mutate [of coll tbl "Update u" now i] response_ok_update parse_update_ok
    by (auto simp: handle_update_def)
next
  case (after_replace tbl body b now i)
  then show ?case
    using table_ok_mutate [of coll tbl "Replace b" now i] response_ok_replace [OF _ parse_replace_ok [OF after_replace(2)]]
    by (auto simp: handle_replace_def)
next
  case (after_delete tbl body v i)
  then show ?case using table_ok_mutate [of coll tbl "Delete v" undefined i] by (simp add: handle_delete_def)
qed

lemma collect_responses_ok: "list_all response_ok rs \<Longrightarrow> collect_responses rs = Inr rs"
  by (induction rs) (simp_all add: item_response_def)

subsection \<open>Pages\<close>

lemma sort_le_total: "sort_le coll s a b \<or> sort_le coll s b a"
  by (auto simp: sort_le_def)

lemma sort_less_weak:
  "sort_less coll s a b \<Longrightarrow> \<not> sort_less coll s b a"
  "sort_less coll s a b \<Longrightarrow> \<not> sort_less coll s c b \<Longrightarrow> sort_less coll s a c"
  "\<not> sort_less coll s b a \<Longrightarrow> sort_less coll s b c \<Longrightarrow> sort_less coll s a c"
  "\<not> sort_less coll s b a \<Longrightarrow> \<not> sort_less coll s c b \<Longrightarrow> \<not> sort_less coll s c a"
  by (cases s; auto)+

lemma sort_le_trans: "sort_le coll s a b \<Longrightarrow> sort_le coll s b c \<Longrightarrow> sort_le coll s a c"
  unfolding sort_le_def using sort_less_weak by (meson order_trans)

lemma order_by_total: "order_by coll q a b \<or> order_by coll q b a"
  by (auto simp: order_by_def sort_le_total)

lemma order_by_trans: "order_by coll q a b \<Longrightarrow> order_by coll q b c \<Longrightarrow> order_by coll q a c"
  by (auto simp: order_by_def split: if_splits intro: sort_le_trans)

lemma sorted_base_query: "sorted_wrt (order_by coll q) (base_query coll ilike q tbl)"
  unfolding base_query_def by (rule sorted_isort_by [OF order_by_total order_by_trans])

lemma concat_pages:
  "concat (map (\<lambda>p. take n (drop (p * n) xs)) [0..<k]) = take (k * n) xs"
proof (induction k)
  case (Suc k)
  have "take (k * n + n) xs = take (k * n) xs @ take n (drop (k * n) xs)" by (rule take_add)
  then show ?case using Suc by (simp add: add.commute)
qed simp

lemma service_page:
  assumes "1 \<le> pq_limit q"
  shows "fst (service_get_all coll ilike (q \<lparr>pq_page := int p + 1\<rparr>) tbl) =
    take (nat (pq_limit q)) (drop (p * nat (pq_limit q)) (base_query coll ilike (to_list_query q) tbl))"
proof -
  have "nat (offset (q \<lparr>pq_page := int p + 1\<rparr>)) = p * nat (pq_limit q)"
    using assms by (simp add: offset_def nat_mult_distrib)
  moreover have "base_query coll ilike (to_list_query (q \<lparr>pq_page := int p + 1\<rparr>)) tbl = base_query coll ilike (to_list_query q) tbl"
    by (simp add: base_query_def to_list_query_def order_by_def [abs_def] matches_query_def [abs_def])
  ultimately show ?thesis
    by (simp add: service_get_all_def find_and_count_def Let_def) (simp add: to_list_query_def)
qed

lemma total_pages_cover:
  assumes "1 \<le> limit"
  shows "tot \<le> nat (total_pages (int tot) limit) * nat limit"
proof -
  have "int tot \<le> ((int tot + limit - 1) div limit) * limit"
    using assms by (smt (verit) minus_mod_eq_div_mult pos_mod_bound)
  also have "\<dots> \<le> total_pages (int tot) limit * limit"
    using assms by (simp add: total_pages_def)
  finally have "int tot \<le> int (nat (total_pages (int tot) limit) * nat limit)"
    using assms total_pages_pos [of "int tot" limit] by simp
  then show ?thesis by linarith
qed

lemma upto_as_nat: "[1..int k] = map (\<lambda>p. int p + 1) [0..<k]"
proof (induction k)
  case (Suc k)
  have "[1..int (Suc k)] = [1..int k] @ [int (Suc k)]" by (simp add: upto_rec2)
  then show ?case using Suc by (simp add: add.commute)
qed simp

subsection \<open>Properties\<close>

text \<open>
  Property C18. Conditional mutation: with unique identifiers, an update, replacement or deletion
  answers 404 when the item does not exist and 409 when its version is not the expected one or
  can no longer grow, and then changes nothing; otherwise it changes exactly that row, an update
  setting the given columns and raising the version by one, a deletion removing the row and
  returning it.
\<close>

theorem mutation_exact:
  assumes "unique_ids coll tbl"
  shows "mutate coll now i m tbl =
    (case repo_get_by_id coll i tbl of
       None \<Rightarrow> (Inl not_found, tbl)
     | Some r \<Rightarrow>
         if item_version r \<noteq> expected_version m then (Inl version_conflict, tbl)
         else
           (case update_data m of
              None \<Rightarrow> (Inr r, drop_row coll i tbl)
            | Some d \<Rightarrow>
                if item_version r < MAX_VERSION
                then (Inr (apply_update now d r), set_row coll (apply_update now d r) tbl)
                else (Inl version_conflict, tbl)))"
  by (rule mutate_cases [OF assms])

definition demo_item :: ItemORM where
  "demo_item = \<lparr>item_id = ''A1b2C3d4E5f6G7h8'', item_version = 7, item_name = ''Sword'', item_price = 5,
     item_description = None, created_at = 0, updated_at = 0\<rparr>"

theorem mutation_exact_witness:
  "mutate id 9 ''A1b2C3d4E5f6G7h8'' (Delete 7) [demo_item] = (Inr demo_item, []) \<and>
   mutate id 9 ''A1b2C3d4E5f6G7h8'' (Delete 6) [demo_item] = (Inl version_conflict, [demo_item])"
proof -
  have u: "unique_ids id [demo_item]" by (simp add: unique_ids_def)
  have find: "repo_get_by_id id ''A1b2C3d4E5f6G7h8'' [demo_item] = Some demo_item"
    by (simp add: repo_get_by_id_def demo_item_def)
  have v: "item_version demo_item = 7" "item_id demo_item = ''A1b2C3d4E5f6G7h8''" by (simp_all add: demo_item_def)
  show ?thesis
    using mutation_exact [OF u, of 9 "''A1b2C3d4E5f6G7h8''" "Delete 7"]
      mutation_exact [OF u, of 9 "''A1b2C3d4E5f6G7h8''" "Delete 6"]
    by (simp add: find v drop_row_def)
qed

text \<open>
  Property C5. No lost update: in any sequence of mutations of any items, each version of an item
  is consumed by at most one accepted mutation, so of several writers that read the same version
  at most one succeeds.
\<close>

theorem no_lost_update:
  assumes "unique_ids coll tbl"
  shows "distinct (accepted coll tbl ms)"
  using assms
proof (induction ms arbitrary: tbl)
  case (Cons step ms)
  obtain now i m where step: "step = (now, i, m)" by (cases step)
  obtain res tbl' where mut: "mutate coll now i m tbl = (res, tbl')" by force
  have uniq: "unique_ids coll tbl'" using unique_ids_mutate [OF Cons.prems, of now i m] mut by simp
  show ?case
  proof (cases res)
    case (Inl e)
    then show ?thesis using Cons.IH [OF uniq] mut step by simp
  next
    case (Inr x)
    have "(coll i, expected_version m) \<notin> set (accepted coll tbl' ms)"
    proof
      assume "(coll i, expected_version m) \<in> set (accepted coll tbl' ms)"
      then obtain j r where "coll i = coll j" "repo_get_by_id coll j tbl' = Some r" "item_version r \<le> expected_version m"
        using accepted_versions [OF uniq] by blast
      then show False using mutate_accepted(2) [OF Cons.prems mut [unfolded Inr], of j r] by simp
    qed
    then show ?thesis using Cons.IH [OF uniq] mut step Inr by simp
  qed
qed (simp)

theorem no_lost_update_witness:
  "accepted id [demo_item] [(1, ''A1b2C3d4E5f6G7h8'', Delete 7), (2, ''A1b2C3d4E5f6G7h8'', Delete 7)]
     = [(''A1b2C3d4E5f6G7h8'', 7)] \<and>
   distinct (accepted id [demo_item] [(1, ''A1b2C3d4E5f6G7h8'', Delete 7), (2, ''A1b2C3d4E5f6G7h8'', Delete 7)])"
proof -
  have u: "unique_ids id [demo_item]" by (simp add: unique_ids_def)
  have "accepted id [demo_item] [(1, ''A1b2C3d4E5f6G7h8'', Delete 7), (2, ''A1b2C3d4E5f6G7h8'', Delete 7)]
     = [(''A1b2C3d4E5f6G7h8'', 7)]"
    by code_simp
  then show ?thesis using no_lost_update [OF u] by blast
qed

text \<open>
  Table invariant: every table that requests can produce has unique identifiers and
  only rows that satisfy the response model. So reading an item fails only with 404, and listing
  never fails.
\<close>

lemma reachable_tables_render:
  assumes "item_states coll tbl"
  shows "table_ok coll tbl \<and>
    handle_get coll i tbl = (case repo_get_by_id coll i tbl of None \<Rightarrow> Inl not_found | Some r \<Rightarrow> Inr r) \<and>
    handle_get_all coll ilike q tbl =
      Inr \<lparr>pr_data = fst (service_get_all coll ilike q tbl), pr_total = snd (service_get_all coll ilike q tbl),
           pr_page = pq_page q, pr_limit = pq_limit q\<rparr>"
proof -
  have ok: "table_ok coll tbl" by (rule item_states_ok [OF assms])
  have "set (fst (service_get_all coll ilike q tbl)) \<subseteq> set tbl"
    by (auto simp: service_get_all_def find_and_count_def Let_def base_query_def dest!: in_set_takeD in_set_dropD)
  then have "list_all response_ok (fst (service_get_all coll ilike q tbl))"
    using ok by (auto simp: table_ok_def list_all_iff)
  then show ?thesis
    using ok table_ok_get [OF ok, of i] collect_responses_ok
    by (auto simp: handle_get_def service_get_def item_response_def handle_get_all_def case_prod_unfold split: option.splits)
qed


definition demo_query :: ItemPaginationQuery where
  "demo_query = \<lparr>pq_page = 1, pq_limit = 1, pq_desc = True, pq_search = None, pq_sort = PRICE,
     pq_min_price = None, pq_max_price = None\<rparr>"

definition demo_items :: item_table where
  "demo_items = [demo_item, demo_item \<lparr>item_id := ''B1b2C3d4E5f6G7h8'', item_price := 7\<rparr>]"


end
