(* ===== verification/Steps.thy ===== *)
theory Steps
  imports Prelude
begin

text \<open>
  The state-and-exception steps in which stateful handlers and scripts are written: a step
  returns its result and the state it leaves, also when it raises.
\<close>

type_synonym ('s, 'a) step = "'s \<Rightarrow> 'a result \<times> 's"

definition returnS :: "'a \<Rightarrow> ('s, 'a) step" where
  "returnS x s = (Inr x, s)"

definition raiseS :: "exn \<Rightarrow> ('s, 'a) step" where
  "raiseS e s = (Inl e, s)"

definition bindS :: "('s, 'a) step \<Rightarrow> ('a \<Rightarrow> ('s, 'b) step) \<Rightarrow> ('s, 'b) step" where
  "bindS m f s = (case m s of (Inl e, s') \<Rightarrow> (Inl e, s') | (Inr x, s') \<Rightarrow> f x s')"

definition liftS :: "'a result \<Rightarrow> ('s, 'a) step" where
  "liftS r s = (r, s)"

definition modifyS :: "('s \<Rightarrow> 's) \<Rightarrow> ('s, unit) step" where
  "modifyS f s = (Inr (), f s)"

definition getS :: "('s \<Rightarrow> 'a) \<Rightarrow> ('s, 'a) step" where
  "getS f s = (Inr (f s), s)"

lemma step_simps [simp]:
  "returnS x s = (Inr x, s)"
  "raiseS e s = (Inl e, s)"
  "liftS r s = (r, s)"
  "modifyS f s = (Inr (), f s)"
  "getS g s = (Inr (g s), s)"
  by (simp_all add: returnS_def raiseS_def liftS_def modifyS_def getS_def)

lemma bindS_simps [simp]:
  "m s = (Inl e, s') \<Longrightarrow> bindS m f s = (Inl e, s')"
  "m s = (Inr x, s') \<Longrightarrow> bindS m f s = f x s'"
  by (simp_all add: bindS_def)

lemma bindS_Inr: "bindS m f s = (Inr y, t) \<longleftrightarrow> (\<exists>x s'. m s = (Inr x, s') \<and> f x s' = (Inr y, t))"
  by (auto simp: bindS_def split: prod.splits sum.splits)

lemma bindS_Inl: "bindS m f s = (Inl e, t) \<longleftrightarrow>
    m s = (Inl e, t) \<or> (\<exists>x s'. m s = (Inr x, s') \<and> f x s' = (Inl e, t))"
  by (auto simp: bindS_def split: prod.splits sum.splits)

text \<open>An invariant of every step is an invariant of the sequence.\<close>

lemma bindS_invariant:
  assumes "P (snd (m s))" "\<And>x s'. m s = (Inr x, s') \<Longrightarrow> P (snd (f x s'))"
  shows "P (snd (bindS m f s))"
  using assms by (auto simp: bindS_def split: prod.splits sum.splits)

text \<open>A block with an \<^verbatim>\<open>except Exception\<close> clause: \<open>handler\<close> runs in the state the block has left.\<close>

definition tryS :: "('s, 'a) step \<Rightarrow> (exn \<Rightarrow> ('s, 'a) step) \<Rightarrow> ('s, 'a) step" where
  "tryS m handler s =
     (case m s of
        (Inl e, s') \<Rightarrow> if is_exception e then handler e s' else (Inl e, s')
      | (Inr x, s') \<Rightarrow> (Inr x, s'))"

text \<open>A block with a \<^verbatim>\<open>finally\<close> clause, whose own exception takes precedence.\<close>

definition finallyS :: "('s, 'a) step \<Rightarrow> ('s, unit) step \<Rightarrow> ('s, 'a) step" where
  "finallyS m clean s = (case m s of (r, s') \<Rightarrow> (case clean s' of (Inl e, s'') \<Rightarrow> (Inl e, s'') | (Inr _, s'') \<Rightarrow> (r, s'')))"

fun mapS :: "('a \<Rightarrow> ('s, 'b) step) \<Rightarrow> 'a list \<Rightarrow> ('s, 'b list) step" where
  "mapS f [] = returnS []"
| "mapS f (x # xs) = bindS (f x) (\<lambda>y. bindS (mapS f xs) (\<lambda>ys. returnS (y # ys)))"

text \<open>A step that keeps \<open>P\<close> whatever its result.\<close>

definition keeps :: "('s \<Rightarrow> bool) \<Rightarrow> ('s, 'a) step \<Rightarrow> bool" where
  "keeps P m \<longleftrightarrow> (\<forall>s. P s \<longrightarrow> P (snd (m s)))"

lemma keepsD: "keeps P m \<Longrightarrow> P s \<Longrightarrow> P (snd (m s))"
  by (simp add: keeps_def)

lemma keeps_basic [simp, intro]:
  "keeps P (returnS x)" "keeps P (raiseS e)" "keeps P (liftS r)" "keeps P (getS g)"
  by (simp_all add: keeps_def)

lemma keeps_bindS [intro]:
  assumes "keeps P m" "\<And>x. keeps P (f x)"
  shows "keeps P (bindS m f)"
  unfolding keeps_def
proof (intro allI impI)
  fix s
  assume "P s"
  then have "P (snd (m s))" using assms(1) by (rule keepsD [rotated])
  then show "P (snd (bindS m f s))" using assms(2) by (cases "m s") (auto simp: bindS_def keeps_def split: sum.splits)
qed

lemma keeps_tryS [intro]: "keeps P m \<Longrightarrow> (\<And>e. keeps P (h e)) \<Longrightarrow> keeps P (tryS m h)"
  unfolding keeps_def tryS_def by (auto split: prod.splits sum.splits)

lemma keeps_finallyS [intro]: "keeps P m \<Longrightarrow> keeps P c \<Longrightarrow> keeps P (finallyS m c)"
  unfolding keeps_def finallyS_def by (auto split: prod.splits sum.splits)

lemma keeps_mapS [intro]: "(\<And>x. keeps P (f x)) \<Longrightarrow> keeps P (mapS f xs)"
  by (induction xs) auto

end
