(* ===== verification/Activity.thy ===== *)
theory Activity
  imports Steps
begin

text \<open>
  Request activity, shared by the transport and the owner of a mutation
  (\<^verbatim>\<open>app/common/handlers/request_activity.py\<close>).
\<close>

subsection \<open>Activity\<close>

text \<open>No expiry time stands for the initial \<^verbatim>\<open>float('inf')\<close>.\<close>

record RequestActivity =
  act_expires_at :: "time option"
  act_abandoned :: "string option"
  owns_mutation :: bool

definition new_activity :: RequestActivity where
  "new_activity = \<lparr>act_expires_at = None, act_abandoned = None, owns_mutation = False\<rparr>"

definition RESPONSE_DEADLINE_MESSAGE :: string where
  "RESPONSE_DEADLINE_MESSAGE = ''Application response deadline exceeded.''"

definition abandon :: "string \<Rightarrow> RequestActivity \<Rightarrow> RequestActivity" where
  "abandon reason a = (if act_abandoned a = None then a \<lparr>act_abandoned := Some reason\<rparr> else a)"

definition expired_at :: "time \<Rightarrow> RequestActivity \<Rightarrow> bool" where
  "expired_at now a \<longleftrightarrow> (case act_expires_at a of None \<Rightarrow> False | Some t \<Rightarrow> t \<le> now)"

definition assert_active :: "time \<Rightarrow> (RequestActivity, unit) step" where
  "assert_active now a =
     (case act_abandoned a of
        Some reason \<Rightarrow> (Inl (RequestExpired reason), a)
      | None \<Rightarrow>
          if expired_at now a
          then (Inl (RequestExpired RESPONSE_DEADLINE_MESSAGE), abandon RESPONSE_DEADLINE_MESSAGE a)
          else (Inr (), a))"

lemma abandon_first_wins: "act_abandoned a = Some r \<Longrightarrow> abandon r' a = a"
  by (simp add: abandon_def)

lemma abandon_abandoned: "\<exists>r. act_abandoned (abandon r' a) = Some r"
  by (cases "act_abandoned a") (auto simp: abandon_def)

text \<open>Once a check fails, every later check fails with the same reason.\<close>

lemma assert_active_sticky:
  assumes "assert_active now a = (Inl e, a')" "now \<le> later"
  shows "assert_active later (abandon r a') = (Inl e, a')"
  using assms by (auto simp: assert_active_def abandon_def split: option.splits if_splits)

end
