(* ===== verification/Fingerprint.thy ===== *)
theory Fingerprint
  imports Prelude "HOL-Library.Multiset"
begin

text \<open>
  The canonical encoding behind idempotency keys: \<^verbatim>\<open>normalized\<close>, \<^verbatim>\<open>_encode\<close> and \<^verbatim>\<open>digest\<close> of
  \<^verbatim>\<open>app/common/models/idempotency_model.py\<close>, with the string escaping of Python's \<^verbatim>\<open>json\<close>.

  The hash is a parameter; the theorems show what the encoding itself keeps apart and what it
  identifies.
\<close>

subsection \<open>Values\<close>

text \<open>
  A decimal number as \<^verbatim>\<open>Decimal.as_tuple\<close> shows it: sign, coefficient and exponent. Integers and
  floats are the decimal that \<^verbatim>\<open>str\<close> prints.
\<close>

datatype decimal = Finite bool nat int | NotFinite

datatype val =
    VNone
  | VBool bool
  | VNum decimal
  | VStr string
  | VBytes bytes
  | VText string
  | VSecret val
  | VEnum val
  | VList "val list"
  | VMap "(string \<times> val) list"
  | VModel "(string \<times> bool \<times> val) list" "(string \<times> val) list"

text \<open>
  \<open>VText\<close> is a date, time or UUID with its rendering; a model has its fields (alias, whether the
  field was set, value) and its extra fields.
\<close>

fun is_VNone :: "val \<Rightarrow> bool" where
  "is_VNone VNone = True"
| "is_VNone _ = False"

fun normalized :: "val \<Rightarrow> val result"
  and normalized_list :: "val list \<Rightarrow> val list result"
  and normalized_map :: "(string \<times> val) list \<Rightarrow> (string \<times> val) list result"
  and normalized_fields :: "(string \<times> bool \<times> val) list \<Rightarrow> (string \<times> val) list result" where
  "normalized (VModel fields extra) =
     bindR (normalized_fields fields) (\<lambda>fs. bindR (normalized_map extra) (\<lambda>es.
       Inr (VMap (fold (\<lambda>(k, v) d. od_set k v d) es fs))))"
| "normalized (VSecret v) = normalized v"
| "normalized (VEnum v) = normalized v"
| "normalized (VText s) = Inr (VStr s)"
| "normalized (VBytes b) = (if utf8_valid b then Inr (VStr b) else Inl UnicodeDecodeError)"
| "normalized (VMap kvs) = bindR (normalized_map kvs) (\<lambda>xs. Inr (VMap xs))"
| "normalized (VList vs) = bindR (normalized_list vs) (\<lambda>xs. Inr (VList xs))"
| "normalized v = Inr v"
| "normalized_list [] = Inr []"
| "normalized_list (v # vs) = bindR (normalized v) (\<lambda>x. bindR (normalized_list vs) (\<lambda>xs. Inr (x # xs)))"
| "normalized_map [] = Inr []"
| "normalized_map ((k, v) # kvs) =
     bindR (normalized v) (\<lambda>x. bindR (normalized_map kvs) (\<lambda>xs. Inr ((k, x) # xs)))"
| "normalized_fields [] = Inr []"
| "normalized_fields ((k, is_set, v) # fs) =
     (if is_set \<or> \<not> is_VNone v
      then bindR (normalized v) (\<lambda>x. bindR (normalized_fields fs) (\<lambda>xs. Inr (od_set k x xs)))
      else normalized_fields fs)"

subsection \<open>Encoding\<close>

text \<open>\<^verbatim>\<open>json.dumps(s, ensure_ascii=False)\<close>\<close>

definition esc :: "char \<Rightarrow> string" where
  "esc c =
     (if c = CHR 0x22 then [CHR 0x5C, CHR 0x22]
      else if c = CHR 0x5C then [CHR 0x5C, CHR 0x5C]
      else if code c = 10 then [CHR 0x5C, CHR ''n'']
      else if code c = 13 then [CHR 0x5C, CHR ''r'']
      else if code c = 9 then [CHR 0x5C, CHR ''t'']
      else if code c = 12 then [CHR 0x5C, CHR ''f'']
      else if code c = 8 then [CHR 0x5C, CHR ''b'']
      else if code c < 32 then
        [CHR 0x5C, CHR ''u'', CHR ''0'', CHR ''0'', hex_digit (code c div 16), hex_digit (code c mod 16)]
      else [c])"

definition json_string :: "string \<Rightarrow> string" where
  "json_string s = [CHR 0x22] @ concat (map esc s) @ [CHR 0x22]"

definition encode_number :: "decimal \<Rightarrow> string result" where
  "encode_number d =
     (case d of
        NotFinite \<Rightarrow> Inl (ValueError ''Fingerprint numbers must be finite.'')
      | Finite sign coef ex \<Rightarrow>
          if coef = 0 then Inr ''0''
          else
            (let coefficient = show_nat coef;
                 significant = py_rstrip (CHR ''0'') coefficient;
                 ex' = ex + int (length coefficient) - int (length significant) in
             Inr ((if sign then ''-'' else []) @ significant @ (if ex' \<noteq> 0 then ''e'' @ show_int ex' else []))))"

text \<open>Sorting the keys of a mapping.\<close>

definition sort_keys :: "(string \<times> 'v) list \<Rightarrow> (string \<times> 'v) list" where
  "sort_keys kvs = isort_by (\<lambda>a b. fst a \<le> fst b) kvs"

fun result_list :: "'a result list \<Rightarrow> 'a list result" where
  "result_list [] = Inr []"
| "result_list (r # rs) = bindR r (\<lambda>x. bindR (result_list rs) (\<lambda>xs. Inr (x # xs)))"

definition encode_entry :: "string \<times> string \<Rightarrow> string" where
  "encode_entry kv = json_string (fst kv) @ '':'' @ snd kv"

text \<open>
  The values that are left after normalization. Encoding the members first and sorting the pairs
  by key is the same as encoding in key order.
\<close>

lemma size_entry: "(k, v) \<in> set kvs \<Longrightarrow> size v < Suc (size_list (size_prod (\<lambda>x. 0) size) kvs)"
  by (induction kvs) auto

function (sequential) encode :: "val \<Rightarrow> string result" where
  "encode (VNum d) = encode_number d"
| "encode (VMap kvs) =
     bindR (result_list (map (\<lambda>(k, v). bindR (encode v) (\<lambda>s. Inr (k, s))) (sort_keys kvs))) (\<lambda>xs.
       Inr (''{'' @ py_join '','' (map encode_entry xs) @ ''}''))"
| "encode (VList vs) = bindR (result_list (map encode vs)) (\<lambda>xs. Inr (''['' @ py_join '','' xs @ '']''))"
| "encode (VStr s) = Inr (json_string s)"
| "encode (VBool b) = Inr (if b then ''true'' else ''false'')"
| "encode VNone = Inr ''null''"
| "encode _ = Inl (TypeError ''Object is not JSON serializable'')"
  by pat_completeness auto
termination
  by (relation "measure size") (auto simp: sort_keys_def size_entry less_Suc_eq_le size_list_estimation')

definition digest :: "(string \<Rightarrow> string) \<Rightarrow> val \<Rightarrow> string result" where
  "digest H v = bindR (normalized v) (\<lambda>n. bindR (encode n) (\<lambda>s. Inr (H s)))"

subsection \<open>Numbers\<close>

fun dec_value :: "decimal \<Rightarrow> rat option" where
  "dec_value NotFinite = None"
| "dec_value (Finite sign coef ex) = Some ((if sign then -1 else 1) * of_nat coef * 10 powi ex)"

lemma py_rstrip_snoc: "py_rstrip c (s @ [x]) = (if x = c then py_rstrip c s else s @ [x])"
  by (simp add: py_rstrip_def)

text \<open>Dropping the trailing zeros of a coefficient.\<close>

lemma strip_zeros:
  assumes "0 < c"
  shows "\<exists>m k. c = m * 10 ^ k \<and> \<not> 10 dvd m \<and> py_rstrip (CHR ''0'') (show_nat c) = show_nat m \<and>
    length (show_nat c) = length (show_nat m) + k"
  using assms
proof (induction c rule: show_nat.induct)
  case (1 c)
  have zero: "digit_char d = CHR ''0'' \<longleftrightarrow> d = 0" if "d < 10" for d
    using that code_digit_char [of d] code_inject [of "digit_char d" "CHR ''0''"] by (simp add: code_def)
  show ?case
  proof (cases "c mod 10 = 0")
    case True
    then have ge: "\<not> c < 10" using 1(2) by auto
    then obtain m k where mk: "c div 10 = m * 10 ^ k" "\<not> 10 dvd m"
        "py_rstrip (CHR ''0'') (show_nat (c div 10)) = show_nat m" "length (show_nat (c div 10)) = length (show_nat m) + k"
      using 1 by fastforce
    have c: "show_nat c = show_nat (c div 10) @ [CHR ''0'']"
      using ge True zero [of 0] by (subst show_nat.simps) simp
    have "c = m * 10 ^ Suc k" using mk(1) True by auto
    then show ?thesis using mk c by (intro exI [of _ m] exI [of _ "Suc k"]) (simp add: py_rstrip_snoc)
  next
    case False
    then have "py_rstrip (CHR ''0'') (show_nat c) = show_nat c"
    proof (cases "c < 10")
      case True
      then show ?thesis using zero [of c] 1(2) by (subst show_nat.simps, subst (2) show_nat.simps) (simp add: py_rstrip_def)
    next
      case ge: False
      then show ?thesis using zero [of "c mod 10"] False
        by (subst show_nat.simps, subst (2) show_nat.simps) (simp add: py_rstrip_snoc)
    qed
    then show ?thesis using False by (intro exI [of _ c] exI [of _ 0]) (simp add: dvd_eq_mod_eq_0)
  qed
qed

definition canon :: "bool \<Rightarrow> nat \<Rightarrow> int \<Rightarrow> string" where
  "canon sign m ex = (if sign then ''-'' else []) @ show_nat m @ (if ex \<noteq> 0 then ''e'' @ show_int ex else [])"

lemma encode_number_canon:
  assumes "0 < c"
  shows "\<exists>m ex'. encode_number (Finite s c ex) = Inr (canon s m ex') \<and> \<not> 10 dvd m \<and>
    dec_value (Finite s c ex) = Some ((if s then -1 else 1) * of_nat m * 10 powi ex')"
proof -
  obtain m k where mk: "c = m * 10 ^ k" "\<not> 10 dvd m" "py_rstrip (CHR ''0'') (show_nat c) = show_nat m"
      "length (show_nat c) = length (show_nat m) + k"
    using strip_zeros [OF assms] by blast
  have "encode_number (Finite s c ex) = Inr (canon s m (ex + int k))"
    using assms mk(3,4) by (simp add: encode_number_def canon_def Let_def)
  moreover have "(of_nat c :: rat) * 10 powi ex = of_nat m * 10 powi (ex + int k)"
    by (simp add: mk(1) power_int_add)
  ultimately show ?thesis using mk(2) by (intro exI [of _ m] exI [of _ "ex + int k"]) (simp add: mult.assoc)
qed

lemma canon_split:
  assumes "show_nat m @ (if ex \<noteq> 0 then CHR ''e'' # show_int ex else []) =
    show_nat m' @ (if ex' \<noteq> 0 then CHR ''e'' # show_int ex' else [])"
  shows "m = m' \<and> ex = ex'"
proof -
  have no_e: "CHR ''e'' \<notin> set (show_nat n)" for n
  proof
    assume "CHR ''e'' \<in> set (show_nat n)"
    then have "py_isdigit (CHR ''e'')" by (rule show_nat_digits)
    then show False by (simp add: py_isdigit_def code_def)
  qed
  have tw: "takeWhile (\<lambda>c. c \<noteq> CHR ''e'') (show_nat n @ (if x \<noteq> 0 then CHR ''e'' # t else [])) = show_nat n"
    and dw: "dropWhile (\<lambda>c. c \<noteq> CHR ''e'') (show_nat n @ (if x \<noteq> 0 then CHR ''e'' # t else [])) =
      (if x \<noteq> 0 then CHR ''e'' # t else [])" for n t and x :: int
    using no_e [of n] by (simp_all add: takeWhile_append dropWhile_append)
  have "show_nat m = show_nat m'" using arg_cong [OF assms, of "takeWhile (\<lambda>c. c \<noteq> CHR ''e'')"] by (simp only: tw)
  moreover have "(if ex \<noteq> 0 then CHR ''e'' # show_int ex else []) = (if ex' \<noteq> 0 then CHR ''e'' # show_int ex' else [])"
    using arg_cong [OF assms, of "dropWhile (\<lambda>c. c \<noteq> CHR ''e'')"] by (simp only: dw)
  ultimately show ?thesis by (auto split: if_splits)
qed

lemma canon_hd: "hd (canon s m ex) = CHR ''-'' \<longleftrightarrow> s"
proof (cases s)
  case False
  have "hd (show_nat m) \<noteq> CHR ''-''"
    using show_nat_hd_not_minus [of m "tl (show_nat m)"] by (metis list.collapse show_nat_not_Nil)
  then show ?thesis using False by (simp add: canon_def)
qed (simp add: canon_def)

lemma canon_inject: "canon s m ex = canon s' m' ex' \<longleftrightarrow> s = s' \<and> m = m' \<and> ex = ex'"
proof
  assume a: "canon s m ex = canon s' m' ex'"
  then have "(hd (canon s m ex) = CHR ''-'') = (hd (canon s' m' ex') = CHR ''-'')" by (rule arg_cong)
  then have "s = s'" unfolding canon_hd .
  then have "show_nat m @ (if ex \<noteq> 0 then CHR ''e'' # show_int ex else []) =
      show_nat m' @ (if ex' \<noteq> 0 then CHR ''e'' # show_int ex' else [])"
    using a by (simp add: canon_def split: if_splits)
  from canon_split [OF this] \<open>s = s'\<close> show "s = s' \<and> m = m' \<and> ex = ex'" by simp
qed simp

lemma scaled_unique:
  fixes m m' :: nat
  assumes "of_nat m * 10 powi a = (of_nat m' * 10 powi b :: rat)" "\<not> 10 dvd m" "\<not> 10 dvd m'"
  shows "m = m' \<and> a = b"
proof -
  have up: "x = y * 10 ^ k \<Longrightarrow> \<not> 10 dvd x \<Longrightarrow> k = 0" for x y k :: nat
    by (cases k) auto
  have le: "m = m' \<and> a = b" if eq: "of_nat m * 10 powi a = (of_nat m' * 10 powi b :: rat)" and ab: "a \<le> b"
    and nd: "\<not> 10 dvd m" for m m' :: nat and a b
  proof -
    define k where "k = nat (b - a)"
    have b: "b = a + int k" using ab by (simp add: k_def)
    have "(of_nat m :: rat) = of_nat m' * 10 ^ k"
      using eq by (simp add: b power_int_add)
    then have "(of_nat m :: rat) = of_nat (m' * 10 ^ k)" by simp
    then have "m = m' * 10 ^ k" by (simp only: of_nat_eq_iff)
    then show ?thesis using up nd b by auto
  qed
  show ?thesis
  proof (cases "a \<le> b")
    case True
    then show ?thesis using le assms by blast
  next
    case False
    then show ?thesis using le [of m' b m a] assms by auto
  qed
qed

subsection \<open>Strings\<close>

lemma esc_cases:
  "esc c = [c] \<and> c \<noteq> CHR 0x22 \<and> c \<noteq> CHR 0x5C \<or>
   (\<exists>x. esc c = [CHR 0x5C, x] \<and> x \<noteq> CHR ''u'') \<or>
   (\<exists>h l. esc c = [CHR 0x5C, CHR ''u'', CHR ''0'', CHR ''0'', h, l])"
  by (simp add: esc_def)

lemma code_hex_digit: "n < 16 \<Longrightarrow> code (hex_digit n) = (if n < 10 then 48 + n else 87 + n)"
  by (simp add: hex_digit_def)

lemma hex_digit_inject:
  assumes "a < 16" "b < 16" "hex_digit a = hex_digit b"
  shows "a = b"
proof -
  have "code (hex_digit a) = code (hex_digit b)" using assms(3) by simp
  then show ?thesis using assms(1,2) by (simp add: code_hex_digit split: if_splits)
qed

lemma esc_inject: "esc c = esc d \<Longrightarrow> c = d"
proof -
  assume a: "esc c = esc d"
  have hex: "code c = code d" if "code c < 32" "code d < 32"
    "hex_digit (code c div 16) = hex_digit (code d div 16)" "hex_digit (code c mod 16) = hex_digit (code d mod 16)"
  proof -
    have "code c div 16 = code d div 16" using that by (intro hex_digit_inject) auto
    moreover have "code c mod 16 = code d mod 16" using that by (intro hex_digit_inject) auto
    ultimately show ?thesis by (metis div_mult_mod_eq)
  qed
  have num: "code x = n \<Longrightarrow> code y = n \<Longrightarrow> x = y" for x y n by (metis code_inject)
  show "c = d" using a hex num [of c _ d] unfolding esc_def by (auto split: if_splits)
qed

lemma esc_prefix_free: "esc c @ s = esc d @ t \<Longrightarrow> c = d \<and> s = t"
proof -
  assume a: "esc c @ s = esc d @ t"
  have "length (esc c) = length (esc d)"
    using a esc_cases [of c] esc_cases [of d] by auto
  then have "esc c = esc d \<and> s = t" using a by simp
  then show ?thesis using esc_inject by blast
qed

lemma esc_no_quote: "esc c @ u \<noteq> CHR 0x22 # v"
  using esc_cases [of c] by auto

lemma quoted_prefix_free:
  "concat (map esc a) @ CHR 0x22 # s = concat (map esc b) @ CHR 0x22 # t \<Longrightarrow> a = b \<and> s = t"
proof (induction a b rule: list_induct2')
  case (2 c a)
  then show ?case using esc_no_quote [of c "concat (map esc a) @ CHR 0x22 # s" t] by simp
next
  case (3 d b)
  then show ?case using esc_no_quote [of d "concat (map esc b) @ CHR 0x22 # t" s] by simp
next
  case (4 c a d b)
  then have "esc c @ (concat (map esc a) @ CHR 0x22 # s) = esc d @ (concat (map esc b) @ CHR 0x22 # t)" by simp
  from esc_prefix_free [OF this] 4(1) show ?case by simp
qed simp

lemma json_string_prefix_free:
  assumes "json_string a @ s = json_string b @ t"
  shows "a = b \<and> s = t"
proof (rule quoted_prefix_free)
  show "concat (map esc a) @ CHR 0x22 # s = concat (map esc b) @ CHR 0x22 # t"
    using assms by (simp add: json_string_def)
qed

lemma join_strings_inject:
  "py_join '','' (map json_string as) @ '']'' = py_join '','' (map json_string bs) @ '']'' \<Longrightarrow> as = bs"
proof (induction as arbitrary: bs)
  case Nil
  have "json_string x @ u \<noteq> '']''" for x u by (simp add: json_string_def)
  then show ?case using Nil by (cases bs rule: list.exhaust; cases "tl bs") (auto dest: sym)
next
  case (Cons a as)
  have nq: "json_string x @ u \<noteq> '']''" for x u by (simp add: json_string_def)
  obtain b bs' where bs: "bs = b # bs'"
    using Cons.prems nq by (cases bs; cases as) auto
  have step: "py_join '','' (map json_string (x # xs)) @ '']'' =
      json_string x @ (if xs = [] then '']'' else CHR '','' # py_join '','' (map json_string xs) @ '']'')" for x xs
    by (cases xs) simp_all
  have "a = b \<and> (if as = [] then '']'' else CHR '','' # py_join '','' (map json_string as) @ '']'') =
      (if bs' = [] then '']'' else CHR '','' # py_join '','' (map json_string bs') @ '']'')"
    using Cons.prems json_string_prefix_free unfolding bs step by blast
  then show ?case using Cons.IH bs by (auto split: if_splits)
qed

lemma encode_strings: "encode (VList (map VStr ss)) = Inr (''['' @ py_join '','' (map json_string ss) @ '']'')"
proof -
  have "result_list (map (\<lambda>x. encode (VStr x)) ss) = Inr (map json_string ss)"
    by (induction ss) simp_all
  then show ?thesis by (simp add: comp_def)
qed

lemma normalized_strings: "normalized (VList (map VStr ss)) = Inr (VList (map VStr ss))"
proof -
  have "normalized_list (map VStr ss) = Inr (map VStr ss)" by (induction ss) simp_all
  then show ?thesis by simp
qed

lemma digest_strings: "digest H (VList (map VStr ss)) = Inr (H (''['' @ py_join '','' (map json_string ss) @ '']''))"
  by (simp only: digest_def normalized_strings encode_strings bindR_simps)

subsection \<open>Key order\<close>

lemma mset_sort_keys: "mset (sort_keys kvs) = mset kvs"
proof -
  have ins: "mset (insort_by le x ys) = add_mset x (mset ys)" for le x and ys :: "(string \<times> 'v) list"
    by (induction ys) auto
  show ?thesis unfolding sort_keys_def isort_by_def by (induction kvs) (simp_all add: ins)
qed

lemma distinct_keys_eq:
  assumes "map fst xs = map fst ys" "distinct (map fst xs)" "set xs = set ys"
  shows "xs = ys"
proof -
  have same: "map_of xs = map_of ys" using assms by (metis map_of_inject_set)
  have key: "zs = map (\<lambda>k. (k, the (map_of zs k))) (map fst zs)" if "distinct (map fst zs)" for zs :: "('a \<times> 'b) list"
    using that by (auto simp: comp_def intro!: map_idI [symmetric])
  show ?thesis using key [of xs] key [of ys] same assms(1,2) by metis
qed

lemma sort_keys_permuted:
  assumes "mset kvs = mset kvs'" "distinct (map fst kvs)"
  shows "sort_keys kvs = sort_keys kvs'"
proof -
  have sorted: "sorted_wrt (\<lambda>a b. fst a \<le> fst b) (sort_keys xs)" for xs :: "(string \<times> 'v) list"
    unfolding sort_keys_def by (rule sorted_isort_by) auto
  then have "sorted (map fst (sort_keys kvs))" "sorted (map fst (sort_keys kvs'))"
    by (simp_all add: sorted_wrt_map)
  moreover have "mset (map fst (sort_keys kvs)) = mset (map fst (sort_keys kvs'))"
    using assms(1) by (simp add: mset_sort_keys)
  ultimately have keys: "map fst (sort_keys kvs) = map fst (sort_keys kvs')"
    by (metis properties_for_sort)
  have "distinct (map fst (sort_keys kvs))"
    using assms(2) by (metis mset_eq_imp_distinct_iff mset_map mset_sort_keys)
  moreover have "set (sort_keys kvs) = set (sort_keys kvs')"
    using assms(1) by (metis mset_sort_keys set_mset_mset)
  ultimately show ?thesis using keys distinct_keys_eq by blast
qed

subsection \<open>Properties\<close>

text \<open>
  Numbers are canonical: two finite decimals, however they are written, have the same
  encoding exactly when they are the same number, and every finite number has an encoding.
\<close>

lemma number_encoding_canonical:
  "(encode_number (Finite s c ex) = encode_number (Finite s' c' ex') \<longleftrightarrow>
     dec_value (Finite s c ex) = dec_value (Finite s' c' ex')) \<and>
   (\<exists>t. encode_number (Finite s c ex) = Inr t)"
proof -
  have pos: "(10 :: rat) powi e > 0" for e by simp
  have zero: "encode_number (Finite s 0 e) = Inr ''0''" "dec_value (Finite s 0 e) = Some 0" for s e
    by (simp_all add: encode_number_def)
  have one: "(encode_number (Finite s 0 ex) \<noteq> encode_number (Finite s' c' ex')) \<and>
      dec_value (Finite s 0 ex) \<noteq> dec_value (Finite s' c' ex')" if c': "0 < c'" for s ex s' c' ex'
  proof -
    obtain m e where m: "encode_number (Finite s' c' ex') = Inr (canon s' m e)" "\<not> 10 dvd m"
        "dec_value (Finite s' c' ex') = Some ((if s' then -1 else 1) * of_nat m * 10 powi e)"
      using encode_number_canon [OF c'] by blast
    have "canon s' m e \<noteq> canon False 0 0" using m(2) by (auto simp: canon_inject)
    moreover have "canon False 0 0 = ''0''" by code_simp
    moreover have "m \<noteq> 0" using m(2) by (metis dvd_0_right)
    ultimately show ?thesis using m(1) zero c' by (simp add: m(3))
  qed
  consider "c = 0" "c' = 0" | "c = 0" "0 < c'" | "0 < c" "c' = 0" | "0 < c" "0 < c'" by linarith
  then have "encode_number (Finite s c ex) = encode_number (Finite s' c' ex') \<longleftrightarrow>
     dec_value (Finite s c ex) = dec_value (Finite s' c' ex')"
  proof cases
    case 1
    then show ?thesis using zero by simp
  next
    case 2
    then show ?thesis using one by metis
  next
    case 3
    then show ?thesis using one by metis
  next
    case 4
    obtain m e where m: "encode_number (Finite s c ex) = Inr (canon s m e)" "\<not> 10 dvd m"
        "dec_value (Finite s c ex) = Some ((if s then -1 else 1) * of_nat m * 10 powi e)"
      using encode_number_canon [OF 4(1)] by blast
    obtain m' e' where m': "encode_number (Finite s' c' ex') = Inr (canon s' m' e')" "\<not> 10 dvd m'"
        "dec_value (Finite s' c' ex') = Some ((if s' then -1 else 1) * of_nat m' * 10 powi e')"
      using encode_number_canon [OF 4(2)] by blast
    have mpos: "of_nat m * 10 powi e > (0 :: rat)" "of_nat m' * 10 powi e' > (0 :: rat)"
      using m(2) m'(2) pos by (auto intro!: mult_pos_pos intro: Nat.gr0I)
    have "dec_value (Finite s c ex) = dec_value (Finite s' c' ex') \<longleftrightarrow>
        s = s' \<and> of_nat m * 10 powi e = (of_nat m' * 10 powi e' :: rat)"
      using mpos unfolding m(3) m'(3) by (cases s; cases s') auto
    then show ?thesis using m(1,2) m'(1,2) scaled_unique [of m e m' e'] by (auto simp: canon_inject)
  qed
  moreover have "\<exists>t. encode_number (Finite s c ex) = Inr t"
    by (simp add: encode_number_def Let_def)
  ultimately show ?thesis by blast
qed

text \<open>
  Key scopes do not collide: the scope identity of a request is the hash of a list of
  strings, and with a collision-free hash two such lists have the same hash only if they are
  equal, whatever quotes, commas or brackets the strings contain.
\<close>

lemma scope_digest_injective:
  assumes "inj H"
  shows "digest H (VList (map VStr as)) = digest H (VList (map VStr bs)) \<longleftrightarrow> as = bs"
proof
  assume "digest H (VList (map VStr as)) = digest H (VList (map VStr bs))"
  then have "''['' @ py_join '','' (map json_string as) @ '']'' = ''['' @ py_join '','' (map json_string bs) @ '']''"
    using assms by (simp only: digest_strings sum.inject inj_eq)
  then have "py_join '','' (map json_string as) @ '']'' = py_join '','' (map json_string bs) @ '']''"
    by (simp only: same_append_eq)
  then show "as = bs" by (rule join_strings_inject)
qed simp

subsection \<open>Encodings determine values\<close>

text \<open>Values that mean the same: numbers by their value, mappings by their members in any order.\<close>

inductive same :: "val \<Rightarrow> val \<Rightarrow> bool" where
  same_none: "same VNone VNone"
| same_bool: "same (VBool b) (VBool b)"
| same_str: "same (VStr t) (VStr t)"
| same_num: "dec_value d = dec_value e \<Longrightarrow> same (VNum d) (VNum e)"
| same_list: "list_all2 same vs ws \<Longrightarrow> same (VList vs) (VList ws)"
| same_map: "map fst (sort_keys kvs) = map fst (sort_keys kvs') \<Longrightarrow>
    list_all2 same (map snd (sort_keys kvs)) (map snd (sort_keys kvs')) \<Longrightarrow> same (VMap kvs) (VMap kvs')"

inductive_simps same_simps: "same (VList vs) w" "same (VMap kvs) w" "same (VStr t) w" "same VNone w"

lemma result_list_Inr: "result_list rs = Inr xs \<longleftrightarrow> list_all2 (\<lambda>r x. r = Inr x) rs xs"
  by (induction rs arbitrary: xs) (auto simp: bindR_eq_Inr list_all2_Cons1)

text \<open>What can follow the encoding of a value.\<close>

definition ends :: "string \<Rightarrow> bool" where
  "ends s \<longleftrightarrow> s = [] \<or> hd s \<in> {CHR '','', CHR '']'', CHR ''}''}"

definition number_char :: "char \<Rightarrow> bool" where
  "number_char c \<longleftrightarrow> py_isdigit c \<or> c = CHR ''-'' \<or> c = CHR ''e''"

lemma ends_not_number: "ends (c # s) \<Longrightarrow> \<not> number_char c"
proof -
  have "\<not> number_char (CHR '','')" "\<not> number_char (CHR '']'')" "\<not> number_char (CHR ''}'')" by code_simp+
  then show "ends (c # s) \<Longrightarrow> \<not> number_char c" by (auto simp: ends_def)
qed

lemma span_unique:
  assumes "a @ s = b @ t" "list_all P a" "list_all P b" "s = [] \<or> \<not> P (hd s)" "t = [] \<or> \<not> P (hd t)"
  shows "a = b \<and> s = t"
  using assms by (induction a b rule: list_induct2') (auto simp: neq_Nil_conv append_eq_Cons_conv)

lemma show_number: "list_all number_char (show_nat n)" "list_all number_char (show_int i)"
  using show_nat_digits by (auto simp: list_all_iff number_char_def show_int_def)

lemma encode_number_chars: "encode_number d = Inr a \<Longrightarrow> list_all number_char a \<and> a \<noteq> []"
proof (cases d)
  case (Finite sg c ex)
  assume e: "encode_number d = Inr a"
  have num: "number_char (CHR ''-'')" "number_char (CHR ''e'')" "number_char (CHR ''0'')" by code_simp+
  show ?thesis
  proof (cases "c = 0")
    case True
    then show ?thesis using e Finite num by (auto simp: encode_number_def)
  next
    case False
    then obtain m k where "encode_number (Finite sg c ex) = Inr (canon sg m k)" using encode_number_canon [of c sg ex] by blast
    then show ?thesis using e Finite num show_number show_nat_not_Nil by (auto simp: canon_def)
  qed
qed (simp add: encode_number_def)

text \<open>The kind of a value, from the first character of its encoding.\<close>

fun kind :: "val \<Rightarrow> nat" where
  "kind VNone = 0" | "kind (VBool b) = (if b then 1 else 2)" | "kind (VNum d) = 3" | "kind (VStr s) = 4"
| "kind (VList vs) = 5" | "kind (VMap kvs) = 6" | "kind v = 7"

definition char_kind :: "char \<Rightarrow> nat" where
  "char_kind c =
     (if c = CHR ''n'' then 0 else if c = CHR ''t'' then 1 else if c = CHR ''f'' then 2 else if c = CHR 0x22 then 4
      else if c = CHR ''['' then 5 else if c = CHR ''{'' then 6 else 3)"

lemma encode_hd:
  assumes "encode v = Inr a"
  shows "a \<noteq> []" "char_kind (hd a) = kind v"
proof -
  have num: "char_kind c = 3" if "number_char c" for c
  proof -
    have "list_all (\<lambda>x. \<not> number_char x) [CHR ''n'', CHR ''t'', CHR ''f'', CHR 0x22, CHR ''['', CHR ''{'']" by code_simp
    then show ?thesis using that by (auto simp: char_kind_def)
  qed
  have "a \<noteq> [] \<and> char_kind (hd a) = kind v"
  proof (cases v)
    case (VNum d)
    then have "list_all number_char a" "a \<noteq> []" using assms encode_number_chars by auto
    then show ?thesis using num VNum by (cases a) auto
  qed (use assms in \<open>auto simp: char_kind_def json_string_def bindR_eq_Inr split: if_splits\<close>)
  then show "a \<noteq> []" "char_kind (hd a) = kind v" by simp_all
qed

lemma encode_not_end:
  assumes "encode v = Inr a"
  shows "\<not> ends (a @ u)"
proof
  assume e: "ends (a @ u)"
  note hd = encode_hd [OF assms]
  have "hd a \<in> {CHR '','', CHR '']'', CHR ''}''}" using e hd(1) by (simp add: ends_def)
  then have "kind v = 3" using hd(2) by (auto simp: char_kind_def)
  then obtain d where "v = VNum d" by (cases v) (auto split: if_splits)
  then have "number_char (hd a)" using assms encode_number_chars [of d a] hd(1) by (cases a) auto
  then show False using e ends_not_number [of "hd a" "tl a @ u"] hd(1) by (cases a) auto
qed

text \<open>The members of a list or a mapping, with separators, up to the closing bracket.\<close>

fun tail_after :: "char \<Rightarrow> string list \<Rightarrow> string" where
  "tail_after c [] = [c]"
| "tail_after c (x # xs) = CHR '','' # x @ tail_after c xs"

lemma join_tail: "py_join '','' (x # xs) @ [c] = x @ tail_after c xs"
  by (induction xs arbitrary: x) simp_all

lemma tail_after_ends: "c \<in> {CHR '']'', CHR ''}''} \<Longrightarrow> ends (tail_after c xs @ s)"
  by (cases xs) (auto simp: ends_def)

text \<open>Items whose encodings can be told from what follows them stay apart in a joined list.\<close>

definition unique_at :: "('a \<Rightarrow> string \<Rightarrow> bool) \<Rightarrow> ('a \<Rightarrow> 'a \<Rightarrow> bool) \<Rightarrow> 'a \<Rightarrow> bool" where
  "unique_at E S x \<longleftrightarrow> (\<forall>y a b s t. E x a \<longrightarrow> E y b \<longrightarrow> a @ s = b @ t \<longrightarrow> ends s \<longrightarrow> ends t \<longrightarrow> S x y \<and> s = t)"

lemma unique_atD: "unique_at E S x \<Longrightarrow> E x a \<Longrightarrow> E y b \<Longrightarrow> a @ s = b @ t \<Longrightarrow> ends s \<Longrightarrow> ends t \<Longrightarrow> S x y \<and> s = t"
  unfolding unique_at_def by blast

lemma tail_unique:
  assumes "list_all (unique_at E S) xs" and c: "c \<in> {CHR '']'', CHR ''}''}"
    and "list_all2 E xs as" "list_all2 E ys bs" "tail_after c as @ s = tail_after c bs @ t"
  shows "list_all2 S xs ys \<and> s = t"
  using assms(1,3-5)
proof (induction xs arbitrary: as ys bs)
  case Nil
  then show ?case using c by (cases bs) auto
next
  case (Cons x xs)
  obtain a as' where a: "as = a # as'" "E x a" "list_all2 E xs as'"
    using Cons.prems(2) by (auto simp: list_all2_Cons1)
  obtain b bs' where b: "bs = b # bs'" using Cons.prems(4) a(1) c by (cases bs) auto
  obtain y ys' where y: "ys = y # ys'" "E y b" "list_all2 E ys' bs'"
    using Cons.prems(3) b by (auto simp: list_all2_Cons2)
  have eq: "a @ tail_after c as' @ s = b @ tail_after c bs' @ t" using Cons.prems(4) a(1) b by simp
  have xy: "S x y" "tail_after c as' @ s = tail_after c bs' @ t"
    using unique_atD [of E S x a y b, OF _ a(2) y(2) eq] tail_after_ends [OF c] Cons.prems(1) by simp_all
  then show ?case using Cons.IH [OF _ a(3) y(3)] Cons.prems(1) y(1) by simp
qed

lemma joined_unique:
  assumes sep: "list_all (unique_at E S) xs"
    and c: "c \<in> {CHR '']'', CHR ''}''}" and start: "\<And>x a u. E x a \<Longrightarrow> \<not> ends (a @ u)"
    and enc: "list_all2 E xs as" "list_all2 E ys bs" "py_join '','' as @ c # s = py_join '','' bs @ c # t"
  shows "list_all2 S xs ys \<and> s = t"
proof -
  have join: "py_join '','' (z # zs) @ c # u = z @ tail_after c zs @ u" for z zs u
    using join_tail [of z zs c] by (metis append.assoc append_Cons append_Nil)
  have no: "py_join '','' (z # zs) @ c # u \<noteq> c # v" if "E x z" for x z zs u v
    unfolding join using start [OF that, of "tail_after c zs @ u"] c by (auto simp: ends_def)
  have "tail_after c as @ s = tail_after c bs @ t"
  proof (cases as)
    case Nil
    then have "bs = []" using enc no by (cases bs) (auto simp: list_all2_Cons2 dest: sym)
    then show ?thesis using Nil enc(3) by simp
  next
    case (Cons a as')
    then obtain b bs' where b: "bs = b # bs'" using enc no by (cases bs) (auto simp: list_all2_Cons2)
    show ?thesis using enc(3) unfolding Cons b join by simp
  qed
  then show ?thesis using tail_unique [OF sep c enc(1,2)] by blast
qed

definition encodes :: "val \<Rightarrow> string \<Rightarrow> bool" where
  "encodes v a \<longleftrightarrow> encode v = Inr a"

definition encodes_member :: "string \<times> val \<Rightarrow> string \<Rightarrow> bool" where
  "encodes_member kv a \<longleftrightarrow> (\<exists>x. encode (snd kv) = Inr x \<and> a = encode_entry (fst kv, x))"

definition same_member :: "string \<times> val \<Rightarrow> string \<times> val \<Rightarrow> bool" where
  "same_member kv kw \<longleftrightarrow> fst kv = fst kw \<and> same (snd kv) (snd kw)"

lemma encode_list_Inr:
  "encode (VList vs) = Inr a \<longleftrightarrow> (\<exists>as. list_all2 encodes vs as \<and> a = CHR ''['' # py_join '','' as @ '']'')"
proof -
  have e: "encodes = (\<lambda>v x. encode v = Inr x)" by (simp add: fun_eq_iff encodes_def)
  show ?thesis unfolding e encode.simps(3) bindR_eq_Inr result_list_Inr list_all2_map1 by auto
qed

definition member_result :: "string \<times> val \<Rightarrow> (string \<times> string) result" where
  "member_result kv = (case kv of (k, v) \<Rightarrow> bindR (encode v) (\<lambda>s. Inr (k, s)))"

lemma encodes_member_result: "encodes_member kv a \<longleftrightarrow> (\<exists>x. member_result kv = Inr x \<and> a = encode_entry x)"
  by (cases kv) (auto simp: encodes_member_def member_result_def bindR_eq_Inr)

lemma list_all2_image: "list_all2 (\<lambda>k a. \<exists>x. R k x \<and> a = f x) ks as \<longleftrightarrow> (\<exists>xs. list_all2 R ks xs \<and> as = map f xs)"
proof
  show "list_all2 (\<lambda>k a. \<exists>x. R k x \<and> a = f x) ks as \<Longrightarrow> \<exists>xs. list_all2 R ks xs \<and> as = map f xs"
  proof (induction rule: list_all2_induct)
    case (Cons k ks a as)
    then obtain x xs where "R k x" "a = f x" "list_all2 R ks xs" "as = map f xs" by blast
    then show ?case by (intro exI [of _ "x # xs"]) simp
  qed simp
next
  show "\<exists>xs. list_all2 R ks xs \<and> as = map f xs \<Longrightarrow> list_all2 (\<lambda>k a. \<exists>x. R k x \<and> a = f x) ks as"
    by (fastforce simp: list_all2_conv_all_nth)
qed

lemma encodes_members:
  "list_all2 encodes_member ks as \<longleftrightarrow> (\<exists>xs. list_all2 (\<lambda>kv x. member_result kv = Inr x) ks xs \<and> as = map encode_entry xs)"
  using list_all2_image [of "\<lambda>kv x. member_result kv = Inr x" encode_entry ks as] by (simp add: encodes_member_result [abs_def])

lemma encode_map_Inr:
  "encode (VMap kvs) = Inr a \<longleftrightarrow>
    (\<exists>as. list_all2 encodes_member (sort_keys kvs) as \<and> a = CHR ''{'' # py_join '','' as @ ''}'')"
proof -
  have e: "(\<lambda>(k, v). bindR (encode v) (\<lambda>s. Inr (k, s))) = member_result" by (simp add: fun_eq_iff member_result_def)
  show ?thesis unfolding encodes_members encode.simps(2) bindR_eq_Inr result_list_Inr list_all2_map1 e by auto
qed

lemma encode_number_same:
  assumes "encode_number d = Inr a" "encode_number e = Inr a"
  shows "dec_value d = dec_value e"
proof -
  have n: "encode_number NotFinite \<noteq> Inr a" by (simp add: encode_number_def)
  obtain s c ex where d: "d = Finite s c ex" using assms(1) n by (cases d) auto
  obtain s' c' ex' where e: "e = Finite s' c' ex'" using assms(2) n by (cases e) auto
  show ?thesis using assms number_encoding_canonical [of s c ex s' c' ex'] unfolding d e by metis
qed

lemma encodes_not_end: "encodes v a \<Longrightarrow> \<not> ends (a @ u)" "encodes_member kv a \<Longrightarrow> \<not> ends (a @ u)"
  using encode_not_end by (auto simp: encodes_def encodes_member_def encode_entry_def json_string_def ends_def)

lemma unique_member:
  assumes "unique_at encodes same (snd kv)"
  shows "unique_at encodes_member same_member kv"
  unfolding unique_at_def
proof (intro allI impI)
  fix kw a b s t
  assume p: "encodes_member kv a" "encodes_member kw b" "a @ s = b @ t" "ends s" "ends t"
  obtain x y where x: "encodes (snd kv) x" "a = encode_entry (fst kv, x)" and y: "encodes (snd kw) y" "b = encode_entry (fst kw, y)"
    using p(1,2) by (auto simp: encodes_member_def encodes_def)
  have "json_string (fst kv) @ '':'' @ x @ s = json_string (fst kw) @ '':'' @ y @ t"
    using p(3) x(2) y(2) by (simp add: encode_entry_def)
  from json_string_prefix_free [OF this] have k: "fst kv = fst kw" "x @ s = y @ t" by simp_all
  then show "same_member kv kw \<and> s = t"
    using unique_atD [of encodes same "snd kv" x "snd kw" y, OF assms x(1) y(1) k(2) p(4,5)] by (simp add: same_member_def)
qed

lemma same_members: "list_all2 same_member xs ys \<longleftrightarrow> map fst xs = map fst ys \<and> list_all2 same (map snd xs) (map snd ys)"
proof
  show "list_all2 same_member xs ys \<Longrightarrow> map fst xs = map fst ys \<and> list_all2 same (map snd xs) (map snd ys)"
    by (induction rule: list_all2_induct) (auto simp: same_member_def)
  show "map fst xs = map fst ys \<and> list_all2 same (map snd xs) (map snd ys) \<Longrightarrow> list_all2 same_member xs ys"
    by (induction xs ys rule: list_induct2') (auto simp: same_member_def)
qed

text \<open>The encoding of a value can be told from what follows it, and determines the value.\<close>

lemma encode_unique: "unique_at encodes same v"
proof (induction v rule: measure_induct_rule [of size])
  case (less v)
  show ?case
    unfolding unique_at_def
  proof (intro allI impI)
    fix w a b s t
    assume p: "encodes v a" "encodes w b" "a @ s = b @ t" "ends s" "ends t"
    note ev = p(1) [unfolded encodes_def] and ew = p(2) [unfolded encodes_def]
    have kind: "kind v = kind w" "kind v < 7"
      using encode_hd [OF ev] encode_hd [OF ew] p(3) ev by (cases a; cases b; cases v; simp)+
    show "same v w \<and> s = t"
    proof (cases v)
      case VNone
      then show ?thesis using kind ev ew p(3) by (cases w) (auto intro: same_none split: if_splits)
    next
      case (VBool x)
      then show ?thesis using kind ev ew p(3) by (cases w) (auto intro: same_bool split: if_splits)
    next
      case (VStr x)
      then obtain y where w: "w = VStr y" using kind by (cases w) (auto split: if_splits)
      then show ?thesis using json_string_prefix_free [of x s y t] VStr ev ew p(3) by (auto intro: same_str)
    next
      case (VNum d)
      then obtain e where w: "w = VNum e" using kind by (cases w) (auto split: if_splits)
      have e: "encode_number d = Inr a" "encode_number e = Inr b" using ev ew VNum w by simp_all
      have nd: "x = [] \<or> \<not> number_char (hd x)" if "ends x" for x using that ends_not_number by (cases x) auto
      have "a = b \<and> s = t"
        by (rule span_unique [OF p(3)]) (use encode_number_chars e nd p(4,5) in auto)
      then show ?thesis using encode_number_same e VNum w by (auto intro: same_num)
    next
      case (VList vs)
      then obtain ws where w: "w = VList ws" using kind by (cases w) (auto split: if_splits)
      obtain as where as: "list_all2 encodes vs as" "a = CHR ''['' # py_join '','' as @ '']''"
        using ev unfolding VList encode_list_Inr by blast
      obtain bs where bs: "list_all2 encodes ws bs" "b = CHR ''['' # py_join '','' bs @ '']''"
        using ew unfolding w encode_list_Inr by blast
      have j: "py_join '','' as @ CHR '']'' # s = py_join '','' bs @ CHR '']'' # t" using p(3) as(2) bs(2) by simp
      have u: "list_all (unique_at encodes same) vs"
        using less VList by (auto simp: list_all_iff less_Suc_eq_le size_list_estimation')
      have "list_all2 same vs ws \<and> s = t"
        by (rule joined_unique [OF u _ encodes_not_end(1) as(1) bs(1) j]) simp_all
      then show ?thesis using VList w by (auto intro: same_list)
    next
      case (VMap kvs)
      then obtain kws where w: "w = VMap kws" using kind by (cases w) (auto split: if_splits)
      obtain as where as: "list_all2 encodes_member (sort_keys kvs) as" "a = CHR ''{'' # py_join '','' as @ ''}''"
        using ev unfolding VMap encode_map_Inr by blast
      obtain bs where bs: "list_all2 encodes_member (sort_keys kws) bs" "b = CHR ''{'' # py_join '','' bs @ ''}''"
        using ew unfolding w encode_map_Inr by blast
      have j: "py_join '','' as @ CHR ''}'' # s = py_join '','' bs @ CHR ''}'' # t" using p(3) as(2) bs(2) by simp
      have "unique_at encodes same (snd kv)" if "kv \<in> set (sort_keys kvs)" for kv
        using less VMap that size_entry [of "fst kv" "snd kv" kvs] by (simp add: sort_keys_def)
      then have u: "list_all (unique_at encodes_member same_member) (sort_keys kvs)"
        using unique_member by (simp add: list_all_iff)
      have "list_all2 same_member (sort_keys kvs) (sort_keys kws) \<and> s = t"
        by (rule joined_unique [OF u _ encodes_not_end(2) as(1) bs(1) j]) simp_all
      then show ?thesis using VMap w by (auto simp: same_members intro: same_map)
    qed (use kind in simp_all)
  qed
qed

lemma same_encode: "same v w \<Longrightarrow> encode v = encode w"
proof (induction rule: same.induct)
  case (same_num d e)
  then show ?case
  proof (cases d; cases e)
    fix s c ex s' c' ex'
    assume "d = Finite s c ex" "e = Finite s' c' ex'"
    then show ?thesis using same_num number_encoding_canonical [of s c ex s' c' ex'] by (simp only: encode.simps)
  qed simp_all
next
  case (same_list vs ws)
  then have "map encode vs = map encode ws" by (induction rule: list_all2_induct) simp_all
  then show ?case by simp
next
  case (same_map kvs kvs')
  have "map member_result xs = map member_result ys"
    if "map fst xs = map fst ys" "list_all2 (\<lambda>v w. same v w \<and> encode v = encode w) (map snd xs) (map snd ys)" for xs ys
    using that by (induction xs ys rule: list_induct2') (auto simp: member_result_def)
  from this [OF same_map(1,2)] show ?case unfolding encode.simps(2) member_result_def [abs_def, symmetric] by simp
qed simp_all

text \<open>
  The order in which a JSON object lists its members does not matter: mappings with
  the same members have the same encoding, and so the same fingerprint.
\<close>

lemma member_order_irrelevant:
  assumes "mset kvs = mset kvs'" and "distinct (map fst kvs)"
  shows "encode (VMap kvs) = encode (VMap kvs')"
  using sort_keys_permuted [OF assms] by simp

lemma digest_same:
  assumes "inj H" "normalized v = Inr nv" "normalized w = Inr nw" "digest H v = Inr a" "digest H w = Inr b"
  shows "a = b \<longleftrightarrow> same nv nw"
proof -
  obtain x where x: "encode nv = Inr x" "a = H x" using assms(2,4) by (auto simp: digest_def bindR_eq_Inr)
  obtain y where y: "encode nw = Inr y" "b = H y" using assms(3,5) by (auto simp: digest_def bindR_eq_Inr)
  have "x = y \<longleftrightarrow> same nv nw"
    using unique_atD [OF encode_unique, of nv x nw y "[]" "[]"] same_encode [of nv nw] x(1) y(1)
    by (auto simp: encodes_def ends_def)
  then show ?thesis using x(2) y(2) assms(1) by (simp add: inj_eq)
qed

text \<open>Members of mappings that mean the same.\<close>

lemma map_of_sort_keys: "distinct (map fst kvs) \<Longrightarrow> map_of (sort_keys kvs) = map_of kvs"
proof -
  assume d: "distinct (map fst kvs)"
  have m: "mset (sort_keys kvs) = mset kvs" by (rule mset_sort_keys)
  then have "mset (map fst (sort_keys kvs)) = mset (map fst kvs)" by simp
  then have "distinct (map fst (sort_keys kvs))" using d by (metis distinct_count_atmost_1 mset_eq_setD)
  then show ?thesis using d m by (intro map_of_inject_set [THEN iffD2]) (auto dest: mset_eq_setD)
qed

lemma same_map_lookup:
  assumes "same (VMap xs) (VMap ys)" "distinct (map fst xs)" "distinct (map fst ys)" "map_of xs k = Some v" "map_of ys k = Some w"
  shows "same v w"
proof -
  have m: "list_all2 same_member (sort_keys xs) (sort_keys ys)" using assms(1) by (auto simp: same_simps same_members)
  have "map_of (sort_keys xs) k = Some v" "map_of (sort_keys ys) k = Some w"
    using assms(2-5) by (simp_all add: map_of_sort_keys)
  with m show ?thesis
    by (induction rule: list_all2_induct) (auto simp: same_member_def split: if_splits)
qed

text \<open>
  Property C33. Fingerprints are exact: with a collision-free hash two inputs have the same
  fingerprint exactly when their normalized values mean the same, that is, agree in structure and
  strings, in the values of their numbers, and in the members of their mappings whatever their order.
\<close>

theorem fingerprint_exact:
  assumes "inj H" "normalized v = Inr nv" "normalized w = Inr nw" "digest H v = Inr a" "digest H w = Inr b"
  shows "a = b \<longleftrightarrow> same nv nw"
  using assms by (rule digest_same)

theorem fingerprint_exact_witness:
  "same (VMap [(''b'', VList [VStr ''x'', VNone]), (''a'', VNum (Finite False 10 0))])
     (VMap [(''a'', VNum (Finite False 1 1)), (''b'', VList [VStr ''x'', VNone])])"
proof -
  let ?v = "VMap [(''b'', VList [VStr ''x'', VNone]), (''a'', VNum (Finite False 10 0))]"
  let ?w = "VMap [(''a'', VNum (Finite False 1 1)), (''b'', VList [VStr ''x'', VNone])]"
  have n: "normalized ?v = Inr ?v" "normalized ?w = Inr ?w" by simp_all
  have d: "\<not> isl (digest id ?v)" "digest id ?w = digest id ?v" by code_simp+
  note v = sum.collapse(2) [OF d(1), symmetric]
  have "inj (id :: string \<Rightarrow> string)" by simp
  from fingerprint_exact [OF this n v trans [OF d(2) v]] show ?thesis by simp
qed

end
