(* ===== verification/Idempotency.thy ===== *)
theory Idempotency
  imports Activity Fingerprint Gates
begin

text \<open>
  Durable idempotent mutations: the declarations of \<^verbatim>\<open>app/common/models/idempotency_model.py\<close>, the
  table operations of \<^verbatim>\<open>app/database/repositories/idempotency_repo.py\<close>, the execution of
  \<^verbatim>\<open>app/common/services/idempotency_service.py\<close> and the transactional route handler of
  \<^verbatim>\<open>app/common/handlers/application_route.py\<close>.

  One call of the handler is a function of the committed database before it. The transaction
  works on a copy; committing publishes it, any exception discards it. What the environment
  decides is the record \<open>env\<close>: clock readings and transport events at each activity check, the
  answer of the advisory lock, the database clock, and what becomes of the commit and of the
  lock release. The domain (the endpoint and its tables) is a parameter.
\<close>

subsection \<open>Declarations\<close>

definition RETENTION_SECONDS :: rat where "RETENTION_SECONDS = 86400"

record IdempotencyPolicy =
  pol_operation :: string
  pol_route :: "string option"

definition caller_scope_message :: string where
  "caller_scope_message = ''Idempotency caller scope must contain 1'' @
     [char_of (226 :: nat), char_of (128 :: nat), char_of (147 :: nat)] @ ''128 characters.''"

text \<open>\<open>caller\<close> is the declared scope when it is a string, and absent when it is a function.\<close>

definition make_idempotency_policy :: "string \<Rightarrow> string option \<Rightarrow> string option \<Rightarrow> IdempotencyPolicy result" where
  "make_idempotency_policy operation route caller =
     (if \<not> (1 \<le> py_len operation \<and> py_len operation \<le> 128) \<or>
         (case route of None \<Rightarrow> False | Some r \<Rightarrow> \<not> (1 \<le> py_len r \<and> py_len r \<le> 512)) then
        Inl (ValueError ''Idempotency requires a bounded operation and stable public route template.'')
      else if (case caller of None \<Rightarrow> False | Some c \<Rightarrow> \<not> (1 \<le> py_len c \<and> py_len c \<le> 128)) then
        Inl (ValueError caller_scope_message)
      else Inr \<lparr>pol_operation = operation, pol_route = route\<rparr>)"

text \<open>\<^verbatim>\<open>re.sub(r'{([^}]+)}', r':\1', template)\<close>\<close>

fun sub_params :: "nat \<Rightarrow> string \<Rightarrow> string" where
  "sub_params 0 s = s"
| "sub_params (Suc n) s =
     (case s of
        [] \<Rightarrow> []
      | c # cs \<Rightarrow>
          if c = CHR ''{'' then
            (let name = takeWhile (\<lambda>x. x \<noteq> CHR ''}'') cs; rest = dropWhile (\<lambda>x. x \<noteq> CHR ''}'') cs in
             if name \<noteq> [] \<and> rest \<noteq> [] then CHR '':'' # name @ sub_params n (tl rest) else c # sub_params n cs)
          else c # sub_params n cs)"

definition resolve_route :: "string \<Rightarrow> string option \<Rightarrow> IdempotencyPolicy \<Rightarrow> string result" where
  "resolve_route meth path_format pol =
     (case pol_route pol of
        Some r \<Rightarrow> Inr r
      | None \<Rightarrow>
          (case path_format of
             None \<Rightarrow> Inl (RuntimeError ''Automatic idempotency requires a matched route template.'')
           | Some template \<Rightarrow>
               (let t = py_rstrip (CHR ''/'') template; t' = (if t = [] then ''/'' else t) in
                Inr (meth @ '' '' @ sub_params (length t') t'))))"

definition key_char :: "char \<Rightarrow> bool" where
  "key_char c \<longleftrightarrow> (0x21 \<le> code c \<and> code c \<le> 0x2b) \<or> (0x2d \<le> code c \<and> code c \<le> 0x7e)"

definition read_key :: "string list \<Rightarrow> string option result" where
  "read_key vals =
     (case vals of
        [] \<Rightarrow> Inr None
      | v # vs \<Rightarrow>
          if vs \<noteq> [] \<or> \<not> (1 \<le> length v \<and> length v \<le> 128 \<and> list_all key_char v)
          then Inl (HTTPException 400 KEY_ERROR [])
          else Inr (Some v))"

subsection \<open>The table\<close>

record IdempotencyORM =
  io_scope_hash :: string
  io_namespace :: string
  io_caller_scope :: string
  io_operation :: string
  io_route :: string
  io_fingerprint :: string
  io_state :: string
  io_response_status :: "int option"
  io_response_body :: "bytes option"
  io_completed_at :: "time option"
  io_expires_at :: "time option"

type_synonym idem_table = "IdempotencyORM list"

definition idem_require_transaction :: "bool \<Rightarrow> unit result" where
  "idem_require_transaction in_tx =
     guardR in_tx (RuntimeError ''Idempotency writes require an active transaction.'')"

text \<open>The comparison with a missing expiry is not true.\<close>

definition unexpired :: "time \<Rightarrow> IdempotencyORM \<Rightarrow> bool" where
  "unexpired now r = (case io_expires_at r of None \<Rightarrow> False | Some t \<Rightarrow> t > now)"

definition past_expiry :: "time \<Rightarrow> IdempotencyORM \<Rightarrow> bool" where
  "past_expiry now r = (case io_expires_at r of None \<Rightarrow> False | Some t \<Rightarrow> t \<le> now)"

definition idem_find :: "time \<Rightarrow> string \<Rightarrow> idem_table \<Rightarrow> (IdempotencyORM \<times> bool) option" where
  "idem_find now h tbl = map_option (\<lambda>r. (r, unexpired now r)) (find (\<lambda>r. io_scope_hash r = h) tbl)"

definition idem_claim :: "IdempotencyORM \<Rightarrow> idem_table \<Rightarrow> idem_table result" where
  "idem_claim r tbl =
     (if list_ex (\<lambda>x. io_scope_hash x = io_scope_hash r) tbl then Inl (SQLAlchemyError ''IntegrityError'')
      else Inr (tbl @ [r]))"

definition idem_delete_expired :: "time \<Rightarrow> string \<Rightarrow> idem_table \<Rightarrow> idem_table" where
  "idem_delete_expired now h tbl =
     filter (\<lambda>r. \<not> (io_scope_hash r = h \<and> io_state r = ''completed'' \<and> past_expiry now r)) tbl"

definition completed_row :: "time \<Rightarrow> int \<Rightarrow> bytes \<Rightarrow> IdempotencyORM \<Rightarrow> IdempotencyORM" where
  "completed_row now st body r =
     r \<lparr>io_state := ''completed'', io_response_status := Some st, io_response_body := Some body,
        io_completed_at := Some now, io_expires_at := Some (now + RETENTION_SECONDS)\<rparr>"

definition idem_complete :: "time \<Rightarrow> string \<Rightarrow> int \<Rightarrow> bytes \<Rightarrow> idem_table \<Rightarrow> idem_table result" where
  "idem_complete now h st body tbl =
     (let hit = (\<lambda>r. io_scope_hash r = h \<and> io_state r = ''processing'') in
      if length (filter hit tbl) \<noteq> 1 then
        Inl (RuntimeError ''Only a processing idempotency claim can be completed.'')
      else
        Inr (map (\<lambda>r. if hit r then completed_row now st body r else r) tbl))"

subsection \<open>Stored responses\<close>

text \<open>
  \<^verbatim>\<open>json.loads\<close> as a recognizer: the rest of the input after a value, with the constants \<open>NaN\<close>
  and \<open>Infinity\<close> refused. Every nested value is shorter than its container, so the length of the
  input is enough fuel.
\<close>

definition skip_ws :: "string \<Rightarrow> string" where
  "skip_ws s = dropWhile (\<lambda>c. code c \<in> {9, 10, 13, 32}) s"

fun json_chars :: "string \<Rightarrow> string option" where
  "json_chars [] = None"
| "json_chars (c # cs) =
     (if c = CHR 0x22 then Some cs
      else if code c < 32 then None
      else if c = CHR 0x5C then
        (case cs of
           [] \<Rightarrow> None
         | e # r \<Rightarrow>
             if e = CHR ''u'' then
               (if length r \<ge> 4 \<and>
                   list_all (\<lambda>x. py_isdigit x \<or> (65 \<le> code x \<and> code x \<le> 70) \<or> (97 \<le> code x \<and> code x \<le> 102)) (take 4 r)
                then json_chars (drop 4 r) else None)
             else if e \<in> set (CHR 0x22 # CHR 0x5C # ''/bfnrt'') then json_chars r else None)
      else json_chars cs)"

definition json_digits :: "string \<Rightarrow> string option" where
  "json_digits s = (if s \<noteq> [] \<and> py_isdigit (hd s) then Some (dropWhile py_isdigit s) else None)"

definition json_exponent :: "string \<Rightarrow> string" where
  "json_exponent s =
     (case s of
        [] \<Rightarrow> s
      | c # r \<Rightarrow>
          if c \<in> set ''eE'' then
            (let r' = (case r of [] \<Rightarrow> r | x # t \<Rightarrow> if x \<in> set ''+-'' then t else r) in
             case json_digits r' of Some t \<Rightarrow> t | None \<Rightarrow> s)
          else s)"

definition json_fraction :: "string \<Rightarrow> string" where
  "json_fraction s =
     (case s of [] \<Rightarrow> s | c # r \<Rightarrow> if c = CHR ''.'' then (case json_digits r of Some t \<Rightarrow> t | None \<Rightarrow> s) else s)"

definition json_number :: "string \<Rightarrow> string option" where
  "json_number s =
     (let s' = (case s of [] \<Rightarrow> s | c # r \<Rightarrow> if c = CHR ''-'' then r else s) in
      case s' of
        [] \<Rightarrow> None
      | c # r \<Rightarrow>
          if c = CHR ''0'' then Some (json_exponent (json_fraction r))
          else if py_isdigit c then
            (let whole = dropWhile py_isdigit r; rest = json_exponent (json_fraction whole) in
             if rest = whole \<and> length (takeWhile py_isdigit s') > 4300 then None else Some rest)
          else None)"

fun json_value :: "nat \<Rightarrow> string \<Rightarrow> string option"
  and json_items :: "nat \<Rightarrow> string \<Rightarrow> string option"
  and json_members :: "nat \<Rightarrow> string \<Rightarrow> string option" where
  "json_value 0 s = None"
| "json_value (Suc n) s =
     (case skip_ws s of
        [] \<Rightarrow> None
      | c # r \<Rightarrow>
          if c = CHR 0x22 then json_chars r
          else if c = CHR ''['' then
            (case skip_ws r of
               [] \<Rightarrow> None
             | d # t \<Rightarrow> if d = CHR '']'' then Some t else json_items n r)
          else if c = CHR ''{'' then
            (case skip_ws r of
               [] \<Rightarrow> None
             | d # t \<Rightarrow> if d = CHR ''}'' then Some t else json_members n r)
          else if startswith (c # r) ''true'' then Some (drop 3 r)
          else if startswith (c # r) ''false'' then Some (drop 4 r)
          else if startswith (c # r) ''null'' then Some (drop 3 r)
          else json_number (c # r))"
| "json_items 0 s = None"
| "json_items (Suc n) s =
     (case json_value n s of
        None \<Rightarrow> None
      | Some r \<Rightarrow>
          (case skip_ws r of
             [] \<Rightarrow> None
           | c # t \<Rightarrow> if c = CHR '']'' then Some t else if c = CHR '','' then json_items n t else None))"
| "json_members 0 s = None"
| "json_members (Suc n) s =
     (case skip_ws s of
        [] \<Rightarrow> None
      | q # r \<Rightarrow>
          if q \<noteq> CHR 0x22 then None
          else
            (case json_chars r of
               None \<Rightarrow> None
             | Some r1 \<Rightarrow>
                 (case skip_ws r1 of
                    [] \<Rightarrow> None
                  | col # r2 \<Rightarrow>
                      if col \<noteq> CHR '':'' then None
                      else
                        (case json_value n r2 of
                           None \<Rightarrow> None
                         | Some r3 \<Rightarrow>
                             (case skip_ws r3 of
                                [] \<Rightarrow> None
                              | c # t \<Rightarrow> if c = CHR ''}'' then Some t
                                  else if c = CHR '','' then json_members n t else None)))))"

definition json_loads_ok :: "bytes \<Rightarrow> bool" where
  "json_loads_ok b \<longleftrightarrow>
     (case json_value (2 * length b + 2) b of None \<Rightarrow> False | Some r \<Rightarrow> skip_ws r = [])"

definition validate_response :: "int \<Rightarrow> bytes \<Rightarrow> nat \<Rightarrow> unit result" where
  "validate_response st body limit =
     (if \<not> (200 \<le> st \<and> st < 300) \<or> length body > limit then
        Inl (RuntimeError ''Prepared response exceeds the idempotency storage contract.'')
      else if st = 204 \<or> st = 205 then
        (if body \<noteq> [] then Inl (RuntimeError ''Bodyless idempotent responses must not contain JSON.'') else Inr ())
      else if \<not> utf8_valid body then Inl UnicodeDecodeError
      else if json_loads_ok body then Inr ()
      else Inl (ValueError ''Prepared response must contain valid JSON.''))"

subsection \<open>Requests and environment\<close>

text \<open>What the route prepared: whether it is a plain JSON response without background work.\<close>

record response =
  rs_status :: int
  rs_body :: bytes
  rs_json :: bool
  rs_background :: bool

definition PreparedJSONResponse :: "bytes \<Rightarrow> int \<Rightarrow> response" where
  "PreparedJSONResponse body st = \<lparr>rs_status = st, rs_body = body, rs_json = True, rs_background = False\<rparr>"

record 'd database =
  domain :: 'd
  idem :: idem_table

datatype commit_outcome = Committed | CommitFailed exn | CommitLost exn

record settings =
  cfg_app_name :: string
  cfg_database :: string
  cfg_max_response_bytes :: nat

text \<open>
  \<open>clk\<close> and \<open>abandoned_by\<close> give the clock and a transport event before the numbered activity
  check; \<open>lock_answer\<close> is the result of \<^verbatim>\<open>GET_LOCK\<close>; \<open>CommitLost\<close> is a commit that took effect
  although the client saw an error; \<open>release_confirmed\<close> is whether \<^verbatim>\<open>RELEASE_LOCK\<close> returned 1.
\<close>

record env =
  clk :: "nat \<Rightarrow> time"
  abandoned_by :: "nat \<Rightarrow> string option"
  lock_answer :: "int option"
  db_now :: time
  commit :: commit_outcome
  release_confirmed :: bool

text \<open>
  A matched request: the values of its key header, the validated inputs (or the error of their
  validation), the caller scope, the route and the endpoint on the domain.
\<close>

record 'd request =
  rq_keys :: "string list"
  rq_inputs :: "val result"
  rq_caller :: string
  rq_method :: string
  rq_template :: "string option"
  rq_endpoint :: "'d \<Rightarrow> response result \<times> 'd"

subsection \<open>One execution\<close>

record execution =
  ex_scope_hash :: "string option"
  ex_locked :: bool
  ex_uncertain :: bool
  ex_claimed :: bool

record 'd work =
  w_db :: "'d database"
  w_activity :: RequestActivity
  w_exec :: execution

definition new_execution :: execution where
  "new_execution = \<lparr>ex_scope_hash = None, ex_locked = False, ex_uncertain = False, ex_claimed = False\<rparr>"

definition check_activity :: "env \<Rightarrow> nat \<Rightarrow> ('d work, unit) step" where
  "check_activity en k w =
     (let a = (case abandoned_by en k of Some r \<Rightarrow> abandon r (w_activity w) | None \<Rightarrow> w_activity w);
          (r, a') = assert_active (clk en k) a
      in (r, w \<lparr>w_activity := a'\<rparr>))"

definition set_exec :: "(execution \<Rightarrow> execution) \<Rightarrow> ('d work, unit) step" where
  "set_exec f = modifyS (\<lambda>w. w \<lparr>w_exec := f (w_exec w)\<rparr>)"

definition set_idem :: "idem_table \<Rightarrow> ('d work, unit) step" where
  "set_idem tbl = modifyS (\<lambda>w. w \<lparr>w_db := (w_db w) \<lparr>idem := tbl\<rparr>\<rparr>)"

definition scope_namespace :: "(string \<Rightarrow> string) \<Rightarrow> settings \<Rightarrow> string result" where
  "scope_namespace H cfg = digest H (VList (map VStr [cfg_app_name cfg, cfg_database cfg]))"

definition scope_identity ::
  "(string \<Rightarrow> string) \<Rightarrow> settings \<Rightarrow> IdempotencyPolicy \<Rightarrow> 'd request \<Rightarrow> string \<Rightarrow> string result" where
  "scope_identity H cfg pol rq key =
     bindR (scope_namespace H cfg) (\<lambda>namespace.
     bindR (resolve_route (rq_method rq) (rq_template rq) pol) (\<lambda>route.
       digest H (VList (map VStr
         [''idempotency-v1'', namespace, rq_caller rq, pol_operation pol, route, key]))))"

text \<open>The decision on an existing row: replay it, refuse, or (\<open>None\<close>) go on.\<close>

definition replay_of :: "string \<Rightarrow> IdempotencyORM \<Rightarrow> bool \<Rightarrow> response option result" where
  "replay_of fingerprint record is_unexpired =
     (if io_state record \<noteq> ''completed'' then
        Inl (RuntimeError ''Unexpected persisted idempotency claim state.'')
      else if is_unexpired then
        (if io_fingerprint record \<noteq> fingerprint then
           Inl (HTTPException 409 ''Idempotency-Key was already used with a different payload.'' [])
         else
           (case (io_response_status record, io_response_body record) of
              (Some st, Some body) \<Rightarrow>
                bindR (validate_response st body 65536) (\<lambda>_. Inr (Some (PreparedJSONResponse body st)))
            | _ \<Rightarrow> Inl (RuntimeError ''Stored idempotency response is incomplete.'')))
      else Inr None)"

definition claim_row ::
  "string \<Rightarrow> string \<Rightarrow> string \<Rightarrow> string \<Rightarrow> string \<Rightarrow> string \<Rightarrow> IdempotencyORM" where
  "claim_row h namespace caller operation route fingerprint =
     \<lparr>io_scope_hash = h, io_namespace = namespace, io_caller_scope = caller, io_operation = operation,
      io_route = route, io_fingerprint = fingerprint, io_state = ''processing'',
      io_response_status = None, io_response_body = None, io_completed_at = None, io_expires_at = None\<rparr>"

definition take_lock :: "env \<Rightarrow> ('d work, unit) step" where
  "take_lock en =
     (case lock_answer en of
        Some n \<Rightarrow>
          if n = 1 then
            bindS (set_exec (\<lambda>x. x \<lparr>ex_uncertain := False\<rparr>)) (\<lambda>_. set_exec (\<lambda>x. x \<lparr>ex_locked := True\<rparr>))
          else if n = 0 then
            bindS (set_exec (\<lambda>x. x \<lparr>ex_uncertain := False\<rparr>)) (\<lambda>_.
              raiseS (HTTPException 409 ''This idempotent request is already processing.'' []))
          else raiseS (RuntimeError ''Unable to establish idempotency lock ownership.'')
      | None \<Rightarrow> raiseS (RuntimeError ''Unable to establish idempotency lock ownership.''))"

definition claim_scope ::
  "env \<Rightarrow> string \<Rightarrow> string \<Rightarrow> IdempotencyORM \<Rightarrow> ('d work, response option) step" where
  "claim_scope en h fingerprint row =
     bindS (getS (\<lambda>w. idem (w_db w))) (\<lambda>tbl.
     bindS (case idem_find (db_now en) h tbl of
              None \<Rightarrow> returnS None
            | Some (record, fresh) \<Rightarrow>
                bindS (liftS (replay_of fingerprint record fresh)) (\<lambda>rep.
                  if rep \<noteq> None then returnS rep
                  else bindS (set_idem (idem_delete_expired (db_now en) h tbl)) (\<lambda>_. returnS None))) (\<lambda>rep.
     if rep \<noteq> None then returnS rep
     else
       bindS (getS (\<lambda>w. idem (w_db w))) (\<lambda>tbl'.
       bindS (liftS (idem_claim row tbl')) (\<lambda>tbl''.
       bindS (set_idem tbl'') (\<lambda>_.
       bindS (set_exec (\<lambda>x. x \<lparr>ex_claimed := True\<rparr>)) (\<lambda>_.
       bindS (check_activity en 5) (\<lambda>_. returnS None)))))))"

definition begin_execution ::
  "(string \<Rightarrow> string) \<Rightarrow> settings \<Rightarrow> env \<Rightarrow> IdempotencyPolicy \<Rightarrow> 'd request \<Rightarrow> string \<Rightarrow> val \<Rightarrow>
   ('d work, response option) step" where
  "begin_execution H cfg en pol rq key inputs =
     bindS (check_activity en 2) (\<lambda>_.
     bindS (liftS (guardR (1 \<le> py_len (rq_caller rq) \<and> py_len (rq_caller rq) \<le> 128)
       (RuntimeError caller_scope_message))) (\<lambda>_.
     bindS (liftS (scope_namespace H cfg)) (\<lambda>namespace.
     bindS (liftS (scope_identity H cfg pol rq key)) (\<lambda>h.
     bindS (set_exec (\<lambda>x. x \<lparr>ex_scope_hash := Some h\<rparr>)) (\<lambda>_.
     bindS (liftS (digest H inputs)) (\<lambda>fingerprint.
     bindS (set_exec (\<lambda>x. x \<lparr>ex_uncertain := True\<rparr>)) (\<lambda>_.
     bindS (check_activity en 3) (\<lambda>_.
     bindS (take_lock en) (\<lambda>_.
     bindS (check_activity en 4) (\<lambda>_.
     bindS (liftS (resolve_route (rq_method rq) (rq_template rq) pol)) (\<lambda>route.
       claim_scope en h fingerprint
         (claim_row h namespace (rq_caller rq) (pol_operation pol) route fingerprint))))))))))))"

definition complete_execution :: "settings \<Rightarrow> env \<Rightarrow> response \<Rightarrow> ('d work, unit) step" where
  "complete_execution cfg en resp =
     bindS (getS (\<lambda>w. w_exec w)) (\<lambda>ex.
       if \<not> ex_claimed ex then returnS ()
       else
         bindS (check_activity en 6) (\<lambda>_.
           case ex_scope_hash ex of
             None \<Rightarrow> raiseS (RuntimeError ''Missing idempotency scope.'')
           | Some h \<Rightarrow>
               bindS (liftS (validate_response (rs_status resp) (rs_body resp) (cfg_max_response_bytes cfg))) (\<lambda>_.
               bindS (getS (\<lambda>w. idem (w_db w))) (\<lambda>tbl.
               bindS (liftS (idem_complete (db_now en) h (rs_status resp) (rs_body resp) tbl)) (\<lambda>tbl'.
                 set_idem tbl')))))"

subsection \<open>The route handler\<close>

definition run_endpoint :: "'d request \<Rightarrow> ('d work, response) step" where
  "run_endpoint rq w =
     (case rq_endpoint rq (domain (w_db w)) of
        (r, d) \<Rightarrow> (r, w \<lparr>w_db := (w_db w) \<lparr>domain := d\<rparr>\<rparr>))"

definition prepare ::
  "(string \<Rightarrow> string) \<Rightarrow> settings \<Rightarrow> env \<Rightarrow> IdempotencyPolicy \<Rightarrow> 'd request \<Rightarrow> string option \<Rightarrow>
   ('d work, response) step" where
  "prepare H cfg en pol rq key =
     bindS (liftS (rq_inputs rq)) (\<lambda>inputs.
       case key of
         None \<Rightarrow> run_endpoint rq
       | Some k \<Rightarrow>
           bindS (begin_execution H cfg en pol rq k inputs) (\<lambda>replay.
             case replay of Some resp \<Rightarrow> returnS resp | None \<Rightarrow> run_endpoint rq))"

text \<open>The body of \<^verbatim>\<open>async with session.begin()\<close>; the flag says whether there is work to commit.\<close>

definition transaction_body ::
  "(string \<Rightarrow> string) \<Rightarrow> settings \<Rightarrow> env \<Rightarrow> IdempotencyPolicy \<Rightarrow> 'd request \<Rightarrow> string option \<Rightarrow>
   ('d work, response \<times> bool) step" where
  "transaction_body H cfg en pol rq key =
     bindS (check_activity en 1) (\<lambda>_.
     bindS (prepare H cfg en pol rq key) (\<lambda>resp.
       if \<not> rs_json resp \<or> rs_background resp then
         raiseS (RuntimeError ''Transactional routes require buffered JSON without background tasks.'')
       else if rs_status resp \<ge> 400 then returnS (resp, False)
       else
         bindS (case key of Some k \<Rightarrow> complete_execution cfg en resp | None \<Rightarrow> returnS ()) (\<lambda>_.
         bindS (check_activity en 7) (\<lambda>_. returnS (resp, True)))))"

text \<open>
  Releasing the lock after the transaction: when it cannot be confirmed the connection is
  invalidated, and a request that had succeeded so far fails.
\<close>

definition release :: "env \<Rightarrow> execution \<Rightarrow> bool \<Rightarrow> unit result" where
  "release en ex failed =
     (if ex_uncertain ex then Inr ()
      else if ex_locked ex \<and> \<not> release_confirmed en \<and> \<not> failed then
        Inl (RuntimeError ''Unable to confirm idempotency lock release.'')
      else Inr ())"

definition handle_start :: "env \<Rightarrow> 'd request \<Rightarrow> ('d work, string option) step" where
  "handle_start en rq =
     bindS (check_activity en 0) (\<lambda>_.
     bindS (modifyS (\<lambda>w. w \<lparr>w_activity := (w_activity w) \<lparr>owns_mutation := True\<rparr>\<rparr>)) (\<lambda>_.
       liftS (read_key (rq_keys rq))))"

definition handle ::
  "(string \<Rightarrow> string) \<Rightarrow> settings \<Rightarrow> env \<Rightarrow> IdempotencyPolicy \<Rightarrow> 'd request \<Rightarrow>
   'd database \<times> RequestActivity \<Rightarrow> response result \<times> 'd database" where
  "handle H cfg en pol rq s =
     (case s of (db, act) \<Rightarrow>
       let w0 = \<lparr>w_db = db, w_activity = act, w_exec = new_execution\<rparr> in
       case handle_start en rq w0 of
         (Inl e, w1) \<Rightarrow> (Inl e, db)
       | (Inr key, w1) \<Rightarrow>
           (case transaction_body H cfg en pol rq key w1 of
              (Inl e, w2) \<Rightarrow> (Inl e, db)
            | (Inr (resp, keep), w2) \<Rightarrow>
                if \<not> keep then (bindR (release en (w_exec w2) False) (\<lambda>_. Inr resp), db)
                else
                  (case commit en of
                     CommitFailed e \<Rightarrow> (Inl e, db)
                   | CommitLost e \<Rightarrow> (Inl e, w_db w2)
                   | Committed \<Rightarrow> (bindR (release en (w_exec w2) False) (\<lambda>_. Inr resp), w_db w2))))"

subsection \<open>Cleanup\<close>

definition purge_le :: "IdempotencyORM \<Rightarrow> IdempotencyORM \<Rightarrow> bool" where
  "purge_le a b \<longleftrightarrow>
     the (io_expires_at a) < the (io_expires_at b) \<or>
     (the (io_expires_at a) = the (io_expires_at b) \<and> io_scope_hash a \<le> io_scope_hash b)"

definition purge_victims :: "time \<Rightarrow> nat \<Rightarrow> idem_table \<Rightarrow> IdempotencyORM list" where
  "purge_victims now limit tbl =
     take limit (isort_by purge_le (filter (\<lambda>r. io_state r = ''completed'' \<and> past_expiry now r) tbl))"

definition purge_expired_batch :: "time \<Rightarrow> int \<Rightarrow> idem_table \<Rightarrow> nat result \<times> idem_table" where
  "purge_expired_batch now limit tbl =
     (if \<not> (1 \<le> limit \<and> limit \<le> 1000) then
        (Inl (ValueError (''Idempotency cleanup batch must contain 1'' @
          [char_of (226 :: nat), char_of (128 :: nat), char_of (147 :: nat)] @ ''1000 rows.'')), tbl)
      else
        (let victims = purge_victims now (nat limit) tbl in
         (Inr (length victims), filter (\<lambda>r. r \<notin> set victims) tbl)))"

text \<open>
  \<^verbatim>\<open>IdempotencyCleanupService._sweep\<close>: \<open>accepting\<close> and \<open>now\<close> are read before each batch, and each
  batch is its own transaction.
\<close>

fun sweep_loop :: "(nat \<Rightarrow> bool) \<Rightarrow> (nat \<Rightarrow> time) \<Rightarrow> int \<Rightarrow> nat \<Rightarrow> nat \<Rightarrow> nat \<Rightarrow> idem_table \<Rightarrow> nat result \<times> idem_table" where
  "sweep_loop accepting now batch i 0 cnt tbl = (Inr cnt, tbl)"
| "sweep_loop accepting now batch i (Suc n) cnt tbl =
     (if \<not> accepting i then (Inr cnt, tbl)
      else
        (case purge_expired_batch (now i) batch tbl of
           (Inl e, tbl') \<Rightarrow> (Inl e, tbl')
         | (Inr removed, tbl') \<Rightarrow>
             if int removed < batch then (Inr (cnt + removed), tbl')
             else sweep_loop accepting now batch (i + 1) n (cnt + removed) tbl'))"

definition sweep :: "(nat \<Rightarrow> bool) \<Rightarrow> (nat \<Rightarrow> time) \<Rightarrow> int \<Rightarrow> nat \<Rightarrow> idem_table \<Rightarrow> nat result \<times> idem_table" where
  "sweep accepting now batch max_batches tbl = sweep_loop accepting now batch 0 max_batches 0 tbl"

subsection \<open>The table invariant\<close>

definition row_ok :: "IdempotencyORM \<Rightarrow> bool" where
  "row_ok r \<longleftrightarrow>
     io_state r = ''completed'' \<and>
     (\<exists>st body t. io_response_status r = Some st \<and> io_response_body r = Some body \<and> io_expires_at r = Some t \<and>
        validate_response st body 65536 = Inr ())"

definition idem_ok :: "idem_table \<Rightarrow> bool" where
  "idem_ok tbl \<longleftrightarrow> distinct (map io_scope_hash tbl) \<and> (\<forall>r \<in> set tbl. row_ok r)"

definition without :: "string \<Rightarrow> idem_table \<Rightarrow> idem_table" where
  "without h tbl = filter (\<lambda>r. io_scope_hash r \<noteq> h) tbl"

lemma idem_ok_find:
  assumes "idem_ok tbl" "r \<in> set tbl"
  shows "find (\<lambda>x. io_scope_hash x = io_scope_hash r) tbl = Some r"
proof -
  have "distinct (map io_scope_hash tbl)" using assms(1) by (simp add: idem_ok_def)
  then show ?thesis using assms(2) by (induction tbl) (auto simp: image_iff)
qed

lemma validate_response_limit:
  "validate_response st body l = Inr () \<Longrightarrow> l \<le> m \<Longrightarrow> validate_response st body m = Inr ()"
  by (auto simp: validate_response_def split: if_splits)

lemma row_ok_expiry: "row_ok r \<Longrightarrow> past_expiry now r \<longleftrightarrow> \<not> unexpired now r"
  by (auto simp: row_ok_def past_expiry_def unexpired_def)

lemma check_activity_keeps:
  "check_activity en k w = (r, w') \<Longrightarrow> w_db w' = w_db w \<and> w_exec w' = w_exec w"
  by (auto simp: check_activity_def Let_def split: prod.splits)

lemma exec_simps [simp]:
  "set_exec f w = (Inr (), w \<lparr>w_exec := f (w_exec w)\<rparr>)"
  "set_idem tbl w = (Inr (), w \<lparr>w_db := (w_db w) \<lparr>idem := tbl\<rparr>\<rparr>)"
  by (simp_all add: set_exec_def set_idem_def)

text \<open>An unexpired row is replayed or refused, and nothing changes.\<close>

lemma claim_scope_hit:
  assumes "idem_ok (idem (w_db w))" "r \<in> set (idem (w_db w))" "io_scope_hash r = h" "unexpired (db_now en) r"
    and "io_response_status r = Some st" "io_response_body r = Some body"
  shows "claim_scope en h fp row w =
    ((if io_fingerprint r = fp then Inr (Some (PreparedJSONResponse body st))
      else Inl (HTTPException 409 ''Idempotency-Key was already used with a different payload.'' [])), w)"
proof -
  have "row_ok r" using assms(1,2) by (simp add: idem_ok_def)
  then have "replay_of fp r True = (if io_fingerprint r = fp then Inr (Some (PreparedJSONResponse body st))
      else Inl (HTTPException 409 ''Idempotency-Key was already used with a different payload.'' []))"
    using assms(5,6) by (auto simp: replay_of_def row_ok_def)
  moreover have "idem_find (db_now en) h (idem (w_db w)) = Some (r, True)"
    using idem_ok_find [OF assms(1,2)] assms(3,4) by (simp add: idem_find_def)
  ultimately show ?thesis by (simp add: claim_scope_def bindS_def)
qed

lemma idem_delete_expired_without:
  assumes "idem_ok tbl" "\<forall>r \<in> set tbl. io_scope_hash r = h \<longrightarrow> \<not> unexpired now r"
  shows "idem_delete_expired now h tbl = without h tbl"
  unfolding idem_delete_expired_def without_def
proof (rule filter_cong [OF refl])
  fix r
  assume "r \<in> set tbl"
  then have "row_ok r" "io_scope_hash r = h \<Longrightarrow> \<not> unexpired now r" using assms by (auto simp: idem_ok_def)
  then show "(\<not> (io_scope_hash r = h \<and> io_state r = ''completed'' \<and> past_expiry now r)) = (io_scope_hash r \<noteq> h)"
    using row_ok_expiry [of r now] by (auto simp: row_ok_def)
qed

text \<open>Otherwise the scope is claimed, an expired row making room.\<close>

lemma claim_scope_fresh:
  assumes ok: "idem_ok (idem (w_db w))"
    and none: "\<forall>r \<in> set (idem (w_db w)). io_scope_hash r = h \<longrightarrow> \<not> unexpired (db_now en) r"
    and row: "io_scope_hash row = h"
  shows "claim_scope en h fp row w =
    bindS (check_activity en 5) (\<lambda>_. returnS None)
      (w \<lparr>w_db := (w_db w) \<lparr>idem := without h (idem (w_db w)) @ [row]\<rparr>, w_exec := (w_exec w) \<lparr>ex_claimed := True\<rparr>\<rparr>)"
proof -
  let ?tbl = "idem (w_db w)"
  have claim: "idem_claim row (without h ?tbl) = Inr (without h ?tbl @ [row])"
    using row by (auto simp: idem_claim_def without_def list_ex_iff)
  show ?thesis
  proof (cases "idem_find (db_now en) h ?tbl")
    case None
    then have "without h ?tbl = ?tbl"
      by (auto simp: idem_find_def find_None_iff without_def filter_id_conv)
    then show ?thesis using None claim by (simp add: claim_scope_def)
  next
    case (Some rf)
    obtain r fresh where rf: "rf = (r, fresh)" by (cases rf)
    have "r \<in> set ?tbl" "io_scope_hash r = h" "fresh = unexpired (db_now en) r"
      using Some rf by (auto simp: idem_find_def find_Some_iff)
    then have "replay_of fp r fresh = Inr None"
      using ok none by (auto simp: replay_of_def idem_ok_def row_ok_def)
    then show ?thesis
      using Some rf claim idem_delete_expired_without [OF ok none] by (simp add: claim_scope_def)
  qed
qed

subsection \<open>The effect of one call\<close>

definition has_live :: "time \<Rightarrow> string \<Rightarrow> idem_table \<Rightarrow> bool" where
  "has_live now h tbl \<longleftrightarrow> (\<exists>r \<in> set tbl. io_scope_hash r = h \<and> unexpired now r)"

lemma take_lock_Inr:
  "take_lock en w = (Inr u, w') \<Longrightarrow>
     lock_answer en = Some 1 \<and> w' = w \<lparr>w_exec := (w_exec w) \<lparr>ex_uncertain := False, ex_locked := True\<rparr>\<rparr>"
  by (auto simp: take_lock_def bindS_Inr split: option.splits if_splits)

lemma begin_Inr:
  assumes "begin_execution H cfg en pol rq key inputs w = (Inr rep, w')"
  shows "\<exists>h fp ns route w1. scope_identity H cfg pol rq key = Inr h \<and> digest H inputs = Inr fp \<and>
    lock_answer en = Some 1 \<and> w_db w1 = w_db w \<and> ex_claimed (w_exec w1) = ex_claimed (w_exec w) \<and>
    ex_scope_hash (w_exec w1) = Some h \<and>
    claim_scope en h fp (claim_row h ns (rq_caller rq) (pol_operation pol) route fp) w1 = (Inr rep, w')"
proof -
  obtain h fp ns route wa wb wc wd where
    steps: "scope_identity H cfg pol rq key = Inr h" "digest H inputs = Inr fp"
      "check_activity en 2 w = (Inr (), wa)"
      "check_activity en 3 (wa \<lparr>w_exec := (w_exec wa) \<lparr>ex_scope_hash := Some h, ex_uncertain := True\<rparr>\<rparr>) = (Inr (), wb)"
      "take_lock en wb = (Inr (), wc)" "check_activity en 4 wc = (Inr (), wd)"
    and claim: "claim_scope en h fp (claim_row h ns (rq_caller rq) (pol_operation pol) route fp) wd = (Inr rep, w')"
    using assms unfolding begin_execution_def by (auto simp: bindS_Inr)
  note keeps = check_activity_keeps [OF steps(3)] check_activity_keeps [OF steps(4)] check_activity_keeps [OF steps(6)]
  have "w_db wd = w_db w \<and> ex_claimed (w_exec wd) = ex_claimed (w_exec w) \<and> ex_scope_hash (w_exec wd) = Some h"
    using keeps take_lock_Inr [OF steps(5)] by simp
  then show ?thesis using steps(1,2) take_lock_Inr [OF steps(5)] claim by blast
qed

lemma idem_complete_claimed:
  assumes "\<forall>r \<in> set tbl. io_state r = ''completed''" "io_state row = ''processing''" "io_scope_hash row = h"
  shows "idem_complete now h st body (tbl @ [row]) = Inr (tbl @ [completed_row now st body row])"
proof -
  have "filter (\<lambda>r. io_scope_hash r = h \<and> io_state r = ''processing'') tbl = []"
    using assms(1) by (auto simp: filter_empty_conv)
  moreover have "map (\<lambda>r. if io_scope_hash r = h \<and> io_state r = ''processing''
      then completed_row now st body r else r) tbl = tbl"
    using assms(1) by (auto intro: map_idI)
  ultimately show ?thesis using assms(2,3)
    by (simp add: idem_complete_def Let_def)
qed

lemma complete_Inr:
  assumes "complete_execution cfg en resp w = (Inr u, w')" "ex_claimed (w_exec w)" "ex_scope_hash (w_exec w) = Some h"
    and "idem (w_db w) = tbl @ [row]" "\<forall>r \<in> set tbl. io_state r = ''completed''"
    and "io_state row = ''processing''" "io_scope_hash row = h"
  shows "validate_response (rs_status resp) (rs_body resp) (cfg_max_response_bytes cfg) = Inr () \<and>
    w_db w' = (w_db w) \<lparr>idem := tbl @ [completed_row (db_now en) (rs_status resp) (rs_body resp) row]\<rparr>"
proof -
  obtain wa where a: "check_activity en 6 w = (Inr (), wa)"
    using assms(1,2) unfolding complete_execution_def by (auto simp: bindS_Inr)
  then show ?thesis
    using assms(1-4) idem_complete_claimed [OF assms(5-7), of "db_now en" "rs_status resp" "rs_body resp"]
      check_activity_keeps [OF a]
    unfolding complete_execution_def by (auto simp: bindS_Inr)
qed

text \<open>
  What a call can do to the database: nothing, or run the endpoint and keep its change, and with
  a key also store the response under the scope of the key, which had no unexpired row before.
\<close>

definition stored_row ::
  "(string \<Rightarrow> string) \<Rightarrow> settings \<Rightarrow> env \<Rightarrow> IdempotencyPolicy \<Rightarrow> 'd request \<Rightarrow> string \<Rightarrow> response \<Rightarrow> IdempotencyORM \<Rightarrow> bool" where
  "stored_row H cfg en pol rq h resp row \<longleftrightarrow>
     io_scope_hash row = h \<and> io_state row = ''completed'' \<and>
     io_response_status row = Some (rs_status resp) \<and> io_response_body row = Some (rs_body resp) \<and>
     io_expires_at row = Some (db_now en + RETENTION_SECONDS) \<and>
     bindR (rq_inputs rq) (digest H) = Inr (io_fingerprint row) \<and>
     validate_response (rs_status resp) (rs_body resp) (cfg_max_response_bytes cfg) = Inr ()"

lemma begin_effect:
  assumes "begin_execution H cfg en pol rq key inputs w = (Inr rep, w')"
    and ok: "idem_ok (idem (w_db w))" and fresh: "\<not> ex_claimed (w_exec w)"
  shows "\<exists>h fp. scope_identity H cfg pol rq key = Inr h \<and> digest H inputs = Inr fp \<and>
    (if has_live (db_now en) h (idem (w_db w))
     then w_db w' = w_db w \<and> \<not> ex_claimed (w_exec w') \<and>
       (\<exists>r st body. r \<in> set (idem (w_db w)) \<and> io_scope_hash r = h \<and> io_fingerprint r = fp \<and>
          io_response_status r = Some st \<and> io_response_body r = Some body \<and>
          rep = Some (PreparedJSONResponse body st))
     else rep = None \<and> ex_claimed (w_exec w') \<and> ex_scope_hash (w_exec w') = Some h \<and>
       (\<exists>row. io_scope_hash row = h \<and> io_state row = ''processing'' \<and> io_fingerprint row = fp \<and>
          w_db w' = (w_db w) \<lparr>idem := without h (idem (w_db w)) @ [row]\<rparr>))"
proof -
  obtain h fp ns route w1 where
    b: "scope_identity H cfg pol rq key = Inr h" "digest H inputs = Inr fp" "w_db w1 = w_db w"
      "ex_claimed (w_exec w1) = ex_claimed (w_exec w)" "ex_scope_hash (w_exec w1) = Some h"
      "claim_scope en h fp (claim_row h ns (rq_caller rq) (pol_operation pol) route fp) w1 = (Inr rep, w')"
    using begin_Inr [OF assms(1)] by blast
  let ?row = "claim_row h ns (rq_caller rq) (pol_operation pol) route fp"
  have ok1: "idem_ok (idem (w_db w1))" using ok b(3) by simp
  show ?thesis
  proof (cases "has_live (db_now en) h (idem (w_db w))")
    case True
    then obtain r where r: "r \<in> set (idem (w_db w1))" "io_scope_hash r = h" "unexpired (db_now en) r"
      using b(3) by (auto simp: has_live_def)
    then obtain st body where sb: "io_response_status r = Some st" "io_response_body r = Some body"
      using ok1 by (auto simp: idem_ok_def row_ok_def)
    have "io_fingerprint r = fp \<and> rep = Some (PreparedJSONResponse body st) \<and> w' = w1"
      using claim_scope_hit [OF ok1 r sb, of fp ?row] b(6) by (auto split: if_splits)
    then show ?thesis using True b r sb fresh by auto
  next
    case False
    then have none: "\<forall>r \<in> set (idem (w_db w1)). io_scope_hash r = h \<longrightarrow> \<not> unexpired (db_now en) r"
      using b(3) by (auto simp: has_live_def)
    have row: "io_scope_hash ?row = h" "io_state ?row = ''processing''" "io_fingerprint ?row = fp"
      by (simp_all add: claim_row_def)
    have "rep = None \<and> w_db w' = (w_db w1) \<lparr>idem := without h (idem (w_db w1)) @ [?row]\<rparr> \<and>
        w_exec w' = (w_exec w1) \<lparr>ex_claimed := True\<rparr>"
      using b(6) unfolding claim_scope_fresh [OF ok1 none row(1), of fp] bindS_Inr
      by (auto dest!: check_activity_keeps)
    then show ?thesis using False b row by auto
  qed
qed

lemma prepare_effect:
  assumes "prepare H cfg en pol rq key w = (Inr resp, w')" and "idem_ok (idem (w_db w))" "\<not> ex_claimed (w_exec w)"
  shows "(case key of
      None \<Rightarrow> \<exists>d. rq_endpoint rq (domain (w_db w)) = (Inr resp, d) \<and> w_db w' = (w_db w) \<lparr>domain := d\<rparr>
    | Some k \<Rightarrow> \<exists>h fp. scope_identity H cfg pol rq k = Inr h \<and> bindR (rq_inputs rq) (digest H) = Inr fp \<and>
        (if has_live (db_now en) h (idem (w_db w))
         then w_db w' = w_db w \<and> \<not> ex_claimed (w_exec w') \<and>
           (\<exists>r st body. r \<in> set (idem (w_db w)) \<and> io_scope_hash r = h \<and> io_fingerprint r = fp \<and>
              io_response_status r = Some st \<and> io_response_body r = Some body \<and> resp = PreparedJSONResponse body st)
         else ex_claimed (w_exec w') \<and> ex_scope_hash (w_exec w') = Some h \<and>
           (\<exists>row d. io_scope_hash row = h \<and> io_state row = ''processing'' \<and> io_fingerprint row = fp \<and>
              rq_endpoint rq (domain (w_db w)) = (Inr resp, d) \<and>
              w_db w' = (w_db w) \<lparr>domain := d, idem := without h (idem (w_db w)) @ [row]\<rparr>)))"
proof (cases key)
  case None
  then show ?thesis using assms(1)
    by (auto simp: prepare_def bindS_Inr run_endpoint_def split: prod.splits)
next
  case (Some k)
  obtain inputs rep w1 where b: "rq_inputs rq = Inr inputs"
      "begin_execution H cfg en pol rq k inputs w = (Inr rep, w1)"
      "(case rep of Some resp \<Rightarrow> returnS resp | None \<Rightarrow> run_endpoint rq) w1 = (Inr resp, w')"
    using assms(1) Some by (auto simp: prepare_def bindS_Inr)
  obtain h fp where hf: "scope_identity H cfg pol rq k = Inr h" "digest H inputs = Inr fp"
    and eff: "if has_live (db_now en) h (idem (w_db w))
     then w_db w1 = w_db w \<and> \<not> ex_claimed (w_exec w1) \<and>
       (\<exists>r st body. r \<in> set (idem (w_db w)) \<and> io_scope_hash r = h \<and> io_fingerprint r = fp \<and>
          io_response_status r = Some st \<and> io_response_body r = Some body \<and>
          rep = Some (PreparedJSONResponse body st))
     else rep = None \<and> ex_claimed (w_exec w1) \<and> ex_scope_hash (w_exec w1) = Some h \<and>
       (\<exists>row. io_scope_hash row = h \<and> io_state row = ''processing'' \<and> io_fingerprint row = fp \<and>
          w_db w1 = (w_db w) \<lparr>idem := without h (idem (w_db w)) @ [row]\<rparr>)"
    using begin_effect [OF b(2) assms(2,3)] by blast
  show ?thesis
  proof (cases "has_live (db_now en) h (idem (w_db w))")
    case True
    then show ?thesis using eff b hf Some by auto
  next
    case False
    then obtain row where row: "rep = None" "ex_claimed (w_exec w1)" "ex_scope_hash (w_exec w1) = Some h"
        "io_scope_hash row = h" "io_state row = ''processing''" "io_fingerprint row = fp"
        "w_db w1 = (w_db w) \<lparr>idem := without h (idem (w_db w)) @ [row]\<rparr>" using eff by auto
    obtain d where d: "rq_endpoint rq (domain (w_db w)) = (Inr resp, d)" "w' = w1 \<lparr>w_db := (w_db w1) \<lparr>domain := d\<rparr>\<rparr>"
      using b(3) row(1,7) by (auto simp: run_endpoint_def split: prod.splits)
    have "\<exists>row d. io_scope_hash row = h \<and> io_state row = ''processing'' \<and> io_fingerprint row = fp \<and>
        rq_endpoint rq (domain (w_db w)) = (Inr resp, d) \<and>
        w_db w' = (w_db w) \<lparr>domain := d, idem := without h (idem (w_db w)) @ [row]\<rparr>"
      using row d by (intro exI [of _ row] exI [of _ d]) simp
    then show ?thesis using False hf b(1) Some row(2,3) d(2) by simp
  qed
qed

definition call_effect ::
  "(string \<Rightarrow> string) \<Rightarrow> settings \<Rightarrow> env \<Rightarrow> IdempotencyPolicy \<Rightarrow> 'd request \<Rightarrow> 'd database \<Rightarrow>
   response \<Rightarrow> 'd database \<Rightarrow> bool" where
  "call_effect H cfg en pol rq db resp db' \<longleftrightarrow>
     rs_status resp < 400 \<and>
     (case read_key (rq_keys rq) of
        Inl e \<Rightarrow> False
      | Inr None \<Rightarrow> \<exists>d. rq_endpoint rq (domain db) = (Inr resp, d) \<and> db' = db \<lparr>domain := d\<rparr>
      | Inr (Some k) \<Rightarrow> \<exists>h row d. scope_identity H cfg pol rq k = Inr h \<and>
          (\<forall>r \<in> set (idem db). io_scope_hash r = h \<longrightarrow> \<not> unexpired (db_now en) r) \<and>
          rq_endpoint rq (domain db) = (Inr resp, d) \<and> stored_row H cfg en pol rq h resp row \<and>
          db' = db \<lparr>domain := d, idem := without h (idem db) @ [row]\<rparr>)"

definition in_live_scope ::
  "(string \<Rightarrow> string) \<Rightarrow> settings \<Rightarrow> env \<Rightarrow> IdempotencyPolicy \<Rightarrow> 'd request \<Rightarrow> 'd database \<Rightarrow> bool" where
  "in_live_scope H cfg en pol rq db \<longleftrightarrow>
     (case read_key (rq_keys rq) of
        Inr (Some k) \<Rightarrow>
          (case scope_identity H cfg pol rq k of
             Inr h \<Rightarrow> has_live (db_now en) h (idem db)
           | Inl e \<Rightarrow> False)
      | _ \<Rightarrow> False)"

lemma body_effect:
  assumes "transaction_body H cfg en pol rq key w = (Inr (resp, keep), w')"
    and ok: "idem_ok (idem (w_db w))" and fresh: "\<not> ex_claimed (w_exec w)"
    and key: "read_key (rq_keys rq) = Inr key"
  shows "(if keep then w_db w' = w_db w \<and> in_live_scope H cfg en pol rq (w_db w) \<or> call_effect H cfg en pol rq (w_db w) resp (w_db w')
    else rs_status resp \<ge> 400)"
proof (cases keep)
  case False
  then show ?thesis using assms(1) unfolding transaction_body_def by (auto simp: bindS_Inr split: if_splits)
next
  case True
  obtain w1 w2 w3 where st: "check_activity en 1 w = (Inr (), w1)" "prepare H cfg en pol rq key w1 = (Inr resp, w2)"
      "rs_status resp < 400" "(case key of Some k \<Rightarrow> complete_execution cfg en resp | None \<Rightarrow> returnS ()) w2 = (Inr (), w3)"
      "check_activity en 7 w3 = (Inr (), w')"
    using assms(1) True unfolding transaction_body_def by (auto simp: bindS_Inr split: if_splits)
  note k1 = check_activity_keeps [OF st(1)] and k7 = check_activity_keeps [OF st(5)]
  have ok1: "idem_ok (idem (w_db w1))" "\<not> ex_claimed (w_exec w1)" using ok fresh k1 by simp_all
  note eff = prepare_effect [OF st(2) ok1]
  have "w_db w' = w_db w \<and> in_live_scope H cfg en pol rq (w_db w) \<or> call_effect H cfg en pol rq (w_db w) resp (w_db w')"
  proof (cases key)
    case None
    then show ?thesis using eff st(3,4) k1 k7 key by (auto simp: call_effect_def)
  next
    case (Some k)
    obtain h fp where hf: "scope_identity H cfg pol rq k = Inr h" "bindR (rq_inputs rq) (digest H) = Inr fp"
      using eff Some by auto
    show ?thesis
    proof (cases "has_live (db_now en) h (idem (w_db w1))")
      case True
      then have "w_db w2 = w_db w1" "\<not> ex_claimed (w_exec w2)" using eff Some hf by auto
      then have "w_db w3 = w_db w1" using st(4) Some by (auto simp: complete_execution_def bindS_Inr)
      moreover have "in_live_scope H cfg en pol rq (w_db w)"
        using True key Some hf(1) k1 by (simp add: in_live_scope_def)
      ultimately show ?thesis using k1 k7 by simp
    next
      case False
      then obtain row d where rd: "ex_claimed (w_exec w2)" "ex_scope_hash (w_exec w2) = Some h"
          "io_scope_hash row = h" "io_state row = ''processing''" "io_fingerprint row = fp"
          "rq_endpoint rq (domain (w_db w1)) = (Inr resp, d)"
          "w_db w2 = (w_db w1) \<lparr>domain := d, idem := without h (idem (w_db w1)) @ [row]\<rparr>"
        using eff Some hf by auto
      have "\<forall>r \<in> set (without h (idem (w_db w1))). io_state r = ''completed''"
        using ok1(1) by (auto simp: without_def idem_ok_def row_ok_def)
      then have c: "validate_response (rs_status resp) (rs_body resp) (cfg_max_response_bytes cfg) = Inr ()"
          "w_db w3 = (w_db w2) \<lparr>idem := without h (idem (w_db w1)) @ [completed_row (db_now en) (rs_status resp) (rs_body resp) row]\<rparr>"
        using complete_Inr [of cfg en resp w2 "()" w3 h "without h (idem (w_db w1))" row] st(4) Some rd by auto
      have "stored_row H cfg en pol rq h resp (completed_row (db_now en) (rs_status resp) (rs_body resp) row)"
        using c(1) rd(3,5) hf(2) by (simp add: stored_row_def completed_row_def)
      then have "call_effect H cfg en pol rq (w_db w) resp (w_db w')"
        using False hf(1) rd(6,7) c(2) st(3) k1 k7 key Some by (auto simp: call_effect_def has_live_def)
      then show ?thesis ..
    qed
  qed
  then show ?thesis using True by simp
qed

lemma handle_start_keeps:
  "handle_start en rq w = (Inr key, w') \<Longrightarrow>
     w_db w' = w_db w \<and> w_exec w' = w_exec w \<and> read_key (rq_keys rq) = Inr key"
  by (auto simp: handle_start_def bindS_Inr dest!: check_activity_keeps)

text \<open>
  The outcome of a call by its result: an error response changes nothing, a success was either
  replayed or took effect completely, and an exception leaves an effect behind only when the
  commit or the release of the lock was not acknowledged.
\<close>

definition call_outcome ::
  "(string \<Rightarrow> string) \<Rightarrow> settings \<Rightarrow> env \<Rightarrow> IdempotencyPolicy \<Rightarrow> 'd request \<Rightarrow> 'd database \<Rightarrow>
   response result \<Rightarrow> 'd database \<Rightarrow> bool" where
  "call_outcome H cfg en pol rq db res db' \<longleftrightarrow>
     (case res of
        Inr resp \<Rightarrow>
          if rs_status resp \<ge> 400 then db' = db
          else db' = db \<and> in_live_scope H cfg en pol rq db \<or> call_effect H cfg en pol rq db resp db'
      | Inl e \<Rightarrow>
          db' = db \<or>
          ((\<exists>x. commit en = CommitLost x) \<or> \<not> release_confirmed en) \<and>
          (\<exists>resp. call_effect H cfg en pol rq db resp db'))"

lemma release_Inl: "release en ex failed = Inl e \<Longrightarrow> \<not> release_confirmed en"
  by (auto simp: release_def split: if_splits)

lemma handle_effect:
  assumes "handle H cfg en pol rq (db, act) = (res, db')" "idem_ok (idem db)"
  shows "call_outcome H cfg en pol rq db res db'"
proof -
  let ?w0 = "\<lparr>w_db = db, w_activity = act, w_exec = new_execution\<rparr>"
  obtain r1 w1 where p1: "handle_start en rq ?w0 = (r1, w1)" by force
  show ?thesis
  proof (cases r1)
    case (Inl e)
    then show ?thesis using assms(1) p1 by (auto simp: handle_def call_outcome_def)
  next
    case (Inr key)
    note hs = handle_start_keeps [OF p1 [unfolded Inr]]
    obtain r2 w2 where body: "transaction_body H cfg en pol rq key w1 = (r2, w2)" by force
    show ?thesis
    proof (cases r2)
      case (Inl e)
      then show ?thesis using assms(1) p1 Inr body by (auto simp: handle_def call_outcome_def)
    next
      case r2: (Inr rk)
      obtain resp keep where rk: "rk = (resp, keep)" by (cases rk)
      have eff: "if keep then w_db w2 = db \<and> in_live_scope H cfg en pol rq db \<or> call_effect H cfg en pol rq db resp (w_db w2)
          else rs_status resp \<ge> 400"
      proof -
        have db: "w_db w1 = db" "\<not> ex_claimed (w_exec w1)" "read_key (rq_keys rq) = Inr key"
          using hs by (simp_all add: new_execution_def)
        show ?thesis
          using body_effect [OF body [unfolded r2 rk] _ db(2,3)] assms(2) unfolding db(1) by simp
      qed
      have small: "call_effect H cfg en pol rq db resp d \<Longrightarrow> \<not> rs_status resp \<ge> 400" for d
        by (simp add: call_effect_def)
      show ?thesis
        using assms(1) p1 Inr body r2 rk eff small release_Inl [of en "w_exec w2" False]
        by (cases keep; cases "commit en"; cases "release en (w_exec w2) False") (auto simp: handle_def call_outcome_def)
    qed
  qed
qed

lemma handle_effect_weak:
  assumes "handle H cfg en pol rq (db, act) = (res, db')" "idem_ok (idem db)"
  shows "db' = db \<or> (\<exists>resp. call_effect H cfg en pol rq db resp db')"
  using handle_effect [OF assms] by (auto simp: call_outcome_def split: sum.splits if_splits)

subsection \<open>Rows over time\<close>

lemma without_ok: "idem_ok tbl \<Longrightarrow> idem_ok (without h tbl)"
  by (auto simp: idem_ok_def without_def distinct_map_filter)

lemma idem_ok_store:
  assumes "idem_ok tbl" "stored_row H cfg en pol rq h resp row" "cfg_max_response_bytes cfg \<le> 65536"
  shows "idem_ok (without h tbl @ [row])"
proof -
  have "row_ok row" "io_scope_hash row = h"
    using assms(2,3) validate_response_limit by (auto simp: stored_row_def row_ok_def)
  then show ?thesis using without_ok [OF assms(1), of h] by (auto simp: idem_ok_def without_def)
qed

lemma idem_ok_effect:
  assumes "call_effect H cfg en pol rq db resp db'" "idem_ok (idem db)" "cfg_max_response_bytes cfg \<le> 65536"
  shows "idem_ok (idem db')"
  using assms idem_ok_store by (fastforce simp: call_effect_def split: sum.splits option.splits)

lemma idem_ok_handle:
  assumes "handle H cfg en pol rq (db, act) = (res, db')" "idem_ok (idem db)" "cfg_max_response_bytes cfg \<le> 65536"
  shows "idem_ok (idem db')"
  using handle_effect_weak [OF assms(1,2)] idem_ok_effect [OF _ assms(2,3)] assms(2) by blast

lemma purge_victims_expired: "r \<in> set (purge_victims now n tbl) \<Longrightarrow> r \<in> set tbl \<and> past_expiry now r \<and> io_state r = ''completed''"
  by (auto simp: purge_victims_def dest!: in_set_takeD)

lemma idem_ok_purge: "idem_ok tbl \<Longrightarrow> idem_ok (snd (purge_expired_batch now n tbl))"
  by (auto simp: purge_expired_batch_def Let_def idem_ok_def distinct_map_filter)

lemma handle_Inr:
  assumes "handle H cfg en pol rq (db, act) = (Inr resp, db')"
  shows "\<exists>key w1 keep w2. handle_start en rq \<lparr>w_db = db, w_activity = act, w_exec = new_execution\<rparr> = (Inr key, w1) \<and>
    transaction_body H cfg en pol rq key w1 = (Inr (resp, keep), w2)"
proof -
  let ?w0 = "\<lparr>w_db = db, w_activity = act, w_exec = new_execution\<rparr>"
  obtain r1 w1 where p1: "handle_start en rq ?w0 = (r1, w1)" by force
  obtain key where key: "r1 = Inr key" using assms p1 by (cases r1) (simp_all add: handle_def)
  obtain r2 w2 where p2: "transaction_body H cfg en pol rq key w1 = (r2, w2)" by force
  obtain rk where r2: "r2 = Inr rk" using assms p1 key p2 by (cases r2) (simp_all add: handle_def)
  obtain resp' keep where rk: "rk = (resp', keep)" by (cases rk)
  have "resp' = resp" using assms p1 key p2 r2 rk
    by (cases keep; cases "commit en"; cases "release en (w_exec w2) False") (simp_all add: handle_def)
  then show ?thesis using p1 key p2 r2 rk by blast
qed

text \<open>A call in the scope of an unexpired row changes nothing and can only answer with that row.\<close>

lemma handle_live:
  assumes h: "handle H cfg en pol rq (db, act) = (res, db')" and ok: "idem_ok (idem db)"
    and r: "r \<in> set (idem db)" "unexpired (db_now en) r"
    and k: "read_key (rq_keys rq) = Inr (Some k)" "scope_identity H cfg pol rq k = Inr (io_scope_hash r)"
    and sb: "io_response_status r = Some st" "io_response_body r = Some body"
  shows "db' = db" and "res = Inr resp \<Longrightarrow>
    resp = PreparedJSONResponse body st \<and> bindR (rq_inputs rq) (digest H) = Inr (io_fingerprint r)"
proof -
  have "\<not> call_effect H cfg en pol rq db resp' db'" for resp'
    using r k by (auto simp: call_effect_def)
  then show "db' = db" using handle_effect_weak [OF h ok] by blast
  assume res: "res = Inr resp"
  let ?w0 = "\<lparr>w_db = db, w_activity = act, w_exec = new_execution\<rparr>"
  obtain key w1 keep w2 where w1': "handle_start en rq ?w0 = (Inr key, w1)"
    and body': "transaction_body H cfg en pol rq key w1 = (Inr (resp, keep), w2)"
    using handle_Inr [OF h [unfolded res]] by blast
  have "key = Some k" using handle_start_keeps [OF w1'] k(1) by simp
  note w1 = w1' [unfolded this] and body = body' [unfolded this]
  note hs = handle_start_keeps [OF w1]
  obtain wa wb where pr: "check_activity en 1 w1 = (Inr (), wa)" "prepare H cfg en pol rq (Some k) wa = (Inr resp, wb)"
    using body unfolding transaction_body_def by (auto simp: bindS_Inr split: if_splits)
  have wa: "w_db wa = db" "\<not> ex_claimed (w_exec wa)"
    using check_activity_keeps [OF pr(1)] hs by (simp_all add: new_execution_def)
  have live: "has_live (db_now en) (io_scope_hash r) (idem (w_db wa))" using r wa by (auto simp: has_live_def)
  obtain r' st' body' where r': "r' \<in> set (idem db)" "io_scope_hash r' = io_scope_hash r"
      "bindR (rq_inputs rq) (digest H) = Inr (io_fingerprint r')"
      "io_response_status r' = Some st'" "io_response_body r' = Some body'" "resp = PreparedJSONResponse body' st'"
    using prepare_effect [OF pr(2)] ok wa k(2) live by auto
  have "r' = r" using idem_ok_find [OF ok r(1)] idem_ok_find [OF ok r'(1)] r'(2) by simp
  then show "resp = PreparedJSONResponse body st \<and> bindR (rq_inputs rq) (digest H) = Inr (io_fingerprint r)"
    using r' sb by simp
qed

datatype 'd event =
    Call env IdempotencyPolicy "'d request" RequestActivity
  | Purge time int

fun event_now :: "'d event \<Rightarrow> time" where
  "event_now (Call en pol rq act) = db_now en"
| "event_now (Purge now limit) = now"

fun apply_event :: "(string \<Rightarrow> string) \<Rightarrow> settings \<Rightarrow> 'd event \<Rightarrow> 'd database \<Rightarrow> 'd database" where
  "apply_event H cfg (Call en pol rq act) db = snd (handle H cfg en pol rq (db, act))"
| "apply_event H cfg (Purge now limit) db = db \<lparr>idem := snd (purge_expired_batch now limit (idem db))\<rparr>"

definition run_events :: "(string \<Rightarrow> string) \<Rightarrow> settings \<Rightarrow> 'd event list \<Rightarrow> 'd database \<Rightarrow> 'd database" where
  "run_events H cfg evs db = fold (apply_event H cfg) evs db"

fun in_scope :: "(string \<Rightarrow> string) \<Rightarrow> settings \<Rightarrow> string \<Rightarrow> 'd event \<Rightarrow> bool" where
  "in_scope H cfg h (Call en pol rq act) \<longleftrightarrow>
     (\<exists>k. read_key (rq_keys rq) = Inr (Some k) \<and> scope_identity H cfg pol rq k = Inr h)"
| "in_scope H cfg h (Purge now limit) \<longleftrightarrow> False"

lemma apply_event_ok:
  "idem_ok (idem db) \<Longrightarrow> cfg_max_response_bytes cfg \<le> 65536 \<Longrightarrow> idem_ok (idem (apply_event H cfg ev db))"
  by (cases ev) (auto simp: idem_ok_purge intro: idem_ok_handle [OF surjective_pairing])

lemma row_survives:
  assumes ok: "idem_ok (idem db)" and r: "r \<in> set (idem db)" "unexpired (event_now ev) r"
  shows "r \<in> set (idem (apply_event H cfg ev db))"
    and "in_scope H cfg (io_scope_hash r) ev \<Longrightarrow> apply_event H cfg ev db = db"
proof -
  obtain st body where sb: "io_response_status r = Some st" "io_response_body r = Some body"
    using ok r(1) by (auto simp: idem_ok_def row_ok_def)
  show noop: "apply_event H cfg ev db = db" if "in_scope H cfg (io_scope_hash r) ev"
    using that handle_live(1) [OF surjective_pairing ok r(1) _ _ _ sb] r(2) by (cases ev) auto
  show "r \<in> set (idem (apply_event H cfg ev db))"
  proof (cases ev)
    case (Call en pol rq act)
    show ?thesis
    proof (cases "in_scope H cfg (io_scope_hash r) ev")
      case True
      then show ?thesis using noop r by simp
    next
      case False
      have "snd (handle H cfg en pol rq (db, act)) = db \<or>
          (\<exists>resp. call_effect H cfg en pol rq db resp (snd (handle H cfg en pol rq (db, act))))"
        using handle_effect_weak [OF surjective_pairing ok] by blast
      then show ?thesis using r False Call
        by (fastforce simp: call_effect_def without_def split: sum.splits option.splits)
    qed
  next
    case (Purge now n)
    have "row_ok r" using ok r(1) by (auto simp: idem_ok_def)
    then have "r \<notin> set (purge_victims now (nat n) (idem db))"
      using purge_victims_expired row_ok_expiry r(2) Purge by fastforce
    then show ?thesis using Purge r by (auto simp: purge_expired_batch_def Let_def)
  qed
qed

lemma run_events_live:
  assumes "cfg_max_response_bytes cfg \<le> 65536" "idem_ok (idem db)" "r \<in> set (idem db)"
    and "\<forall>ev \<in> set evs. unexpired (event_now ev) r"
  shows "idem_ok (idem (run_events H cfg evs db)) \<and> r \<in> set (idem (run_events H cfg evs db))"
  using assms(2-4)
proof (induction evs arbitrary: db)
  case (Cons ev evs)
  then show ?case
    using apply_event_ok [OF Cons.prems(1) assms(1)] row_survives(1) [OF Cons.prems(1,2)]
    by (simp add: run_events_def)
qed (simp add: run_events_def)

subsection \<open>Undisturbed calls\<close>

text \<open>No activity check of the call fails.\<close>

definition undisturbed :: "env \<Rightarrow> RequestActivity \<Rightarrow> bool" where
  "undisturbed en act \<longleftrightarrow> act_abandoned act = None \<and>
     list_all (\<lambda>k. abandoned_by en k = None \<and> \<not> expired_at (clk en k) act) [0..<8]"

definition same_deadline :: "RequestActivity \<Rightarrow> 'd work \<Rightarrow> bool" where
  "same_deadline act w \<longleftrightarrow>
     act_expires_at (w_activity w) = act_expires_at act \<and> act_abandoned (w_activity w) = act_abandoned act"

lemma same_deadline_update [simp]:
  "same_deadline act (w \<lparr>w_db := d\<rparr>) = same_deadline act w"
  "same_deadline act (w \<lparr>w_exec := x\<rparr>) = same_deadline act w"
  by (simp_all add: same_deadline_def)

lemma check_undisturbed:
  assumes "undisturbed en act" "k < 8" "same_deadline act w"
  shows "check_activity en k w = (Inr (), w)"
proof -
  have "act_abandoned act = None" "abandoned_by en k = None" "\<not> expired_at (clk en k) act"
    using assms(1,2) by (auto simp: undisturbed_def list_all_iff)
  then show ?thesis using assms(3)
    by (simp add: check_activity_def assert_active_def same_deadline_def expired_at_def)
qed

lemma handle_start_undisturbed:
  assumes "undisturbed en act" "read_key (rq_keys rq) = Inr key"
  shows "\<exists>w1. handle_start en rq \<lparr>w_db = db, w_activity = act, w_exec = x\<rparr> = (Inr key, w1) \<and>
    w_db w1 = db \<and> w_exec w1 = x \<and> same_deadline act w1"
  using assms(2) check_undisturbed [OF assms(1), of 0 "\<lparr>w_db = db, w_activity = act, w_exec = x\<rparr>"]
  by (simp add: handle_start_def same_deadline_def)

lemma begin_undisturbed:
  assumes q: "undisturbed en act" "same_deadline act w" and lock: "lock_answer en = Some 1"
    and caller: "1 \<le> py_len (rq_caller rq)" "py_len (rq_caller rq) \<le> 128"
    and sc: "scope_identity H cfg pol rq k = Inr h" and fp: "digest H inputs = Inr fp"
  shows "\<exists>ns route. begin_execution H cfg en pol rq k inputs w =
    claim_scope en h fp (claim_row h ns (rq_caller rq) (pol_operation pol) route fp)
      (w \<lparr>w_exec := (w_exec w) \<lparr>ex_scope_hash := Some h, ex_uncertain := False, ex_locked := True\<rparr>\<rparr>)"
proof -
  obtain ns route where nr: "scope_namespace H cfg = Inr ns" "resolve_route (rq_method rq) (rq_template rq) pol = Inr route"
    using sc by (auto simp: scope_identity_def bindR_eq_Inr)
  have "take_lock en v = (Inr (), v \<lparr>w_exec := (w_exec v) \<lparr>ex_uncertain := False, ex_locked := True\<rparr>\<rparr>)" for v :: "'a work"
    using lock by (simp add: take_lock_def)
  then have "begin_execution H cfg en pol rq k inputs w =
    claim_scope en h fp (claim_row h ns (rq_caller rq) (pol_operation pol) route fp)
      (w \<lparr>w_exec := (w_exec w) \<lparr>ex_scope_hash := Some h, ex_uncertain := False, ex_locked := True\<rparr>\<rparr>)"
    using nr sc fp caller q by (simp add: begin_execution_def guardR_def check_undisturbed [OF q(1)])
  then show ?thesis by blast
qed

lemma handle_replays:
  assumes ok: "idem_ok (idem db)" and r: "r \<in> set (idem db)" "unexpired (db_now en) r"
    and k: "read_key (rq_keys rq) = Inr (Some k)" "scope_identity H cfg pol rq k = Inr (io_scope_hash r)"
    and sb: "io_response_status r = Some st" "io_response_body r = Some body"
    and q: "undisturbed en act" and lock: "lock_answer en = Some 1" "commit en = Committed" "release_confirmed en"
    and caller: "1 \<le> py_len (rq_caller rq)" "py_len (rq_caller rq) \<le> 128"
    and fp: "rq_inputs rq = Inr inputs" "digest H inputs = Inr fp"
  shows "handle H cfg en pol rq (db, act) =
    ((if io_fingerprint r = fp then Inr (PreparedJSONResponse body st)
      else Inl (HTTPException 409 ''Idempotency-Key was already used with a different payload.'' [])), db)"
proof -
  obtain w1 where w1: "handle_start en rq \<lparr>w_db = db, w_activity = act, w_exec = new_execution\<rparr> = (Inr (Some k), w1)"
      "w_db w1 = db" "w_exec w1 = new_execution" "same_deadline act w1"
    using handle_start_undisturbed [OF q k(1)] by blast
  obtain ns route where b: "begin_execution H cfg en pol rq k inputs w1 =
    claim_scope en (io_scope_hash r) fp (claim_row (io_scope_hash r) ns (rq_caller rq) (pol_operation pol) route fp)
      (w1 \<lparr>w_exec := (w_exec w1) \<lparr>ex_scope_hash := Some (io_scope_hash r), ex_uncertain := False, ex_locked := True\<rparr>\<rparr>)"
    using begin_undisturbed [OF q w1(4) lock(1) caller k(2) fp(2)] by blast
  let ?w2 = "w1 \<lparr>w_exec := (w_exec w1) \<lparr>ex_scope_hash := Some (io_scope_hash r), ex_uncertain := False, ex_locked := True\<rparr>\<rparr>"
  have beg: "begin_execution H cfg en pol rq k inputs w1 =
    ((if io_fingerprint r = fp then Inr (Some (PreparedJSONResponse body st))
      else Inl (HTTPException 409 ''Idempotency-Key was already used with a different payload.'' [])), ?w2)"
    using claim_scope_hit [of ?w2 r "io_scope_hash r" en st body] ok r sb w1(2) unfolding b by simp
  have st: "st < 400" using ok r(1) sb by (auto simp: idem_ok_def row_ok_def validate_response_def split: if_splits)
  have body: "transaction_body H cfg en pol rq (Some k) w1 =
    (if io_fingerprint r = fp then (Inr (PreparedJSONResponse body st, True), ?w2)
     else (Inl (HTTPException 409 ''Idempotency-Key was already used with a different payload.'' []), ?w2))"
    using beg fp(1) w1(3,4) st
    by (simp add: transaction_body_def prepare_def check_undisturbed [OF q] complete_execution_def new_execution_def
        PreparedJSONResponse_def)
  show ?thesis using w1(1,2) body lock by (simp add: handle_def release_def)
qed

subsection \<open>Sweeps\<close>

lemma purge_ok:
  assumes "1 \<le> batch" "batch \<le> 1000" "distinct tbl"
  shows "\<exists>n tbl'. purge_expired_batch now batch tbl = (Inr n, tbl') \<and> int n \<le> batch \<and> length tbl = length tbl' + n \<and>
    distinct tbl' \<and> set tbl' \<subseteq> set tbl \<and>
    (\<forall>r \<in> set tbl - set tbl'. io_state r = ''completed'' \<and> past_expiry now r) \<and>
    (int n < batch \<longrightarrow> (\<forall>r \<in> set tbl'. \<not> (io_state r = ''completed'' \<and> past_expiry now r)))"
proof -
  let ?v = "purge_victims now (nat batch) tbl"
  have due: "\<forall>r \<in> set ?v. r \<in> set tbl \<and> past_expiry now r \<and> io_state r = ''completed''"
    using purge_victims_expired by blast
  have dist: "distinct ?v" using assms(3) by (simp add: purge_victims_def)
  have sub: "set ?v \<subseteq> set tbl" using due by blast
  have "set (filter (\<lambda>r. r \<in> set ?v) tbl) = set ?v" using sub by auto
  then have "length (filter (\<lambda>r. r \<in> set ?v) tbl) = length ?v"
    using distinct_card [OF dist] distinct_card [of "filter (\<lambda>r. r \<in> set ?v) tbl"] assms(3) by simp
  then have len: "length tbl = length (filter (\<lambda>r. r \<notin> set ?v) tbl) + length ?v"
    using sum_length_filter_compl [of "\<lambda>r. r \<in> set ?v" tbl] by simp
  have all: "set ?v = {r \<in> set tbl. io_state r = ''completed'' \<and> past_expiry now r}" if "int (length ?v) < batch"
    using that by (auto simp: purge_victims_def)
  have "int (length ?v) \<le> batch" using assms(1) by (simp add: purge_victims_def)
  moreover have "purge_expired_batch now batch tbl = (Inr (length ?v), filter (\<lambda>r. r \<notin> set ?v) tbl)"
    using assms(1,2) by (simp add: purge_expired_batch_def Let_def)
  moreover have "\<forall>r \<in> set tbl - set (filter (\<lambda>r. r \<notin> set ?v) tbl). io_state r = ''completed'' \<and> past_expiry now r"
    using due by auto
  moreover have "int (length ?v) < batch \<longrightarrow>
      (\<forall>r \<in> set (filter (\<lambda>r. r \<notin> set ?v) tbl). \<not> (io_state r = ''completed'' \<and> past_expiry now r))"
    using all by auto
  moreover have "distinct (filter (\<lambda>r. r \<notin> set ?v) tbl)" "set (filter (\<lambda>r. r \<notin> set ?v) tbl) \<subseteq> set tbl"
    using assms(3) by auto
  ultimately show ?thesis using len by blast
qed


definition due :: "(nat \<Rightarrow> time) \<Rightarrow> nat \<Rightarrow> nat \<Rightarrow> IdempotencyORM \<Rightarrow> bool" where
  "due now i n r \<longleftrightarrow> io_state r = ''completed'' \<and> (\<exists>j. i \<le> j \<and> j < n \<and> past_expiry (now j) r)"

lemma due_mono: "due now (i + 1) (i + 1 + n) r \<Longrightarrow> due now i (i + Suc n) r"
proof -
  assume d: "due now (i + 1) (i + 1 + n) r"
  then obtain j where "i + 1 \<le> j" "j < i + 1 + n" "past_expiry (now j) r" by (auto simp: due_def)
  then show ?thesis using d unfolding due_def by (intro conjI exI [of _ j]) simp_all
qed

lemma sweep_loop_ok:
  assumes "1 \<le> batch" "batch \<le> 1000" "distinct tbl"
  shows "\<exists>m tbl'. sweep_loop acc now batch i n cnt tbl = (Inr (cnt + m), tbl') \<and> int m \<le> batch * int n \<and>
    length tbl = length tbl' + m \<and> set tbl' \<subseteq> set tbl \<and> (\<forall>r \<in> set tbl - set tbl'. due now i (i + n) r) \<and>
    ((\<forall>j. i \<le> j \<and> j < i + n \<longrightarrow> acc j) \<and> int m < batch * int n \<longrightarrow>
      (\<exists>j. i \<le> j \<and> j < i + n \<and> (\<forall>r \<in> set tbl'. \<not> (io_state r = ''completed'' \<and> past_expiry (now j) r))))"
  using assms(3)
proof (induction n arbitrary: i cnt tbl)
  case (Suc n)
  show ?case
  proof (cases "acc i")
    case False
    then show ?thesis using assms(1) by (intro exI [of _ "0::nat"] exI [of _ tbl]) auto
  next
    case True
    obtain k t1 where p: "purge_expired_batch (now i) batch tbl = (Inr k, t1)" and pk: "int k \<le> batch"
        "length tbl = length t1 + k" "distinct t1" "set t1 \<subseteq> set tbl"
        "\<forall>r \<in> set tbl - set t1. io_state r = ''completed'' \<and> past_expiry (now i) r"
        "int k < batch \<longrightarrow> (\<forall>r \<in> set t1. \<not> (io_state r = ''completed'' \<and> past_expiry (now i) r))"
      using purge_ok [OF assms(1,2) Suc.prems, of "now i"] by blast
    have d1: "\<forall>r \<in> set tbl - set t1. due now i (i + Suc n) r" using pk(5) by (force simp: due_def)
    show ?thesis
    proof (cases "int k < batch")
      case short: True
      have "batch * int n \<ge> 0" using assms(1) by simp
      then have "int k \<le> batch * int (Suc n)"
        using pk(1) by (simp only: of_nat_Suc distrib_left mult_1_right)
      moreover have "\<exists>j. i \<le> j \<and> j < i + Suc n \<and> (\<forall>r \<in> set t1. \<not> (io_state r = ''completed'' \<and> past_expiry (now j) r))"
        using pk(6) short by (intro exI [of _ i]) simp
      ultimately show ?thesis
        using True p short pk(2,4) d1 by (intro exI [of _ k] exI [of _ t1]) simp
    next
      case False
      then have k: "int k = batch" using pk(1) by simp
      obtain m t2 where s: "sweep_loop acc now batch (i + 1) n (cnt + k) t1 = (Inr (cnt + k + m), t2)" and
          m: "int m \<le> batch * int n" "length t1 = length t2 + m" "set t2 \<subseteq> set t1"
            "\<forall>r \<in> set t1 - set t2. due now (i + 1) (i + 1 + n) r"
            "(\<forall>j. i + 1 \<le> j \<and> j < i + 1 + n \<longrightarrow> acc j) \<and> int m < batch * int n \<longrightarrow>
              (\<exists>j. i + 1 \<le> j \<and> j < i + 1 + n \<and> (\<forall>r \<in> set t2. \<not> (io_state r = ''completed'' \<and> past_expiry (now j) r)))"
        using Suc.IH [OF pk(3), of "i + 1" "cnt + k"] by blast
      have "\<forall>r \<in> set t1 - set t2. due now i (i + Suc n) r"
        using m(4) due_mono [of now i n] by blast
      then have d2: "\<forall>r \<in> set tbl - set t2. due now i (i + Suc n) r" using d1 by blast
      have last: "(\<forall>j. i \<le> j \<and> j < i + Suc n \<longrightarrow> acc j) \<and> int (k + m) < batch * int (Suc n) \<longrightarrow>
          (\<exists>j. i \<le> j \<and> j < i + Suc n \<and> (\<forall>r \<in> set t2. \<not> (io_state r = ''completed'' \<and> past_expiry (now j) r)))"
      proof
        assume a: "(\<forall>j. i \<le> j \<and> j < i + Suc n \<longrightarrow> acc j) \<and> int (k + m) < batch * int (Suc n)"
        then have "\<forall>j. i + 1 \<le> j \<and> j < i + 1 + n \<longrightarrow> acc j" "int m < batch * int n"
          using k by (auto simp: algebra_simps)
        then obtain j where "i + 1 \<le> j" "j < i + 1 + n" "\<forall>r \<in> set t2. \<not> (io_state r = ''completed'' \<and> past_expiry (now j) r)"
          using m(5) by blast
        then show "\<exists>j. i \<le> j \<and> j < i + Suc n \<and> (\<forall>r \<in> set t2. \<not> (io_state r = ''completed'' \<and> past_expiry (now j) r))"
          by (intro exI [of _ j]) auto
      qed
      have "sweep_loop acc now batch i (Suc n) cnt tbl = (Inr (cnt + (k + m)), t2)"
        using True p False s by (simp add: ac_simps)
      moreover have "int (k + m) \<le> batch * int (Suc n)" using m(1) k by (simp add: algebra_simps)
      moreover have "length tbl = length t2 + (k + m)" "set t2 \<subseteq> set tbl" using pk(2,4) m(2,3) by auto
      ultimately show ?thesis using d2 last by blast
    qed
  qed
qed simp

subsection \<open>A sample service\<close>

definition sample_settings :: settings where
  "sample_settings = \<lparr>cfg_app_name = ''quick'', cfg_database = ''items'', cfg_max_response_bytes = 1024\<rparr>"

definition sample_env :: "int \<Rightarrow> env" where
  "sample_env t = \<lparr>clk = (\<lambda>k. 0), abandoned_by = (\<lambda>k. None), lock_answer = Some 1, db_now = of_int t,
     commit = Committed, release_confirmed = True\<rparr>"

definition sample_route :: IdempotencyPolicy where
  "sample_route = \<lparr>pol_operation = ''items.create'', pol_route = None\<rparr>"

text \<open>An endpoint that appends its payload to the domain and answers with it.\<close>

definition sample_request :: "string \<Rightarrow> string list request" where
  "sample_request payload =
     \<lparr>rq_keys = [''k-1''], rq_inputs = Inr (VStr payload), rq_caller = ''public'', rq_method = ''POST'',
      rq_template = Some ''/items/'', rq_endpoint = (\<lambda>d. (Inr (PreparedJSONResponse payload 201), d @ [payload]))\<rparr>"

definition sample_db :: "string list database" where
  "sample_db = \<lparr>domain = [], idem = []\<rparr>"

definition sample_stored :: "string list database" where
  "sample_stored = snd (handle id sample_settings (sample_env 100) sample_route (sample_request ''7'') (sample_db, new_activity))"

lemma sample_call:
  "handle id sample_settings (sample_env 100) sample_route (sample_request ''7'') (sample_db, new_activity) =
     (Inr (PreparedJSONResponse ''7'' 201), sample_stored)"
  by code_simp

subsection \<open>Properties\<close>

text \<open>
  Property C3. A mutation is all or nothing. An answer of 400 or more leaves the database
  unchanged; an answer below 400 was replayed from an unexpired row without touching the
  database, or the endpoint ran once on the domain and, with a key, its response was stored in
  the same commit under a scope that had no unexpired row; an exception leaves such an effect
  behind only when the acknowledgement of the commit or of the lock release was lost.
\<close>

theorem mutation_atomic:
  assumes "handle H cfg en pol rq (db, act) = (res, db')" "idem_ok (idem db)"
  shows "case res of
      Inr resp \<Rightarrow>
        if rs_status resp \<ge> 400 then db' = db
        else db' = db \<and> in_live_scope H cfg en pol rq db \<or> call_effect H cfg en pol rq db resp db'
    | Inl e \<Rightarrow>
        db' = db \<or>
        ((\<exists>x. commit en = CommitLost x) \<or> \<not> release_confirmed en) \<and>
        (\<exists>resp. call_effect H cfg en pol rq db resp db')"
  using handle_effect [OF assms] unfolding call_outcome_def .

theorem mutation_atomic_witness:
  "sample_stored = sample_db \<and> in_live_scope id sample_settings (sample_env 100) sample_route (sample_request ''7'') sample_db \<or>
   call_effect id sample_settings (sample_env 100) sample_route (sample_request ''7'') sample_db
     (PreparedJSONResponse ''7'' 201) sample_stored"
  using mutation_atomic [OF sample_call] by (simp add: sample_db_def idem_ok_def PreparedJSONResponse_def)

text \<open>
  Property C4. A keyed request whose scope holds an unexpired completed row is replayed: with the
  same input fingerprint it gets the stored status and bytes, with another it gets 409, and in
  both cases the endpoint does not run and the database keeps its contents. The call is assumed
  to get its lock and to meet no deadline, disconnect or lost acknowledgement.
\<close>

theorem replay_exact:
  assumes "idem_ok (idem db)" and "r \<in> set (idem db)" "unexpired (db_now en) r"
    and "read_key (rq_keys rq) = Inr (Some k)" "scope_identity H cfg pol rq k = Inr (io_scope_hash r)"
    and "io_response_status r = Some st" "io_response_body r = Some body"
    and "undisturbed en act" and "lock_answer en = Some 1" "commit en = Committed" "release_confirmed en"
    and "1 \<le> py_len (rq_caller rq)" "py_len (rq_caller rq) \<le> 128"
    and "rq_inputs rq = Inr inputs" "digest H inputs = Inr fp"
  shows "handle H cfg en pol rq (db, act) =
    ((if io_fingerprint r = fp then Inr (PreparedJSONResponse body st)
      else Inl (HTTPException 409 ''Idempotency-Key was already used with a different payload.'' [])), db)"
  by (rule handle_replays [OF assms])

lemma sample_stored_row: "idem sample_stored = [hd (idem sample_stored)]"
  by code_simp

lemma sample_stored_ok: "idem_ok (idem sample_stored)"
  using idem_ok_handle [OF sample_call] by (simp add: sample_db_def idem_ok_def sample_settings_def)

theorem replay_exact_witness:
  "handle id sample_settings (sample_env 200) sample_route (sample_request ''7'') (sample_stored, new_activity) =
     (Inr (PreparedJSONResponse ''7'' 201), sample_stored) \<and>
   handle id sample_settings (sample_env 200) sample_route (sample_request ''8'') (sample_stored, new_activity) =
     (Inl (HTTPException 409 ''Idempotency-Key was already used with a different payload.'' []), sample_stored)"
proof -
  let ?r = "hd (idem sample_stored)"
  have r: "?r \<in> set (idem sample_stored)" by (subst (2) sample_stored_row) simp
  have f: "unexpired (db_now (sample_env 200)) ?r" "io_response_status ?r = Some 201" "io_response_body ?r = Some ''7''"
      "scope_identity id sample_settings sample_route (sample_request ''7'') ''k-1'' = Inr (io_scope_hash ?r)"
      "scope_identity id sample_settings sample_route (sample_request ''8'') ''k-1'' = Inr (io_scope_hash ?r)"
      "digest id (VStr ''7'') = Inr (io_fingerprint ?r)"
      "digest id (VStr ''8'') = Inr [CHR 0x22, CHR ''8'', CHR 0x22]" "io_fingerprint ?r \<noteq> [CHR 0x22, CHR ''8'', CHR 0x22]"
    by code_simp+
  have g: "undisturbed (sample_env 200) new_activity" "lock_answer (sample_env 200) = Some 1"
      "commit (sample_env 200) = Committed" "release_confirmed (sample_env 200)"
    by (simp_all add: undisturbed_def sample_env_def new_activity_def expired_at_def list_all_iff)
  have q: "read_key (rq_keys (sample_request p)) = Inr (Some ''k-1'')" "1 \<le> py_len (rq_caller (sample_request p))"
      "py_len (rq_caller (sample_request p)) \<le> 128" "rq_inputs (sample_request p) = Inr (VStr p)" for p
    by (simp_all add: sample_request_def) code_simp+
  note use = replay_exact [OF sample_stored_ok r f(1) q(1) _ f(2,3) g q(2-4)]
  show ?thesis using use [OF f(4,6)] use [OF f(5,7)] f(8) by simp
qed

text \<open>
  Property C2. Within the retention period an executed mutation stays executed exactly once: after
  a keyed call that changed the database, whatever further calls and purges run before the row
  expires, a call in the same scope leaves the database as it is, and if it succeeds it carries
  the same input fingerprint and answers with the first response.
\<close>

theorem exactly_once:
  assumes "handle H cfg en pol rq (db, act) = (Inr resp, db')" "db' \<noteq> db" "idem_ok (idem db)"
    and "cfg_max_response_bytes cfg \<le> 65536"
    and "read_key (rq_keys rq) = Inr (Some k)" "scope_identity H cfg pol rq k = Inr h"
    and "\<forall>ev \<in> set evs. event_now ev < db_now en + RETENTION_SECONDS"
    and "db_now en2 < db_now en + RETENTION_SECONDS"
    and "read_key (rq_keys rq2) = Inr (Some k2)" "scope_identity H cfg pol2 rq2 k2 = Inr h"
  shows "snd (handle H cfg en2 pol2 rq2 (run_events H cfg evs db', act2)) = run_events H cfg evs db' \<and>
    (case fst (handle H cfg en2 pol2 rq2 (run_events H cfg evs db', act2)) of
       Inl e \<Rightarrow> True
     | Inr resp2 \<Rightarrow> resp2 = PreparedJSONResponse (rs_body resp) (rs_status resp) \<and>
         bindR (rq_inputs rq2) (digest H) = bindR (rq_inputs rq) (digest H))"
proof -
  have "call_effect H cfg en pol rq db resp db'"
    using handle_effect [OF assms(1,3)] assms(2) by (auto simp: call_outcome_def split: if_splits)
  then obtain row where row: "row \<in> set (idem db')" "stored_row H cfg en pol rq h resp row"
    using assms(5,6) by (fastforce simp: call_effect_def)
  have live: "\<forall>ev \<in> set evs. unexpired (event_now ev) row" "unexpired (db_now en2) row"
    using row(2) assms(7,8) by (auto simp: stored_row_def unexpired_def)
  have ok': "idem_ok (idem db')" by (rule idem_ok_handle [OF assms(1,3,4)])
  have ok: "idem_ok (idem (run_events H cfg evs db'))" "row \<in> set (idem (run_events H cfg evs db'))"
    using run_events_live [OF assms(4) ok' row(1) live(1)] by blast+
  have row': "io_scope_hash row = h" "io_response_status row = Some (rs_status resp)"
      "io_response_body row = Some (rs_body resp)" "bindR (rq_inputs rq) (digest H) = Inr (io_fingerprint row)"
    using row(2) by (auto simp: stored_row_def)
  obtain res2 db2 where h2: "handle H cfg en2 pol2 rq2 (run_events H cfg evs db', act2) = (res2, db2)" by force
  note l = handle_live [OF h2 ok live(2) assms(9) _ row'(2,3)]
  show ?thesis using l assms(10) row'(1,4) h2 by (auto split: sum.splits)
qed

theorem exactly_once_witness:
  "snd (handle id sample_settings (sample_env 300) sample_route (sample_request ''7'')
      (run_events id sample_settings [Purge 200 1000] sample_stored, new_activity)) =
   run_events id sample_settings [Purge 200 1000] sample_stored"
proof -
  have sc: "scope_identity id sample_settings sample_route (sample_request ''7'') ''k-1'' =
      Inr (io_scope_hash (hd (idem sample_stored)))" by code_simp
  have k: "read_key (rq_keys (sample_request ''7'')) = Inr (Some ''k-1'')" by code_simp
  have "idem sample_stored \<noteq> []" by (subst sample_stored_row) simp
  moreover have "idem sample_db = []" by (simp add: sample_db_def)
  ultimately have ne: "sample_stored \<noteq> sample_db" by metis
  show ?thesis
    using exactly_once [OF sample_call ne _ _ k sc, of "[Purge 200 1000]" "sample_env 300"
        "sample_request ''7''" "''k-1''" sample_route new_activity] sc k
    by (simp add: sample_db_def idem_ok_def sample_settings_def sample_env_def RETENTION_SECONDS_def)
qed

text \<open>
  Every history of calls and purges on an initially empty table leaves only complete
  rows: a committed row is never in the state \<open>processing\<close>, carries a status, a bounded body that
  is valid JSON (or empty for a bodyless status) and an expiry, and scopes are unique.
\<close>

lemma idempotency_table_invariant:
  assumes "cfg_max_response_bytes cfg \<le> 65536"
  shows "distinct (map io_scope_hash (idem (run_events H cfg evs \<lparr>domain = d, idem = []\<rparr>))) \<and>
    list_all row_ok (idem (run_events H cfg evs \<lparr>domain = d, idem = []\<rparr>))"
proof -
  have "idem_ok (idem db) \<Longrightarrow> idem_ok (idem (run_events H cfg evs db))" for db :: "'a database"
    unfolding run_events_def by (induction evs arbitrary: db) (auto intro: apply_event_ok [OF _ assms])
  from this [of "\<lparr>domain = d, idem = []\<rparr>"] show ?thesis by (simp add: idem_ok_def list_all_iff)
qed

text \<open>
  Property C31. A cleanup sweep with a valid batch size returns, counts exactly the rows it removed,
  removes at most \<open>max_batches\<close> full batches, and only completed rows past their expiry at the
  time of one of its batches; when it stopped short of its bound although it stayed accepting, no
  such row was left at the time of its last batch.
\<close>

theorem sweep_sound:
  assumes "1 \<le> batch" "batch \<le> 1000" "distinct tbl"
  shows "\<exists>m tbl'. sweep acc now batch n tbl = (Inr m, tbl') \<and> int m \<le> batch * int n \<and>
    length tbl = length tbl' + m \<and> set tbl' \<subseteq> set tbl \<and>
    (\<forall>r \<in> set tbl - set tbl'. io_state r = ''completed'' \<and> (\<exists>j < n. past_expiry (now j) r)) \<and>
    ((\<forall>j < n. acc j) \<and> int m < batch * int n \<longrightarrow>
      (\<exists>j < n. \<forall>r \<in> set tbl'. \<not> (io_state r = ''completed'' \<and> past_expiry (now j) r)))"
  using sweep_loop_ok [OF assms, of acc now 0 n 0] by (simp add: sweep_def due_def)

theorem sweep_sound_witness:
  "\<exists>m tbl'. sweep (\<lambda>i. True) (\<lambda>i. 100000) 1 3 (idem sample_stored) = (Inr m, tbl') \<and> int m \<le> 3 \<and>
    length (idem sample_stored) = length tbl' + m"
proof -
  have "distinct (idem sample_stored)" by (subst sample_stored_row) simp
  then show ?thesis
    using sweep_sound [of 1 "idem sample_stored" "\<lambda>i. True" "\<lambda>i. 100000" 3] by auto
qed

end
