(* ===== verification/Environment.thy ===== *)
theory Environment
  imports RateLimit Gates Proxy
begin

text \<open>
  The configuration of the service (\<^verbatim>\<open>app/config/environment.py\<close>): the fields of \<^verbatim>\<open>Settings\<close>, the
  field validators, the relationships between fields, loading from the process environment and
  the \<^verbatim>\<open>.env\<close> file, and the report printed when validation fails.

  Every variable arrives as a string. What pydantic, SQLAlchemy, the TLS stack and the timezone
  database decide is the record \<open>libraries\<close>. The result of reading a field is \<open>None\<close> when it is
  missing or invalid.
\<close>

type_synonym environ = "string \<Rightarrow> string option"

text \<open>A URL as pydantic's \<^verbatim>\<open>AnyHttpUrl\<close> parses it, with its serialization.\<close>

record http_url =
  url_str :: string
  url_username :: "string option"
  url_password :: "string option"
  url_path :: "string option"
  url_query :: "string option"
  url_fragment :: "string option"
  url_port :: "int option"

text \<open>
  \<open>make_url\<close> gives the driver name and the query keys of a database URL, \<open>tls_ok\<close> says whether a
  TLS context can be built for an optional CA file, \<open>zone_known\<close> whether \<^verbatim>\<open>ZoneInfo\<close> accepts a
  name, \<open>semver\<close> whether the version pattern matches, and \<open>lax_int\<close> is pydantic's own conversion
  of a string to an integer.
\<close>

record libraries =
  any_http_url :: "string \<Rightarrow> http_url option"
  make_url :: "string \<Rightarrow> (string \<times> string list) option"
  tls_ok :: "string option \<Rightarrow> bool"
  zone_known :: "string \<Rightarrow> bool"
  semver :: "string \<Rightarrow> bool"
  lax_int :: "string \<Rightarrow> int option"

subsection \<open>Field validators\<close>

definition DEFAULT_API_PUBLISHED_PORT :: int where "DEFAULT_API_PUBLISHED_PORT = 8000"
definition DEFAULT_MYSQL_PUBLISHED_PORT :: int where "DEFAULT_MYSQL_PUBLISHED_PORT = 3310"

fun list_entries :: "string list \<Rightarrow> string list \<Rightarrow> string list option" where
  "list_entries [] items = Some items"
| "list_entries (e # es) items =
     (if py_strip e = [] then None
      else list_entries es (if py_strip e \<in> set items then items else items @ [py_strip e]))"

definition parse_list :: "string \<Rightarrow> string list option" where
  "parse_list v = list_entries (if py_strip v = [] then [] else py_split (CHR '','') v) []"

definition exact_origin :: "libraries \<Rightarrow> string \<Rightarrow> bool" where
  "exact_origin lib v =
     (case any_http_url lib v of
        None \<Rightarrow> False
      | Some u \<Rightarrow>
          \<not> (removesuffix ''/'' (url_str u) \<noteq> v \<or> url_username u \<noteq> None \<or> url_password u \<noteq> None \<or>
             url_path u \<noteq> Some ''/'' \<or> url_query u \<noteq> None \<or> url_fragment u \<noteq> None \<or>
             url_port u = Some 0 \<or> CHR ''*'' \<in> set v))"

definition validate_origins :: "libraries \<Rightarrow> string list \<Rightarrow> string list option" where
  "validate_origins lib vs = (if list_all (exact_origin lib) vs then Some vs else None)"

definition validate_methods :: "string list \<Rightarrow> string list option" where
  "validate_methods vs = (if list_ex (\<lambda>v. v \<notin> set HTTP_METHODS) vs then None else Some vs)"

definition header_name :: "string \<Rightarrow> bool" where
  "header_name v \<longleftrightarrow> v \<noteq> [] \<and>
     list_all (\<lambda>c. (97 \<le> code c \<and> code c \<le> 122) \<or> py_isdigit c \<or> c = CHR ''-'') v"

definition validate_headers :: "string list \<Rightarrow> string list option" where
  "validate_headers vs =
     (let normalized = fromkeys (map py_lower vs) in
      if list_ex (\<lambda>v. \<not> header_name v \<or> v \<in> set FORBIDDEN_HEADERS \<or> v = ''connection'') normalized
      then None else Some normalized)"

definition media_token :: "string \<Rightarrow> bool" where
  "media_token v \<longleftrightarrow> v \<noteq> [] \<and>
     list_all (\<lambda>c. (97 \<le> code c \<and> code c \<le> 122) \<or> py_isdigit c \<or> c \<in> set ''!#$&^_.+-'') v"

text \<open>The pattern has one slash, which is in neither token.\<close>

definition exact_media_type :: "string \<Rightarrow> bool" where
  "exact_media_type v \<longleftrightarrow> CHR ''/'' \<in> set v \<and> media_token (fst (split_slash v)) \<and> media_token (snd (split_slash v))"

definition validate_content_types :: "string list \<Rightarrow> string list option" where
  "validate_content_types vs =
     (let normalized = fromkeys (map py_lower vs) in
      if list_ex (\<lambda>v. \<not> exact_media_type v) normalized then None else Some normalized)"

fun networks :: "string list \<Rightarrow> string list option" where
  "networks [] = Some []"
| "networks (v # vs) =
     (case (proxy_network v, networks vs) of
        (Inr net, Some rest) \<Rightarrow> Some (show_network net # rest)
      | _ \<Rightarrow> None)"

definition validate_proxies :: "string list \<Rightarrow> string list option" where
  "validate_proxies vs = map_option fromkeys (networks vs)"

definition strict_boolean :: "string \<Rightarrow> bool option" where
  "strict_boolean v = (if v = ''true'' then Some True else if v = ''false'' then Some False else None)"

text \<open>ASCII decimal digits, and then pydantic's integer within the bounds of the field.\<close>

definition strict_integer :: "int \<Rightarrow> int \<Rightarrow> string \<Rightarrow> int option" where
  "strict_integer lo hi v =
     (if v \<noteq> [] \<and> list_all py_isdigit v then
        (let n = int (read_digits v) in if lo \<le> n \<and> n \<le> hi then Some n else None)
      else None)"

definition validate_published_port :: "int \<Rightarrow> string \<Rightarrow> int option" where
  "validate_published_port default_port v = (if v = [] then Some default_port else strict_integer 1 65535 v)"

subsection \<open>Fields\<close>

text \<open>A field with a default, which is validated as well.\<close>

definition field :: "environ \<Rightarrow> string \<Rightarrow> 'a option \<Rightarrow> (string \<Rightarrow> 'a option) \<Rightarrow> 'a option" where
  "field env name dflt f = (case env name of None \<Rightarrow> dflt | Some v \<Rightarrow> f v)"

definition int_field :: "environ \<Rightarrow> string \<Rightarrow> int \<Rightarrow> int \<Rightarrow> int \<Rightarrow> int option" where
  "int_field env name dflt lo hi =
     field env name (if lo \<le> dflt \<and> dflt \<le> hi then Some dflt else None) (strict_integer lo hi)"

definition list_field ::
  "environ \<Rightarrow> string \<Rightarrow> string list \<Rightarrow> nat \<Rightarrow> nat \<Rightarrow> (string list \<Rightarrow> string list option) \<Rightarrow> string list option" where
  "list_field env name dflt lo hi f =
     Option.bind (field env name (list_entries dflt []) parse_list)
       (\<lambda>vs. if lo \<le> length vs \<and> length vs \<le> hi then f vs else None)"

definition text_field :: "environ \<Rightarrow> string \<Rightarrow> string option \<Rightarrow> (string \<Rightarrow> bool) \<Rightarrow> string option" where
  "text_field env name dflt ok =
     Option.bind (field env name dflt Some) (\<lambda>v. if ok v then Some v else None)"

definition operational_default :: "string \<Rightarrow> bool" where
  "operational_default mode \<longleftrightarrow> mode \<noteq> ''production''"

record Settings =
  APP_NAME :: string
  APP_VERSION :: string
  ENV :: string
  LOG_LEVEL :: string
  HOST :: string
  PORT :: int
  API_PUBLISHED_PORT :: int
  MYSQL_PUBLISHED_PORT :: int
  DATABASE_URL :: string
  DB_POOL_CONNECTION_LIMIT :: int
  DB_POOL_QUEUE_LIMIT :: int
  DB_POOL_ACQUIRE_TIMEOUT_MS :: int
  DB_CONNECT_TIMEOUT_MS :: int
  DB_READINESS_TIMEOUT_MS :: int
  DB_READINESS_CACHE_MS :: int
  DB_MIGRATION_CHECK_TIMEOUT_MS :: int
  DB_SSL :: bool
  DB_SSL_CA_FILE :: "string option"
  TIMEZONE :: string
  DOCS_ENABLED :: bool
  DIAGNOSTICS_ENABLED :: bool
  METRICS_ENABLED :: bool
  CORS_ORIGINS :: "string list"
  CORS_METHODS :: "string list"
  CORS_ALLOWED_HEADERS :: "string list"
  CORS_EXPOSED_HEADERS :: "string list"
  CORS_CREDENTIALS :: bool
  CORS_MAX_AGE_SECONDS :: int
  TRUST_PROXY :: "string list"
  RATE_LIMIT_WINDOW_MS :: int
  RATE_LIMIT_MAX :: int
  RATE_LIMIT_MAX_CLIENTS :: int
  IDEMPOTENCY_MAX_RESPONSE_BYTES :: int
  IDEMPOTENCY_CLEANUP_BATCH_SIZE :: int
  IDEMPOTENCY_CLEANUP_MAX_BATCHES :: int
  REQUEST_TIMEOUT_MS :: int
  HTTP_DRAIN_TIMEOUT_MS :: int
  SHUTDOWN_TIMEOUT_MS :: int
  REQUEST_FIRST_BODY_TIMEOUT_MS :: int
  REQUEST_CHUNK_TIMEOUT_MS :: int
  HTTP_MAX_BODY_BYTES :: int
  HTTP_MAX_HEADER_COUNT :: int
  HTTP_MAX_SINGLE_HEADER_BYTES :: int
  HTTP_MAX_TOTAL_HEADER_BYTES :: int
  HTTP_ALLOWED_METHODS :: "string list"
  HTTP_ALLOWED_CONTENT_TYPES :: "string list"

text \<open>
  Every field in declaration order; the defaults of the operational routes read the validated
  \<open>ENV\<close>.
\<close>

definition validate_fields :: "libraries \<Rightarrow> environ \<Rightarrow> Settings option" where
  "validate_fields lib env =
     Option.bind (text_field env ''APP_NAME'' None (\<lambda>v. 1 \<le> py_len v \<and> py_len v \<le> 120)) (\<lambda>app_name.
     Option.bind (text_field env ''APP_VERSION'' None (semver lib)) (\<lambda>app_version.
     Option.bind (text_field env ''ENV'' None (\<lambda>v. v \<in> {''development'', ''production'', ''test''})) (\<lambda>mode.
     Option.bind (text_field env ''LOG_LEVEL'' (Some ''INFO'') (\<lambda>v. v \<in> {''DEBUG'', ''INFO'', ''WARN'', ''ERROR''})) (\<lambda>log_level.
     Option.bind (text_field env ''HOST'' (Some ''0.0.0.0'') (\<lambda>v. True)) (\<lambda>host.
     Option.bind (Option.bind (Option.bind (env ''PORT'') (lax_int lib)) (\<lambda>n. if 1 \<le> n \<and> n \<le> 65535 then Some n else None)) (\<lambda>port.
     Option.bind (field env ''API_PUBLISHED_PORT'' (Some DEFAULT_API_PUBLISHED_PORT) (validate_published_port DEFAULT_API_PUBLISHED_PORT)) (\<lambda>api_published_port.
     Option.bind (field env ''MYSQL_PUBLISHED_PORT'' (Some DEFAULT_MYSQL_PUBLISHED_PORT) (validate_published_port DEFAULT_MYSQL_PUBLISHED_PORT)) (\<lambda>mysql_published_port.
     Option.bind (text_field env ''DATABASE_URL'' None (\<lambda>v. 5 \<le> py_len v)) (\<lambda>database_url.
     Option.bind (int_field env ''DB_POOL_CONNECTION_LIMIT'' 10 1 1000) (\<lambda>db_pool_connection_limit.
     Option.bind (int_field env ''DB_POOL_QUEUE_LIMIT'' 50 0 10000) (\<lambda>db_pool_queue_limit.
     Option.bind (int_field env ''DB_POOL_ACQUIRE_TIMEOUT_MS'' 1000 1 2147483647) (\<lambda>db_pool_acquire_timeout_ms.
     Option.bind (int_field env ''DB_CONNECT_TIMEOUT_MS'' 10000 1 2147483647) (\<lambda>db_connect_timeout_ms.
     Option.bind (int_field env ''DB_READINESS_TIMEOUT_MS'' 1000 1 2147483647) (\<lambda>db_readiness_timeout_ms.
     Option.bind (int_field env ''DB_READINESS_CACHE_MS'' 1000 0 2147483647) (\<lambda>db_readiness_cache_ms.
     Option.bind (int_field env ''DB_MIGRATION_CHECK_TIMEOUT_MS'' 5000 1 2147483647) (\<lambda>db_migration_check_timeout_ms.
     Option.bind (field env ''DB_SSL'' (Some False) strict_boolean) (\<lambda>db_ssl.
     Option.bind (field env ''DB_SSL_CA_FILE'' (Some None) (\<lambda>v. if 1 \<le> py_len v then Some (Some v) else None)) (\<lambda>db_ssl_ca_file.
     Option.bind (text_field env ''TIMEZONE'' (Some ''Etc/UTC'') (zone_known lib)) (\<lambda>timezone.
     Option.bind (field env ''DOCS_ENABLED'' (Some (operational_default mode)) strict_boolean) (\<lambda>docs_enabled.
     Option.bind (field env ''DIAGNOSTICS_ENABLED'' (Some (operational_default mode)) strict_boolean) (\<lambda>diagnostics_enabled.
     Option.bind (field env ''METRICS_ENABLED'' (Some (operational_default mode)) strict_boolean) (\<lambda>metrics_enabled.
     Option.bind (list_field env ''CORS_ORIGINS'' [''http://localhost:3000''] 1 100 (validate_origins lib)) (\<lambda>cors_origins.
     Option.bind (list_field env ''CORS_METHODS''
        [''GET'', ''POST'', ''PUT'', ''DELETE'', ''PATCH'', ''HEAD'', ''OPTIONS''] 1 7 validate_methods) (\<lambda>cors_methods.
     Option.bind (list_field env ''CORS_ALLOWED_HEADERS''
        [''content-type'', ''authorization'', ''x-requested-with'', ''idempotency-key''] 0 100 validate_headers) (\<lambda>cors_allowed_headers.
     Option.bind (list_field env ''CORS_EXPOSED_HEADERS'' [''authorization'', ''set-cookie''] 0 100 validate_headers) (\<lambda>cors_exposed_headers.
     Option.bind (field env ''CORS_CREDENTIALS'' (Some True) strict_boolean) (\<lambda>cors_credentials.
     Option.bind (int_field env ''CORS_MAX_AGE_SECONDS'' 86400 0 86400) (\<lambda>cors_max_age_seconds.
     Option.bind (list_field env ''TRUST_PROXY'' [] 0 100 validate_proxies) (\<lambda>trust_proxy.
     Option.bind (int_field env ''RATE_LIMIT_WINDOW_MS'' DEFAULT_WINDOW_MS 1 86400000) (\<lambda>rate_limit_window_ms.
     Option.bind (int_field env ''RATE_LIMIT_MAX'' DEFAULT_MAX_REQUESTS 1 10000) (\<lambda>rate_limit_max.
     Option.bind (int_field env ''RATE_LIMIT_MAX_CLIENTS'' DEFAULT_MAX_CLIENTS 1 100000) (\<lambda>rate_limit_max_clients.
     Option.bind (int_field env ''IDEMPOTENCY_MAX_RESPONSE_BYTES'' 65536 1 65536) (\<lambda>idempotency_max_response_bytes.
     Option.bind (int_field env ''IDEMPOTENCY_CLEANUP_BATCH_SIZE'' 100 1 1000) (\<lambda>idempotency_cleanup_batch_size.
     Option.bind (int_field env ''IDEMPOTENCY_CLEANUP_MAX_BATCHES'' 10 1 100) (\<lambda>idempotency_cleanup_max_batches.
     Option.bind (int_field env ''REQUEST_TIMEOUT_MS'' 10000 1 2147483647) (\<lambda>request_timeout_ms.
     Option.bind (int_field env ''HTTP_DRAIN_TIMEOUT_MS'' 25000 1 2147483647) (\<lambda>http_drain_timeout_ms.
     Option.bind (int_field env ''SHUTDOWN_TIMEOUT_MS'' 30000 1 2147483647) (\<lambda>shutdown_timeout_ms.
     Option.bind (int_field env ''REQUEST_FIRST_BODY_TIMEOUT_MS'' 5000 1 2147483647) (\<lambda>request_first_body_timeout_ms.
     Option.bind (int_field env ''REQUEST_CHUNK_TIMEOUT_MS'' 2000 1 2147483647) (\<lambda>request_chunk_timeout_ms.
     Option.bind (int_field env ''HTTP_MAX_BODY_BYTES'' 1048576 1 1073741824) (\<lambda>http_max_body_bytes.
     Option.bind (int_field env ''HTTP_MAX_HEADER_COUNT'' 100 1 10000) (\<lambda>http_max_header_count.
     Option.bind (int_field env ''HTTP_MAX_SINGLE_HEADER_BYTES'' 4096 1 1048576) (\<lambda>http_max_single_header_bytes.
     Option.bind (int_field env ''HTTP_MAX_TOTAL_HEADER_BYTES'' 8192 1 16777216) (\<lambda>http_max_total_header_bytes.
     Option.bind (list_field env ''HTTP_ALLOWED_METHODS''
        [''GET'', ''POST'', ''PUT'', ''PATCH'', ''DELETE'', ''HEAD'', ''OPTIONS''] 1 7 validate_methods) (\<lambda>http_allowed_methods.
     Option.bind (list_field env ''HTTP_ALLOWED_CONTENT_TYPES'' [''application/json'', ''multipart/form-data''] 1 100
        validate_content_types) (\<lambda>http_allowed_content_types.
     Some \<lparr>APP_NAME = app_name, APP_VERSION = app_version, ENV = mode, LOG_LEVEL = log_level,
       HOST = host, PORT = port, API_PUBLISHED_PORT = api_published_port, MYSQL_PUBLISHED_PORT =
       mysql_published_port, DATABASE_URL = database_url, DB_POOL_CONNECTION_LIMIT =
       db_pool_connection_limit, DB_POOL_QUEUE_LIMIT = db_pool_queue_limit,
       DB_POOL_ACQUIRE_TIMEOUT_MS = db_pool_acquire_timeout_ms, DB_CONNECT_TIMEOUT_MS =
       db_connect_timeout_ms, DB_READINESS_TIMEOUT_MS = db_readiness_timeout_ms,
       DB_READINESS_CACHE_MS = db_readiness_cache_ms, DB_MIGRATION_CHECK_TIMEOUT_MS =
       db_migration_check_timeout_ms, DB_SSL = db_ssl, DB_SSL_CA_FILE = db_ssl_ca_file, TIMEZONE =
       timezone, DOCS_ENABLED = docs_enabled, DIAGNOSTICS_ENABLED = diagnostics_enabled,
       METRICS_ENABLED = metrics_enabled, CORS_ORIGINS = cors_origins, CORS_METHODS = cors_methods,
       CORS_ALLOWED_HEADERS = cors_allowed_headers, CORS_EXPOSED_HEADERS = cors_exposed_headers,
       CORS_CREDENTIALS = cors_credentials, CORS_MAX_AGE_SECONDS = cors_max_age_seconds, TRUST_PROXY
       = trust_proxy, RATE_LIMIT_WINDOW_MS = rate_limit_window_ms, RATE_LIMIT_MAX = rate_limit_max,
       RATE_LIMIT_MAX_CLIENTS = rate_limit_max_clients, IDEMPOTENCY_MAX_RESPONSE_BYTES =
       idempotency_max_response_bytes, IDEMPOTENCY_CLEANUP_BATCH_SIZE =
       idempotency_cleanup_batch_size, IDEMPOTENCY_CLEANUP_MAX_BATCHES =
       idempotency_cleanup_max_batches, REQUEST_TIMEOUT_MS = request_timeout_ms,
       HTTP_DRAIN_TIMEOUT_MS = http_drain_timeout_ms, SHUTDOWN_TIMEOUT_MS = shutdown_timeout_ms,
       REQUEST_FIRST_BODY_TIMEOUT_MS = request_first_body_timeout_ms, REQUEST_CHUNK_TIMEOUT_MS =
       request_chunk_timeout_ms, HTTP_MAX_BODY_BYTES = http_max_body_bytes, HTTP_MAX_HEADER_COUNT =
       http_max_header_count, HTTP_MAX_SINGLE_HEADER_BYTES = http_max_single_header_bytes,
       HTTP_MAX_TOTAL_HEADER_BYTES = http_max_total_header_bytes, HTTP_ALLOWED_METHODS =
       http_allowed_methods, HTTP_ALLOWED_CONTENT_TYPES =
       http_allowed_content_types\<rparr>))))))))))))))))))))))))))))))))))))))))))))))"

subsection \<open>Relationships and loading\<close>

definition supported_url :: "libraries \<Rightarrow> string \<Rightarrow> bool" where
  "supported_url lib u =
     (case make_url lib u of
        None \<Rightarrow> False
      | Some (driver, query) \<Rightarrow> driver = ''mysql+asyncmy'' \<and> list_all (\<lambda>k. k = ''charset'') query)"

definition validate_http_relationships :: "libraries \<Rightarrow> Settings \<Rightarrow> unit result" where
  "validate_http_relationships lib s =
     bindR (guardR (IDEMPOTENCY_CLEANUP_BATCH_SIZE s * IDEMPOTENCY_CLEANUP_MAX_BATCHES s \<le> 10000)
       (ValueError ''Idempotency cleanup must not exceed 10000 rows per sweep'')) (\<lambda>_.
     bindR (guardR (supported_url lib (DATABASE_URL s))
       (ValueError ''DATABASE_URL must use mysql+asyncmy; only the charset URL option is supported'')) (\<lambda>_.
     bindR (guardR (HTTP_DRAIN_TIMEOUT_MS s < SHUTDOWN_TIMEOUT_MS s)
       (ValueError ''HTTP_DRAIN_TIMEOUT_MS must be less than SHUTDOWN_TIMEOUT_MS'')) (\<lambda>_.
     bindR (guardR (case DB_SSL_CA_FILE s of None \<Rightarrow> True | Some f \<Rightarrow> DB_SSL s \<and> py_strip f \<noteq> [])
       (ValueError ''DB_SSL_CA_FILE requires DB_SSL=true and a non-empty path'')) (\<lambda>_.
     bindR (guardR (DB_SSL s \<longrightarrow> tls_ok lib (DB_SSL_CA_FILE s))
       (ValueError ''Invalid database TLS configuration or CA certificates'')) (\<lambda>_.
     bindR (guardR (HTTP_MAX_SINGLE_HEADER_BYTES s \<le> HTTP_MAX_TOTAL_HEADER_BYTES s)
       (ValueError ''HTTP_MAX_SINGLE_HEADER_BYTES must not exceed HTTP_MAX_TOTAL_HEADER_BYTES'')) (\<lambda>_.
     bindR (guardR (max (REQUEST_FIRST_BODY_TIMEOUT_MS s) (REQUEST_CHUNK_TIMEOUT_MS s) \<le> REQUEST_TIMEOUT_MS s)
       (ValueError ''body wait deadlines must not exceed REQUEST_TIMEOUT_MS'')) (\<lambda>_.
     bindR (guardR (set (CORS_METHODS s) \<subseteq> set (HTTP_ALLOWED_METHODS s))
       (ValueError ''CORS_METHODS must be a subset of HTTP_ALLOWED_METHODS'')) (\<lambda>_.
     bindR (new_policy (RATE_LIMIT_WINDOW_MS s) (RATE_LIMIT_MAX s) (RATE_LIMIT_MAX_CLIENTS s)) (\<lambda>_.
     Inr ())))))))))"

text \<open>Construction of \<^verbatim>\<open>Settings\<close>: the relationships are checked once every field is valid.\<close>

definition new_settings :: "libraries \<Rightarrow> environ \<Rightarrow> Settings option" where
  "new_settings lib env =
     Option.bind (validate_fields lib env)
       (\<lambda>s. case validate_http_relationships lib s of Inl e \<Rightarrow> None | Inr _ \<Rightarrow> Some s)"

text \<open>The process environment takes precedence over the file.\<close>

definition merged :: "environ \<Rightarrow> environ \<Rightarrow> environ" where
  "merged file process = (\<lambda>k. case process k of Some v \<Rightarrow> Some v | None \<Rightarrow> file k)"

definition load_settings :: "libraries \<Rightarrow> environ \<Rightarrow> environ \<Rightarrow> Settings option" where
  "load_settings lib file process =
     (if process ''QUICKAPI_TEST_RUN'' = Some ''true'' \<and> process ''ENV'' = Some ''test''
      then new_settings lib process
      else new_settings lib (merged file process))"

subsection \<open>The report of a failed start\<close>

text \<open>
  The output of \<^verbatim>\<open>print_env_error_and_exit\<close> for the locations of the errors. In production it is
  one JSON line, whose rendering by \<^verbatim>\<open>json.dumps\<close> is left to the argument; otherwise a list.
  Neither contains a configured value.
\<close>

record report =
  report_time :: string
  levelLabel :: string
  report_msg :: string
  report_fields :: "string list"

definition location_names :: "string list list \<Rightarrow> string list" where
  "location_names locs = map (\<lambda>loc. let s = py_join ''.'' loc in if s = [] then ''configuration'' else s) locs"

definition report_mode :: "environ \<Rightarrow> environ \<Rightarrow> string option" where
  "report_mode file process = (case process ''ENV'' of Some m \<Rightarrow> Some m | None \<Rightarrow> file ''ENV'')"

definition print_env_error_and_exit ::
  "(report \<Rightarrow> string) \<Rightarrow> string \<Rightarrow> environ \<Rightarrow> environ \<Rightarrow> string list list \<Rightarrow> string list \<times> int" where
  "print_env_error_and_exit dumps now file process locs =
     (let names = location_names locs; esc = (\<lambda>c. CHR 0x1B # c) in
      if report_mode file process = Some ''production'' then
        ([dumps \<lparr>report_time = now, levelLabel = ''critical'', report_msg = ''Environment validation failed.'',
            report_fields = names\<rparr>], 1)
      else
        (let red = esc ''[91m''; reset = esc ''[0m''; yellow = esc ''[93m''; dark_green = esc ''[2m'' @ esc ''[32m'';
             width = Max (set (map py_len names)) in
         ([[CHR 0x0A] @ red @ ''Environment validation failed! ('' @ show_nat (length locs) @ '' issues)'' @ reset @ [CHR 0x0A]] @
          map (\<lambda>n. ''  - '' @ yellow @ ljust width n @ reset @ ''  - Invalid or missing configuration value.'') names @
          [[CHR 0x0A] @ dark_green @ ''Fix the fields above and restart the application...'' @ reset @ [CHR 0x0A]], 1)))"

subsection \<open>Lemmas\<close>

lemma strict_integer_Some: "strict_integer lo hi v = Some n \<Longrightarrow> lo \<le> n \<and> n \<le> hi"
  by (auto simp: strict_integer_def Let_def split: if_splits)

lemma int_field_Some: "int_field env nm d lo hi = Some n \<Longrightarrow> lo \<le> n \<and> n \<le> hi"
  by (auto simp: int_field_def field_def dest: strict_integer_Some split: option.splits if_splits)

lemma validate_methods_Some: "validate_methods vs = Some ws \<Longrightarrow> ws = vs \<and> set ws \<subseteq> set HTTP_METHODS"
  by (auto simp: validate_methods_def list_ex_iff split: if_splits)

lemma validate_headers_Some:
  "validate_headers vs = Some ws \<Longrightarrow>
     distinct ws \<and> (\<forall>w \<in> set ws. header_name w \<and> w \<notin> set FORBIDDEN_HEADERS \<and> w \<noteq> ''connection'')"
proof -
  assume h: "validate_headers vs = Some ws"
  have ws: "ws = fromkeys (map py_lower vs)" using h by (simp add: validate_headers_def Let_def split: if_splits)
  have "\<not> list_ex (\<lambda>v. \<not> header_name v \<or> v \<in> set FORBIDDEN_HEADERS \<or> v = ''connection'') ws"
    unfolding ws using h by (simp add: validate_headers_def Let_def split: if_splits)
  then show ?thesis unfolding list_ex_iff using ws distinct_fromkeys by blast
qed

lemma validate_content_types_Some:
  "validate_content_types vs = Some ws \<Longrightarrow> distinct ws \<and> (\<forall>w \<in> set ws. exact_media_type w)"
  unfolding validate_content_types_def Let_def by (auto simp: list_ex_iff split: if_splits)

lemma networks_Some:
  "networks vs = Some ws \<Longrightarrow> \<forall>w \<in> set ws. \<exists>v net. proxy_network v = Inr net \<and> w = show_network net"
proof (induction vs arbitrary: ws)
  case (Cons v vs)
  then obtain net rest where "proxy_network v = Inr net" "networks vs = Some rest" "ws = show_network net # rest"
    by (auto split: sum.splits option.splits)
  then show ?case using Cons.IH by auto
qed simp

lemma list_field_Some:
  "list_field env nm d lo hi f = Some ws \<Longrightarrow> \<exists>vs. lo \<le> length vs \<and> length vs \<le> hi \<and> f vs = Some ws"
  by (auto simp: list_field_def bind_eq_Some_conv split: if_splits)

text \<open>The fields of validated settings are the validated fields.\<close>

lemma validate_fields_int:
  "validate_fields lib env = Some s \<Longrightarrow>
    int_field env ''DB_POOL_CONNECTION_LIMIT'' 10 1 1000 = Some (DB_POOL_CONNECTION_LIMIT s) \<and>
    int_field env ''DB_POOL_QUEUE_LIMIT'' 50 0 10000 = Some (DB_POOL_QUEUE_LIMIT s) \<and>
    int_field env ''IDEMPOTENCY_MAX_RESPONSE_BYTES'' 65536 1 65536 = Some (IDEMPOTENCY_MAX_RESPONSE_BYTES s) \<and>
    int_field env ''IDEMPOTENCY_CLEANUP_BATCH_SIZE'' 100 1 1000 = Some (IDEMPOTENCY_CLEANUP_BATCH_SIZE s) \<and>
    int_field env ''IDEMPOTENCY_CLEANUP_MAX_BATCHES'' 10 1 100 = Some (IDEMPOTENCY_CLEANUP_MAX_BATCHES s) \<and>
    int_field env ''REQUEST_FIRST_BODY_TIMEOUT_MS'' 5000 1 2147483647 = Some (REQUEST_FIRST_BODY_TIMEOUT_MS s) \<and>
    int_field env ''REQUEST_CHUNK_TIMEOUT_MS'' 2000 1 2147483647 = Some (REQUEST_CHUNK_TIMEOUT_MS s) \<and>
    int_field env ''HTTP_DRAIN_TIMEOUT_MS'' 25000 1 2147483647 = Some (HTTP_DRAIN_TIMEOUT_MS s) \<and>
    int_field env ''HTTP_MAX_BODY_BYTES'' 1048576 1 1073741824 = Some (HTTP_MAX_BODY_BYTES s) \<and>
    int_field env ''HTTP_MAX_HEADER_COUNT'' 100 1 10000 = Some (HTTP_MAX_HEADER_COUNT s) \<and>
    int_field env ''HTTP_MAX_SINGLE_HEADER_BYTES'' 4096 1 1048576 = Some (HTTP_MAX_SINGLE_HEADER_BYTES s)"
  unfolding validate_fields_def bind_eq_Some_conv by clarsimp

lemma validate_fields_list:
  "validate_fields lib env = Some s \<Longrightarrow>
    list_field env ''CORS_ORIGINS'' [''http://localhost:3000''] 1 100 (validate_origins lib) = Some (CORS_ORIGINS s) \<and>
    list_field env ''CORS_ALLOWED_HEADERS''
      [''content-type'', ''authorization'', ''x-requested-with'', ''idempotency-key''] 0 100 validate_headers = Some (CORS_ALLOWED_HEADERS s) \<and>
    list_field env ''CORS_EXPOSED_HEADERS'' [''authorization'', ''set-cookie''] 0 100 validate_headers = Some (CORS_EXPOSED_HEADERS s) \<and>
    list_field env ''TRUST_PROXY'' [] 0 100 validate_proxies = Some (TRUST_PROXY s) \<and>
    list_field env ''HTTP_ALLOWED_METHODS''
      [''GET'', ''POST'', ''PUT'', ''PATCH'', ''DELETE'', ''HEAD'', ''OPTIONS''] 1 7 validate_methods = Some (HTTP_ALLOWED_METHODS s) \<and>
    list_field env ''HTTP_ALLOWED_CONTENT_TYPES'' [''application/json'', ''multipart/form-data''] 1 100 validate_content_types = Some (HTTP_ALLOWED_CONTENT_TYPES s)"
  unfolding validate_fields_def bind_eq_Some_conv by clarsimp

lemma validate_fields_switch:
  "validate_fields lib env = Some s \<Longrightarrow>
    field env ''DOCS_ENABLED'' (Some (operational_default (ENV s))) strict_boolean = Some (DOCS_ENABLED s) \<and>
    field env ''DIAGNOSTICS_ENABLED'' (Some (operational_default (ENV s))) strict_boolean = Some (DIAGNOSTICS_ENABLED s) \<and>
    field env ''METRICS_ENABLED'' (Some (operational_default (ENV s))) strict_boolean = Some (METRICS_ENABLED s)"
  unfolding validate_fields_def bind_eq_Some_conv by clarsimp

lemma validate_fields_mode:
  "validate_fields lib env = Some s \<Longrightarrow>
    text_field env ''ENV'' None (\<lambda>v. v \<in> {''development'', ''production'', ''test''}) = Some (ENV s)"
  unfolding validate_fields_def bind_eq_Some_conv by clarsimp

lemma load_settings_Some:
  assumes "load_settings lib file process = Some s"
  obtains env where "validate_fields lib env = Some s" "validate_http_relationships lib s = Inr ()"
    "env = merged file process \<or> env = process \<and> process ''ENV'' = Some ''test''"
proof -
  obtain env where env: "new_settings lib env = Some s"
      "env = merged file process \<or> env = process \<and> process ''ENV'' = Some ''test''"
    using assms by (auto simp: load_settings_def split: if_splits)
  from env(1) obtain s' where s': "validate_fields lib env = Some s'"
      "(case validate_http_relationships lib s' of Inl e \<Rightarrow> None | Inr _ \<Rightarrow> Some s') = Some s"
    by (auto simp: new_settings_def bind_eq_Some_conv)
  then have "validate_http_relationships lib s' = Inr () \<and> s' = s"
    by (cases "validate_http_relationships lib s'") simp_all
  then show thesis using s'(1) env(2) that by blast
qed

lemma relationships_Inr:
  "validate_http_relationships lib s = Inr () \<longleftrightarrow>
     IDEMPOTENCY_CLEANUP_BATCH_SIZE s * IDEMPOTENCY_CLEANUP_MAX_BATCHES s \<le> 10000 \<and>
     supported_url lib (DATABASE_URL s) \<and>
     HTTP_DRAIN_TIMEOUT_MS s < SHUTDOWN_TIMEOUT_MS s \<and>
     (case DB_SSL_CA_FILE s of None \<Rightarrow> True | Some f \<Rightarrow> DB_SSL s \<and> py_strip f \<noteq> []) \<and>
     (DB_SSL s \<longrightarrow> tls_ok lib (DB_SSL_CA_FILE s)) \<and>
     HTTP_MAX_SINGLE_HEADER_BYTES s \<le> HTTP_MAX_TOTAL_HEADER_BYTES s \<and>
     max (REQUEST_FIRST_BODY_TIMEOUT_MS s) (REQUEST_CHUNK_TIMEOUT_MS s) \<le> REQUEST_TIMEOUT_MS s \<and>
     set (CORS_METHODS s) \<subseteq> set (HTTP_ALLOWED_METHODS s) \<and>
     (\<exists>p. new_policy (RATE_LIMIT_WINDOW_MS s) (RATE_LIMIT_MAX s) (RATE_LIMIT_MAX_CLIENTS s) = Inr p)"
  unfolding validate_http_relationships_def bindR_eq_Inr guardR_eq_Inr by blast

text \<open>The parts of the contract of loaded settings, by the components that rely on them.\<close>

definition limits_ok :: "Settings \<Rightarrow> bool" where
  "limits_ok s \<longleftrightarrow>
     1 \<le> HTTP_MAX_BODY_BYTES s \<and> 1 \<le> HTTP_MAX_HEADER_COUNT s \<and>
     1 \<le> HTTP_MAX_SINGLE_HEADER_BYTES s \<and> HTTP_MAX_SINGLE_HEADER_BYTES s \<le> HTTP_MAX_TOTAL_HEADER_BYTES s \<and>
     1 \<le> DB_POOL_CONNECTION_LIMIT s \<and> 0 \<le> DB_POOL_QUEUE_LIMIT s \<and>
     1 \<le> IDEMPOTENCY_MAX_RESPONSE_BYTES s \<and> IDEMPOTENCY_MAX_RESPONSE_BYTES s \<le> 65536 \<and>
     1 \<le> IDEMPOTENCY_CLEANUP_BATCH_SIZE s \<and> IDEMPOTENCY_CLEANUP_BATCH_SIZE s \<le> 1000 \<and>
     IDEMPOTENCY_CLEANUP_BATCH_SIZE s * IDEMPOTENCY_CLEANUP_MAX_BATCHES s \<le> 10000"

definition deadlines_ok :: "Settings \<Rightarrow> bool" where
  "deadlines_ok s \<longleftrightarrow>
     1 \<le> REQUEST_FIRST_BODY_TIMEOUT_MS s \<and> REQUEST_FIRST_BODY_TIMEOUT_MS s \<le> REQUEST_TIMEOUT_MS s \<and>
     1 \<le> REQUEST_CHUNK_TIMEOUT_MS s \<and> REQUEST_CHUNK_TIMEOUT_MS s \<le> REQUEST_TIMEOUT_MS s \<and>
     1 \<le> HTTP_DRAIN_TIMEOUT_MS s \<and> HTTP_DRAIN_TIMEOUT_MS s < SHUTDOWN_TIMEOUT_MS s"

definition http_policy_ok :: "libraries \<Rightarrow> Settings \<Rightarrow> bool" where
  "http_policy_ok lib s \<longleftrightarrow>
     CORS_ORIGINS s \<noteq> [] \<and> list_all (exact_origin lib) (CORS_ORIGINS s) \<and>
     set (CORS_METHODS s) \<subseteq> set (HTTP_ALLOWED_METHODS s) \<and> set (HTTP_ALLOWED_METHODS s) \<subseteq> set HTTP_METHODS \<and>
     list_all (\<lambda>h. header_name h \<and> h \<notin> set FORBIDDEN_HEADERS) (CORS_ALLOWED_HEADERS s @ CORS_EXPOSED_HEADERS s) \<and>
     list_all exact_media_type (HTTP_ALLOWED_CONTENT_TYPES s)"

lemma limits_validated:
  assumes "validate_fields lib env = Some s" "validate_http_relationships lib s = Inr ()"
  shows "limits_ok s" and "deadlines_ok s"
  using validate_fields_int [OF assms(1)] assms(2) unfolding relationships_Inr limits_ok_def deadlines_ok_def
  by (auto dest!: int_field_Some)

lemma http_policy_validated:
  assumes "validate_fields lib env = Some s" "validate_http_relationships lib s = Inr ()"
  shows "http_policy_ok lib s"
proof -
  note f = validate_fields_list [OF assms(1)]
  note f1 = f [THEN conjunct1, THEN list_field_Some]
  note f2 = f [THEN conjunct2, THEN conjunct1, THEN list_field_Some]
  note f3 = f [THEN conjunct2, THEN conjunct2, THEN conjunct1, THEN list_field_Some]
  note f5 = f [THEN conjunct2, THEN conjunct2, THEN conjunct2, THEN conjunct2, THEN conjunct1, THEN list_field_Some]
  note f6 = f [THEN conjunct2, THEN conjunct2, THEN conjunct2, THEN conjunct2, THEN conjunct2, THEN list_field_Some]
  have o: "CORS_ORIGINS s \<noteq> []" "list_all (exact_origin lib) (CORS_ORIGINS s)"
    using f1 by (auto simp: validate_origins_def split: if_splits)
  have m: "set (HTTP_ALLOWED_METHODS s) \<subseteq> set HTTP_METHODS" using f5 validate_methods_Some by blast
  have h: "list_all (\<lambda>h. header_name h \<and> h \<notin> set FORBIDDEN_HEADERS) (CORS_ALLOWED_HEADERS s @ CORS_EXPOSED_HEADERS s)"
    using f2 f3 validate_headers_Some unfolding list_all_iff set_append by blast
  have t: "list_all exact_media_type (HTTP_ALLOWED_CONTENT_TYPES s)"
    using f6 validate_content_types_Some unfolding list_all_iff by blast
  show ?thesis using o m h t assms(2) by (simp add: http_policy_ok_def relationships_Inr)
qed

lemma trusted_validated:
  assumes "validate_fields lib env = Some s"
  shows "\<forall>t \<in> set (TRUST_PROXY s). \<exists>v net. proxy_network v = Inr net \<and> t = show_network net"
proof -
  note f = validate_fields_list [OF assms]
  obtain vs where "validate_proxies vs = Some (TRUST_PROXY s)"
    using f [THEN conjunct2, THEN conjunct2, THEN conjunct2, THEN conjunct1, THEN list_field_Some] by blast
  then obtain ws where ws: "networks vs = Some ws" "TRUST_PROXY s = fromkeys ws"
    by (auto simp: validate_proxies_def)
  then show ?thesis using networks_Some [OF ws(1)] by simp
qed

lemma list_entries_Some:
  "list_entries es items = Some ws \<Longrightarrow> distinct items \<Longrightarrow>
     distinct ws \<and> set ws = set items \<union> py_strip ` set es \<and> [] \<notin> py_strip ` set es"
  by (induction es arbitrary: items) (auto split: if_splits)

lemma list_entries_clean:
  assumes "distinct (items @ ws)" "\<forall>w \<in> set ws. py_strip w = w \<and> w \<noteq> []"
  shows "list_entries ws items = Some (items @ ws)"
  using assms by (induction ws arbitrary: items) auto

lemma strip_join_not_Nil:
  assumes "w \<in> set ws" "w \<noteq> []" "py_strip w = w"
  shows "py_strip (py_join sep ws) \<noteq> []"
proof -
  have "\<not> list_all py_isspace w"
  proof
    assume "list_all py_isspace w"
    then have "py_strip w = []" by (auto simp: list_all_iff py_strip_def dest: set_dropWhileD)
    then show False using assms(2,3) by simp
  qed
  moreover have "set w \<subseteq> set (py_join sep ws)" using assms(1) by (induction sep ws rule: py_join.induct) auto
  ultimately obtain c where c: "c \<in> set (py_join sep ws)" "\<not> py_isspace c" by (auto simp: list_all_iff)
  then have "c \<in> set (dropWhile py_isspace (py_join sep ws))" for x
    by (metis (no_types, lifting) Un_iff set_append set_takeWhileD takeWhile_dropWhile_id)
  then show ?thesis using c(2) by (auto simp: py_strip_def)
qed

text \<open>In production the operational routes are enabled only by an explicit \<open>true\<close>.\<close>

lemma production_flags:
  assumes "load_settings lib file process = Some s" "ENV s = ''production''"
  shows "(DOCS_ENABLED s \<longleftrightarrow> merged file process ''DOCS_ENABLED'' = Some ''true'') \<and>
    (DIAGNOSTICS_ENABLED s \<longleftrightarrow> merged file process ''DIAGNOSTICS_ENABLED'' = Some ''true'') \<and>
    (METRICS_ENABLED s \<longleftrightarrow> merged file process ''METRICS_ENABLED'' = Some ''true'')"
proof -
  obtain env where v: "validate_fields lib env = Some s"
      "env = merged file process \<or> env = process \<and> process ''ENV'' = Some ''test''"
    using load_settings_Some [OF assms(1)] by blast
  have "env ''ENV'' = Some (ENV s)"
    using validate_fields_mode [OF v(1)] by (auto simp: text_field_def field_def bind_eq_Some_conv split: option.splits if_splits)
  then have env: "env = merged file process" using v(2) assms(2) by auto
  have sw: "field env nm (Some False) strict_boolean = Some b \<Longrightarrow> b \<longleftrightarrow> env nm = Some ''true''" for nm b
    by (auto simp: field_def strict_boolean_def split: option.splits if_splits)
  show ?thesis
    using validate_fields_switch [OF v(1)] sw unfolding env assms(2) operational_default_def by simp
qed

subsection \<open>Properties\<close>

text \<open>
  Property C25. Settings that load satisfy what the other components assume of them: the rate
  limit policy is valid, the size and batch limits and the deadlines are in order, the methods,
  headers, media types and origins are of the supported form, and every trusted proxy is the
  rendering of a parsed network.
\<close>

theorem settings_sound:
  assumes "load_settings lib file process = Some s"
  shows "limits_ok s \<and> deadlines_ok s \<and> http_policy_ok lib s \<and>
    (\<exists>p. new_policy (RATE_LIMIT_WINDOW_MS s) (RATE_LIMIT_MAX s) (RATE_LIMIT_MAX_CLIENTS s) = Inr p \<and> valid_policy p) \<and>
    list_all (\<lambda>t. \<exists>v net. proxy_network v = Inr net \<and> t = show_network net) (TRUST_PROXY s)"
proof -
  obtain env where v: "validate_fields lib env = Some s" "validate_http_relationships lib s = Inr ()"
    using load_settings_Some [OF assms] by blast
  then show ?thesis
    using limits_validated [OF v] http_policy_validated [OF v] trusted_validated [OF v(1)] new_policy_valid
    unfolding relationships_Inr list_all_iff by blast
qed

text \<open>
  List settings survive a round trip: joining a parsed list with commas and parsing it
  again gives the same list.
\<close>

lemma list_setting_roundtrip:
  assumes "parse_list v = Some ws"
  shows "parse_list (py_join '','' ws) = Some ws"
proof -
  let ?es = "if py_strip v = [] then [] else py_split (CHR '','') v"
  have ws: "distinct ws" "set ws = py_strip ` set ?es" "[] \<notin> py_strip ` set ?es"
    using list_entries_Some [of ?es "[]" ws] assms by (simp_all only: parse_list_def) auto
  have clean: "\<forall>w \<in> set ws. py_strip w = w \<and> w \<noteq> []"
  proof (intro ballI conjI)
    fix w
    assume "w \<in> set ws"
    then obtain e where "e \<in> set ?es" "w = py_strip e" using ws(2) by blast
    then show "py_strip w = w" "w \<noteq> []" using ws(3) by (simp, metis image_eqI)
  qed
  have nc: "CHR '','' \<notin> set w" if "w \<in> set ws" for w
    using that ws(2) py_split_parts [of _ "CHR '',''" v] set_py_strip by (auto split: if_splits)
  show ?thesis
  proof (cases "ws = []")
    case True
    then show ?thesis by (simp add: parse_list_def py_strip_def)
  next
    case False
    then have "py_strip (py_join '','' ws) \<noteq> []"
      using strip_join_not_Nil [of "hd ws" ws] clean by auto
    moreover have "py_split (CHR '','') (py_join '','' ws) = ws"
      using py_split_join [OF False nc, of "[]"] False by (cases ws) (auto intro!: map_idI)
    ultimately show ?thesis
      using list_entries_clean [of "[]" ws] ws(1) clean by (simp add: parse_list_def)
  qed
qed

definition demo_libraries :: libraries where
  "demo_libraries = \<lparr>any_http_url = (\<lambda>v. Some \<lparr>url_str = v @ ''/'', url_username = None, url_password = None,
       url_path = Some ''/'', url_query = None, url_fragment = None, url_port = None\<rparr>),
     make_url = (\<lambda>v. Some (''mysql+asyncmy'', [])), tls_ok = (\<lambda>f. True), zone_known = (\<lambda>z. True),
     semver = (\<lambda>v. True), lax_int = py_int\<rparr>"

definition demo_environ :: environ where
  "demo_environ = map_of [(''APP_NAME'', ''quick''), (''APP_VERSION'', ''1.0.0''), (''ENV'', ''production''),
     (''PORT'', ''8000''), (''DATABASE_URL'', ''mysql+asyncmy://db/items''), (''METRICS_ENABLED'', ''true''),
     (''TRUST_PROXY'', ''10.0.0.0/8'')]"

definition demo_settings :: Settings where
  "demo_settings = the (load_settings demo_libraries (\<lambda>k. None) demo_environ)"

lemma demo_settings: "load_settings demo_libraries (\<lambda>k. None) demo_environ = Some demo_settings"
proof -
  have "load_settings demo_libraries (\<lambda>k. None) demo_environ \<noteq> None" by code_simp
  then show ?thesis by (simp add: demo_settings_def)
qed

theorem settings_sound_witness: "limits_ok demo_settings \<and> deadlines_ok demo_settings"
  using settings_sound [OF demo_settings] by simp

end
