(* ===== verification/Lifecycle.thy ===== *)
theory Lifecycle
  imports Asgi
begin

text \<open>
  The lifecycle of the application's services (\<^verbatim>\<open>app/common/handlers/lifecycle_handler.py\<close>):
  registration, ordered startup with rollback, readiness, quiescing and ordered shutdown.

  A service is its name; what its hooks do is given by the record \<open>hooks\<close>, read at each call.
  Every call of a start or stop hook that is made is recorded in the trace of the handler.
\<close>

datatype check_outcome = CheckTrue | CheckFalse | CheckTimeout | CheckRaised exn

record hooks =
  start_hook :: "string \<Rightarrow> unit result"
  stop_hook :: "string \<Rightarrow> unit result"
  quiesce_hook :: "string \<Rightarrow> unit result option"
  check_hook :: "string \<Rightarrow> check_outcome"

datatype action = Started string | StopCalled string

record LifecycleHandler =
  check_timeout_seconds :: rat
  services :: "string list"
  service_names :: "string set"
  started_services :: "string list"
  startup_started :: bool
  startup_completed :: bool
  shutdown_started :: bool
  quiescing :: bool
  shutdown_failed :: bool
  trace :: "action list"

definition new_handler :: "rat \<Rightarrow> LifecycleHandler result" where
  "new_handler timeout =
     (if timeout \<le> 0 then Inl (ValueError ''check_timeout_seconds must be greater than zero'')
      else Inr \<lparr>check_timeout_seconds = timeout, services = [], service_names = {}, started_services = [],
        startup_started = False, startup_completed = False, shutdown_started = False, quiescing = False,
        shutdown_failed = False, trace = []\<rparr>)"

subsection \<open>Registration and state\<close>

fun register_loop :: "string list \<Rightarrow> LifecycleHandler \<Rightarrow> LifecycleHandler" where
  "register_loop [] h = h"
| "register_loop (n # ns) h =
     (if n \<in> service_names h then register_loop ns h
      else register_loop ns (h \<lparr>services := services h @ [n], service_names := insert n (service_names h)\<rparr>))"

definition register :: "string list \<Rightarrow> LifecycleHandler \<Rightarrow> LifecycleHandler" where
  "register ns h = register_loop ns h"

definition is_alive :: "LifecycleHandler \<Rightarrow> bool" where
  "is_alive h \<longleftrightarrow> \<not> shutdown_started h"

definition is_ready :: "LifecycleHandler \<Rightarrow> bool" where
  "is_ready h \<longleftrightarrow> startup_completed h \<and> \<not> shutdown_started h \<and> \<not> quiescing h"

text \<open>Quiescing calls the optional hook of every started service; a failure is remembered.\<close>

fun quiesce_loop :: "hooks \<Rightarrow> string list \<Rightarrow> LifecycleHandler \<Rightarrow> unit result \<times> LifecycleHandler" where
  "quiesce_loop hk [] h = (Inr (), h)"
| "quiesce_loop hk (n # ns) h =
     (case quiesce_hook hk n of
        Some (Inl e) \<Rightarrow>
          if is_exception e then quiesce_loop hk ns (h \<lparr>shutdown_failed := True\<rparr>) else (Inl e, h)
      | _ \<Rightarrow> quiesce_loop hk ns h)"

definition quiesce :: "hooks \<Rightarrow> LifecycleHandler \<Rightarrow> unit result \<times> LifecycleHandler" where
  "quiesce hk h = quiesce_loop hk (started_services h) (h \<lparr>quiescing := True\<rparr>)"

subsection \<open>Startup and shutdown\<close>

text \<open>\<^verbatim>\<open>_stop_started_services\<close>: the last started service is popped and stopped first.\<close>

function stop_started_services :: "hooks \<Rightarrow> LifecycleHandler \<Rightarrow> unit result \<times> LifecycleHandler" where
  "stop_started_services hk h =
     (if started_services h = [] then (Inr (), h)
      else
        (let n = last (started_services h);
             h' = h \<lparr>started_services := butlast (started_services h), trace := trace h @ [StopCalled n]\<rparr> in
         case stop_hook hk n of
           Inr _ \<Rightarrow> stop_started_services hk h'
         | Inl e \<Rightarrow>
             if is_exception e then stop_started_services hk (h' \<lparr>shutdown_failed := True\<rparr>)
             else (Inl e, h')))"
  by pat_completeness auto

termination
  by (relation "measure (\<lambda>(hk, h). length (started_services h))") auto

declare stop_started_services.simps [simp del]

fun start_loop :: "hooks \<Rightarrow> string list \<Rightarrow> LifecycleHandler \<Rightarrow> unit result \<times> LifecycleHandler" where
  "start_loop hk [] h = (Inr (), h)"
| "start_loop hk (n # ns) h =
     (case start_hook hk n of
        Inl e \<Rightarrow> (Inl e, h)
      | Inr _ \<Rightarrow> start_loop hk ns
          (h \<lparr>started_services := started_services h @ [n], trace := trace h @ [Started n]\<rparr>))"

definition startup :: "hooks \<Rightarrow> LifecycleHandler \<Rightarrow> unit result \<times> LifecycleHandler" where
  "startup hk h =
     (if startup_started h then (Inr (), h)
      else
        (let h0 = h \<lparr>startup_started := True, quiescing := False, shutdown_failed := False,
                     shutdown_started := False, startup_completed := False, started_services := []\<rparr> in
         case start_loop hk (services h0) h0 of
           (Inr _, h1) \<Rightarrow> (Inr (), h1 \<lparr>startup_completed := True\<rparr>)
         | (Inl e, h1) \<Rightarrow>
             if is_exception e then
               (case stop_started_services hk h1 of
                  (Inl e', h2) \<Rightarrow> (Inl e', h2)
                | (Inr _, h2) \<Rightarrow> (Inl e, h2 \<lparr>startup_started := False\<rparr>))
             else (Inl e, h1)))"

definition shutdown :: "hooks \<Rightarrow> LifecycleHandler \<Rightarrow> unit result \<times> LifecycleHandler" where
  "shutdown hk h =
     (if shutdown_started h then (Inr (), h)
      else
        (case quiesce hk (h \<lparr>shutdown_started := True\<rparr>) of
           (Inl e, h1) \<Rightarrow> (Inl e, h1)
         | (Inr _, h1) \<Rightarrow>
             (case stop_started_services hk h1 of
                (Inl e, h2) \<Rightarrow> (Inl e, h2)
              | (Inr _, h2) \<Rightarrow> (Inr (), h2 \<lparr>startup_started := False, startup_completed := False\<rparr>))))"

subsection \<open>Checks\<close>

datatype category = false_return | exception | timeout

record ReadinessCheckResult =
  check_name :: string
  check_status :: string
  response_time_ms :: rat

definition is_up :: "ReadinessCheckResult \<Rightarrow> bool" where
  "is_up r \<longleftrightarrow> check_status r = ''up''"

definition check_category :: "check_outcome \<Rightarrow> category option result" where
  "check_category c =
     (case c of
        CheckTrue \<Rightarrow> Inr None
      | CheckFalse \<Rightarrow> Inr (Some false_return)
      | CheckTimeout \<Rightarrow> Inr (Some timeout)
      | CheckRaised e \<Rightarrow>
          if e = TimeoutError then Inr (Some timeout)
          else if is_exception e then Inr (Some exception) else Inl e)"

text \<open>
  One check from \<open>t0\<close> to \<open>t1\<close> on the clock. The second component is the warning logged for a
  failed check: the service and the category, never the exception.
\<close>

definition check_one :: "hooks \<Rightarrow> (string \<Rightarrow> time \<times> time) \<Rightarrow> string \<Rightarrow> (ReadinessCheckResult \<times> (string \<times> category) option) result" where
  "check_one hk clock n =
     bindR (check_category (check_hook hk n)) (\<lambda>cat.
       Inr (\<lparr>check_name = n, check_status = (if cat = None then ''up'' else ''down''),
             response_time_ms = max 0 ((snd (clock n) - fst (clock n)) * 1000)\<rparr>,
            map_option (Pair n) cat))"

fun gather :: "('a \<Rightarrow> 'b result) \<Rightarrow> 'a list \<Rightarrow> 'b list result" where
  "gather f [] = Inr []"
| "gather f (x # xs) = bindR (f x) (\<lambda>y. bindR (gather f xs) (\<lambda>ys. Inr (y # ys)))"

definition check_services :: "hooks \<Rightarrow> (string \<Rightarrow> time \<times> time) \<Rightarrow> LifecycleHandler \<Rightarrow> ReadinessCheckResult list result" where
  "check_services hk clock h = bindR (gather (check_one hk clock) (services h)) (\<lambda>rs. Inr (map fst rs))"

definition check_service :: "hooks \<Rightarrow> (string \<Rightarrow> time \<times> time) \<Rightarrow> string \<Rightarrow> LifecycleHandler \<Rightarrow> ReadinessCheckResult option result" where
  "check_service hk clock n h =
     (case find (\<lambda>s. s = n) (services h) of
        None \<Rightarrow> Inr None
      | Some s \<Rightarrow> bindR (check_one hk clock s) (\<lambda>r. Inr (Some (fst r))))"

definition are_all_services_healthy :: "hooks \<Rightarrow> (string \<Rightarrow> time \<times> time) \<Rightarrow> LifecycleHandler \<Rightarrow> bool result" where
  "are_all_services_healthy hk clock h = bindR (check_services hk clock h) (\<lambda>rs. Inr (list_all is_up rs))"

text \<open>The event loop lag for the measured (start, end) pairs of the sleeps.\<close>

definition get_event_loop_lag :: "rat \<Rightarrow> (time \<times> time) list \<Rightarrow> rat" where
  "get_event_loop_lag interval samples =
     (let delays = map (\<lambda>(a, b). max 0 ((b - a) - interval)) samples in
      if delays = [] then 0 else fold max delays 0 * 1000)"

subsection \<open>Histories\<close>

text \<open>Replaying a trace on a stack: a stop must hit the service started last.\<close>

fun replay :: "action list \<Rightarrow> string list \<Rightarrow> string list option" where
  "replay [] st = Some st"
| "replay (Started n # as) st = replay as (st @ [n])"
| "replay (StopCalled n # as) st = (if st \<noteq> [] \<and> last st = n then replay as (butlast st) else None)"

lemma replay_append: "replay (as @ bs) st = Option.bind (replay as st) (replay bs)"
  by (induction as st rule: replay.induct) auto

definition lifo :: "LifecycleHandler \<Rightarrow> bool" where
  "lifo h \<longleftrightarrow> replay (trace h) [] = Some (started_services h)"

definition handler_ok :: "LifecycleHandler \<Rightarrow> bool" where
  "handler_ok h \<longleftrightarrow> lifo h \<and> (startup_started h \<or> started_services h = []) \<and>
     distinct (services h) \<and> service_names h = set (services h) \<and>
     (startup_completed h \<and> \<not> shutdown_started h \<longrightarrow> (\<exists>later. services h = started_services h @ later))"

datatype op = Register "string list" | Startup hooks | Quiesce hooks | Shutdown hooks

fun apply_op :: "op \<Rightarrow> LifecycleHandler \<Rightarrow> LifecycleHandler" where
  "apply_op (Register ns) h = register ns h"
| "apply_op (Startup hk) h = snd (startup hk h)"
| "apply_op (Quiesce hk) h = snd (quiesce hk h)"
| "apply_op (Shutdown hk) h = snd (shutdown hk h)"

definition run_ops :: "op list \<Rightarrow> LifecycleHandler \<Rightarrow> LifecycleHandler" where
  "run_ops ops h = fold apply_op ops h"

lemma register_keeps:
  "started_services (register_loop ns h) = started_services h \<and> trace (register_loop ns h) = trace h \<and>
   startup_started (register_loop ns h) = startup_started h \<and> startup_completed (register_loop ns h) = startup_completed h \<and>
   shutdown_started (register_loop ns h) = shutdown_started h \<and> quiescing (register_loop ns h) = quiescing h \<and>
   (\<exists>more. services (register_loop ns h) = services h @ more)"
  by (induction ns h rule: register_loop.induct) auto

lemma register_distinct:
  "distinct (services h) \<Longrightarrow> service_names h = set (services h) \<Longrightarrow>
   distinct (services (register_loop ns h)) \<and> service_names (register_loop ns h) = set (services (register_loop ns h)) \<and>
   set (services (register_loop ns h)) = set (services h) \<union> set ns"
  by (induction ns h rule: register_loop.induct) auto

lemma quiesce_loop_keeps:
  "\<exists>b. snd (quiesce_loop hk ns h) = h \<lparr>shutdown_failed := b\<rparr>"
proof (induction ns arbitrary: h)
  case Nil
  show ?case by (intro exI [of _ "shutdown_failed h"]) simp
next
  case (Cons n ns)
  show ?case
  proof (cases "\<exists>e. quiesce_hook hk n = Some (Inl e)")
    case True
    then obtain e where e: "quiesce_hook hk n = Some (Inl e)" by blast
    obtain b where "snd (quiesce_loop hk ns (h \<lparr>shutdown_failed := True\<rparr>)) = h \<lparr>shutdown_failed := True\<rparr> \<lparr>shutdown_failed := b\<rparr>"
      using Cons by blast
    then show ?thesis using e by (cases "is_exception e") (auto intro: exI [of _ "shutdown_failed h"])
  next
    case False
    then have "quiesce_loop hk (n # ns) h = quiesce_loop hk ns h"
      by (auto split: option.splits sum.splits)
    then show ?thesis using Cons by simp
  qed
qed

text \<open>The stops made are the reverse of what was started and is no longer; without cancellation all stop.\<close>

lemma stop_started_effect:
  assumes "stop_started_services hk h = (r, h')"
  shows "\<exists>gone b. started_services h = started_services h' @ gone \<and>
    h' = h \<lparr>started_services := started_services h', trace := trace h @ map StopCalled (rev gone), shutdown_failed := b\<rparr> \<and>
    (r = Inr () \<longrightarrow> started_services h' = [])"
  using assms
proof (induction hk h arbitrary: r h' rule: stop_started_services.induct)
  case (1 hk h)
  show ?case
  proof (cases "started_services h = []")
    case True
    then have "r = Inr ()" "h' = h" using "1.prems" by (simp_all add: stop_started_services.simps)
    then show ?thesis using True by (intro exI [of _ "[]"] exI [of _ "shutdown_failed h"]) simp
  next
    case False
    let ?n = "last (started_services h)"
    let ?h1 = "h \<lparr>started_services := butlast (started_services h), trace := trace h @ [StopCalled ?n]\<rparr>"
    have last: "started_services h = butlast (started_services h) @ [?n]" using False by simp
    have more: ?thesis if "\<exists>gone b. butlast (started_services h) = started_services h' @ gone \<and>
        h' = h \<lparr>started_services := started_services h', trace := trace h @ StopCalled ?n # map StopCalled (rev gone), shutdown_failed := b\<rparr> \<and>
        (r = Inr () \<longrightarrow> started_services h' = [])"
    proof -
      from that obtain gone b where g: "butlast (started_services h) = started_services h' @ gone"
        "h' = h \<lparr>started_services := started_services h', trace := trace h @ StopCalled ?n # map StopCalled (rev gone), shutdown_failed := b\<rparr>"
        "r = Inr () \<longrightarrow> started_services h' = []" by blast
      show ?thesis using g last by (intro exI [of _ "gone @ [?n]"] exI [of _ b]) simp
    qed
    show ?thesis
    proof (cases "stop_hook hk ?n")
      case (Inr u)
      then have "stop_started_services hk ?h1 = (r, h')"
        using "1.prems" False by (simp add: stop_started_services.simps [of hk h] Let_def)
      from "1.IH"(2) [OF False refl refl Inr this] show ?thesis by (intro more) simp
    next
      case (Inl e)
      show ?thesis
      proof (cases "is_exception e")
        case True
        then have "stop_started_services hk (?h1 \<lparr>shutdown_failed := True\<rparr>) = (r, h')"
          using "1.prems" False Inl by (simp add: stop_started_services.simps [of hk h] Let_def)
        from "1.IH"(1) [OF False refl refl Inl True this] show ?thesis by (intro more) simp
      next
        case no: False
        then have "r = Inl e" "h' = ?h1"
          using "1.prems" False Inl by (simp_all add: stop_started_services.simps [of hk h] Let_def)
        then show ?thesis by (intro more exI [of _ "[]"] exI [of _ "shutdown_failed h"]) simp
      qed
    qed
  qed
qed

lemma stop_started_cancelled: "stop_started_services hk h = (Inl e, h') \<Longrightarrow> \<not> is_exception e"
proof (induction hk h arbitrary: h' rule: stop_started_services.induct)
  case (1 hk h)
  then show ?case
    by (subst (asm) (3) stop_started_services.simps) (auto simp: Let_def split: if_splits sum.splits)
qed

lemma replay_stops: "replay (map StopCalled (rev gone)) (st @ gone) = Some st"
  by (induction gone rule: rev_induct) (simp_all add: butlast_append)

lemma stop_started_lifo:
  assumes "stop_started_services hk h = (r, h')" "lifo h"
  shows "lifo h'"
proof -
  obtain gone b where g: "started_services h = started_services h' @ gone"
      "h' = h \<lparr>started_services := started_services h', trace := trace h @ map StopCalled (rev gone), shutdown_failed := b\<rparr>"
    using stop_started_effect [OF assms(1)] by blast
  have "trace h' = trace h @ map StopCalled (rev gone)" by (subst g(2)) simp
  then show ?thesis using assms(2) g(1) by (simp add: lifo_def replay_append replay_stops)
qed

lemma start_loop_effect:
  assumes "start_loop hk ns h = (r, h')"
  shows "\<exists>up rest. ns = up @ rest \<and>
    h' = h \<lparr>started_services := started_services h @ up, trace := trace h @ map Started up\<rparr> \<and> (r = Inr () \<longrightarrow> rest = [])"
  using assms
proof (induction ns arbitrary: h)
  case Nil
  then show ?case by simp
next
  case (Cons n ns)
  show ?case
  proof (cases "start_hook hk n")
    case (Inl e)
    then show ?thesis using Cons.prems by (intro exI [of _ "[]"] exI [of _ "n # ns"]) auto
  next
    case (Inr u)
    let ?h1 = "h \<lparr>started_services := started_services h @ [n], trace := trace h @ [Started n]\<rparr>"
    obtain up rest where "ns = up @ rest" "r = Inr () \<longrightarrow> rest = []"
        "h' = ?h1 \<lparr>started_services := started_services ?h1 @ up, trace := trace ?h1 @ map Started up\<rparr>"
      using Cons.IH [of ?h1] Cons.prems Inr by auto
    then show ?thesis by (intro exI [of _ "n # up"] exI [of _ rest]) simp
  qed
qed

lemma replay_starts: "replay (map Started up) st = Some (st @ up)"
  by (induction up arbitrary: st) simp_all

lemma start_loop_lifo: "start_loop hk ns h = (r, h') \<Longrightarrow> lifo h \<Longrightarrow> lifo h'"
  using start_loop_effect [of hk ns h r h'] by (auto simp: lifo_def replay_append replay_starts)

text \<open>
  Startup by its outcome: it was already running; every service started; or it failed at some
  service, and then, unless it was cancelled, everything it had started was stopped again.
\<close>

lemma startup_cases:
  assumes "startup hk h = (r, h')" "\<not> startup_started h"
  obtains (all) "r = Inr ()" "started_services h' = services h" "startup_completed h'" "startup_started h'"
      "trace h' = trace h @ map Started (services h)"
    | (rollback) e up rest where "r = Inl e" "services h = up @ rest" "rest \<noteq> []" "started_services h' = []"
      "\<not> startup_started h'" "\<not> startup_completed h'" "trace h' = trace h @ map Started up @ map StopCalled (rev up)"
    | (cancelled) e where "r = Inl e" "\<not> is_exception e" "startup_started h'" "\<not> startup_completed h'"
proof -
  let ?h0 = "h \<lparr>startup_started := True, quiescing := False, shutdown_failed := False,
    shutdown_started := False, startup_completed := False, started_services := []\<rparr>"
  obtain r1 h1 where l: "start_loop hk (services h) ?h0 = (r1, h1)" by force
  obtain up rest where u: "services h = up @ rest" "r1 = Inr () \<longrightarrow> rest = []"
      "h1 = ?h0 \<lparr>started_services := up, trace := trace h @ map Started up\<rparr>"
    using start_loop_effect [OF l] by auto
  show thesis
  proof (cases r1)
    case (Inr x)
    then show thesis using assms l u by (intro all) (auto simp: startup_def Let_def)
  next
    case (Inl e)
    have rest: "rest \<noteq> []"
    proof
      assume "rest = []"
      have "start_loop hk ns g = (Inl e, g') \<Longrightarrow> length (started_services g') < length (started_services g) + length ns" for ns g g'
        by (induction ns arbitrary: g) (auto split: sum.splits, fastforce)
      from this [OF l [unfolded Inl]] show False using u \<open>rest = []\<close> by simp
    qed
    show thesis
    proof (cases "is_exception e")
      case False
      then show thesis using assms l Inl u by (intro cancelled [of e]) (auto simp: startup_def Let_def)
    next
      case True
      obtain r2 h2 where s: "stop_started_services hk h1 = (r2, h2)" by force
      obtain gone b where g: "up = started_services h2 @ gone" "r2 = Inr () \<longrightarrow> started_services h2 = []"
          "h2 = h1 \<lparr>started_services := started_services h2, trace := trace h1 @ map StopCalled (rev gone), shutdown_failed := b\<rparr>"
        using stop_started_effect [OF s] u(3) by auto
      have h2: "startup_completed h2 = startup_completed h1" "startup_started h2 = startup_started h1"
          "trace h2 = trace h1 @ map StopCalled (rev gone)" by (subst g(3), simp)+
      show thesis
      proof (cases r2)
        case r2: (Inr x)
        have "r = Inl e" "h' = h2 \<lparr>startup_started := False\<rparr>"
          using assms l Inl True s r2 by (simp_all add: startup_def Let_def)
        then show thesis using g(1,2) r2 h2 u(1,3) rest by (intro rollback [of e up rest]) simp_all
      next
        case r2: (Inl e')
        have "r = Inl e'" "h' = h2" using assms l Inl True s r2 by (simp_all add: startup_def Let_def)
        moreover have "\<not> is_exception e'" using stop_started_cancelled s r2 by blast
        ultimately show thesis using h2 u(3) by (intro cancelled [of e']) simp_all
      qed
    qed
  qed
qed

lemma register_ok: "handler_ok h \<Longrightarrow> handler_ok (register ns h)"
  using register_keeps [of ns h] register_distinct [of h ns] by (auto simp: handler_ok_def register_def lifo_def)

lemma quiesce_keeps: "\<exists>b. snd (quiesce hk h) = h \<lparr>quiescing := True, shutdown_failed := b\<rparr>"
  using quiesce_loop_keeps [of hk "started_services h" "h \<lparr>quiescing := True\<rparr>"] by (simp add: quiesce_def)

lemma quiesce_ok: "handler_ok h \<Longrightarrow> handler_ok (snd (quiesce hk h))"
  using quiesce_keeps [of hk h] by (auto simp: handler_ok_def lifo_def)

lemma startup_services: "services (snd (startup hk h)) = services h \<and> service_names (snd (startup hk h)) = service_names h"
proof -
  have l: "services (snd (start_loop hk ns g)) = services g \<and> service_names (snd (start_loop hk ns g)) = service_names g" for ns g
    by (induction ns arbitrary: g) (auto split: sum.splits)
  have st: "services (snd (stop_started_services hk g)) = services g \<and>
      service_names (snd (stop_started_services hk g)) = service_names g" for g
  proof -
    obtain r g' where p: "stop_started_services hk g = (r, g')" by force
    obtain gone b where "g' = g \<lparr>started_services := started_services g', trace := trace g @ map StopCalled (rev gone), shutdown_failed := b\<rparr>"
      using stop_started_effect [OF p] by blast
    then have "services g' = services g" "service_names g' = service_names g" by (metis LifecycleHandler.select_convs(2,3) LifecycleHandler.surjective LifecycleHandler.update_convs(4,9,10))+
    then show ?thesis using p by simp
  qed
  show ?thesis
  proof (cases "startup_started h")
    case True
    then show ?thesis by (simp add: startup_def)
  next
    case False
    let ?h0 = "h \<lparr>startup_started := True, quiescing := False, shutdown_failed := False,
      shutdown_started := False, startup_completed := False, started_services := []\<rparr>"
    obtain r1 h1 where p1: "start_loop hk (services h) ?h0 = (r1, h1)" by force
    obtain r2 h2 where p2: "stop_started_services hk h1 = (r2, h2)" by force
    show ?thesis
      using False p1 p2 l [of "services h" ?h0] st [of h1]
      by (cases r1; cases r2) (auto simp: startup_def Let_def)
  qed
qed

lemma startup_lifo:
  assumes "handler_ok h"
  shows "lifo (snd (startup hk h))"
proof (cases "startup_started h")
  case True
  then show ?thesis using assms by (simp add: startup_def handler_ok_def)
next
  case False
  let ?h0 = "h \<lparr>startup_started := True, quiescing := False, shutdown_failed := False,
    shutdown_started := False, startup_completed := False, started_services := []\<rparr>"
  have l0: "lifo ?h0" using assms False by (simp add: handler_ok_def lifo_def)
  obtain r1 h1 where p1: "start_loop hk (services h) ?h0 = (r1, h1)" by force
  obtain r2 h2 where p2: "stop_started_services hk h1 = (r2, h2)" by force
  have "lifo h1" "lifo h2" using start_loop_lifo [OF p1 l0] stop_started_lifo [OF p2] by auto
  then show ?thesis using False p1 p2 by (cases r1; cases r2) (auto simp: startup_def Let_def lifo_def)
qed

lemma startup_ok:
  assumes "handler_ok h"
  shows "handler_ok (snd (startup hk h))"
proof -
  obtain r h' where p: "startup hk h = (r, h')" by force
  have keep: "lifo h'" "services h' = services h" "service_names h' = service_names h"
    using startup_lifo [OF assms, of hk] startup_services [of hk h] p by simp_all
  show ?thesis
  proof (cases "startup_started h")
    case True
    then show ?thesis using assms by (simp add: startup_def)
  next
    case False
    from startup_cases [OF p False] show ?thesis
      by cases (use assms keep p in \<open>auto simp: handler_ok_def\<close>)
  qed
qed

lemma stop_keeps:
  assumes "stop_started_services hk h = (r, h')"
  shows "services h' = services h" "service_names h' = service_names h" "startup_started h' = startup_started h"
    "startup_completed h' = startup_completed h" "shutdown_started h' = shutdown_started h" "quiescing h' = quiescing h"
    "\<exists>gone. started_services h = started_services h' @ gone \<and> trace h' = trace h @ map StopCalled (rev gone)"
proof -
  obtain gone b where g: "started_services h = started_services h' @ gone"
    "h' = h \<lparr>started_services := started_services h', trace := trace h @ map StopCalled (rev gone), shutdown_failed := b\<rparr>"
    using stop_started_effect [OF assms] by blast
  show "services h' = services h" "service_names h' = service_names h" "startup_started h' = startup_started h"
    "startup_completed h' = startup_completed h" "shutdown_started h' = shutdown_started h" "quiescing h' = quiescing h"
    by (subst g(2), simp)+
  have "trace h' = trace h @ map StopCalled (rev gone)" by (subst g(2)) simp
  then show "\<exists>gone. started_services h = started_services h' @ gone \<and> trace h' = trace h @ map StopCalled (rev gone)"
    using g(1) by blast
qed

lemma startup_clears: "\<not> startup_started h \<Longrightarrow> \<not> shutdown_started (snd (startup hk h))"
proof -
  assume no: "\<not> startup_started h"
  let ?h0 = "h \<lparr>startup_started := True, quiescing := False, shutdown_failed := False,
    shutdown_started := False, startup_completed := False, started_services := []\<rparr>"
  obtain r1 h1 where p1: "start_loop hk (services h) ?h0 = (r1, h1)" by force
  obtain r2 h2 where p2: "stop_started_services hk h1 = (r2, h2)" by force
  have "\<not> shutdown_started h1" using start_loop_effect [OF p1] by auto
  then show ?thesis using no p1 p2 stop_keeps(5) [OF p2] by (cases r1; cases r2) (auto simp: startup_def Let_def)
qed

lemma shutdown_ok:
  assumes "handler_ok h"
  shows "handler_ok (snd (shutdown hk h))"
proof (cases "shutdown_started h")
  case True
  then show ?thesis using assms by (simp add: shutdown_def)
next
  case False
  let ?h0 = "h \<lparr>shutdown_started := True\<rparr>"
  obtain r1 h1 where p1: "quiesce hk ?h0 = (r1, h1)" by force
  obtain b where h1: "h1 = ?h0 \<lparr>quiescing := True, shutdown_failed := b\<rparr>"
    using quiesce_keeps [of hk ?h0] p1 by auto
  obtain r2 h2 where p2: "stop_started_services hk h1 = (r2, h2)" by force
  note k = stop_keeps [OF p2]
  have "lifo h1" using assms h1 by (simp add: handler_ok_def lifo_def)
  then have l2: "lifo h2" by (rule stop_started_lifo [OF p2])
  have e2: "r2 = Inr () \<Longrightarrow> started_services h2 = []" using stop_started_effect [OF p2] by blast
  have started: "started_services h = [] \<Longrightarrow> started_services h2 = []" using k(7) h1 by auto
  show ?thesis
    using assms False p1 p2 l2 e2 started k(1-6) h1
    by (cases r1; cases r2) (auto simp: shutdown_def handler_ok_def lifo_def)
qed

lemma run_ops_ok: "handler_ok h \<Longrightarrow> handler_ok (run_ops ops h)"
proof (induction ops arbitrary: h)
  case (Cons op ops)
  have "handler_ok (apply_op op h)"
    using Cons.prems by (cases op) (simp_all add: register_ok startup_ok quiesce_ok shutdown_ok)
  then show ?case using Cons.IH by (simp add: run_ops_def)
qed (simp add: run_ops_def)

lemma new_handler_ok: "new_handler t = Inr h \<Longrightarrow> handler_ok h"
  by (auto simp: new_handler_def handler_ok_def lifo_def split: if_splits)

lemma shutdown_effect:
  assumes "\<not> shutdown_started h"
    and "\<And>n e. stop_hook hk n = Inl e \<Longrightarrow> is_exception e"
    and "\<And>n e. quiesce_hook hk n = Some (Inl e) \<Longrightarrow> is_exception e"
  shows "\<exists>h'. shutdown hk h = (Inr (), h') \<and> started_services h' = [] \<and>
    trace h' = trace h @ map StopCalled (rev (started_services h)) \<and>
    \<not> is_alive h' \<and> \<not> is_ready h' \<and> shutdown hk h' = (Inr (), h')"
proof -
  let ?h0 = "h \<lparr>shutdown_started := True\<rparr>"
  have q: "fst (quiesce_loop hk ns g) = Inr ()" for ns g
    using assms(3) by (induction ns arbitrary: g) (auto split: option.splits sum.splits)
  obtain h1 where p1: "quiesce hk ?h0 = (Inr (), h1)" using q by (metis prod.collapse quiesce_def)
  obtain b where h1: "h1 = ?h0 \<lparr>quiescing := True, shutdown_failed := b\<rparr>"
    using quiesce_keeps [of hk ?h0] p1 by auto
  obtain r2 h2 where p2: "stop_started_services hk h1 = (r2, h2)" by force
  have r2: "r2 = Inr ()"
  proof (cases r2)
    case (Inl e)
    have "stop_started_services hk g = (Inl e, g') \<Longrightarrow> \<exists>n. stop_hook hk n = Inl e" for g g'
      by (induction hk g arbitrary: g' rule: stop_started_services.induct)
        (subst (asm) (3) stop_started_services.simps, auto simp: Let_def split: if_splits sum.splits)
    then show ?thesis using stop_started_cancelled p2 Inl assms(2) by blast
  qed simp
  note k = stop_keeps [OF p2]
  have e: "started_services h2 = []" using stop_started_effect [OF p2] r2 by blast
  then have "trace h2 = trace h @ map StopCalled (rev (started_services h))" using k(7) h1 by auto
  then show ?thesis using assms(1) p1 p2 r2 e k(1-6) h1
    by (simp add: shutdown_def is_alive_def is_ready_def)
qed

subsection \<open>Properties\<close>

text \<open>
  Property C26. For every history of registrations, startups, quiescings and shutdowns, whatever the
  hooks do, services are stopped in the reverse order of their start and the started services are
  exactly those whose start has not been undone; a ready handler runs every service that was
  registered when it started, and no service is registered twice.
\<close>

theorem lifecycle_lifo:
  assumes "new_handler t = Inr h"
  shows "replay (trace (run_ops ops h)) [] = Some (started_services (run_ops ops h)) \<and>
    distinct (services (run_ops ops h)) \<and>
    (is_ready (run_ops ops h) \<longrightarrow> (\<exists>later. services (run_ops ops h) = started_services (run_ops ops h) @ later))"
  using run_ops_ok [OF new_handler_ok [OF assms], of ops] by (auto simp: handler_ok_def lifo_def is_ready_def)

definition demo_hooks :: hooks where
  "demo_hooks = \<lparr>start_hook = (\<lambda>n. if n = ''bad'' then Inl OSError else Inr ()), stop_hook = (\<lambda>n. Inr ()),
     quiesce_hook = (\<lambda>n. None), check_hook = (\<lambda>n. CheckTrue)\<rparr>"

definition demo_handler :: LifecycleHandler where
  "demo_handler = \<lparr>check_timeout_seconds = 1, services = [], service_names = {}, started_services = [],
     startup_started = False, startup_completed = False, shutdown_started = False, quiescing = False,
     shutdown_failed = False, trace = []\<rparr>"

lemma demo_handler: "new_handler 1 = Inr demo_handler"
  by (simp add: new_handler_def demo_handler_def)

theorem lifecycle_lifo_witness:
  "replay (trace (run_ops [Register [''db'', ''cache''], Startup demo_hooks, Shutdown demo_hooks] demo_handler)) [] =
     Some (started_services (run_ops [Register [''db'', ''cache''], Startup demo_hooks, Shutdown demo_hooks] demo_handler))"
  using lifecycle_lifo [OF demo_handler] by blast

text \<open>
  A startup that fails with an exception started some of the services and stopped
  exactly these again in reverse order; nothing is left running, and the handler is not ready
  and can be started again.
\<close>

lemma startup_rollback:
  assumes "startup hk h = (Inl e, h')" "\<not> startup_started h" "is_exception e"
  shows "\<exists>up rest. services h = up @ rest \<and> rest \<noteq> [] \<and>
    trace h' = trace h @ map Started up @ map StopCalled (rev up) \<and> started_services h' = [] \<and>
    \<not> startup_started h' \<and> \<not> is_ready h'"
  using startup_cases [OF assms(1,2)] assms(3) by cases (auto simp: is_ready_def)

text \<open>
  A first shutdown in which no hook is cancelled stops every started service, the last
  one first, even when stops fail; afterwards the handler is neither alive nor ready, and a
  second shutdown does nothing.
\<close>

lemma shutdown_complete:
  assumes "\<not> shutdown_started h"
    and "\<And>n e. stop_hook hk n = Inl e \<Longrightarrow> is_exception e"
    and "\<And>n e. quiesce_hook hk n = Some (Inl e) \<Longrightarrow> is_exception e"
  shows "\<exists>h'. shutdown hk h = (Inr (), h') \<and> started_services h' = [] \<and>
    trace h' = trace h @ map StopCalled (rev (started_services h)) \<and>
    \<not> is_alive h' \<and> \<not> is_ready h' \<and> shutdown hk h' = (Inr (), h')"
  by (rule shutdown_effect [OF assms])

end
