(* ===== verification/Pool.thy ===== *)
theory Pool
  imports Prelude
begin

text \<open>
  Bounded admission to the database connection pool (\<^verbatim>\<open>app/common/handlers/database_pool.py\<close>).

  The event loop runs one task at a time, and a task gives up control only at an \<^verbatim>\<open>await\<close>. Each
  definition below is the code between two such points; \<open>pool_step\<close> interleaves them with the
  things that happen to a waiting task: it is woken, it fails because the pool was closed, or it
  is interrupted by its timeout or by a cancellation. A future is identified by a number.

  SQLAlchemy's own pool is not part of the repository: obtaining a record may succeed or fail
  (\<open>Got\<close> and \<open>GetFailed\<close>), and what is done with a returned record is not observed.
\<close>

datatype future = Pending | Granted | Refused | Cancelled

definition is_done :: "future \<Rightarrow> bool" where
  "is_done f \<longleftrightarrow> f \<noteq> Pending"

record Admission =
  adm_limit :: nat
  queue_limit :: nat
  adm_active :: int
  waiters :: "nat list"
  adm_closed :: bool
  futures :: "nat \<Rightarrow> future"

text \<open>\<^verbatim>\<open>set_result\<close>, \<^verbatim>\<open>set_exception\<close> and \<^verbatim>\<open>cancel\<close> on a future, and its creation.\<close>

definition set_future :: "nat \<Rightarrow> future \<Rightarrow> Admission \<Rightarrow> Admission" where
  "set_future w f a = a \<lparr>futures := (futures a)(w := f)\<rparr>"

definition new_admission :: "nat \<Rightarrow> nat \<Rightarrow> Admission" where
  "new_admission limit qlimit =
     \<lparr>adm_limit = limit, queue_limit = qlimit, adm_active = 0, waiters = [], adm_closed = False,
      futures = (\<lambda>w. Cancelled)\<rparr>"

subsection \<open>Admission\<close>

text \<open>The part of \<^verbatim>\<open>acquire\<close> before its \<^verbatim>\<open>await\<close>; \<open>w\<close> is the future it creates.\<close>

datatype acquired = Entered | Queued | Rejected exn

definition acquire_start :: "nat \<Rightarrow> Admission \<Rightarrow> acquired \<times> Admission" where
  "acquire_start w a =
     (if adm_closed a then (Rejected (DatabaseUnavailableError ''DB_POOL_CLOSED''), a)
      else if adm_active a < int (adm_limit a) then (Entered, a \<lparr>adm_active := adm_active a + 1\<rparr>)
      else if length (waiters a) \<ge> queue_limit a then (Rejected (DatabaseUnavailableError ''DB_POOL_CAPACITY''), a)
      else (Queued, set_future w Pending (a \<lparr>waiters := waiters a @ [w]\<rparr>)))"

fun release_loop :: "nat list \<Rightarrow> Admission \<Rightarrow> Admission" where
  "release_loop [] a = a \<lparr>waiters := [], adm_active := adm_active a - 1\<rparr>"
| "release_loop (w # ws) a =
     (if \<not> is_done (futures a w) then set_future w Granted (a \<lparr>waiters := ws\<rparr>)
      else release_loop ws a)"

definition adm_release :: "Admission \<Rightarrow> Admission" where
  "adm_release a = release_loop (waiters a) a"

fun close_loop :: "nat list \<Rightarrow> Admission \<Rightarrow> Admission" where
  "close_loop [] a = a \<lparr>waiters := []\<rparr>"
| "close_loop (w # ws) a =
     close_loop ws (if \<not> is_done (futures a w) then set_future w Refused a else a)"

definition adm_close :: "Admission \<Rightarrow> Admission" where
  "adm_close a = close_loop (waiters a) (a \<lparr>adm_closed := True\<rparr>)"

text \<open>The handler of an exception that reaches the waiting \<^verbatim>\<open>acquire\<close>.\<close>

definition acquire_failed :: "nat \<Rightarrow> Admission \<Rightarrow> Admission" where
  "acquire_failed w a =
     (if w \<in> set (waiters a) then a \<lparr>waiters := remove1 w (waiters a)\<rparr>
      else if futures a w = Granted then adm_release a
      else a)"

subsection \<open>The pool and its tasks\<close>

text \<open>
  \<open>sleepers\<close> are the futures that a task still awaits, \<open>interrupted\<close> those whose task has been
  interrupted and has not run since, \<open>busy\<close> counts the tasks between their admission and the end
  of \<^verbatim>\<open>_acquire_record\<close>, and \<open>leased\<close> are the records handed out.
\<close>

record 'r pool =
  admission :: Admission
  sleepers :: "nat list"
  interrupted :: "nat set"
  busy :: nat
  leased :: "'r list"
  next_future :: nat

definition new_pool :: "nat \<Rightarrow> nat \<Rightarrow> 'r pool" where
  "new_pool cap qlimit =
     \<lparr>admission = new_admission cap qlimit, sleepers = [], interrupted = {}, busy = 0, leased = [], next_future = 0\<rparr>"

definition acquire_record :: "'r pool \<Rightarrow> 'r pool" where
  "acquire_record p =
     (case acquire_start (next_future p) (admission p) of
        (Entered, a) \<Rightarrow> p \<lparr>admission := a, busy := busy p + 1\<rparr>
      | (Queued, a) \<Rightarrow> p \<lparr>admission := a, sleepers := sleepers p @ [next_future p], next_future := next_future p + 1\<rparr>
      | (Rejected e, a) \<Rightarrow> p \<lparr>admission := a\<rparr>)"

text \<open>The task of a future runs on with the result of the future.\<close>

definition wake :: "nat \<Rightarrow> 'r pool \<Rightarrow> 'r pool" where
  "wake w p =
     (if futures (admission p) w = Granted
      then p \<lparr>sleepers := remove1 w (sleepers p), busy := busy p + 1\<rparr>
      else p \<lparr>sleepers := remove1 w (sleepers p), admission := acquire_failed w (admission p)\<rparr>)"

text \<open>Interrupting a waiting task cancels its future unless that is done.\<close>

definition interrupt :: "nat \<Rightarrow> 'r pool \<Rightarrow> 'r pool" where
  "interrupt w p =
     p \<lparr>interrupted := insert w (interrupted p),
        admission := (if \<not> is_done (futures (admission p) w)
          then set_future w Cancelled (admission p) else admission p)\<rparr>"

definition run_interrupted :: "nat \<Rightarrow> 'r pool \<Rightarrow> 'r pool" where
  "run_interrupted w p =
     p \<lparr>sleepers := remove1 w (sleepers p), interrupted := interrupted p - {w},
        admission := acquire_failed w (admission p)\<rparr>"

text \<open>
  A record was obtained. In a closed pool the task stays busy closing it and ends like a failed
  attempt; otherwise the record is leased.
\<close>

definition got_record :: "'r \<Rightarrow> 'r pool \<Rightarrow> 'r pool" where
  "got_record r p =
     (if adm_closed (admission p) then p else p \<lparr>busy := busy p - 1, leased := r # leased p\<rparr>)"

definition get_failed :: "'r pool \<Rightarrow> 'r pool" where
  "get_failed p = p \<lparr>busy := busy p - 1, admission := adm_release (admission p)\<rparr>"

definition do_return_conn :: "'r \<Rightarrow> 'r pool \<Rightarrow> 'r pool" where
  "do_return_conn r p =
     (if r \<in> set (leased p) then p \<lparr>leased := remove1 r (leased p), admission := adm_release (admission p)\<rparr> else p)"

definition dispose :: "'r pool \<Rightarrow> 'r pool" where
  "dispose p = p \<lparr>admission := adm_close (admission p)\<rparr>"

definition recreate :: "'r pool \<Rightarrow> 'r pool" where
  "recreate p = new_pool (adm_limit (admission p)) (queue_limit (admission p))"

inductive pool_step :: "'r pool \<Rightarrow> 'r pool \<Rightarrow> bool" where
  Acquire: "pool_step p (acquire_record p)"
| Wake: "w \<in> set (sleepers p) \<Longrightarrow> w \<notin> interrupted p \<Longrightarrow> is_done (futures (admission p) w) \<Longrightarrow> pool_step p (wake w p)"
| Interrupt: "w \<in> set (sleepers p) \<Longrightarrow> w \<notin> interrupted p \<Longrightarrow> pool_step p (interrupt w p)"
| Interrupted: "w \<in> interrupted p \<Longrightarrow> pool_step p (run_interrupted w p)"
| Got: "0 < busy p \<Longrightarrow> r \<notin> set (leased p) \<Longrightarrow> pool_step p (got_record r p)"
| GetFailed: "0 < busy p \<Longrightarrow> pool_step p (get_failed p)"
| Return: "pool_step p (do_return_conn r p)"
| Dispose: "pool_step p (dispose p)"

inductive pool_reach :: "nat \<Rightarrow> nat \<Rightarrow> 'r pool \<Rightarrow> bool" for cap qlimit where
  Init: "pool_reach cap qlimit (new_pool cap qlimit)"
| Step: "pool_reach cap qlimit p \<Longrightarrow> pool_step p q \<Longrightarrow> pool_reach cap qlimit q"

inductive_cases pool_stepE [elim]: "pool_step p q"

subsection \<open>The invariant\<close>

definition granted :: "'r pool \<Rightarrow> nat" where
  "granted p = length (filter (\<lambda>w. futures (admission p) w = Granted) (sleepers p))"

text \<open>
  Every admission is held by a task at work, by a leased record, or by a task that was granted
  one and has not run since. A waiting future is in the queue, and only while every admission is
  in use. In the middle of an operation some admissions may have lost their holder; the number
  \<open>d\<close> counts those that are still to be released.
\<close>

definition counted :: "int \<Rightarrow> 'r pool \<Rightarrow> bool" where
  "counted d p \<longleftrightarrow>
     adm_active (admission p) = int (busy p + length (leased p) + granted p) + d \<and>
     adm_active (admission p) \<le> int (adm_limit (admission p))"

definition queue_ok :: "Admission \<Rightarrow> bool" where
  "queue_ok a \<longleftrightarrow>
     length (waiters a) \<le> queue_limit a \<and> distinct (waiters a) \<and>
     (\<forall>w \<in> set (waiters a). futures a w \<in> {Pending, Cancelled}) \<and>
     ((\<exists>w \<in> set (waiters a). futures a w = Pending) \<longrightarrow> adm_active a = int (adm_limit a)) \<and>
     (adm_closed a \<longrightarrow> waiters a = [])"

definition tasks_ok :: "'r pool \<Rightarrow> bool" where
  "tasks_ok p \<longleftrightarrow>
     distinct (sleepers p) \<and> distinct (leased p) \<and>
     set (waiters (admission p)) \<subseteq> set (sleepers p) \<and> interrupted p \<subseteq> set (sleepers p) \<and>
     (\<forall>w \<in> set (sleepers p). w < next_future p) \<and>
     (\<forall>w \<in> set (sleepers p). futures (admission p) w = Pending \<longrightarrow> w \<in> set (waiters (admission p))) \<and>
     (\<forall>w \<in> interrupted p. futures (admission p) w \<noteq> Pending) \<and>
     (\<forall>w \<in> set (sleepers p) - interrupted p. futures (admission p) w \<noteq> Cancelled)"

definition owes :: "int \<Rightarrow> 'r pool \<Rightarrow> bool" where
  "owes d p \<longleftrightarrow> counted d p \<and> queue_ok (admission p) \<and> tasks_ok p"

abbreviation pool_inv :: "'r pool \<Rightarrow> bool" where
  "pool_inv p \<equiv> owes 0 p"

lemma set_future_simps [simp]:
  "adm_limit (set_future w f a) = adm_limit a" "queue_limit (set_future w f a) = queue_limit a"
  "adm_active (set_future w f a) = adm_active a" "waiters (set_future w f a) = waiters a"
  "adm_closed (set_future w f a) = adm_closed a" "futures (set_future w f a) x = (if x = w then f else futures a x)"
  by (simp_all add: set_future_def)

lemma release_loop_first:
  assumes "\<exists>w \<in> set ws. futures a w = Pending"
  obtains us w vs where "ws = us @ w # vs" "futures a w = Pending" "\<forall>u \<in> set us. futures a u \<noteq> Pending"
    "release_loop ws a = set_future w Granted (a \<lparr>waiters := vs\<rparr>)"
proof -
  obtain us w vs where w: "ws = us @ w # vs" "futures a w = Pending" "\<forall>u \<in> set us. futures a u \<noteq> Pending"
    using split_list_first_prop [of ws "\<lambda>w. futures a w = Pending"] assms by blast
  have "release_loop (us @ w # vs) a = set_future w Granted (a \<lparr>waiters := vs\<rparr>)"
    using w(2,3) by (induction us) (auto simp: is_done_def)
  then show thesis using w that by blast
qed

lemma release_loop_none:
  "\<forall>w \<in> set ws. futures a w \<noteq> Pending \<Longrightarrow> release_loop ws a = a \<lparr>waiters := [], adm_active := adm_active a - 1\<rparr>"
  by (induction ws) (auto simp: is_done_def)

lemma close_loop_eq:
  "waiters (close_loop ws a) = [] \<and> adm_limit (close_loop ws a) = adm_limit a \<and>
   queue_limit (close_loop ws a) = queue_limit a \<and> adm_active (close_loop ws a) = adm_active a \<and>
   adm_closed (close_loop ws a) = adm_closed a \<and>
   futures (close_loop ws a) w = (if w \<in> set ws \<and> futures a w = Pending then Refused else futures a w)"
  by (induction ws arbitrary: a) (auto simp: is_done_def)

lemma filter_granted_update:
  assumes "distinct xs" "w \<in> set xs" "f w \<noteq> Granted"
  shows "length (filter (\<lambda>x. x \<noteq> w \<longrightarrow> f x = Granted) xs) = length (filter (\<lambda>x. f x = Granted) xs) + 1"
  using assms
proof (induction xs)
  case (Cons x xs)
  show ?case
  proof (cases "x = w")
    case True
    then have "filter (\<lambda>x. x \<noteq> w \<longrightarrow> f x = Granted) xs = filter (\<lambda>x. f x = Granted) xs"
      using Cons.prems by (intro filter_cong) auto
    then show ?thesis using True Cons.prems by simp
  next
    case False
    then show ?thesis using Cons by simp
  qed
qed simp

lemma length_filter_remove1:
  "distinct xs \<Longrightarrow> length (filter P xs) = length (filter P (remove1 w xs)) + (if w \<in> set xs \<and> P w then 1 else 0)"
  by (induction xs) auto

text \<open>Releasing an admission that lost its holder restores the invariant.\<close>

lemma release_pays:
  assumes inv: "owes 1 p"
  shows "pool_inv (p \<lparr>admission := adm_release (admission p)\<rparr>)"
proof (cases "\<exists>w \<in> set (waiters (admission p)). futures (admission p) w = Pending")
  case False
  have rel: "adm_release (admission p) = (admission p) \<lparr>waiters := [], adm_active := adm_active (admission p) - 1\<rparr>"
    unfolding adm_release_def using False by (intro release_loop_none) blast
  have "counted 0 (p \<lparr>admission := adm_release (admission p)\<rparr>)"
    using inv by (simp add: owes_def counted_def granted_def rel)
  moreover have "queue_ok (adm_release (admission p))" by (simp add: queue_ok_def rel)
  moreover have "tasks_ok (p \<lparr>admission := adm_release (admission p)\<rparr>)"
    using inv False by (auto simp: owes_def tasks_ok_def rel)
  ultimately show ?thesis by (simp add: owes_def)
next
  case True
  then obtain us w vs where w: "waiters (admission p) = us @ w # vs" "futures (admission p) w = Pending"
      "\<forall>u \<in> set us. futures (admission p) u \<noteq> Pending"
    and rel: "adm_release (admission p) = set_future w Granted ((admission p) \<lparr>waiters := vs\<rparr>)"
    unfolding adm_release_def by (rule release_loop_first)
  let ?q = "p \<lparr>admission := adm_release (admission p)\<rparr>"
  have q: "queue_ok (admission p)" and t: "tasks_ok p" and c: "counted 1 p" using inv by (simp_all add: owes_def)
  have ws: "w \<in> set (sleepers p)" "distinct (sleepers p)" "distinct (waiters (admission p))"
    using q t w(1) by (auto simp: queue_ok_def tasks_ok_def)
  have "granted ?q = granted p + 1"
    using filter_granted_update [OF ws(2,1), of "futures (admission p)"] w(2) by (simp add: granted_def rel)
  then have "counted 0 ?q" using c by (simp add: counted_def rel)
  moreover have "queue_ok (adm_release (admission p))"
    using q ws(3) True unfolding queue_ok_def rel by (auto simp: w(1))
  moreover have "tasks_ok ?q"
    using t w(2,3) unfolding tasks_ok_def rel by (auto simp: w(1))
  ultimately show ?thesis by (simp add: owes_def)
qed

lemma acquire_record_inv:
  assumes "pool_inv p"
  shows "pool_inv (acquire_record p)"
proof -
  let ?n = "next_future p"
  have q: "queue_ok (admission p)" and t: "tasks_ok p" and c: "counted 0 p" using assms by (simp_all add: owes_def)
  have fresh: "?n \<notin> set (sleepers p)" "?n \<notin> interrupted p" "?n \<notin> set (waiters (admission p))"
    using t by (auto simp: tasks_ok_def)
  obtain r a where st: "acquire_start ?n (admission p) = (r, a)" by force
  show ?thesis
  proof (cases r)
    case Entered
    then have a: "a = (admission p) \<lparr>adm_active := adm_active (admission p) + 1\<rparr>"
        "adm_active (admission p) < int (adm_limit (admission p))"
      using st by (auto simp: acquire_start_def split: if_splits)
    have "counted 0 (acquire_record p)" using c a st Entered by (simp add: acquire_record_def counted_def granted_def)
    moreover have "queue_ok a" using q a by (auto simp: queue_ok_def)
    moreover have "tasks_ok (acquire_record p)" using t a st Entered by (simp add: acquire_record_def tasks_ok_def)
    ultimately show ?thesis using st Entered by (simp add: owes_def acquire_record_def)
  next
    case Queued
    then have a: "a = set_future ?n Pending ((admission p) \<lparr>waiters := waiters (admission p) @ [?n]\<rparr>)"
        "\<not> adm_active (admission p) < int (adm_limit (admission p))" "\<not> adm_closed (admission p)"
        "length (waiters (admission p)) < queue_limit (admission p)"
      using st by (auto simp: acquire_start_def split: if_splits)
    have "filter (\<lambda>w. w \<noteq> ?n \<and> (w \<noteq> ?n \<longrightarrow> futures (admission p) w = Granted)) (sleepers p) =
        filter (\<lambda>w. futures (admission p) w = Granted) (sleepers p)"
      using fresh by (intro filter_cong) auto
    then have "counted 0 (acquire_record p)"
      using c a st Queued by (simp add: acquire_record_def counted_def granted_def)
    moreover have "queue_ok a" using q a c fresh by (auto simp: queue_ok_def counted_def)
    moreover have "tasks_ok (acquire_record p)"
      using t a st Queued fresh by (auto simp: acquire_record_def tasks_ok_def less_Suc_eq)
    ultimately show ?thesis using st Queued by (simp add: owes_def acquire_record_def)
  next
    case (Rejected e)
    then have "a = admission p" using st by (auto simp: acquire_start_def split: if_splits)
    then show ?thesis using assms st Rejected by (simp add: acquire_record_def)
  qed
qed

lemma acquire_failed_inv:
  assumes inv: "pool_inv p" and w: "w \<in> set (sleepers p)" "futures (admission p) w \<noteq> Pending"
  shows "pool_inv (p \<lparr>sleepers := remove1 w (sleepers p), interrupted := interrupted p - {w},
    admission := acquire_failed w (admission p)\<rparr>)"
proof -
  let ?a = "admission p"
  let ?q = "p \<lparr>sleepers := remove1 w (sleepers p), interrupted := interrupted p - {w}\<rparr>"
  have q: "queue_ok ?a" and t: "tasks_ok p" and c: "counted 0 p" using inv by (simp_all add: owes_def)
  have d: "distinct (sleepers p)" using t by (simp add: tasks_ok_def)
  have g: "granted p = granted ?q + (if futures ?a w = Granted then 1 else 0)"
    using length_filter_remove1 [OF d, of "\<lambda>x. futures ?a x = Granted" w] w(1) by (simp add: granted_def)
  show ?thesis
  proof (cases "w \<in> set (waiters ?a)")
    case True
    then have f: "futures ?a w = Cancelled" using q w(2) by (auto simp: queue_ok_def)
    let ?b = "?a \<lparr>waiters := remove1 w (waiters ?a)\<rparr>"
    have dw: "distinct (waiters ?a)" using q by (simp add: queue_ok_def)
    have "counted 0 (?q \<lparr>admission := ?b\<rparr>)" using c g f by (simp add: counted_def granted_def)
    moreover have "queue_ok ?b" using q dw length_remove1 [of w "waiters ?a"] by (auto simp: queue_ok_def set_remove1_eq)
    moreover have "tasks_ok (?q \<lparr>admission := ?b\<rparr>)"
      using t d dw by (auto simp: tasks_ok_def set_remove1_eq)
    ultimately show ?thesis using True by (simp add: owes_def acquire_failed_def)
  next
    case False
    have t': "tasks_ok ?q" using t d False by (auto simp: tasks_ok_def set_remove1_eq)
    show ?thesis
    proof (cases "futures ?a w = Granted")
      case True
      then have "owes 1 ?q" using q t' c g by (simp add: owes_def counted_def)
      from release_pays [OF this] show ?thesis using True False by (simp add: acquire_failed_def)
    next
      case no: False
      then have "counted 0 ?q" using c g by (simp add: counted_def)
      then show ?thesis using no False q t' by (simp add: owes_def acquire_failed_def)
    qed
  qed
qed

lemma wake_inv:
  assumes inv: "pool_inv p" and w: "w \<in> set (sleepers p)" "w \<notin> interrupted p" "is_done (futures (admission p) w)"
  shows "pool_inv (wake w p)"
proof (cases "futures (admission p) w = Granted")
  case True
  have q: "queue_ok (admission p)" and t: "tasks_ok p" and c: "counted 0 p" using inv by (simp_all add: owes_def)
  have d: "distinct (sleepers p)" using t by (simp add: tasks_ok_def)
  have "w \<notin> set (waiters (admission p))" using q True by (auto simp: queue_ok_def)
  then have "tasks_ok (wake w p)" using t d w(2) True by (auto simp: wake_def tasks_ok_def set_remove1_eq)
  moreover have "counted 0 (wake w p)"
    using c True length_filter_remove1 [OF d, of "\<lambda>x. futures (admission p) x = Granted" w] w(1)
    by (simp add: wake_def counted_def granted_def)
  ultimately show ?thesis using q True by (simp add: owes_def wake_def)
next
  case False
  have i: "interrupted p - {w} = interrupted p" using w(2) by simp
  have "pool_inv (p \<lparr>sleepers := remove1 w (sleepers p), interrupted := interrupted p - {w},
      admission := acquire_failed w (admission p)\<rparr>)"
    using w by (intro acquire_failed_inv [OF inv]) (simp_all add: is_done_def)
  then show ?thesis using False unfolding i by (simp add: wake_def)
qed

lemma interrupt_inv:
  assumes inv: "pool_inv p" and w: "w \<in> set (sleepers p)"
  shows "pool_inv (interrupt w p)"
proof -
  have q: "queue_ok (admission p)" and t: "tasks_ok p" and c: "counted 0 p" using inv by (simp_all add: owes_def)
  have "filter (\<lambda>x. x \<noteq> w \<and> (x \<noteq> w \<longrightarrow> futures (admission p) x = Granted)) (sleepers p) =
      filter (\<lambda>x. futures (admission p) x = Granted) (sleepers p)" if "futures (admission p) w = Pending"
    using that by (intro filter_cong) auto
  then have "counted 0 (interrupt w p)" using c by (simp add: interrupt_def counted_def granted_def is_done_def)
  moreover have "queue_ok (admission (interrupt w p))" using q by (auto simp: interrupt_def queue_ok_def is_done_def)
  moreover have "tasks_ok (interrupt w p)" using t w by (auto simp: interrupt_def tasks_ok_def is_done_def)
  ultimately show ?thesis by (simp add: owes_def)
qed

lemma get_failed_inv:
  assumes inv: "pool_inv p" and b: "0 < busy p"
  shows "pool_inv (get_failed p)"
proof -
  have "owes 1 (p \<lparr>busy := busy p - 1\<rparr>)"
    using inv b by (auto simp: owes_def counted_def tasks_ok_def granted_def of_nat_diff)
  from release_pays [OF this] show ?thesis by (simp add: get_failed_def)
qed

lemma got_record_inv:
  assumes inv: "pool_inv p" and b: "0 < busy p" "r \<notin> set (leased p)"
  shows "pool_inv (got_record r p)"
  using inv b by (auto simp: got_record_def owes_def counted_def tasks_ok_def granted_def of_nat_diff)

lemma do_return_conn_inv:
  assumes inv: "pool_inv p"
  shows "pool_inv (do_return_conn r p)"
proof (cases "r \<in> set (leased p)")
  case True
  then have "length (leased p) = length (remove1 r (leased p)) + 1"
    by (simp add: length_remove1) (metis Suc_pred length_pos_if_in_set)
  then have "owes 1 (p \<lparr>leased := remove1 r (leased p)\<rparr>)"
    using inv by (simp add: owes_def counted_def tasks_ok_def granted_def)
  from release_pays [OF this] show ?thesis using True by (simp add: do_return_conn_def)
qed (use inv in \<open>simp add: do_return_conn_def\<close>)

lemma dispose_inv:
  assumes inv: "pool_inv p"
  shows "pool_inv (dispose p)"
proof -
  let ?a = "admission p"
  have q: "queue_ok ?a" and t: "tasks_ok p" and c: "counted 0 p" using inv by (simp_all add: owes_def)
  note cl = close_loop_eq [of "waiters ?a" "?a \<lparr>adm_closed := True\<rparr>", folded adm_close_def]
  have "futures (adm_close ?a) w = Granted \<longleftrightarrow> futures ?a w = Granted" for w using cl [of w] by auto
  then have "counted 0 (dispose p)" using c cl by (simp add: dispose_def counted_def granted_def)
  moreover have "queue_ok (adm_close ?a)" using cl by (simp add: queue_ok_def)
  moreover have "tasks_ok (dispose p)" using t cl by (auto simp: dispose_def tasks_ok_def split: if_splits)
  ultimately show ?thesis by (simp add: owes_def dispose_def)
qed

lemma pool_step_inv: "pool_step p q \<Longrightarrow> pool_inv p \<Longrightarrow> pool_inv q"
proof (induction rule: pool_step.induct)
  case (Interrupted w p)
  then have "w \<in> set (sleepers p)" "futures (admission p) w \<noteq> Pending" by (auto simp: owes_def tasks_ok_def)
  then show ?case using acquire_failed_inv [OF Interrupted.prems] by (simp add: run_interrupted_def)
qed (auto intro: acquire_record_inv wake_inv interrupt_inv got_record_inv get_failed_inv do_return_conn_inv dispose_inv)

lemma pool_reach_inv: "pool_reach cap qlimit p \<Longrightarrow> pool_inv p"
proof (induction rule: pool_reach.induct)
  case Init
  show ?case
    by (simp add: new_pool_def new_admission_def owes_def counted_def queue_ok_def tasks_ok_def granted_def)
qed (rule pool_step_inv)

lemma release_keeps:
  "adm_limit (adm_release a) = adm_limit a \<and> queue_limit (adm_release a) = queue_limit a \<and>
   adm_closed (adm_release a) = adm_closed a"
proof -
  have "adm_limit (release_loop ws a) = adm_limit a \<and> queue_limit (release_loop ws a) = queue_limit a \<and>
     adm_closed (release_loop ws a) = adm_closed a" for ws
    by (induction ws) auto
  then show ?thesis by (simp add: adm_release_def)
qed

lemma close_keeps: "adm_limit (adm_close a) = adm_limit a \<and> queue_limit (adm_close a) = queue_limit a \<and> adm_closed (adm_close a)"
  using close_loop_eq [of "waiters a" "a \<lparr>adm_closed := True\<rparr>"] by (simp add: adm_close_def)

lemma acquire_start_keeps:
  "adm_limit (snd (acquire_start w a)) = adm_limit a \<and> queue_limit (snd (acquire_start w a)) = queue_limit a \<and>
   adm_closed (snd (acquire_start w a)) = adm_closed a"
  by (simp add: acquire_start_def)

lemma step_keeps:
  assumes "pool_step p q"
  shows "adm_limit (admission q) = adm_limit (admission p)" "queue_limit (admission q) = queue_limit (admission p)"
    and "adm_closed (admission p) \<Longrightarrow> adm_closed (admission q) \<and> set (leased q) \<subseteq> set (leased p)"
proof -
  have acq: "admission (acquire_record p) = snd (acquire_start (next_future p) (admission p)) \<and>
      leased (acquire_record p) = leased p" for p :: "'a pool"
    by (auto simp: acquire_record_def split: prod.splits acquired.splits)
  show "adm_limit (admission q) = adm_limit (admission p)" "queue_limit (admission q) = queue_limit (admission p)"
    using assms by (induction rule: pool_step.induct)
      (simp_all add: acq acquire_start_keeps wake_def acquire_failed_def release_keeps close_keeps interrupt_def
        run_interrupted_def got_record_def get_failed_def do_return_conn_def dispose_def)
  show "adm_closed (admission q) \<and> set (leased q) \<subseteq> set (leased p)" if "adm_closed (admission p)"
    using assms that by (induction rule: pool_step.induct)
      (auto simp: acq acquire_start_keeps wake_def acquire_failed_def release_keeps close_keeps interrupt_def
        run_interrupted_def got_record_def get_failed_def do_return_conn_def dispose_def dest: set_remove1_subset [THEN subsetD])
qed

lemma reach_limits:
  "pool_reach cap qlimit p \<Longrightarrow> adm_limit (admission p) = cap \<and> queue_limit (admission p) = qlimit"
  by (induction rule: pool_reach.induct) (auto simp: new_pool_def new_admission_def step_keeps)

subsection \<open>Properties\<close>

text \<open>
  Property C10. However acquisitions, wake-ups, timeouts, cancellations, failures, returns and
  disposal interleave, at most \<open>cap\<close> connections are leased or being obtained, no record is
  leased twice, and at most \<open>qlimit\<close> tasks are queued.
\<close>

theorem pool_capacity:
  assumes "pool_reach cap qlimit p"
  shows "busy p + length (leased p) \<le> cap \<and> distinct (leased p) \<and> length (waiters (admission p)) \<le> qlimit"
proof -
  have "counted 0 p" "queue_ok (admission p)" "tasks_ok p" using pool_reach_inv [OF assms] by (simp_all add: owes_def)
  then show ?thesis using reach_limits [OF assms] by (auto simp: counted_def queue_ok_def tasks_ok_def)
qed

theorem pool_capacity_witness:
  "busy (acquire_record (new_pool 1 1 :: nat pool)) + length (leased (acquire_record (new_pool 1 1 :: nat pool))) \<le> 1"
  using pool_capacity [OF pool_reach.Step [OF pool_reach.Init pool_step.Acquire], of 1 1] by blast

text \<open>
  Property C11. No wake-up is lost: while a task waits, every admission is in use, so one of its
  holders will release it; and a release wakes the task that has waited longest, without letting
  the number of admissions in use drop.
\<close>

theorem pool_no_lost_wakeup:
  assumes "pool_reach cap qlimit p" "w \<in> set (sleepers p)" "futures (admission p) w = Pending"
  shows "busy p + length (leased p) + granted p = cap \<and>
    (\<exists>us v vs. waiters (admission p) = us @ v # vs \<and> (\<forall>u \<in> set us. futures (admission p) u \<noteq> Pending) \<and>
      futures (adm_release (admission p)) v = Granted \<and> waiters (adm_release (admission p)) = vs \<and>
      adm_active (adm_release (admission p)) = adm_active (admission p))"
proof -
  have c: "counted 0 p" and q: "queue_ok (admission p)" and t: "tasks_ok p"
    using pool_reach_inv [OF assms(1)] by (simp_all add: owes_def)
  then have w: "\<exists>w \<in> set (waiters (admission p)). futures (admission p) w = Pending"
    using assms(2,3) by (auto simp: tasks_ok_def)
  then have "adm_active (admission p) = int cap" using q reach_limits [OF assms(1)] by (simp add: queue_ok_def)
  then have "busy p + length (leased p) + granted p = cap" using c by (simp add: counted_def)
  moreover obtain us v vs where "waiters (admission p) = us @ v # vs" "\<forall>u \<in> set us. futures (admission p) u \<noteq> Pending"
      "adm_release (admission p) = set_future v Granted ((admission p) \<lparr>waiters := vs\<rparr>)"
    unfolding adm_release_def using release_loop_first [OF w] by metis
  ultimately show ?thesis by auto
qed

theorem pool_no_lost_wakeup_witness:
  "busy (acquire_record (acquire_record (new_pool 1 1 :: nat pool))) +
     length (leased (acquire_record (acquire_record (new_pool 1 1 :: nat pool)))) +
     granted (acquire_record (acquire_record (new_pool 1 1 :: nat pool))) = 1"
proof -
  let ?p = "acquire_record (acquire_record (new_pool 1 1 :: nat pool))"
  have r: "pool_reach 1 1 ?p" by (intro pool_reach.Step [OF _ pool_step.Acquire] pool_reach.Init)
  have "0 \<in> set (sleepers ?p)" "futures (admission ?p) 0 = Pending"
    by (simp_all add: acquire_record_def acquire_start_def new_pool_def new_admission_def)
  from pool_no_lost_wakeup [OF r this] show ?thesis by blast
qed

text \<open>
  Once the pool is disposed of it stays closed: nobody waits any more, and no further
  record is ever leased.
\<close>

lemma pool_closed_final:
  assumes "pool_reach cap qlimit p" "adm_closed (admission p)" "pool_step p q"
  shows "adm_closed (admission q) \<and> set (leased q) \<subseteq> set (leased p) \<and> waiters (admission q) = [] \<and>
    list_all (\<lambda>w. futures (admission q) w \<noteq> Pending) (sleepers q)"
proof -
  have cl: "adm_closed (admission q) \<and> set (leased q) \<subseteq> set (leased p)" using step_keeps(3) [OF assms(3,2)] .
  have "pool_inv q" using pool_reach_inv [OF pool_reach.Step [OF assms(1,3)]] .
  then show ?thesis using cl by (auto simp: owes_def queue_ok_def tasks_ok_def list_all_iff)
qed

end
