(* ===== verification/Outcome.thy ===== *)
theory Outcome
  imports Asgi
begin

text \<open>
  Observation of request outcomes (\<^verbatim>\<open>app/common/middleware/request_outcome.py\<close>) and its two
  subscribers, the access log (\<^verbatim>\<open>request_logger.py\<close>) and the metrics (\<^verbatim>\<open>prometheus_metrics.py\<close>).

  The middleware forwards every message unchanged, so it is described by what it observes: a
  fold over the events of the wrapped application, each with a reading of the clock, and a final
  settlement. Starlette's routes are not part of the repository: a route is given by what its
  \<^verbatim>\<open>matches\<close> answers and by whether it is the one the request ended in.
\<close>

subsection \<open>Route labels\<close>

datatype match = Full | Partial | NoMatch

text \<open>
  A route is a mount with its sub-routes, a declared route with its label (the canonical path of a
  flexible route, the path of any other), or something else. \<open>'k\<close> identifies routes.
\<close>

datatype 'k route = Mount 'k string "'k route list" | Route 'k string | OtherRoute 'k

fun route_key :: "'k route \<Rightarrow> 'k" where
  "route_key (Mount k pre rs) = k"
| "route_key (Route k label) = k"
| "route_key (OtherRoute k) = k"

record 'k routing =
  route_matches :: "'k \<Rightarrow> match"
  route_terminal :: "'k \<Rightarrow> bool"

fun route_label :: "'k routing \<Rightarrow> string \<Rightarrow> 'k route option \<Rightarrow> string" where
  "route_label rt prefix (Some (Route k label)) =
     (if route_terminal rt k then prefix @ label else ''<unmatched>'')"
| "route_label rt prefix _ = ''<unmatched>''"

fun route_template :: "'k routing \<Rightarrow> string \<Rightarrow> 'k route option \<Rightarrow> 'k route list \<Rightarrow> string" where
  "route_template rt prefix partial [] = route_label rt prefix partial"
| "route_template rt prefix partial (r # rs) =
     (case route_matches rt (route_key r) of
        Full \<Rightarrow>
          (case r of
             Mount k pre sub \<Rightarrow> route_template rt (prefix @ pre) None sub
           | _ \<Rightarrow> route_label rt prefix (Some r))
      | Partial \<Rightarrow> route_template rt prefix (if partial = None then Some r else partial) rs
      | NoMatch \<Rightarrow> route_template rt prefix partial rs)"

subsection \<open>Observations\<close>

datatype result_kind = Completed | Aborted

record RequestOutcome =
  oc_outcome :: result_kind
  oc_method :: string
  oc_route :: string
  oc_duration_ms :: rat
  oc_headers_sent :: bool
  oc_status :: "int option"

definition METHODS :: "string list" where
  "METHODS = [''GET'', ''POST'', ''PUT'', ''PATCH'', ''DELETE'', ''HEAD'', ''OPTIONS'']"

text \<open>
  \<open>ob_calls\<close> records the callbacks made: the key of the subscriber and the outcome it was given.
  \<open>ob_label\<close> is the route label, which depends on the routes, the incoming scope and where the
  request ended.
\<close>

record RequestObservation =
  ob_method :: string
  ob_label :: string
  ob_started_at :: time
  ob_status :: "int option"
  ob_result :: "RequestOutcome option"
  ob_callbacks :: "string list"
  ob_subscribers :: "string set"
  ob_calls :: "(string \<times> RequestOutcome) list"

definition new_observation :: "string \<Rightarrow> string \<Rightarrow> time \<Rightarrow> RequestObservation" where
  "new_observation meth label now =
     \<lparr>ob_method = meth, ob_label = label, ob_started_at = now, ob_status = None, ob_result = None,
      ob_callbacks = [], ob_subscribers = {}, ob_calls = []\<rparr>"

definition subscribe :: "string \<Rightarrow> RequestObservation \<Rightarrow> RequestObservation" where
  "subscribe key ob =
     (if key \<in> ob_subscribers ob then ob
      else
        (let ob' = ob \<lparr>ob_subscribers := insert key (ob_subscribers ob)\<rparr> in
         case ob_result ob of
           Some r \<Rightarrow> ob' \<lparr>ob_calls := ob_calls ob @ [(key, r)]\<rparr>
         | None \<Rightarrow> ob' \<lparr>ob_callbacks := ob_callbacks ob @ [key]\<rparr>))"

definition outcome_record :: "result_kind \<Rightarrow> time \<Rightarrow> RequestObservation \<Rightarrow> RequestOutcome" where
  "outcome_record kind now ob =
     \<lparr>oc_outcome = kind, oc_method = (if ob_method ob \<in> set METHODS then ob_method ob else ''<other>''),
      oc_route = ob_label ob, oc_duration_ms = (now - ob_started_at ob) * 1000,
      oc_headers_sent = (ob_status ob \<noteq> None), oc_status = ob_status ob\<rparr>"

definition settle :: "result_kind \<Rightarrow> time \<Rightarrow> RequestObservation \<Rightarrow> RequestObservation" where
  "settle kind now ob =
     (if ob_result ob \<noteq> None then ob
      else
        (let r = outcome_record kind now ob in
         ob \<lparr>ob_result := Some r, ob_callbacks := [],
             ob_calls := ob_calls ob @ map (\<lambda>k. (k, r)) (ob_callbacks ob)\<rparr>))"

text \<open>\<^verbatim>\<open>receive_observed\<close> and \<^verbatim>\<open>send_observed\<close>.\<close>

fun observe_event :: "time \<Rightarrow> event \<Rightarrow> RequestObservation \<Rightarrow> RequestObservation" where
  "observe_event now (Received (Inl e)) ob = (if e = OSError then settle Aborted now ob else ob)"
| "observe_event now (Received (Inr m)) ob = (if m = DisconnectMsg then settle Aborted now ob else ob)"
| "observe_event now (Sent m (Some e)) ob = (if e = OSError then settle Aborted now ob else ob)"
| "observe_event now (Sent m None) ob =
     (case m of
        ResponseStart st hs \<Rightarrow> ob \<lparr>ob_status := Some st\<rparr>
      | ResponseBody b more_body \<Rightarrow> if \<not> more_body then settle Completed now ob else ob
      | _ \<Rightarrow> ob)"

text \<open>What happens around the wrapped application, in order.\<close>

datatype moment = Observe time event | Subscribe string | Abort time

fun observation_step :: "moment \<Rightarrow> RequestObservation \<Rightarrow> RequestObservation" where
  "observation_step (Observe now ev) ob = observe_event now ev ob"
| "observation_step (Subscribe key) ob = subscribe key ob"
| "observation_step (Abort now) ob = settle Aborted now ob"

text \<open>The call of the middleware ends, returning or raising, with a settlement.\<close>

definition observed_call :: "string \<Rightarrow> string \<Rightarrow> time \<Rightarrow> moment list \<Rightarrow> time \<Rightarrow> RequestObservation" where
  "observed_call meth label t0 steps t1 =
     settle Aborted t1 (fold observation_step steps (new_observation meth label t0))"

subsection \<open>The access log\<close>

datatype level = ERROR | WARNING | DEBUG

definition ellipsis :: string where
  "ellipsis = [char_of (226 :: nat), char_of (128 :: nat), char_of (166 :: nat)]"

text \<open>The first \<open>n\<close> code points of a string.\<close>

fun py_take :: "nat \<Rightarrow> string \<Rightarrow> string" where
  "py_take n [] = []"
| "py_take n (c # cs) =
     (if code c < 128 \<or> 192 \<le> code c then (if n = 0 then [] else c # py_take (n - 1) cs)
      else c # py_take n cs)"

definition shorten_path :: "string \<Rightarrow> nat \<Rightarrow> string" where
  "shorten_path path max_len = (if py_len path > max_len then py_take (max_len - 1) path @ ellipsis else path)"

definition log_level :: "RequestOutcome \<Rightarrow> level" where
  "log_level r =
     (case oc_status r of
        Some st \<Rightarrow>
          if st \<ge> 500 then ERROR else if oc_outcome r = Aborted \<or> st \<ge> 400 then WARNING else DEBUG
      | None \<Rightarrow> if oc_outcome r = Aborted then WARNING else DEBUG)"

definition fixed2_ms :: "rat \<Rightarrow> string" where
  "fixed2_ms q =
     (let n = round_half_even (q * 100); m = nat \<bar>n\<bar>; frac = show_nat (m mod 100) in
      (if n < 0 then ''-'' else []) @ show_nat (m div 100) @ ''.'' @ (if length frac < 2 then ''0'' @ frac else frac))"

definition log_line :: "RequestOutcome \<Rightarrow> string" where
  "log_line r =
     ljust 3 (if oc_outcome r = Completed then (case oc_status r of Some st \<Rightarrow> show_int st | None \<Rightarrow> ''None'')
              else ''ABORTED'') @ '' '' @
     ljust 7 (oc_method r) @ '' '' @ ljust 32 (shorten_path (oc_route r) 30) @ '' '' @ fixed2_ms (oc_duration_ms r) @ ''ms''"

subsection \<open>The metrics\<close>

text \<open>The counters and the histogram as the list of samples per label tuple.\<close>

record metrics =
  request_aborted :: "(string \<times> string) list"
  request_count :: "(string \<times> string \<times> string) list"
  request_duration :: "((string \<times> string \<times> string) \<times> rat) list"

definition excluded_paths :: "string list" where
  "excluded_paths = [''/health'', ''/ready'', ''/info'', ''/system'', ''/metrics'']"

definition record_metrics :: "RequestOutcome \<Rightarrow> metrics \<Rightarrow> metrics" where
  "record_metrics r m =
     (if oc_outcome r = Aborted then m \<lparr>request_aborted := request_aborted m @ [(oc_method r, oc_route r)]\<rparr>
      else
        (let st = (case oc_status r of Some st \<Rightarrow> show_int st | None \<Rightarrow> ''None''); l = (oc_method r, oc_route r, st) in
         m \<lparr>request_count := request_count m @ [l], request_duration := request_duration m @ [(l, oc_duration_ms r)]\<rparr>))"

definition metrics_subscribes :: "string \<Rightarrow> bool" where
  "metrics_subscribes path \<longleftrightarrow> path \<notin> set excluded_paths"

subsection \<open>Lemmas\<close>

text \<open>The labels a route tree can produce.\<close>

fun labels :: "string \<Rightarrow> 'k route \<Rightarrow> string list" where
  "labels prefix (Mount k pre rs) = concat (map (labels (prefix @ pre)) rs)"
| "labels prefix (Route k label) = [prefix @ label]"
| "labels prefix (OtherRoute k) = []"

lemma route_label_in:
  "route_label rt prefix p \<in> insert ''<unmatched>'' (case p of None \<Rightarrow> {} | Some r \<Rightarrow> set (labels prefix r))"
  by (induction rt prefix p rule: route_label.induct) auto

lemma route_template_in:
  "route_template rt prefix p rs \<in> insert ''<unmatched>''
     ((case p of None \<Rightarrow> {} | Some r \<Rightarrow> set (labels prefix r)) \<union> (\<Union>r \<in> set rs. set (labels prefix r)))"
proof (induction rt prefix p rs rule: route_template.induct)
  case (1 rt prefix partial)
  then show ?case using route_label_in [of rt prefix partial] by auto
next
  case (2 rt prefix partial r rs)
  show ?case
  proof (cases "route_matches rt (route_key r)")
    case Full
    then show ?thesis using "2.IH"(1) route_label_in [of rt prefix "Some r"] by (cases r) (auto split: option.splits)
  next
    case Partial
    then show ?thesis using "2.IH"(2) by (auto split: option.splits if_splits)
  next
    case NoMatch
    then show ?thesis using "2.IH"(3) by (auto split: option.splits)
  qed
qed

text \<open>Every subscriber has been called once with the result, or waits for it.\<close>

definition observation_ok :: "RequestObservation \<Rightarrow> bool" where
  "observation_ok ob \<longleftrightarrow>
     distinct (map fst (ob_calls ob) @ ob_callbacks ob) \<and>
     set (map fst (ob_calls ob) @ ob_callbacks ob) = ob_subscribers ob \<and>
     (case ob_result ob of
        None \<Rightarrow> ob_calls ob = []
      | Some r \<Rightarrow> ob_callbacks ob = [] \<and> (\<forall>c \<in> set (ob_calls ob). snd c = r) \<and>
          oc_method r \<in> insert ''<other>'' (set METHODS) \<and> oc_route r = ob_label ob)"

lemma settle_ok: "observation_ok ob \<Longrightarrow> observation_ok (settle kind now ob)"
  by (auto simp: observation_ok_def settle_def outcome_record_def Let_def comp_def image_image split: option.splits)

lemma subscribe_ok: "observation_ok ob \<Longrightarrow> observation_ok (subscribe key ob)"
  by (auto simp: observation_ok_def subscribe_def Let_def split: option.splits)

lemma observe_ok: "observation_ok ob \<Longrightarrow> observation_ok (observe_event now ev ob)"
proof (induction now ev ob rule: observe_event.induct)
  case (4 now m ob)
  then show ?case using settle_ok by (cases m) (auto simp: observation_ok_def split: option.splits)
qed (simp_all add: settle_ok)

lemma steps_ok: "observation_ok ob \<Longrightarrow> observation_ok (fold observation_step ms ob)"
proof (induction ms arbitrary: ob)
  case (Cons m ms)
  have "observation_ok (observation_step m ob)"
    using Cons.prems by (cases m) (simp_all add: observe_ok subscribe_ok settle_ok)
  then show ?case using Cons.IH by simp
qed simp

lemma settle_result: "ob_result (settle kind now ob) \<noteq> None"
  by (simp add: settle_def Let_def)

lemma settle_keeps: "ob_label (settle kind now ob) = ob_label ob \<and> ob_method (settle kind now ob) = ob_method ob \<and>
    ob_status (settle kind now ob) = ob_status ob \<and> ob_subscribers (settle kind now ob) = ob_subscribers ob"
  by (simp add: settle_def Let_def)

lemma step_keeps_label: "ob_label (observation_step m ob) = ob_label ob"
proof (cases m)
  case (Observe now ev)
  then show ?thesis
    by (cases "(now, ev, ob)" rule: observe_event.cases) (auto simp: settle_keeps split: message.splits)
qed (auto simp: settle_keeps subscribe_def Let_def split: option.splits)

lemma steps_keep_label: "ob_label (fold observation_step ms ob) = ob_label ob"
  by (induction ms arbitrary: ob) (simp_all add: step_keeps_label)

text \<open>The decision as a function of the moments: the first settling one wins.\<close>

fun settles :: "moment \<Rightarrow> result_kind option" where
  "settles (Observe now (Received (Inl e))) = (if e = OSError then Some Aborted else None)"
| "settles (Observe now (Received (Inr m))) = (if m = DisconnectMsg then Some Aborted else None)"
| "settles (Observe now (Sent m (Some e))) = (if e = OSError then Some Aborted else None)"
| "settles (Observe now (Sent m None)) = (case m of ResponseBody b False \<Rightarrow> Some Completed | _ \<Rightarrow> None)"
| "settles (Subscribe key) = None"
| "settles (Abort now) = Some Aborted"

fun first_settled :: "moment list \<Rightarrow> result_kind option" where
  "first_settled [] = None"
| "first_settled (m # ms) = (case settles m of Some k \<Rightarrow> Some k | None \<Rightarrow> first_settled ms)"

lemma step_result:
  "map_option oc_outcome (ob_result (observation_step m ob)) =
     (if ob_result ob = None then settles m else map_option oc_outcome (ob_result ob))"
proof (induction m rule: settles.induct)
  case (4 now m)
  then show ?case by (cases m) (auto simp: settle_def outcome_record_def Let_def split: bool.splits)
qed (auto simp: settle_def outcome_record_def subscribe_def Let_def split: option.splits)

lemma steps_result:
  "map_option oc_outcome (ob_result (fold observation_step ms ob)) =
     (if ob_result ob = None then first_settled ms else map_option oc_outcome (ob_result ob))"
proof (induction ms arbitrary: ob)
  case (Cons m ms)
  have "ob_result (observation_step m ob) = None \<longleftrightarrow> ob_result ob = None \<and> settles m = None"
    using step_result [of m ob] by (auto split: if_splits)
  then show ?case using Cons [of "observation_step m ob"] step_result [of m ob]
    by (auto split: option.splits if_splits)
qed simp

subsection \<open>Reports\<close>

text \<open>
  When the call ends, every subscriber has been told exactly once, all of them the same
  outcome, however subscriptions, messages, failures and aborts were interleaved; the outcome is
  the one of the first settling moment, and aborted if there was none.
\<close>

lemma observation_reported:
  "\<exists>r. ob_result (observed_call meth label t0 ms t1) = Some r \<and>
     distinct (map fst (ob_calls (observed_call meth label t0 ms t1))) \<and>
     set (map fst (ob_calls (observed_call meth label t0 ms t1))) = ob_subscribers (observed_call meth label t0 ms t1) \<and>
     list_all (\<lambda>c. snd c = r) (ob_calls (observed_call meth label t0 ms t1)) \<and>
     oc_outcome r = (case first_settled ms of Some k \<Rightarrow> k | None \<Rightarrow> Aborted)"
proof -
  let ?ob = "fold observation_step ms (new_observation meth label t0)"
  let ?final = "observed_call meth label t0 ms t1"
  have "observation_ok (new_observation meth label t0)" by (simp add: observation_ok_def new_observation_def)
  then have ok: "observation_ok ?final" unfolding observed_call_def by (intro settle_ok steps_ok)
  obtain r where r: "ob_result ?final = Some r" using settle_result unfolding observed_call_def by blast
  have "map_option oc_outcome (ob_result ?ob) = first_settled ms"
    using steps_result [of ms "new_observation meth label t0"] by (simp add: new_observation_def)
  then have "oc_outcome r = (case first_settled ms of Some k \<Rightarrow> k | None \<Rightarrow> Aborted)"
    using r by (auto simp: observed_call_def settle_def outcome_record_def Let_def split: option.splits if_splits)
  then show ?thesis using ok r by (auto simp: observation_ok_def list_all_iff)
qed

text \<open>
  Log and metric labels are bounded by the declared routes: whatever the request, the
  method label is a supported method or \<open><other>\<close>, and the route label is a declared template or
  \<open><unmatched>\<close>, never a concrete path.
\<close>

lemma outcome_labels_bounded:
  "\<exists>r. ob_result (observed_call meth (route_template rt [] None rs) t0 ms t1) = Some r \<and>
     oc_method r \<in> insert ''<other>'' (set METHODS) \<and>
     oc_route r \<in> insert ''<unmatched>'' (set (concat (map (labels []) rs)))"
proof -
  let ?l = "route_template rt [] None rs"
  let ?final = "observed_call meth ?l t0 ms t1"
  have "observation_ok (new_observation meth ?l t0)" by (simp add: observation_ok_def new_observation_def)
  then have ok: "observation_ok ?final" unfolding observed_call_def by (intro settle_ok steps_ok)
  have "ob_label ?final = ?l" by (simp add: observed_call_def settle_keeps steps_keep_label new_observation_def)
  moreover obtain r where "ob_result ?final = Some r" using settle_result unfolding observed_call_def by blast
  ultimately show ?thesis using ok route_template_in [of rt "[]" None rs] by (auto simp: observation_ok_def)
qed

end
