(* ===== verification/Timeout.thy ===== *)
theory Timeout
  imports Asgi Activity Cors
begin

text \<open>
  Request deadlines (\<^verbatim>\<open>app/common/middleware/request_timeout.py\<close>): a request is run by an owner, the
  application behind the middleware works in a task of its own, and a reader drains the server
  channel. Each definition is the code of one of them between two \<^verbatim>\<open>await\<close>s; \<open>deadline_step\<close>
  interleaves them.

  Messages that leave towards the server are collected in \<open>wire\<close>, marked with whether they come
  from the application or are the owner's own timeout response.
\<close>

record RequestTimeout =
  first_body_timeout :: rat
  chunk_timeout :: rat
  total_timeout :: rat

text \<open>No value stands for infinities and NaN.\<close>

definition positive :: "string \<Rightarrow> rat option \<Rightarrow> rat result" where
  "positive name v =
     (case v of
        Some q \<Rightarrow> if q \<le> 0 then Inl (ValueError (name @ '' must be finite and greater than zero'')) else Inr q
      | None \<Rightarrow> Inl (ValueError (name @ '' must be finite and greater than zero'')))"

definition new_timeout :: "rat option \<Rightarrow> rat option \<Rightarrow> rat option \<Rightarrow> RequestTimeout result" where
  "new_timeout first_body chunk tot =
     bindR (positive ''first_body_timeout'' first_body) (\<lambda>f.
     bindR (positive ''chunk_timeout'' chunk) (\<lambda>c.
     bindR (positive ''total_timeout'' tot) (\<lambda>t.
       Inr \<lparr>first_body_timeout = f, chunk_timeout = c, total_timeout = t\<rparr>)))"

subsection \<open>State\<close>

datatype phase = Deciding | AwaitingWork | Responding "message list" | Ending | Ended

datatype source = FromApp | FromOwner

record deadline =
  started :: bool
  closed :: bool
  disconnected :: bool
  completed :: bool
  interrupted :: bool
  body_started :: bool
  body_complete :: bool
  timeout_detail :: "string option"
  incoming :: "message list"
  in_flight :: "message option"
  activity :: RequestActivity
  work_done :: bool
  work_cancelled :: bool
  owner :: phase
  owner_error :: "exn option"
  wire :: "(source \<times> message) list"

definition new_deadline :: "RequestTimeout \<Rightarrow> time \<Rightarrow> RequestActivity \<Rightarrow> deadline" where
  "new_deadline mw now act =
     \<lparr>started = False, closed = False, disconnected = False, completed = False, interrupted = False,
      body_started = False, body_complete = False, timeout_detail = None, incoming = [], in_flight = None,
      activity = act \<lparr>act_expires_at :=
        Some (case act_expires_at act of None \<Rightarrow> now + total_timeout mw | Some t \<Rightarrow> min t (now + total_timeout mw))\<rparr>,
      work_done = False, work_cancelled = False, owner = Deciding, owner_error = None, wire = []\<rparr>"

subsection \<open>The reader\<close>

definition mark_disconnected :: "deadline \<Rightarrow> deadline" where
  "mark_disconnected d =
     d \<lparr>disconnected := True, activity := abandon ''Request disconnected.'' (activity d), interrupted := True\<rparr>"

definition read_message :: "message result \<Rightarrow> deadline \<Rightarrow> deadline" where
  "read_message r d =
     (case r of
        Inr m \<Rightarrow>
          if m = DisconnectMsg then (if \<not> completed d then mark_disconnected d else d)
          else d \<lparr>in_flight := Some m\<rparr>
      | Inl e \<Rightarrow> if e = OSError then mark_disconnected d else d)"

text \<open>\<^verbatim>\<open>Queue(maxsize=1).put\<close> completes when there is room.\<close>

definition put_message :: "deadline \<Rightarrow> deadline" where
  "put_message d =
     (case in_flight d of
        Some m \<Rightarrow> if incoming d = [] then d \<lparr>incoming := [m], in_flight := None\<rparr> else d
      | None \<Rightarrow> d)"

subsection \<open>The application's channels\<close>

text \<open>
  \<^verbatim>\<open>receive_body\<close>: \<open>None\<close> while it waits. The waiting ends with a message, with the interruption
  of a request whose body is complete, or with the timeout of the wait.
\<close>

definition receive_body :: "deadline \<Rightarrow> (message \<times> deadline) option" where
  "receive_body d =
     (if closed d \<or> disconnected d then Some (DisconnectMsg, d)
      else if body_complete d then (if interrupted d then Some (DisconnectMsg, d) else None)
      else
        (case incoming d of
           [] \<Rightarrow> None
         | m # ms \<Rightarrow>
             Some (m, d \<lparr>incoming := ms, body_started := True,
               body_complete := (case m of RequestMsg b more_body \<Rightarrow> \<not> more_body | _ \<Rightarrow> True)\<rparr>)))"

definition body_budget :: "RequestTimeout \<Rightarrow> deadline \<Rightarrow> rat" where
  "body_budget mw d = (if body_started d then chunk_timeout mw else first_body_timeout mw)"

definition body_timeout :: "deadline \<Rightarrow> deadline" where
  "body_timeout d =
     (let detail = (if body_started d then ''Request chunk timeout exceeded.''
                    else ''Request first body timeout exceeded.'') in
      d \<lparr>timeout_detail := Some detail, activity := abandon detail (activity d), interrupted := True\<rparr>)"

text \<open>\<^verbatim>\<open>send_response\<close> up to the server's \<^verbatim>\<open>send\<close>, and after it.\<close>

definition forwards :: "deadline \<Rightarrow> bool" where
  "forwards d \<longleftrightarrow> \<not> (closed d \<or> disconnected d \<or> completed d)"

definition send_response :: "message \<Rightarrow> deadline \<Rightarrow> deadline" where
  "send_response m d =
     (if forwards d then d \<lparr>started := started d \<or> is_start m, wire := wire d @ [(FromApp, m)]\<rparr> else d)"

definition sent_response :: "message \<Rightarrow> exn option \<Rightarrow> deadline \<Rightarrow> deadline" where
  "sent_response m r d =
     (case r of
        Some e \<Rightarrow> if e = OSError then mark_disconnected d else d
      | None \<Rightarrow> (case m of ResponseBody b more_body \<Rightarrow> if more_body then d else d \<lparr>completed := True\<rparr> | _ \<Rightarrow> d))"

text \<open>The mutation owner's claim (\<^verbatim>\<open>application_route.py\<close>): an active request becomes owned.\<close>

definition claim_mutation :: "time \<Rightarrow> deadline \<Rightarrow> deadline" where
  "claim_mutation now d =
     (case assert_active now (activity d) of
        (Inr _, a) \<Rightarrow> d \<lparr>activity := a \<lparr>owns_mutation := True\<rparr>\<rparr>
      | (Inl e, a) \<Rightarrow> d \<lparr>activity := a\<rparr>)"

subsection \<open>The owner\<close>

definition cancel_unowned :: "deadline \<Rightarrow> deadline" where
  "cancel_unowned d = (if \<not> owns_mutation (activity d) then d \<lparr>work_cancelled := True\<rparr> else d)"

text \<open>The 408 response, which carries the CORS headers decided so far.\<close>

definition timeout_response :: "framework \<Rightarrow> int \<Rightarrow> scope \<Rightarrow> string \<Rightarrow> prog" where
  "timeout_response fw ts sc detail =
     map_send (apply_cors_response_headers fw sc) (error_response fw ts 408 detail [])"

definition timeout_messages :: "framework \<Rightarrow> int \<Rightarrow> scope \<Rightarrow> string \<Rightarrow> message list" where
  "timeout_messages fw ts sc detail =
     sent (events (timeout_response fw ts sc detail) [SendAnswer None, SendAnswer None])"

text \<open>
  The owner after its wait, with \<open>expired\<close> for a wait that ended without any task being done.
  \<open>response\<close> are the messages of the 408 response for a detail.
\<close>

definition decide :: "(string \<Rightarrow> message list) \<Rightarrow> bool \<Rightarrow> deadline \<Rightarrow> deadline" where
  "decide response expired d =
     (if completed d then d \<lparr>owner := AwaitingWork\<rparr>
      else if disconnected d then (cancel_unowned (d \<lparr>closed := True\<rparr>)) \<lparr>owner := Ending\<rparr>
      else if timeout_detail d \<noteq> None \<or> expired then
        (let detail = (case timeout_detail d of Some t \<Rightarrow> t | None \<Rightarrow> RESPONSE_DEADLINE_MESSAGE);
             d' = cancel_unowned (d \<lparr>closed := True, activity := abandon detail (activity d)\<rparr>) in
         if started d then d' \<lparr>owner := Ending, owner_error := Some (RuntimeError detail)\<rparr>
         else d' \<lparr>owner := Responding (response detail)\<rparr>)
      else d \<lparr>owner := AwaitingWork\<rparr>)"

fun owner_respond :: "phase \<Rightarrow> deadline \<Rightarrow> deadline" where
  "owner_respond (Responding (m # ms)) d = d \<lparr>wire := wire d @ [(FromOwner, m)], owner := Responding ms\<rparr>"
| "owner_respond (Responding []) d = d \<lparr>owner := Ending\<rparr>"
| "owner_respond ph d = d"

text \<open>The \<^verbatim>\<open>finally\<close> block. Cancellation that was already requested is not repeated.\<close>

definition finish :: "deadline \<Rightarrow> deadline" where
  "finish d =
     (let d1 = d \<lparr>closed := True, owner := Ended\<rparr> in
      if work_done d then d1
      else
        (let d2 = d1 \<lparr>activity := abandon ''Request interrupted.'' (activity d1)\<rparr> in
         if \<not> work_cancelled d2 then cancel_unowned d2 else d2))"

text \<open>The server may cancel the owner; if it is awaiting the work, that is cancelled with it.\<close>

definition cancel_owner :: "deadline \<Rightarrow> deadline" where
  "cancel_owner d =
     (if owner d = AwaitingWork \<and> \<not> work_done d
      then d \<lparr>owner := Ending, owner_error := Some CancelledError, work_cancelled := True\<rparr>
      else d \<lparr>owner := Ending, owner_error := Some CancelledError\<rparr>)"

text \<open>
  The owner wakes when the work is done, a watcher is, or the time is up. It leaves \<^verbatim>\<open>await work\<close>
  when the work is done.
\<close>

inductive deadline_step :: "(string \<Rightarrow> message list) \<Rightarrow> deadline \<Rightarrow> deadline \<Rightarrow> bool" for response where
  Read: "in_flight d = None \<Longrightarrow> deadline_step response d (read_message r d)"
| Put: "deadline_step response d (put_message d)"
| Body: "receive_body d = Some (m, d') \<Longrightarrow> \<not> work_done d \<Longrightarrow> deadline_step response d d'"
| BodyTimeout: "receive_body d = None \<Longrightarrow> \<not> work_done d \<Longrightarrow> \<not> body_complete d \<Longrightarrow> deadline_step response d (body_timeout d)"
| Sending: "\<not> work_done d \<Longrightarrow> deadline_step response d (send_response m d)"
| SentAnswer: "\<not> work_done d \<Longrightarrow> (FromApp, m) \<in> set (wire d) \<Longrightarrow> deadline_step response d (sent_response m r d)"
| Claim: "\<not> work_done d \<Longrightarrow> deadline_step response d (claim_mutation now d)"
| WorkDone: "deadline_step response d (d \<lparr>work_done := True\<rparr>)"
| Decide: "owner d = Deciding \<Longrightarrow> expired \<or> work_done d \<or> interrupted d \<or> completed d \<Longrightarrow>
    deadline_step response d (decide response expired d)"
| ReaderFailed: "owner d = Deciding \<Longrightarrow> \<not> completed d \<Longrightarrow> \<not> disconnected d \<Longrightarrow>
    deadline_step response d (d \<lparr>owner := Ending, owner_error := Some e\<rparr>)"
| WorkEnds: "owner d = AwaitingWork \<Longrightarrow> work_done d \<Longrightarrow> deadline_step response d (d \<lparr>owner := Ending\<rparr>)"
| Respond: "deadline_step response d (owner_respond (owner d) d)"
| RespondFailed: "owner d = Responding ms \<Longrightarrow> deadline_step response d (d \<lparr>owner := Ending, owner_error := Some e\<rparr>)"
| Finish: "owner d = Ending \<Longrightarrow> deadline_step response d (finish d)"
| CancelOwner: "owner d \<noteq> Ended \<Longrightarrow> deadline_step response d (cancel_owner d)"

inductive deadline_reach :: "(string \<Rightarrow> message list) \<Rightarrow> deadline \<Rightarrow> deadline \<Rightarrow> bool" for response d0 where
  Init: "deadline_reach response d0 d0"
| Step: "deadline_reach response d0 d \<Longrightarrow> deadline_step response d d' \<Longrightarrow> deadline_reach response d0 d'"

inductive_cases deadline_stepE: "deadline_step response d d'"

subsection \<open>The invariant\<close>

definition app_started :: "deadline \<Rightarrow> bool" where
  "app_started d \<longleftrightarrow> (\<exists>m. (FromApp, m) \<in> set (wire d) \<and> is_start m)"

definition owner_spoke :: "deadline \<Rightarrow> bool" where
  "owner_spoke d \<longleftrightarrow> (\<exists>m. (FromOwner, m) \<in> set (wire d)) \<or> (\<exists>ms. owner d = Responding ms)"

definition wire_ok :: "deadline \<Rightarrow> bool" where
  "wire_ok d \<longleftrightarrow> (app_started d \<longleftrightarrow> started d) \<and> (owner_spoke d \<longrightarrow> closed d \<and> \<not> started d)"

text \<open>Cancelled work owns no mutation and cannot claim one any more, unless its response is complete.\<close>

definition work_ok :: "deadline \<Rightarrow> bool" where
  "work_ok d \<longleftrightarrow>
     (work_cancelled d \<longrightarrow> completed d \<or> \<not> owns_mutation (activity d) \<and> act_abandoned (activity d) \<noteq> None) \<and>
     (owner d = AwaitingWork \<longrightarrow> completed d \<or> work_done d) \<and>
     (disconnected d \<or> timeout_detail d \<noteq> None \<longrightarrow> act_abandoned (activity d) \<noteq> None) \<and>
     (interrupted d \<longrightarrow> disconnected d \<or> timeout_detail d \<noteq> None)"

lemma abandon_simps [simp]:
  "act_abandoned (abandon r a) \<noteq> None" "owns_mutation (abandon r a) = owns_mutation a"
  by (auto simp: abandon_def)

declare abandon_abandoned [simp]

lemma abandon_not_None: "act_abandoned a \<noteq> None \<Longrightarrow> abandon r a = a"
  by (auto simp: abandon_def)

lemma cancel_unowned_simps [simp]:
  "started (cancel_unowned d) = started d" "closed (cancel_unowned d) = closed d" "completed (cancel_unowned d) = completed d"
  "disconnected (cancel_unowned d) = disconnected d" "interrupted (cancel_unowned d) = interrupted d"
  "timeout_detail (cancel_unowned d) = timeout_detail d" "activity (cancel_unowned d) = activity d"
  "work_done (cancel_unowned d) = work_done d" "owner (cancel_unowned d) = owner d" "wire (cancel_unowned d) = wire d"
  "work_cancelled (cancel_unowned d) = (work_cancelled d \<or> \<not> owns_mutation (activity d))"
  by (auto simp: cancel_unowned_def)

lemmas step_defs = read_message_def put_message_def receive_body_def body_timeout_def send_response_def sent_response_def
  claim_mutation_def decide_def finish_def cancel_owner_def mark_disconnected_def Let_def

lemma wire_ok_step: "deadline_step response d d' \<Longrightarrow> wire_ok d \<Longrightarrow> wire_ok d'"
proof (induction rule: deadline_step.induct)
  case (Sending d m)
  then show ?case by (auto simp: wire_ok_def app_started_def owner_spoke_def send_response_def forwards_def)
next
  case (Respond d)
  then show ?case
    by (cases "(owner d, d)" rule: owner_respond.cases) (auto simp: wire_ok_def app_started_def owner_spoke_def)
next
  case (Decide d expired)
  then show ?case by (auto simp: decide_def wire_ok_def app_started_def owner_spoke_def Let_def split: option.splits)
qed (auto simp: wire_ok_def app_started_def owner_spoke_def step_defs split: sum.splits option.splits message.splits
      prod.splits list.splits if_splits)

lemma work_ok_step: "deadline_step response d d' \<Longrightarrow> work_ok d \<Longrightarrow> work_ok d'"
proof (induction rule: deadline_step.induct)
  case (Claim d now)
  then show ?case
    by (auto simp: work_ok_def claim_mutation_def assert_active_def split: option.splits if_splits)
next
  case (Decide d expired)
  then show ?case
    by (auto simp: work_ok_def decide_def Let_def)
next
  case (Respond d)
  then show ?case by (cases "(owner d, d)" rule: owner_respond.cases) (auto simp: work_ok_def)
next
  case (Finish d)
  then show ?case by (auto simp: work_ok_def finish_def Let_def)
qed (auto simp: work_ok_def step_defs split: sum.splits option.splits message.splits prod.splits list.splits if_splits)

lemma reach_ok:
  assumes "deadline_reach response (new_deadline mw now act) d"
  shows "wire_ok d" "work_ok d"
proof -
  have "wire_ok d \<and> work_ok d"
    using assms
  proof (induction rule: deadline_reach.induct)
    case Init
    then show ?case
      by (auto simp: wire_ok_def work_ok_def app_started_def owner_spoke_def new_deadline_def)
  next
    case (Step d d')
    then show ?case using wire_ok_step work_ok_step by blast
  qed
  then show "wire_ok d" "work_ok d" by simp_all
qed

definition app_messages :: "deadline \<Rightarrow> message list" where
  "app_messages d = map snd (filter (\<lambda>x. fst x = FromApp) (wire d))"

lemma closed_step:
  "deadline_step response d d' \<Longrightarrow> closed d \<Longrightarrow> closed d' \<and> app_messages d' = app_messages d"
proof (induction rule: deadline_step.induct)
  case (Respond d)
  then show ?case by (cases "(owner d, d)" rule: owner_respond.cases) (auto simp: app_messages_def)
qed (auto simp: app_messages_def step_defs forwards_def split: sum.splits option.splits message.splits prod.splits
      list.splits if_splits)

subsection \<open>Properties\<close>

text \<open>
  Property C8. However the application, the reader, the timers and cancellations interleave, the
  server never sees two responses: a message of the owner's 408 response is on the wire only if
  no response start of the application is, and from then on none will follow.
\<close>

theorem timeout_one_response:
  assumes "deadline_reach response (new_deadline mw now act) d" "(FromOwner, m) \<in> set (wire d)"
    and "deadline_reach response d d'"
  shows "\<not> app_started d' \<and> app_messages d' = app_messages d"
proof -
  have "closed d" using reach_ok(1) [OF assms(1)] assms(2) by (auto simp: wire_ok_def owner_spoke_def)
  have "deadline_reach response (new_deadline mw now act) d' \<and> closed d' \<and> app_messages d' = app_messages d \<and>
      (FromOwner, m) \<in> set (wire d')"
    using assms(3)
  proof (induction rule: deadline_reach.induct)
    case Init
    then show ?case using assms(1,2) \<open>closed d\<close> by simp
  next
    case (Step e e')
    have "set (wire e) \<subseteq> set (wire e')"
      using Step.hyps(2)
    proof (induction rule: deadline_step.induct)
      case (Respond d)
      then show ?case by (cases "(owner d, d)" rule: owner_respond.cases) auto
    qed (auto simp: step_defs cancel_unowned_def split: sum.splits option.splits message.splits prod.splits list.splits if_splits)
    then show ?case using Step.IH closed_step [OF Step.hyps(2)] deadline_reach.Step [OF _ Step.hyps(2)] by auto
  qed
  then show ?thesis using reach_ok(1) [of response mw now act d'] by (auto simp: wire_ok_def owner_spoke_def)
qed

text \<open>
  Property C9. A mutation is never cancelled half way: whenever the work of a request has been
  cancelled, its response was already complete, or it owns no mutation and every later attempt to
  claim one is refused.
\<close>

theorem mutation_not_cancelled:
  assumes "deadline_reach response (new_deadline mw now act) d" "work_cancelled d" "\<not> completed d"
  shows "\<not> owns_mutation (activity d) \<and> (\<exists>e. assert_active later (activity d) = (Inl e, activity d)) \<and>
    \<not> owns_mutation (activity (claim_mutation later d))"
proof -
  have "\<not> owns_mutation (activity d)" "\<exists>r. act_abandoned (activity d) = Some r"
    using reach_ok(2) [OF assms(1)] assms(2,3) by (auto simp: work_ok_def)
  then show ?thesis by (auto simp: assert_active_def claim_mutation_def)
qed

text \<open>
  Once a request is closed nothing of the application reaches the server any more, and
  its reads end with a disconnect.
\<close>

lemma closed_request_is_silent:
  assumes "deadline_step response d d'" "closed d"
  shows "closed d' \<and> app_messages d' = app_messages d \<and> receive_body d' = Some (DisconnectMsg, d')"
  using closed_step [OF assms] by (simp add: receive_body_def)

definition sample_timeout :: RequestTimeout where
  "sample_timeout = \<lparr>first_body_timeout = 5, chunk_timeout = 2, total_timeout = 10\<rparr>"

definition sample_response :: "string \<Rightarrow> message list" where
  "sample_response detail = [ResponseStart 408 [], ResponseBody detail False]"

text \<open>The deadline passes before the application answers.\<close>

definition expired_request :: deadline where
  "expired_request = decide sample_response True (new_deadline sample_timeout 0 new_activity)"

lemma expired_reach: "deadline_reach sample_response (new_deadline sample_timeout 0 new_activity) expired_request"
  unfolding expired_request_def
  by (rule deadline_reach.Step [OF deadline_reach.Init], rule deadline_step.Decide) (simp_all add: new_deadline_def)

theorem timeout_one_response_witness:
  "\<not> app_started (send_response (ResponseStart 200 []) (owner_respond (owner expired_request) expired_request))"
proof -
  let ?d = "owner_respond (owner expired_request) expired_request"
  have r: "deadline_reach sample_response (new_deadline sample_timeout 0 new_activity) ?d"
    by (rule deadline_reach.Step [OF expired_reach deadline_step.Respond])
  have w: "(FromOwner, ResponseStart 408 []) \<in> set (wire ?d)" "\<not> work_done ?d"
    by (simp_all add: expired_request_def decide_def new_deadline_def sample_response_def cancel_unowned_def new_activity_def)
  have "deadline_reach sample_response ?d (send_response (ResponseStart 200 []) ?d)"
    by (rule deadline_reach.Step [OF deadline_reach.Init], rule deadline_step.Sending) (rule w(2))
  from timeout_one_response [OF r w(1) this] show ?thesis by blast
qed

theorem mutation_not_cancelled_witness: "\<not> owns_mutation (activity (claim_mutation 1 expired_request))"
proof -
  have "work_cancelled expired_request" "\<not> completed expired_request"
    by (simp_all add: expired_request_def decide_def new_deadline_def new_activity_def)
  from mutation_not_cancelled [OF expired_reach this, of 1] show ?thesis by blast
qed

end
