(* ===== verification/Background.thy ===== *)
theory Background
  imports Asgi Gates
begin

text \<open>
  Work that outlives a single message: the registry of request work and the admission gate in
  front of it (\<^verbatim>\<open>app/common/handlers/request_work.py\<close>), the shared database probe
  (\<^verbatim>\<open>app/common/handlers/database_readiness.py\<close>), the control of the idempotency cleanup task
  (\<^verbatim>\<open>app/common/services/idempotency_cleanup_service.py\<close>) and the cleanup of the request context
  (\<^verbatim>\<open>app/common/middleware/request_cleanup.py\<close>).

  Tasks are numbers; whether a task is done is given by the event loop.
\<close>

subsection \<open>Request work\<close>

record RequestWork =
  drain_seconds :: rat
  draining_at :: "time option"
  failed :: bool
  tasks :: "nat set"

definition new_work :: "rat \<Rightarrow> RequestWork" where
  "new_work seconds = \<lparr>drain_seconds = seconds, draining_at = None, failed = False, tasks = {}\<rparr>"

definition resume :: "nat set \<Rightarrow> RequestWork \<Rightarrow> RequestWork result" where
  "resume finished w =
     (if \<not> tasks w \<subseteq> finished then Inl (RuntimeError ''Cannot resume while previous request work is active.'')
      else Inr (w \<lparr>tasks := {}, draining_at := None, failed := False\<rparr>))"

definition quiesce_work :: "time \<Rightarrow> RequestWork \<Rightarrow> RequestWork" where
  "quiesce_work now w = (if draining_at w = None then w \<lparr>draining_at := Some now\<rparr> else w)"

definition track :: "nat \<Rightarrow> RequestWork \<Rightarrow> RequestWork" where
  "track t w = w \<lparr>tasks := insert t (tasks w)\<rparr>"

definition discard :: "nat \<Rightarrow> RequestWork \<Rightarrow> RequestWork" where
  "discard t w = w \<lparr>tasks := tasks w - {t}\<rparr>"

definition remaining :: "time \<Rightarrow> RequestWork \<Rightarrow> rat" where
  "remaining now w =
     (case draining_at w of
        None \<Rightarrow> drain_seconds w
      | Some t \<Rightarrow> max 0 (drain_seconds w - (now - t)))"

text \<open>
  Draining, driven by what happens during each wait: the tasks that are still not done when it
  ends, and tasks that running requests registered meanwhile. \<open>None\<close> means that it is still
  waiting. The second component of the result are the tasks that were cancelled and awaited.
\<close>

record round =
  still_running :: "nat set"
  registered :: "nat set"

fun drain_loop :: "round list \<Rightarrow> nat set \<Rightarrow> RequestWork \<Rightarrow> (RequestWork \<times> nat set) option" where
  "drain_loop rs finished w =
     (let pending = tasks w - finished in
      if pending = {} then Some (w, {})
      else
        (case rs of
           [] \<Rightarrow> None
         | r # rest \<Rightarrow>
             (let unfinished = pending \<inter> still_running r in
              if unfinished \<noteq> {} then Some (w \<lparr>failed := True, tasks := tasks w \<union> registered r\<rparr>, unfinished)
              else drain_loop rest (finished \<union> pending) (w \<lparr>tasks := tasks w \<union> registered r\<rparr>))))"

declare drain_loop.simps [simp del]

definition drain :: "time \<Rightarrow> round list \<Rightarrow> nat set \<Rightarrow> RequestWork \<Rightarrow> (RequestWork \<times> nat set) option" where
  "drain now rs finished w = drain_loop rs finished (quiesce_work now w)"

text \<open>The gate: requests are refused while draining, and tracked while they run otherwise.\<close>

definition with_header :: "framework \<Rightarrow> string \<Rightarrow> string \<Rightarrow> message \<Rightarrow> message" where
  "with_header fw n v m = (case m of ResponseStart st hs \<Rightarrow> ResponseStart st (headers_set fw hs n v) | _ \<Rightarrow> m)"

definition admission_call ::
  "framework \<Rightarrow> int \<Rightarrow> nat \<Rightarrow> app \<Rightarrow> scope \<Rightarrow> RequestWork \<Rightarrow> prog \<times> RequestWork" where
  "admission_call fw ts t app sc w =
     (if \<not> is_http sc then (app sc, w)
      else if draining_at w \<noteq> None then
        (map_send (with_header fw ''Connection'' ''close'')
           (error_response fw ts 503 ''Application is shutting down.'' []), w)
      else (app sc, track t w))"

subsection \<open>The request context\<close>

text \<open>The context variables after the call are cleared however it ends.\<close>

definition cleanup_call :: "('c \<Rightarrow> outcome \<times> 'c) \<Rightarrow> 'c \<Rightarrow> 'c \<Rightarrow> outcome \<times> 'c" where
  "cleanup_call app cleared c = (case app c of (r, c') \<Rightarrow> (r, cleared))"

subsection \<open>The database probe\<close>

record DatabaseReadiness =
  rd_timeout :: rat
  rd_cache :: rat
  rd_active :: "nat option"
  rd_cached :: "(bool \<times> time) option"
  rd_stopped :: bool

definition new_readiness :: "int \<Rightarrow> int \<Rightarrow> DatabaseReadiness result" where
  "new_readiness timeout_ms cache_ms =
     (if timeout_ms \<le> 0 \<or> cache_ms < 0 then Inl (ValueError ''Invalid database readiness policy.'')
      else Inr \<lparr>rd_timeout = of_int timeout_ms / 1000, rd_cache = of_int cache_ms / 1000,
        rd_active = None, rd_cached = None, rd_stopped = True\<rparr>)"

definition rd_resume :: "DatabaseReadiness \<Rightarrow> DatabaseReadiness" where
  "rd_resume r = r \<lparr>rd_stopped := False, rd_cached := None\<rparr>"

datatype answer_of = Answer bool | Join nat | Probe nat

definition rd_check :: "time \<Rightarrow> nat \<Rightarrow> DatabaseReadiness \<Rightarrow> answer_of \<times> DatabaseReadiness" where
  "rd_check now fresh r =
     (if rd_stopped r then (Answer False, r)
      else
        (case rd_active r of
           Some t \<Rightarrow> (Join t, r)
         | None \<Rightarrow>
             (case rd_cached r of
                Some (healthy, until) \<Rightarrow>
                  if now < until then (Answer healthy, r) else (Probe fresh, r \<lparr>rd_active := Some fresh\<rparr>)
              | None \<Rightarrow> (Probe fresh, r \<lparr>rd_active := Some fresh\<rparr>))))"

text \<open>The probe answers \<open>False\<close> for every exception but a cancellation.\<close>

definition probe_result :: "unit result \<Rightarrow> bool option" where
  "probe_result r = (case r of Inr _ \<Rightarrow> Some True | Inl e \<Rightarrow> if is_exception e then Some False else None)"

definition rd_finished :: "time \<Rightarrow> nat \<Rightarrow> unit result \<Rightarrow> DatabaseReadiness \<Rightarrow> DatabaseReadiness" where
  "rd_finished now t res r =
     (let r' = (if rd_active r = Some t then r \<lparr>rd_active := None\<rparr> else r) in
      case probe_result res of
        None \<Rightarrow> r'
      | Some healthy \<Rightarrow> if rd_stopped r' then r' else r' \<lparr>rd_cached := Some (healthy, now + rd_cache r')\<rparr>)"

definition rd_stop :: "DatabaseReadiness \<Rightarrow> DatabaseReadiness" where
  "rd_stop r = r \<lparr>rd_stopped := True, rd_cached := None, rd_active := None\<rparr>"

subsection \<open>The cleanup task\<close>

record IdempotencyCleanupService =
  cl_accepting :: bool
  cl_stop :: bool
  cl_timer :: "nat option"
  cl_pending :: "nat option"

definition new_cleanup :: IdempotencyCleanupService where
  "new_cleanup = \<lparr>cl_accepting = False, cl_stop = False, cl_timer = None, cl_pending = None\<rparr>"

definition cl_start :: "nat \<Rightarrow> IdempotencyCleanupService \<Rightarrow> IdempotencyCleanupService" where
  "cl_start t c =
     (if cl_accepting c then c else c \<lparr>cl_accepting := True, cl_stop := False, cl_timer := Some t\<rparr>)"

definition cl_quiesce :: "IdempotencyCleanupService \<Rightarrow> IdempotencyCleanupService" where
  "cl_quiesce c = c \<lparr>cl_accepting := False, cl_stop := True\<rparr>"

text \<open>Stopping waits for the timer, and then for a sweep that is still running.\<close>

definition cl_stopped :: "IdempotencyCleanupService \<Rightarrow> IdempotencyCleanupService" where
  "cl_stopped c = (cl_quiesce c) \<lparr>cl_timer := None\<rparr>"

definition cl_check :: "nat set \<Rightarrow> IdempotencyCleanupService \<Rightarrow> bool" where
  "cl_check finished c \<longleftrightarrow> cl_accepting c \<and> (case cl_timer c of None \<Rightarrow> False | Some t \<Rightarrow> t \<notin> finished)"

text \<open>A request to sweep: the sweep to await, or nothing to do.\<close>

definition cl_sweep :: "nat \<Rightarrow> IdempotencyCleanupService \<Rightarrow> nat option \<times> IdempotencyCleanupService" where
  "cl_sweep fresh c =
     (case cl_pending c of
        Some t \<Rightarrow> (Some t, c)
      | None \<Rightarrow> if \<not> cl_accepting c then (None, c) else (Some fresh, c \<lparr>cl_pending := Some fresh\<rparr>))"

definition cl_sweep_done :: "nat \<Rightarrow> IdempotencyCleanupService \<Rightarrow> IdempotencyCleanupService" where
  "cl_sweep_done t c = (if cl_pending c = Some t then c \<lparr>cl_pending := None\<rparr> else c)"

subsection \<open>Histories of the probe\<close>

text \<open>
  A history of checks, probes that end, stops and resumes, with the probes that are running and
  the last result since the last stop or resume.
\<close>

datatype probe_event = CheckAt time nat | ProbeEnded time nat "unit result" | Stopped | Resumed

record probe_history =
  readiness :: DatabaseReadiness
  running :: "nat list"
  latest :: "(bool \<times> time) option"

fun probe_step :: "probe_event \<Rightarrow> probe_history \<Rightarrow> probe_history" where
  "probe_step (CheckAt now t) h =
     (case rd_check now t (readiness h) of
        (Probe t', r) \<Rightarrow> h \<lparr>readiness := r, running := running h @ [t']\<rparr>
      | (_, r) \<Rightarrow> h \<lparr>readiness := r\<rparr>)"
| "probe_step (ProbeEnded now t res) h =
     (if t \<in> set (running h)
      then h \<lparr>readiness := rd_finished now t res (readiness h), running := removeAll t (running h),
        latest := (case probe_result res of
          Some b \<Rightarrow> if rd_stopped (readiness h) then latest h else Some (b, now) | None \<Rightarrow> latest h)\<rparr>
      else h)"
| "probe_step Stopped h = h \<lparr>readiness := rd_stop (readiness h), running := [], latest := None\<rparr>"
| "probe_step Resumed h = h \<lparr>readiness := rd_resume (readiness h), latest := None\<rparr>"

definition probe_run :: "probe_event list \<Rightarrow> DatabaseReadiness \<Rightarrow> probe_history" where
  "probe_run evs r = fold probe_step evs \<lparr>readiness = r, running = [], latest = None\<rparr>"

definition probe_ok :: "rat \<Rightarrow> probe_history \<Rightarrow> bool" where
  "probe_ok c h \<longleftrightarrow>
     running h = (case rd_active (readiness h) of None \<Rightarrow> [] | Some t \<Rightarrow> [t]) \<and>
     rd_cached (readiness h) = map_option (\<lambda>(b, t). (b, t + c)) (latest h) \<and> rd_cache (readiness h) = c"

lemma rd_check_keeps:
  "rd_check now t r = (a, r') \<Longrightarrow> rd_cached r' = rd_cached r \<and> rd_cache r' = rd_cache r \<and>
     (case a of Probe u \<Rightarrow> u = t \<and> rd_active r = None \<and> rd_active r' = Some t | _ \<Rightarrow> rd_active r' = rd_active r)"
  by (auto simp: rd_check_def split: if_splits option.splits)

lemma probe_step_ok:
  assumes "probe_ok c h"
  shows "probe_ok c (probe_step ev h)"
proof (cases ev)
  case (CheckAt now t)
  obtain a r where ar: "rd_check now t (readiness h) = (a, r)" by force
  show ?thesis using assms rd_check_keeps [OF ar] ar CheckAt by (cases a) (auto simp: probe_ok_def)
next
  case (ProbeEnded now t res)
  then show ?thesis using assms
    by (auto simp: probe_ok_def rd_finished_def Let_def split: option.splits)
qed (use assms in \<open>auto simp: probe_ok_def rd_stop_def rd_resume_def split: option.splits\<close>)

lemma probe_run_ok:
  assumes "new_readiness timeout_ms cache_ms = Inr r"
  shows "probe_ok (rd_cache r) (probe_run evs r)"
proof -
  have "probe_ok c h \<Longrightarrow> probe_ok c (fold probe_step evs h)" for c h
    by (induction evs arbitrary: h) (simp_all add: probe_step_ok)
  moreover have "probe_ok (rd_cache r) \<lparr>readiness = r, running = [], latest = None\<rparr>"
    using assms by (auto simp: new_readiness_def probe_ok_def split: if_splits)
  ultimately show ?thesis by (simp add: probe_run_def)
qed

lemma quiesce_work_idem: "quiesce_work later (quiesce_work now w) = quiesce_work now w"
  by (simp add: quiesce_work_def)

lemma drain_loop_keeps:
  "drain_loop rs finished w = Some (w', cancelled) \<Longrightarrow> draining_at w' = draining_at w \<and> (failed w' \<longleftrightarrow> failed w \<or> cancelled \<noteq> {})"
proof (induction rs finished w rule: drain_loop.induct)
  case (1 rs finished w)
  then show ?case
    by (subst (asm) (2) drain_loop.simps) (auto simp: Let_def split: if_splits list.splits)
qed

text \<open>
  A drain returns once there are as many waits as tasks: every wait that does not end the drain
  saw at least one more task finish, and \<open>T\<close> bounds the tasks there ever are.
\<close>

definition bounded_work :: "nat set \<Rightarrow> round list \<Rightarrow> RequestWork \<Rightarrow> bool" where
  "bounded_work T rs w \<longleftrightarrow> finite T \<and> tasks w \<subseteq> T \<and> list_all (\<lambda>r. registered r \<subseteq> T) rs"

lemma drain_loop_returns:
  "bounded_work T rs w \<Longrightarrow> card (T - finished) \<le> length rs \<Longrightarrow> drain_loop rs finished w \<noteq> None"
proof (induction rs finished w rule: drain_loop.induct)
  case (1 rs finished w)
  note ih = 1(1) and b = 1(2) and c = 1(3)
  let ?pending = "tasks w - finished"
  show ?case
  proof (cases "?pending = {}")
    case True
    then show ?thesis by (simp add: drain_loop.simps)
  next
    case False
    have p: "?pending \<subseteq> T - finished" "finite (T - finished)" using b by (auto simp: bounded_work_def)
    then have "0 < card (T - finished)" using False card_gt_0_iff by fastforce
    then obtain r rest where rs: "rs = r # rest" using c by (cases rs) auto
    have "T - (finished \<union> ?pending) \<subset> T - finished" using False p(1) by blast
    then have "card (T - (finished \<union> ?pending)) < card (T - finished)" by (rule psubset_card_mono [OF p(2)])
    then have "card (T - (finished \<union> ?pending)) \<le> length rest" using c rs by simp
    moreover have "bounded_work T rest (w \<lparr>tasks := tasks w \<union> registered r\<rparr>)"
      using b rs by (simp add: bounded_work_def)
    ultimately have "?pending \<inter> still_running r = {} \<Longrightarrow>
        drain_loop rest (finished \<union> ?pending) (w \<lparr>tasks := tasks w \<union> registered r\<rparr>) \<noteq> None"
      using ih [OF refl False rs refl] by simp
    then show ?thesis using False rs by (subst drain_loop.simps) (simp add: Let_def)
  qed
qed

lemma drain_returns:
  assumes "bounded_work T rs w" "card T \<le> length rs"
  shows "drain now rs finished w \<noteq> None"
proof -
  have "card (T - finished) \<le> length rs"
    using assms card_mono [of T "T - finished"] by (auto simp: bounded_work_def)
  moreover have "bounded_work T rs (quiesce_work now w)" using assms(1) by (simp add: bounded_work_def quiesce_work_def)
  ultimately show ?thesis unfolding drain_def by (rule drain_loop_returns [rotated])
qed

subsection \<open>Properties\<close>

text \<open>
  Property C28. Whatever the order of checks, finished probes, stops and resumes, at most one probe
  runs at a time, and a check that answers at once says \<open>False\<close> because the service is stopped or
  repeats the result of a probe that ended, since the last resume, less than the caching time ago.
\<close>

theorem readiness_single_flight:
  assumes "new_readiness timeout_ms cache_ms = Inr r"
  shows "length (running (probe_run evs r)) \<le> 1 \<and>
    (fst (rd_check now t (readiness (probe_run evs r))) = Answer b \<longrightarrow>
       rd_stopped (readiness (probe_run evs r)) \<and> \<not> b \<or>
       (\<exists>ended. latest (probe_run evs r) = Some (b, ended) \<and> now < ended + of_int cache_ms / 1000))"
proof -
  let ?h = "probe_run evs r"
  have ok: "probe_ok (rd_cache r) ?h" by (rule probe_run_ok [OF assms])
  have c: "rd_cache r = of_int cache_ms / 1000" using assms by (auto simp: new_readiness_def split: if_splits)
  have "length (running ?h) \<le> 1" using ok by (simp add: probe_ok_def split: option.splits)
  moreover have "rd_stopped (readiness ?h) \<and> \<not> b \<or> (\<exists>ended. latest ?h = Some (b, ended) \<and> now < ended + rd_cache r)"
    if "fst (rd_check now t (readiness ?h)) = Answer b"
    using that ok by (auto simp: probe_ok_def rd_check_def split: if_splits option.splits)
  ultimately show ?thesis by (simp add: c)
qed

theorem readiness_single_flight_witness:
  "length (running (probe_run [Resumed, CheckAt 0 1, CheckAt 0 2, ProbeEnded 1 1 (Inr ()), CheckAt 3 4]
     \<lparr>rd_timeout = 1, rd_cache = 1, rd_active = None, rd_cached = None, rd_stopped = True\<rparr>)) \<le> 1"
proof -
  have "new_readiness 1000 1000 = Inr \<lparr>rd_timeout = 1, rd_cache = 1, rd_active = None, rd_cached = None, rd_stopped = True\<rparr>"
    by (simp add: new_readiness_def)
  from readiness_single_flight [OF this] show ?thesis by blast
qed



end
