(* ===== verification/Application.thy ===== *)
theory Application
  imports Responses Proxy Cors Environment Lifecycle Background
begin

text \<open>
  The composition of the service (\<^verbatim>\<open>app/config/application.py\<close>): the middleware stack in the order in
  which \<^verbatim>\<open>create_app\<close> adds it, configured from the settings, and the lifespan that brings the
  lifecycle handler and the registry of request work together.

  The stack is described here from the trusted proxy inwards; \<open>Stack\<close> puts the rest around it. Outside
  are the observation of the outcome, which changes no message, the suppression of bodies for HEAD, the admission gate
  and Starlette's last-resort error response. The request deadline is a parameter \<open>deadline\<close>,
  a transformer of applications whose behaviour is the subject of its own theory, and so is the
  framework's router.
\<close>

subsection \<open>Configuration\<close>

record configuration =
  cfg_docs :: bool
  cfg_disabled :: "string list"
  cfg_body_limit :: BodyLimit
  cfg_cors :: CORSOptions
  cfg_methods :: "string list"
  cfg_content_types :: ContentTypePolicy
  cfg_header_limits :: HeaderLimits
  cfg_extra_allowed :: "string list"
  cfg_limiter :: RateLimiter
  cfg_proxy :: TrustedProxy

fun trusted_networks :: "string list \<Rightarrow> ip_network list result" where
  "trusted_networks [] = Inr []"
| "trusted_networks (v # vs) = bindR (proxy_network v) (\<lambda>net. bindR (trusted_networks vs) (\<lambda>nets. Inr (net # nets)))"

definition create_app :: "Settings \<Rightarrow> configuration result" where
  "create_app s =
     bindR (new_policy (RATE_LIMIT_WINDOW_MS s) (RATE_LIMIT_MAX s) (RATE_LIMIT_MAX_CLIENTS s)) (\<lambda>policy.
     bindR (trusted_networks (TRUST_PROXY s)) (\<lambda>nets.
       Inr \<lparr>cfg_docs = DOCS_ENABLED s,
            cfg_disabled = disabled_paths (DOCS_ENABLED s) (DIAGNOSTICS_ENABLED s) (METRICS_ENABLED s),
            cfg_body_limit = \<lparr>max_body_bytes = nat (HTTP_MAX_BODY_BYTES s)\<rparr>,
            cfg_cors = new_cors (OriginList (CORS_ORIGINS s)) (CORS_METHODS s) (CORS_ALLOWED_HEADERS s)
              (CORS_EXPOSED_HEADERS s) (CORS_CREDENTIALS s) (CORS_MAX_AGE_SECONDS s),
            cfg_methods = HTTP_ALLOWED_METHODS s,
            cfg_content_types = \<lparr>default_allowed = HTTP_ALLOWED_CONTENT_TYPES s, ct_overrides = []\<rparr>,
            cfg_header_limits = \<lparr>max_header_count = nat (HTTP_MAX_HEADER_COUNT s),
              max_single_header_bytes = nat (HTTP_MAX_SINGLE_HEADER_BYTES s),
              max_total_header_bytes = nat (HTTP_MAX_TOTAL_HEADER_BYTES s), allow_chunked = False\<rparr>,
            cfg_extra_allowed = CORS_ALLOWED_HEADERS s,
            cfg_limiter = new_limiter policy,
            cfg_proxy = \<lparr>tp_networks = nets, tp_max_header_bytes = nat (HTTP_MAX_SINGLE_HEADER_BYTES s),
              tp_max_header_count = nat (HTTP_MAX_HEADER_COUNT s),
              tp_max_total_header_bytes = nat (HTTP_MAX_TOTAL_HEADER_BYTES s)\<rparr>\<rparr>))"

subsection \<open>The stack\<close>

text \<open>
  What one request brings along: the time stamp of error responses, the request id, the clock and
  the hash of client identities.
\<close>

record request_env =
  re_framework :: framework
  re_timestamp :: int
  re_id :: string
  re_now :: time
  re_hash :: "string \<Rightarrow> bytes"

text \<open>Behind the deadline: media types, methods, CORS, the body limit, error rendering, exposure, routes.\<close>

definition inner_stack :: "request_env \<Rightarrow> configuration \<Rightarrow> app \<Rightarrow> app" where
  "inner_stack re cf router =
     (let fw = re_framework re; ts = re_timestamp re in
      content_type_call fw ts (cfg_content_types cf)
        (method_call fw ts (cfg_methods cf)
          (cors_call fw ts (cfg_cors cf)
            (body_limit_call fw ts (cfg_body_limit cf) []
              (request_error_call fw ts
                (exposure_call fw ts (cfg_disabled cf) router))))))"

text \<open>Behind the rate limit: header sanitization, header limits, the deadline.\<close>

definition gated_stack :: "request_env \<Rightarrow> configuration \<Rightarrow> (app \<Rightarrow> app) \<Rightarrow> app \<Rightarrow> app" where
  "gated_stack re cf deadline router =
     (let fw = re_framework re; ts = re_timestamp re in
      sanitize_call fw ts (cfg_extra_allowed cf)
        (header_limit_call fw ts (cfg_header_limits cf)
          (deadline (inner_stack re cf router))))"

text \<open>From the trusted proxy inwards, for the current state of the limiter.\<close>

definition request_stack ::
  "request_env \<Rightarrow> configuration \<Rightarrow> (app \<Rightarrow> app) \<Rightarrow> app \<Rightarrow> RateLimiter \<Rightarrow> app" where
  "request_stack re cf deadline router limiter =
     trusted_proxy_call (cfg_proxy cf)
       (request_context_call (re_id re)
         (security_headers_call (cfg_docs cf)
           (\<lambda>sc. fst (rate_limit_call (re_framework re) (re_timestamp re) (re_hash re) (re_now re)
              (gated_stack re cf deadline router) sc limiter))))"

text \<open>The scope in which the rate limit is reached, and the limiter the request leaves behind.\<close>

definition resolved_scope :: "configuration \<Rightarrow> scope \<Rightarrow> scope" where
  "resolved_scope cf sc =
     (case client_of sc of
        Some (host, port) \<Rightarrow>
          if is_http sc \<and> trusted (cfg_proxy cf) host then apply_forwarding (cfg_proxy cf) sc else sc
      | None \<Rightarrow> sc)"

definition limiter_after :: "request_env \<Rightarrow> configuration \<Rightarrow> scope \<Rightarrow> RateLimiter \<Rightarrow> RateLimiter" where
  "limiter_after re cf sc limiter =
     (let sc' = resolved_scope cf sc in
      if is_http sc \<and> (\<exists>e. context_client sc' = Inl e) then limiter
      else snd (rate_limit_call (re_framework re) (re_timestamp re) (re_hash re) (re_now re) (\<lambda>sc. Return) sc' limiter))"

subsection \<open>Lifespan\<close>

text \<open>
  The lifespan context: resume and start, serve until the server leaves the context with
  \<open>served\<close>, and then, in the \<^verbatim>\<open>finally\<close> block, quiesce, drain and shut down. Stops of services are
  made by \<open>hk_stop\<close>. \<open>None\<close> means that the drain has not ended. The flag says whether an unclean
  shutdown is reported.
\<close>

record lifespan_state =
  lifecycle :: LifecycleHandler
  request_work :: RequestWork

definition enter :: "hooks \<Rightarrow> nat set \<Rightarrow> lifespan_state \<Rightarrow> unit result \<times> lifespan_state" where
  "enter hk finished st =
     (case resume finished (request_work st) of
        Inl e \<Rightarrow> (Inl e, st)
      | Inr w \<Rightarrow> (case startup hk (lifecycle st) of (r, h) \<Rightarrow> (r, \<lparr>lifecycle = h, request_work = w\<rparr>)))"

definition runtime_failed :: "unit result \<Rightarrow> bool" where
  "runtime_failed r = (case r of Inr _ \<Rightarrow> False | Inl e \<Rightarrow> is_exception e)"

definition leave ::
  "hooks \<Rightarrow> time \<Rightarrow> round list \<Rightarrow> nat set \<Rightarrow> unit result \<Rightarrow> lifespan_state \<Rightarrow>
   (unit result \<times> lifespan_state \<times> bool) option" where
  "leave hk now rs finished r st =
     (let h0 = (if runtime_failed r then (lifecycle st) \<lparr>shutdown_failed := True\<rparr> else lifecycle st) in
      case quiesce hk h0 of
        (Inl e, h1) \<Rightarrow> Some (Inl e, st \<lparr>lifecycle := h1\<rparr>, False)
      | (Inr _, h1) \<Rightarrow>
          (case drain now rs finished (request_work st) of
             None \<Rightarrow> None
           | Some (w, cancelled) \<Rightarrow>
               (case shutdown hk h1 of
                  (Inl e, h2) \<Rightarrow> Some (Inl e, \<lparr>lifecycle = h2, request_work = w\<rparr>, False)
                | (Inr _, h2) \<Rightarrow>
                    Some (r, \<lparr>lifecycle = h2, request_work = w\<rparr>, runtime_failed r \<or> failed w \<or> shutdown_failed h2))))"

definition lifespan ::
  "hooks \<Rightarrow> hooks \<Rightarrow> nat set \<Rightarrow> unit result \<Rightarrow> time \<Rightarrow> round list \<Rightarrow> nat set \<Rightarrow> lifespan_state \<Rightarrow>
   (unit result \<times> lifespan_state \<times> bool) option" where
  "lifespan hk_start hk_stop finished served now rs finished' st =
     (case enter hk_start finished st of
        (Inl e, st') \<Rightarrow> leave hk_stop now rs finished' (Inl e) st'
      | (Inr _, st') \<Rightarrow> leave hk_stop now rs finished' served st')"

subsection \<open>Layers\<close>

text \<open>
  The interface every layer of the stack offers to the one behind it: it may replace the client,
  the scheme, the headers and the annotations of the scope, but it calls on with the same
  protocol, path and root path, so that what it does depends on the application behind it only
  through such scopes.
\<close>

definition same_route :: "scope \<Rightarrow> scope \<Rightarrow> bool" where
  "same_route sc sc' \<longleftrightarrow> sc_type sc' = sc_type sc \<and> sc_path sc' = sc_path sc \<and> sc_root_path sc' = sc_root_path sc"

definition agree :: "scope \<Rightarrow> app \<Rightarrow> app \<Rightarrow> bool" where
  "agree sc a1 a2 \<longleftrightarrow> (\<forall>sc'. same_route sc sc' \<longrightarrow> a1 sc' = a2 sc')"

lemma same_route_refl [simp]: "same_route sc sc"
  by (simp add: same_route_def)

lemma agreeD: "agree sc a1 a2 \<Longrightarrow> same_route sc sc' \<Longrightarrow> a1 sc' = a2 sc'"
  by (simp add: agree_def)

locale layer =
  fixes call :: "app \<Rightarrow> app"
  assumes call_local: "agree sc a1 a2 \<Longrightarrow> call a1 sc = call a2 sc"
begin

lemma lift: "agree sc a1 a2 \<Longrightarrow> agree sc (call a1) (call a2)"
  unfolding agree_def
proof (intro allI impI)
  fix sc'
  assume a: "\<forall>sc'. same_route sc sc' \<longrightarrow> a1 sc' = a2 sc'" and r: "same_route sc sc'"
  have "agree sc' a1 a2" using a r by (auto simp: agree_def same_route_def)
  then show "call a1 sc' = call a2 sc'" by (rule call_local)
qed

end

interpretation header_limit_layer: layer "header_limit_call fw ts limits" for fw ts limits
proof
  fix sc a1 a2
  assume a: "agree sc a1 a2"
  have "header_limit_check limits sc = Inr sc' \<Longrightarrow> sc' = sc" for sc'
    by (auto simp: header_limit_check_def Let_def bindR_eq_Inr split: if_splits option.splits)
  then show "header_limit_call fw ts limits a1 sc = header_limit_call fw ts limits a2 sc"
    using agreeD [OF a same_route_refl]
    by (auto simp: header_limit_call_def header_limit_run_def split: sum.splits)
qed

interpretation sanitize_layer: layer "sanitize_call fw ts extra" for fw ts extra
proof
  fix sc a1 a2
  assume a: "agree sc a1 a2"
  have "sanitize_check extra sc = Inr sc' \<Longrightarrow> same_route sc sc'" for sc'
    by (auto simp: sanitize_check_def bindR_eq_Inr same_route_def)
  then show "sanitize_call fw ts extra a1 sc = sanitize_call fw ts extra a2 sc"
    using agreeD [OF a] by (auto simp: sanitize_call_def sanitize_run_def split: sum.splits)
qed

interpretation content_type_layer: layer "content_type_call fw ts pol" for fw ts pol
proof
  fix sc a1 a2
  assume a: "agree sc a1 a2"
  have "content_type_check pol sc = Inr sc' \<Longrightarrow> sc' = sc" for sc'
    by (auto simp: content_type_check_def Let_def bindR_eq_Inr split: if_splits option.splits)
  then show "content_type_call fw ts pol a1 sc = content_type_call fw ts pol a2 sc"
    using agreeD [OF a same_route_refl]
    by (auto simp: content_type_call_def content_type_run_def split: sum.splits)
qed

interpretation method_layer: layer "method_call fw ts methods" for fw ts methods
proof
  fix sc a1 a2
  assume a: "agree sc a1 a2"
  have "method_check methods sc = Inr sc' \<Longrightarrow> sc' = sc" for sc'
    by (auto simp: method_check_def Let_def split: if_splits)
  then show "method_call fw ts methods a1 sc = method_call fw ts methods a2 sc"
    using agreeD [OF a same_route_refl] by (auto simp: method_call_def method_run_def split: sum.splits)
qed

interpretation cors_layer: layer "cors_call fw ts opts" for fw ts opts
proof
  fix sc a1 a2
  assume a: "agree sc a1 a2"
  have "a1 (sc \<lparr>sc_cors := x\<rparr>) = a2 (sc \<lparr>sc_cors := x\<rparr>)" "a1 sc = a2 sc" for x
    using a by (auto intro: agreeD simp: same_route_def)
  then show "cors_call fw ts opts a1 sc = cors_call fw ts opts a2 sc"
    by (auto simp: cors_call_def Let_def split: prod.splits sum.splits)
qed

interpretation body_limit_layer: layer "body_limit_call fw ts default_limit overrides" for fw ts default_limit overrides
proof
  fix sc a1 a2
  assume "agree sc a1 a2"
  then have "a1 sc = a2 sc" by (rule agreeD) simp
  then show "body_limit_call fw ts default_limit overrides a1 sc = body_limit_call fw ts default_limit overrides a2 sc"
    by (simp add: body_limit_call_def body_limit_run_def Let_def split: sum.split)
qed

interpretation request_error_layer: layer "request_error_call fw ts" for fw ts
  by unfold_locales (auto simp: request_error_call_def dest: agreeD [OF _ same_route_refl])

interpretation exposure_layer: layer "exposure_call fw ts disabled" for fw ts disabled
  by unfold_locales (auto simp: exposure_call_def dest: agreeD [OF _ same_route_refl])

interpretation rate_limit_layer: layer "\<lambda>app sc. fst (rate_limit_call fw ts h now app sc limiter)" for fw ts h now limiter
  by unfold_locales (auto simp: rate_limit_call_def dest: agreeD [OF _ same_route_refl] split: prod.splits)

interpretation security_layer: layer "security_headers_call docs" for docs
  by unfold_locales (auto simp: security_headers_call_def dest: agreeD [OF _ same_route_refl])

interpretation context_layer: layer "request_context_call rid" for rid
proof
  fix sc a1 a2
  assume a: "agree sc a1 a2"
  have "a1 (sc \<lparr>sc_ctx := x\<rparr>) = a2 (sc \<lparr>sc_ctx := x\<rparr>)" "a1 sc = a2 sc" for x
    using a by (auto intro: agreeD simp: same_route_def)
  then show "request_context_call rid a1 sc = request_context_call rid a2 sc"
    by (auto simp: request_context_call_def split: sum.splits)
qed

lemma apply_forwarding_route: "same_route sc (apply_forwarding tp sc)"
  by (auto simp: apply_forwarding_def same_route_def Let_def split: option.splits)

lemma resolved_scope_route: "same_route sc (resolved_scope cf sc)"
  by (auto simp: resolved_scope_def apply_forwarding_route split: option.splits)

interpretation proxy_layer: layer "trusted_proxy_call tp" for tp
  by unfold_locales (auto simp: trusted_proxy_call_def intro: agreeD apply_forwarding_route split: option.splits)

lemma request_stack_resolved:
  "request_stack re cf deadline router limiter sc =
     request_context_call (re_id re)
       (security_headers_call (cfg_docs cf)
         (\<lambda>sc. fst (rate_limit_call (re_framework re) (re_timestamp re) (re_hash re) (re_now re)
            (gated_stack re cf deadline router) sc limiter))) (resolved_scope cf sc)"
  by (auto simp: request_stack_def trusted_proxy_call_def resolved_scope_def split: option.splits)

lemma hidden_agree:
  assumes "is_http sc" "exposure_hidden disabled sc"
  shows "agree sc (exposure_call fw ts disabled r1) (exposure_call fw ts disabled r2)"
proof -
  have "is_http sc' \<and> exposure_hidden disabled sc'" if "same_route sc sc'" for sc'
    using assms that by (simp add: same_route_def is_http_def exposure_hidden_def strip_root_def)
  then show ?thesis by (simp add: agree_def exposure_call_def)
qed

lemma inner_agree:
  assumes "is_http sc" "exposure_hidden (cfg_disabled cf) sc"
  shows "agree sc (inner_stack re cf r1) (inner_stack re cf r2)"
  unfolding inner_stack_def Let_def
  by (intro content_type_layer.lift method_layer.lift cors_layer.lift body_limit_layer.lift request_error_layer.lift
      hidden_agree assms)

lemma stack_agree:
  assumes "agree sc (gated_stack re cf d1 r1) (gated_stack re cf d2 r2)"
  shows "request_stack re cf d1 r1 limiter sc = request_stack re cf d2 r2 limiter sc"
proof -
  have "agree sc (request_stack re cf d1 r1 limiter) (request_stack re cf d2 r2 limiter)"
    unfolding request_stack_def
    by (rule proxy_layer.lift, rule context_layer.lift, rule security_layer.lift, rule rate_limit_layer.lift, rule assms)
  then show ?thesis by (rule agreeD) simp
qed

lemma disabled_subset:
  assumes "docs' \<longrightarrow> docs" "diagnostics' \<longrightarrow> diagnostics" "metrics' \<longrightarrow> metrics"
    and "exposure_hidden (disabled_paths docs diagnostics metrics) sc"
  shows "exposure_hidden (disabled_paths docs' diagnostics' metrics') sc"
  using assms by (auto simp: exposure_hidden_def disabled_paths_def Let_def split: if_splits)

lemma production_switches:
  assumes "load_settings lib file process = Some s" "ENV s = ''production''"
  shows "DOCS_ENABLED s \<longrightarrow> merged file process ''DOCS_ENABLED'' = Some ''true''"
    and "DIAGNOSTICS_ENABLED s \<longrightarrow> merged file process ''DIAGNOSTICS_ENABLED'' = Some ''true''"
    and "METRICS_ENABLED s \<longrightarrow> merged file process ''METRICS_ENABLED'' = Some ''true''"
  using production_flags [OF assms] by simp_all

text \<open>The response starts of the stack, by the layers that add headers to them.\<close>

definition start_has :: "raw_headers \<Rightarrow> message \<Rightarrow> bool" where
  "start_has hs m \<longleftrightarrow> (is_start m \<longrightarrow> set hs \<subseteq> set (msg_headers m))"

lemma add_headers_start: "start_has hs m \<Longrightarrow> start_has (hs @ new) (add_headers new m)"
  by (cases m) (auto simp: start_has_def)

lemma start_has_Nil [simp]: "start_has [] m"
  by (simp add: start_has_def)

lemma sends_only_mono: "sends_only P p \<Longrightarrow> (\<And>m. P m \<Longrightarrow> Q m) \<Longrightarrow> sends_only Q p"
  unfolding sends_only_def list_all_iff by blast

lemma sends_only_start_has_Nil [simp]: "sends_only (start_has []) p"
  by (simp add: sends_only_def list_all_iff)

lemma security_headers_sent:
  "is_http sc \<Longrightarrow> sends_only (start_has (if docs \<and> docs_path sc then [] else SECURITY_HEADERS)) (security_headers_call docs app sc)"
  using map_send_sends_only [of "\<lambda>m. True" "start_has SECURITY_HEADERS" "add_headers SECURITY_HEADERS" "app sc"]
    add_headers_start [of "[]" _ SECURITY_HEADERS]
  by (auto simp: security_headers_call_def)

text \<open>No stop or quiesce hook is cancelled.\<close>

definition no_cancellation :: "hooks \<Rightarrow> bool" where
  "no_cancellation hk \<longleftrightarrow> (\<forall>n e. (stop_hook hk n = Inl e \<longrightarrow> is_exception e) \<and>
     (quiesce_hook hk n = Some (Inl e) \<longrightarrow> is_exception e))"

lemma leave_Some:
  assumes "leave hk now rs finished r st = Some (r', st', unclean)"
    and "\<not> shutdown_started (lifecycle st)"
    and "no_cancellation hk"
  shows "r' = r \<and> started_services (lifecycle st') = [] \<and> \<not> is_alive (lifecycle st') \<and> \<not> is_ready (lifecycle st') \<and>
    trace (lifecycle st') = trace (lifecycle st) @ map StopCalled (rev (started_services (lifecycle st))) \<and>
    draining_at (request_work st') \<noteq> None \<and>
    (unclean \<longleftrightarrow> runtime_failed r \<or> failed (request_work st') \<or> shutdown_failed (lifecycle st'))"
proof -
  let ?h0 = "if runtime_failed r then (lifecycle st) \<lparr>shutdown_failed := True\<rparr> else lifecycle st"
  have q: "fst (quiesce_loop hk ns g) = Inr ()" for ns g
    using assms(3) unfolding no_cancellation_def by (induction ns arbitrary: g) (auto split: option.splits sum.splits)
  obtain h1 where p1: "quiesce hk ?h0 = (Inr (), h1)" using q by (metis prod.collapse quiesce_def)
  obtain b where h1: "h1 = ?h0 \<lparr>quiescing := True, shutdown_failed := b\<rparr>" using quiesce_keeps [of hk ?h0] p1 by auto
  then have h1': "\<not> shutdown_started h1" "started_services h1 = started_services (lifecycle st)" "trace h1 = trace (lifecycle st)"
    using assms(2) by simp_all
  obtain h2 where h2: "shutdown hk h1 = (Inr (), h2)" "started_services h2 = []" "\<not> is_alive h2" "\<not> is_ready h2"
      "trace h2 = trace h1 @ map StopCalled (rev (started_services h1))"
    using shutdown_effect [of h1 hk] h1'(1) assms(3) unfolding no_cancellation_def by blast
  obtain w cancelled where w: "drain now rs finished (request_work st) = Some (w, cancelled)"
    using assms(1) p1 by (auto simp: leave_def Let_def split: option.splits)
  have d: "draining_at w \<noteq> None"
    using drain_loop_keeps [OF w [unfolded drain_def]] by (simp add: quiesce_work_def split: if_splits)
  have "r' = r \<and> st' = \<lparr>lifecycle = h2, request_work = w\<rparr> \<and> (unclean \<longleftrightarrow> runtime_failed r \<or> failed w \<or> shutdown_failed h2)"
    using assms(1) p1 w h2(1) by (auto simp: leave_def Let_def)
  then show ?thesis using h2 h1'(2,3) d by auto
qed

lemma leave_returns: "drain now rs finished (request_work st) \<noteq> None \<Longrightarrow> leave hk now rs finished r st \<noteq> None"
  unfolding leave_def Let_def by (auto split: prod.splits sum.splits option.splits)

lemma resume_empties: "resume finished w = Inr w' \<Longrightarrow> tasks w' = {}"
  by (auto simp: resume_def split: if_splits)

lemma lifespan_returns:
  assumes "bounded_work T rs (request_work st)" "card T \<le> length rs"
  shows "lifespan hk1 hk2 finished served now rs finished' st \<noteq> None"
proof -
  have "request_work (snd (enter hk1 finished st)) = request_work st \<or>
      resume finished (request_work st) = Inr (request_work (snd (enter hk1 finished st)))"
    by (simp add: enter_def split: sum.splits prod.splits)
  then have "bounded_work T rs (request_work (snd (enter hk1 finished st)))"
    using assms(1) resume_empties by (fastforce simp: bounded_work_def)
  then have "drain now rs finished' (request_work (snd (enter hk1 finished st))) \<noteq> None"
    using assms(2) by (rule drain_returns)
  then show ?thesis
    using leave_returns by (cases "enter hk1 finished st"; cases "fst (enter hk1 finished st)") (auto simp: lifespan_def)
qed

subsection \<open>Instances for witnesses\<close>

definition demo_closed :: environ where
  "demo_closed = map_of [(''APP_NAME'', ''quick''), (''APP_VERSION'', ''1.0.0''), (''ENV'', ''production''),
     (''PORT'', ''8000''), (''DATABASE_URL'', ''mysql+asyncmy://db/items''), (''TRUST_PROXY'', ''10.0.0.0/8'')]"

definition demo_closed_settings :: Settings where
  "demo_closed_settings = the (load_settings demo_libraries (\<lambda>k. None) demo_closed)"

definition demo_config :: configuration where
  "demo_config = projr (create_app demo_closed_settings)"

definition demo_request :: request_env where
  "demo_request = \<lparr>re_framework = demo_framework, re_timestamp = 0, re_id = ''r1'', re_now = 10, re_hash = id\<rparr>"

lemma demo_closed_loads:
  "load_settings demo_libraries (\<lambda>k. None) demo_closed = Some demo_closed_settings"
  "ENV demo_closed_settings = ''production''"
  "create_app demo_closed_settings = Inr demo_config"
proof -
  have "load_settings demo_libraries (\<lambda>k. None) demo_closed \<noteq> None" by code_simp
  then show "load_settings demo_libraries (\<lambda>k. None) demo_closed = Some demo_closed_settings"
    by (simp add: demo_closed_settings_def)
  show "ENV demo_closed_settings = ''production''" by code_simp
  have "\<not> isl (create_app demo_closed_settings)" by code_simp
  then show "create_app demo_closed_settings = Inr demo_config"
    unfolding demo_config_def by (cases "create_app demo_closed_settings") simp_all
qed

lemma demo_request_refused:
  "\<not> allowed (fst (admit id 10 (get_client_ip demo_scope) (snd (run_admits id (new_limiter demo_policy)
     [(0, ''10.0.0.1''), (10, ''10.0.0.1'')]))))"
  by code_simp

interpretation no_deadline: layer "\<lambda>a :: app. a"
  by unfold_locales (rule agreeD [OF _ same_route_refl])

subsection \<open>Properties\<close>



text \<open>
  A client over its limit reaches nothing behind the limiter: for the client the proxy
  rules resolve, a refusal makes the whole response independent of the gates, the deadline, the
  router and the handlers behind it.
\<close>

lemma rejected_clients_stop_at_limiter:
  assumes "is_http sc" "\<not> is_favicon (resolved_scope cf sc)"
    and "\<not> allowed (fst (admit (re_hash re) (re_now re) (get_client_ip (resolved_scope cf sc)) limiter))"
  shows "request_stack re cf d1 r1 limiter sc = request_stack re cf d2 r2 limiter sc"
proof -
  let ?sc = "resolved_scope cf sc"
  let ?limit = "\<lambda>g sc. fst (rate_limit_call (re_framework re) (re_timestamp re) (re_hash re) (re_now re) g sc limiter)"
  have eq: "?limit (gated_stack re cf d1 r1) (?sc \<lparr>sc_ctx := c\<rparr>) = ?limit (gated_stack re cf d2 r2) (?sc \<lparr>sc_ctx := c\<rparr>)" for c
  proof -
    have "is_http (?sc \<lparr>sc_ctx := c\<rparr>)" "\<not> is_favicon (?sc \<lparr>sc_ctx := c\<rparr>)"
        "get_client_ip (?sc \<lparr>sc_ctx := c\<rparr>) = get_client_ip ?sc"
      using assms(1,2) resolved_scope_route [of sc cf]
      by (auto simp: same_route_def is_http_def is_favicon_def strip_root_def get_client_ip_def client_of_def)
    then show ?thesis using assms(3) by (auto simp: rate_limit_call_def split: prod.splits)
  qed
  have http: "is_http ?sc" using assms(1) resolved_scope_route [of sc cf] by (auto simp: same_route_def is_http_def)
  have sec: "security_headers_call docs (?limit (gated_stack re cf d1 r1)) (?sc \<lparr>sc_ctx := c\<rparr>) =
      security_headers_call docs (?limit (gated_stack re cf d2 r2)) (?sc \<lparr>sc_ctx := c\<rparr>)" for docs c
    unfolding security_headers_call_def eq by (rule refl)
  show ?thesis
    by (cases "context_client ?sc") (simp_all add: request_stack_resolved request_context_call_def http sec)
qed



lemma lifespan_Some:
  assumes "lifespan hk_start hk_stop finished served now rs finished' st = Some (r, st', unclean)"
    and "handler_ok (lifecycle st)" "\<not> startup_started (lifecycle st)" "\<not> shutdown_started (lifecycle st)"
    and "no_cancellation hk_stop"
  shows "started_services (lifecycle st') = [] \<and> replay (trace (lifecycle st')) [] = Some [] \<and>
    \<not> is_alive (lifecycle st') \<and> \<not> is_ready (lifecycle st') \<and> draining_at (request_work st') \<noteq> None \<and>
    (unclean \<longleftrightarrow> runtime_failed r \<or> failed (request_work st') \<or> shutdown_failed (lifecycle st'))"
proof -
  obtain r1 st1 where en: "enter hk_start finished st = (r1, st1)" by force
  obtain r2 where lv: "leave hk_stop now rs finished' r2 st1 = Some (r, st', unclean)"
    using assms(1) en by (cases r1) (auto simp: lifespan_def)
  have h1: "handler_ok (lifecycle st1) \<and> \<not> shutdown_started (lifecycle st1)"
  proof (cases "resume finished (request_work st)")
    case (Inl e)
    then show ?thesis using en assms(2,4) by (auto simp: enter_def)
  next
    case (Inr w)
    then have "lifecycle st1 = snd (startup hk_start (lifecycle st))" using en by (auto simp: enter_def split: prod.splits)
    then show ?thesis using startup_ok [OF assms(2)] startup_clears [OF assms(3)] by simp
  qed
  note l = leave_Some [OF lv conjunct2 [OF h1] assms(5)]
  have "replay (trace (lifecycle st')) [] = Some []"
    using l h1 replay_stops [of "started_services (lifecycle st1)" "[]"]
    by (simp add: handler_ok_def lifo_def replay_append)
  then show ?thesis using l by simp
qed



end
