(* ===== verification/Routing.thy ===== *)
theory Routing
  imports Responses Outcome
begin

text \<open>
  Express-style routing (\<^verbatim>\<open>app/common/handlers/flexible_router.py\<close>), the validation of raw query
  parameters (\<^verbatim>\<open>query_validation.py\<close>) and the routers of the application (\<^verbatim>\<open>app/api/api_routes.py\<close>).

  The pattern of a route is compiled by Starlette: \<open>matches_path\<close> tells whether it matches a
  path. As documented, a route matches fully if its methods admit the request's and partially
  if only its path does.
\<close>

subsection \<open>Routes\<close>

record 'e declared_route =
  rt_key :: nat
  rt_path :: string
  rt_methods :: "string list"
  rt_endpoint :: 'e
  rt_in_schema :: bool
  rt_flexible :: bool

definition canonical_path :: "string \<Rightarrow> string" where
  "canonical_path path = (let p = py_rstrip (CHR ''/'') path in if p = [] then ''/'' else p)"

definition base_match :: "('e declared_route \<Rightarrow> string \<Rightarrow> bool) \<Rightarrow> 'e declared_route \<Rightarrow> scope \<Rightarrow> match" where
  "base_match matches_path r sc =
     (if \<not> matches_path r (sc_path sc) then NoMatch
      else if rt_methods r = [] \<or> sc_method sc \<in> set (rt_methods r) then Full else Partial)"

text \<open>
  A route with an explicit HEAD method never takes the special case, so that its answer in the
  inner loop is the one of the base class.
\<close>

definition flexible_matches ::
  "('e declared_route \<Rightarrow> string \<Rightarrow> bool) \<Rightarrow> 'e declared_route list \<Rightarrow> 'e declared_route \<Rightarrow> scope \<Rightarrow> match" where
  "flexible_matches matches_path rs r sc =
     (if base_match matches_path r sc = Partial \<and> sc_method sc = ''HEAD'' \<and> ''GET'' \<in> set (rt_methods r)
      then
        (if list_ex (\<lambda>q. rt_key q \<noteq> rt_key r \<and> ''HEAD'' \<in> set (rt_methods q) \<and> base_match matches_path q sc = Full) rs
         then Partial else Full)
      else base_match matches_path r sc)"

definition matches ::
  "('e declared_route \<Rightarrow> string \<Rightarrow> bool) \<Rightarrow> 'e declared_route list \<Rightarrow> scope \<Rightarrow> 'e declared_route \<Rightarrow> match" where
  "matches matches_path rs sc r =
     (if rt_flexible r then flexible_matches matches_path rs r sc else base_match matches_path r sc)"

text \<open>\<^verbatim>\<open>handle\<close> skips the method check of the base class for a HEAD request answered by a GET route.\<close>

definition handle_route :: "'e declared_route \<Rightarrow> app \<Rightarrow> app \<Rightarrow> app" where
  "handle_route r route_app base_handle sc =
     (if sc_method sc = ''HEAD'' \<and> ''HEAD'' \<notin> set (rt_methods r) \<and> ''GET'' \<in> set (rt_methods r)
      then route_app sc else base_handle sc)"

text \<open>
  Registration. \<open>override\<close> is set when FastAPI copies the routes of an included router; then
  and for the root no alias is made.
\<close>

definition add_api_route ::
  "bool \<Rightarrow> string \<Rightarrow> 'e \<Rightarrow> string list \<Rightarrow> bool \<Rightarrow> 'e declared_route list \<Rightarrow> 'e declared_route list" where
  "add_api_route override path endpoint meths in_schema rs =
     (let new = (\<lambda>k p visible. \<lparr>rt_key = k, rt_path = p, rt_methods = meths, rt_endpoint = endpoint,
            rt_in_schema = visible, rt_flexible = True\<rparr>); n = length rs in
      if override \<or> path = ''/'' then rs @ [new n path in_schema]
      else
        (let canonical = py_rstrip (CHR ''/'') path in
         rs @ [new n canonical in_schema, new (n + 1) (canonical @ ''/'') False]))"

text \<open>The pattern of the framework's own documentation routes.\<close>

definition framework_pattern :: "string \<Rightarrow> string" where
  "framework_pattern pattern = removesuffix ''$'' pattern @ ''/?$''"

subsection \<open>Query parameters\<close>

text \<open>The parameters as the query string lists them.\<close>

definition getlist :: "(string \<times> string) list \<Rightarrow> string \<Rightarrow> string list" where
  "getlist params name = map snd (filter (\<lambda>p. fst p = name) params)"

definition reject_repeated_query_parameters :: "(string \<times> string) list \<Rightarrow> unit result" where
  "reject_repeated_query_parameters params =
     (let errors = map (\<lambda>name. ([''query'', name], ''Query parameter must appear only once''))
            (filter (\<lambda>name. length (getlist params name) > 1) (fromkeys (map fst params))) in
      if errors \<noteq> [] then Inl (RequestValidationError errors False) else Inr ())"

subsection \<open>The routers of the application\<close>

text \<open>Paths and methods as the controllers declare them; the version router prefixes the items.\<close>

definition system_routes :: "(string \<times> string list) list" where
  "system_routes = [(''/favicon.ico'', [''GET'', ''HEAD'']), (''/'', [''GET'']), (''/health'', [''GET'']), (''/ready'', [''GET''])]"

definition diagnostics_routes :: "(string \<times> string list) list" where
  "diagnostics_routes = [(''/info'', [''GET'']), (''/system'', [''GET''])]"

definition metrics_routes :: "(string \<times> string list) list" where
  "metrics_routes = [(''/metrics'', [''GET''])]"

definition item_routes :: "(string \<times> string list) list" where
  "item_routes =
     map (\<lambda>(p, meths). (''/items'' @ p, meths))
       [([], [''POST'']), ([], [''GET'']), (''/{id}'', [''GET'']), (''/{id}'', [''PATCH'']),
        (''/{id}'', [''PUT'']), (''/{id}/delete'', [''POST''])]"

definition v1_routes :: "(string \<times> string list) list" where
  "v1_routes = map (\<lambda>(p, meths). (''/v1'' @ p, meths)) item_routes"

definition create_router :: "bool \<Rightarrow> bool \<Rightarrow> (string \<times> string list) list" where
  "create_router diagnostics_enabled metrics_enabled =
     system_routes @ (if diagnostics_enabled then diagnostics_routes else []) @
     (if metrics_enabled then metrics_routes else []) @ map (\<lambda>(p, meths). (''/api'' @ p, meths)) v1_routes"

subsection \<open>Lemmas\<close>

text \<open>What the framework's router does with the answers: the first full match wins.\<close>

definition first_full ::
  "('e declared_route \<Rightarrow> string \<Rightarrow> bool) \<Rightarrow> 'e declared_route list \<Rightarrow> scope \<Rightarrow> 'e declared_route option" where
  "first_full matches_path rs sc = find (\<lambda>r. matches matches_path rs sc r = Full) rs"

text \<open>Every route of the framework itself that serves GET serves HEAD; keys identify routes.\<close>

definition routes_ok :: "'e declared_route list \<Rightarrow> bool" where
  "routes_ok rs \<longleftrightarrow> distinct (map rt_key rs) \<and>
     list_all (\<lambda>r. rt_methods r \<noteq> [] \<and>
       (rt_flexible r \<or> ''GET'' \<notin> set (rt_methods r) \<or> ''HEAD'' \<in> set (rt_methods r))) rs"

definition serves :: "('e declared_route \<Rightarrow> string \<Rightarrow> bool) \<Rightarrow> string \<Rightarrow> string \<Rightarrow> 'e declared_route \<Rightarrow> bool" where
  "serves matches_path meth path r \<longleftrightarrow> matches_path r path \<and> meth \<in> set (rt_methods r)"

lemma find_cong': "(\<And>x. x \<in> set xs \<Longrightarrow> P x = Q x) \<Longrightarrow> find P xs = find Q xs"
  by (induction xs) auto

lemma find_None_ex: "find P xs = None \<longleftrightarrow> \<not> list_ex P xs"
  by (induction xs) auto

lemma base_match_Full:
  "rt_methods r \<noteq> [] \<Longrightarrow> base_match matches_path r sc = Full \<longleftrightarrow> serves matches_path (sc_method sc) (sc_path sc) r"
  by (simp add: base_match_def serves_def)

lemma matches_other:
  assumes "sc_method sc \<noteq> ''HEAD''" "rt_methods r \<noteq> []"
  shows "matches matches_path rs sc r = Full \<longleftrightarrow> serves matches_path (sc_method sc) (sc_path sc) r"
  using assms by (simp add: matches_def flexible_matches_def base_match_Full)

lemma matches_head:
  assumes "routes_ok rs" "r \<in> set rs" "sc_method sc = ''HEAD''"
  shows "matches matches_path rs sc r = Full \<longleftrightarrow>
    serves matches_path ''HEAD'' (sc_path sc) r \<or>
    serves matches_path ''GET'' (sc_path sc) r \<and> \<not> list_ex (serves matches_path ''HEAD'' (sc_path sc)) rs"
proof -
  have ne: "rt_methods q \<noteq> []" if "q \<in> set rs" for q using assms(1) that by (auto simp: routes_ok_def list_all_iff)
  have explicit: "list_ex (\<lambda>q. rt_key q \<noteq> rt_key r \<and> ''HEAD'' \<in> set (rt_methods q) \<and> base_match matches_path q sc = Full) rs \<longleftrightarrow>
      list_ex (serves matches_path ''HEAD'' (sc_path sc)) rs"
    if "''HEAD'' \<notin> set (rt_methods r)"
  proof -
    have "rt_key q \<noteq> rt_key r" if "q \<in> set rs" "''HEAD'' \<in> set (rt_methods q)" for q
      using assms(1,2) that \<open>''HEAD'' \<notin> set (rt_methods r)\<close> by (auto simp: routes_ok_def distinct_map dest: inj_onD)
    then show ?thesis using ne assms(3) by (auto simp: list_ex_iff base_match_Full serves_def)
  qed
  have "rt_flexible r \<or> ''GET'' \<notin> set (rt_methods r) \<or> ''HEAD'' \<in> set (rt_methods r)"
    using assms(1,2) by (auto simp: routes_ok_def list_all_iff)
  then show ?thesis
    using explicit assms(2,3) ne [OF assms(2)]
    by (auto simp: matches_def flexible_matches_def base_match_def serves_def list_ex_iff)
qed

subsection \<open>Properties\<close>

text \<open>
  A HEAD request is routed to the first route that declares HEAD for its path; if there
  is none, to the very route that serves GET for the path.
\<close>

lemma head_routes_like_get:
  assumes "routes_ok rs" "sc_method sc = ''HEAD''"
  shows "first_full matches_path rs sc =
    (case find (serves matches_path ''HEAD'' (sc_path sc)) rs of
       Some r \<Rightarrow> Some r
     | None \<Rightarrow> first_full matches_path rs (sc \<lparr>sc_method := ''GET''\<rparr>))"
proof (cases "find (serves matches_path ''HEAD'' (sc_path sc)) rs")
  case None
  then have none: "\<not> list_ex (serves matches_path ''HEAD'' (sc_path sc)) rs" by (simp add: find_None_ex)
  have ne: "rt_methods q \<noteq> []" if "q \<in> set rs" for q using assms(1) that by (auto simp: routes_ok_def list_all_iff)
  have "first_full matches_path rs sc = find (serves matches_path ''GET'' (sc_path sc)) rs"
    unfolding first_full_def using none by (intro find_cong') (auto simp: matches_head [OF assms(1) _ assms(2)] list_ex_iff)
  moreover have "first_full matches_path rs (sc \<lparr>sc_method := ''GET''\<rparr>) = find (serves matches_path ''GET'' (sc_path sc)) rs"
    unfolding first_full_def by (intro find_cong') (simp add: matches_other ne)
  ultimately show ?thesis using None by simp
next
  case (Some r)
  then have "list_ex (serves matches_path ''HEAD'' (sc_path sc)) rs" using find_None_ex [of "serves matches_path ''HEAD'' (sc_path sc)" rs] by auto
  then have "first_full matches_path rs sc = find (serves matches_path ''HEAD'' (sc_path sc)) rs"
    unfolding first_full_def by (intro find_cong') (simp add: matches_head [OF assms(1) _ assms(2)])
  then show ?thesis using Some by simp
qed

text \<open>Responses to HEAD carry no body and are otherwise unchanged.\<close>

lemma head_response_empty:
  assumes "is_http sc" "sc_method sc = ''HEAD''"
  shows "head_response_call app sc = map_send drop_body (app sc) \<and>
    sends_only (\<lambda>m. case m of ResponseBody b more_body \<Rightarrow> b = [] | _ \<Rightarrow> True) (head_response_call app sc)"
proof -
  have "(case drop_body m of ResponseBody b more_body \<Rightarrow> b = [] | _ \<Rightarrow> True)" for m
    by (cases m) auto
  then show ?thesis
    using assms map_send_sends_only [of "\<lambda>m. True" "\<lambda>m. case m of ResponseBody b more_body \<Rightarrow> b = [] | _ \<Rightarrow> True" drop_body "app sc"]
    by (simp add: head_response_call_def)
qed

text \<open>A registered path and its alias share the endpoint and the label, and only one is documented.\<close>

lemma alias_same_route:
  assumes "\<not> override" "path \<noteq> ''/''"
  shows "\<exists>r1 r2. add_api_route override path endpoint meths True rs = rs @ [r1, r2] \<and>
    rt_path r2 = rt_path r1 @ ''/'' \<and> canonical_path (rt_path r1) = canonical_path (rt_path r2) \<and>
    rt_endpoint r1 = rt_endpoint r2 \<and> rt_methods r1 = rt_methods r2 \<and> rt_in_schema r1 \<and> \<not> rt_in_schema r2"
proof -
  let ?c = "py_rstrip (CHR ''/'') path"
  have "canonical_path ?c = canonical_path (?c @ ''/'')" by (simp add: canonical_path_def py_rstrip_def)
  then show ?thesis
    using assms unfolding add_api_route_def Let_def
    by (intro exI [of _ "\<lparr>rt_key = length rs, rt_path = ?c, rt_methods = meths, rt_endpoint = endpoint,
          rt_in_schema = True, rt_flexible = True\<rparr>"]
        exI [of _ "\<lparr>rt_key = length rs + 1, rt_path = ?c @ ''/'', rt_methods = meths, rt_endpoint = endpoint,
          rt_in_schema = False, rt_flexible = True\<rparr>"]) simp
qed

lemma fromkeys_repeated: "name \<in> set (map fst params) \<longleftrightarrow> getlist params name \<noteq> []"
  by (auto simp: getlist_def filter_empty_conv)

text \<open>Query strings are accepted exactly when no parameter is repeated.\<close>

lemma repeated_query_parameters:
  "reject_repeated_query_parameters params = Inr () \<longleftrightarrow> distinct (map fst params)"
proof -
  have "distinct (map fst params) \<longleftrightarrow> (\<forall>name \<in> set (map fst params). length (getlist params name) \<le> 1)"
  proof (induction params)
    case (Cons p ps)
    have "length (getlist (p # ps) name) \<le> 1 \<longleftrightarrow> (if name = fst p then getlist ps name = [] else length (getlist ps name) \<le> 1)" for name
      by (auto simp: getlist_def)
    then show ?case using Cons fromkeys_repeated [of "fst p" ps] by auto
  qed simp
  then show ?thesis
    by (auto simp: reject_repeated_query_parameters_def Let_def filter_empty_conv not_less)
qed

text \<open>
  The routers agree with the exposure of operational routes: with documentation enabled, exactly
  the paths that are not routed are hidden.
\<close>

lemma routers_agree_with_exposure:
  "set (disabled_paths True diagnostics metrics) = fst ` set (create_router True True) - fst ` set (create_router diagnostics metrics)"
  by (cases diagnostics; cases metrics)
    (auto simp: disabled_paths_def create_router_def system_routes_def diagnostics_routes_def metrics_routes_def v1_routes_def item_routes_def)

end
