(* ===== verification/Logging.thy ===== *)
theory Logging
  imports Prelude
begin

text \<open>
  Privacy-filtered logging: the allowlisted diagnostics of exceptions
  (\<^verbatim>\<open>app/common/helpers/error_diagnostics.py\<close>) and the log records of \<^verbatim>\<open>app/config/logging.py\<close>.

  A logged value is a Python object, of which only what the code inspects is modelled. An
  exception carries its class name, the values of \<open>code\<close> and \<open>orig\<close> in its \<open>__dict__\<close>, its
  arguments, and the frames of its traceback. Colours, the process, the host and the clock are
  parameters.
\<close>

subsection \<open>Objects\<close>

record frame =
  co_filename :: string
  co_name :: string
  tb_lineno :: int

text \<open>
  \<open>StrObj\<close>, \<open>IntObj\<close>, \<open>BoolObj\<close> and \<open>NumObj\<close> are the values of these exact types, with no value for a float
  that is not finite; \<open>Unhashable\<close> and \<open>OtherObj\<close> are the remaining objects.
\<close>

datatype object = NoneObj | StrObj string | IntObj int | BoolObj bool | NumObj "rat option" | Unhashable string | OtherObj string
  | Err (class_name: string) (dict_code: "object option") (dict_orig: "object option") (args: "object list") (frames: "frame list")

definition NAMES :: "string list" where
  "NAMES =
     [''Exception'', ''DatabaseUnavailableError'', ''RuntimeError'', ''ValueError'', ''TypeError'', ''KeyError'',
      ''OSError'', ''PermissionError'', ''FileNotFoundError'', ''ConnectionResetError'', ''BrokenPipeError'',
      ''HTTPException'', ''ValidationError'', ''DBAPIError'', ''SQLAlchemyError'', ''ConnectionError'',
      ''ConnectionRefusedError'', ''TimeoutError'', ''CancelledError'', ''IntegrityError'', ''OperationalError'',
      ''InterfaceError'', ''DataError'', ''ProgrammingError'', ''InvalidRequestError'']"

definition CODES :: "(int \<times> string) list" where
  "CODES =
     [(2, ''ENOENT''), (13, ''EACCES''), (104, ''ECONNRESET''), (111, ''ECONNREFUSED''), (110, ''ETIMEDOUT''),
      (10061, ''ECONNREFUSED''), (1062, ''ER_DUP_ENTRY''), (1213, ''ER_LOCK_DEADLOCK''), (1205, ''ER_LOCK_WAIT_TIMEOUT''),
      (1406, ''ER_DATA_TOO_LONG''), (1048, ''ER_BAD_NULL_ERROR'')]"

definition DB_CODES :: "string list" where
  "DB_CODES =
     [''DB_POOL_CLOSED'', ''DB_POOL_CAPACITY'', ''DB_POOL_ACQUIRE_TIMEOUT'', ''DB_CONNECT_TIMEOUT'',
      ''DB_CONNECTION_FAILED'', ''DB_TLS_REQUIRED'']"

record diagnostics =
  errorType :: string
  errorCode :: "string option"
  errorFingerprint :: "string option"

definition unknown_error :: diagnostics where
  "unknown_error = \<lparr>errorType = ''UnknownError'', errorCode = None, errorFingerprint = None\<rparr>"

text \<open>Looking an unhashable object up in a set raises, which ends in the catch-all.\<close>

fun listed_code :: "object option \<Rightarrow> string option result" where
  "listed_code (Some (StrObj s)) = Inr (if s \<in> set DB_CODES then Some s else None)"
| "listed_code (Some (Unhashable t)) = Inl (TypeError ''unhashable type'')"
| "listed_code _ = Inr None"

fun args_code :: "object list \<Rightarrow> string option" where
  "args_code (IntObj n # _) = map_of CODES n"
| "args_code _ = None"

definition frame_line :: "frame \<Rightarrow> string" where
  "frame_line f = co_filename f @ '':'' @ co_name f @ '':'' @ show_int (tb_lineno f)"

definition or_else :: "'a option \<Rightarrow> 'a option \<Rightarrow> 'a option" where
  "or_else a b = (case a of Some x \<Rightarrow> Some x | None \<Rightarrow> b)"

fun error_diagnostics :: "(string \<Rightarrow> string) \<Rightarrow> object \<Rightarrow> diagnostics" where
  "error_diagnostics H (Err name cd orig as fs) =
     (case listed_code cd of
        Inl e \<Rightarrow> unknown_error
      | Inr listed \<Rightarrow>
          (let original_args = (case orig of None \<Rightarrow> as | Some (Err _ _ _ as' _) \<Rightarrow> as' | Some _ \<Rightarrow> []);
               lines = map frame_line (take 64 fs) in
           \<lparr>errorType = (if name \<in> set NAMES then name else ''UnknownError''),
            errorCode = or_else (args_code original_args) listed,
            errorFingerprint = (if lines = [] then None else Some (H (py_join [CHR 0x0A] lines)))\<rparr>))"
| "error_diagnostics H _ = unknown_error"

subsection \<open>Records\<close>

datatype log_value = LStr string | LInt int | LBool bool | LNum rat | LDiag diagnostics

datatype field_type = StrField | BoolField | IntField | NumberField

definition FIELDS :: "(string \<times> field_type) list" where
  "FIELDS =
     [(''requestId'', StrField), (''method'', StrField), (''ip'', StrField), (''route'', StrField), (''outcome'', StrField),
      (''headersSent'', BoolField), (''status'', IntField), (''durationMs'', NumberField)]"

text \<open>\<^verbatim>\<open>\u\<close> and at least four hexadecimal digits of a code point below 65536.\<close>

definition u_escape :: "nat \<Rightarrow> string" where
  "u_escape n = [CHR 0x5C, CHR ''u'', hex_digit (n div 4096), hex_digit (n div 256 mod 16),
     hex_digit (n div 16 mod 16), hex_digit (n mod 16)]"

text \<open>
  Control characters and line separators are escaped. In UTF-8 the code points 128 to 159 are two
  bytes and U+2028 and U+2029 three.
\<close>

fun single_line :: "string \<Rightarrow> string" where
  "single_line [] = []"
| "single_line (c # cs) =
     (if code c < 32 \<or> code c = 127 then u_escape (code c) @ single_line cs
      else
        (case cs of
           d # ds \<Rightarrow>
             if code c = 194 \<and> 128 \<le> code d \<and> code d \<le> 159 then u_escape (code d) @ single_line ds
             else
               (case ds of
                  e # es \<Rightarrow>
                    if code c = 226 \<and> code d = 128 \<and> (code e = 168 \<or> code e = 169)
                    then u_escape (8064 + code e) @ single_line es
                    else c # single_line cs
                | [] \<Rightarrow> c # single_line cs)
         | [] \<Rightarrow> [c]))"

declare single_line.simps [simp del]

type_synonym event_dict = "(string \<times> object) list"
type_synonym log_record = "(string \<times> log_value) list"

text \<open>\<^verbatim>\<open>isinstance\<close> with the expected type of a field; Booleans are integers.\<close>

fun field_value :: "field_type \<Rightarrow> object \<Rightarrow> log_value option" where
  "field_value StrField (StrObj s) = Some (LStr (single_line s))"
| "field_value BoolField (BoolObj b) = Some (LBool b)"
| "field_value IntField (IntObj n) = Some (LInt n)"
| "field_value IntField (BoolObj b) = Some (LBool b)"
| "field_value NumberField (IntObj n) = Some (LInt n)"
| "field_value NumberField (BoolObj b) = Some (LBool b)"
| "field_value NumberField (NumObj (Some q)) = Some (LNum q)"
| "field_value _ _ = None"

record process =
  pr_time :: string
  pr_pid :: int
  pr_hostname :: string

definition with_request_id :: "event_dict \<Rightarrow> event_dict" where
  "with_request_id ev =
     (case map_of ev ''request_id'' of
        Some v \<Rightarrow> if map_of ev ''requestId'' = None then ev @ [(''requestId'', v)] else ev
      | None \<Rightarrow> ev)"

definition event_message :: "event_dict \<Rightarrow> string" where
  "event_message ev = (case map_of ev ''event'' of Some (StrObj s) \<Rightarrow> single_line s | _ \<Rightarrow> ''Application event.'')"

definition copied_fields :: "event_dict \<Rightarrow> log_record" where
  "copied_fields ev =
     concat (map (\<lambda>(k, t). case Option.bind (map_of ev k) (field_value t) of None \<Rightarrow> [] | Some v \<Rightarrow> [(k, v)]) FIELDS)"

definition LOGGED_METHODS :: "string list" where
  "LOGGED_METHODS = [''GET'', ''POST'', ''PUT'', ''PATCH'', ''DELETE'', ''HEAD'', ''OPTIONS'']"

definition known_method :: "log_record \<Rightarrow> log_record" where
  "known_method fs =
     map (\<lambda>(k, v). if k = ''method'' \<and> v \<notin> LStr ` set LOGGED_METHODS then (k, LStr ''<other>'') else (k, v)) fs"

definition ALIASES :: "string list" where
  "ALIASES = [''error'', ''err'', ''reason'', ''exception'']"

definition error_fields :: "(string \<Rightarrow> string) \<Rightarrow> event_dict \<Rightarrow> log_record \<Rightarrow> log_record" where
  "error_fields H ev rec =
     fold (\<lambda>alias rec.
         case map_of ev alias of
           None \<Rightarrow> rec
         | Some v \<Rightarrow> od_set (if alias = ''exception'' then ''error'' else alias) (LDiag (error_diagnostics H v)) rec)
       ALIASES rec"

definition safe_event :: "(string \<Rightarrow> string) \<Rightarrow> process \<Rightarrow> string \<Rightarrow> event_dict \<Rightarrow> log_record" where
  "safe_event H pr meth ev =
     (let ev' = with_request_id ev in
      error_fields H ev'
        ([(''time'', LStr (pr_time pr)), (''pid'', LInt (pr_pid pr)), (''hostname'', LStr (pr_hostname pr)),
          (''levelLabel'', LStr meth), (''msg'', LStr (event_message ev))] @ known_method (copied_fields ev')))"

subsection \<open>Console lines\<close>

record palette =
  dim_green :: string
  cyan :: string
  magenta :: string
  white :: string
  level_colors :: "string \<Rightarrow> string option"
  reset :: string

text \<open>\<open>stamp\<close> renders the time of the record in local time.\<close>

definition concise_renderer :: "palette \<Rightarrow> (string \<Rightarrow> string) \<Rightarrow> process \<Rightarrow> string \<Rightarrow> log_record \<Rightarrow> string" where
  "concise_renderer pal stamp pr level rec =
     (let line = dim_green pal @ stamp (pr_time pr) @ reset pal @ '' '' @ cyan pal @ ''['' @ show_int (pr_pid pr) @ '']'' @
            reset pal @ '' '' @ (case level_colors pal level of Some c \<Rightarrow> c | None \<Rightarrow> white pal) @
            ''['' @ ljust 8 level @ '']'' @ reset pal;
          line = (case map_of rec ''requestId'' of
                    Some (LStr i) \<Rightarrow> if i = [] then line else line @ '' '' @ magenta pal @ ''['' @ i @ '']'' @ reset pal
                  | _ \<Rightarrow> line) in
      line @ '' '' @ (case map_of rec ''msg'' of Some (LStr m) \<Rightarrow> m | _ \<Rightarrow> []))"

subsection \<open>Dependency logging\<close>

definition LOG_LEVEL_MAP :: "(string \<times> int) list" where
  "LOG_LEVEL_MAP = [(''DEBUG'', 10), (''INFO'', 20), (''WARN'', 30), (''ERROR'', 40)]"

record dependency_record =
  dr_name :: string
  dr_levelno :: int
  dr_exc :: "object option"
  dr_text :: string

definition dependency_level :: "int \<Rightarrow> string" where
  "dependency_level levelno =
     (if levelno = 30 then ''warning''
      else if levelno \<ge> 50 then ''critical''
      else if levelno \<ge> 40 then ''error''
      else if levelno \<ge> 20 then ''info''
      else ''debug'')"

definition dependency_emit :: "dependency_record \<Rightarrow> string \<times> event_dict" where
  "dependency_emit r =
     (dependency_level (dr_levelno r),
      (''event'', StrObj (if startswith (dr_name r) ''uvicorn'' then ''Server event.'' else ''Dependency log event.'')) #
      (case dr_exc r of None \<Rightarrow> [] | Some e \<Rightarrow> [(''error'', e)]))"

text \<open>The floor of the handler: records below it are not emitted.\<close>

definition dependency_minimum :: "string \<Rightarrow> int option" where
  "dependency_minimum level = map_option (\<lambda>n. max 30 n) (map_of LOG_LEVEL_MAP level)"

definition dependency_log :: "string \<Rightarrow> dependency_record \<Rightarrow> (string \<times> event_dict) option" where
  "dependency_log level r =
     Option.bind (dependency_minimum level) (\<lambda>m. if dr_levelno r < m then None else Some (dependency_emit r))"

subsection \<open>What a record reveals\<close>

text \<open>
  The view of an event that logging may reveal: of a field only a scalar, of an exception its
  listed class name, its listed codes and the frames of its traceback. Texts and arguments of
  exceptions, other objects and all other keys are erased.
\<close>

definition scalar :: "object \<Rightarrow> object" where
  "scalar v = (case v of StrObj s \<Rightarrow> v | IntObj n \<Rightarrow> v | BoolObj b \<Rightarrow> v | NumObj q \<Rightarrow> v | _ \<Rightarrow> NoneObj)"

fun listed_object :: "object option \<Rightarrow> object option" where
  "listed_object (Some (StrObj s)) = (if s \<in> set DB_CODES then Some (StrObj s) else None)"
| "listed_object (Some (Unhashable t)) = Some (Unhashable [])"
| "listed_object _ = None"

fun listed_args :: "object list \<Rightarrow> object list" where
  "listed_args (IntObj n # as) = (if map_of CODES n = None then [] else [IntObj n])"
| "listed_args _ = []"

fun erase_error :: "object \<Rightarrow> object" where
  "erase_error (Err name cd orig as fs) =
     Err (if name \<in> set NAMES then name else []) (listed_object cd) None
       (listed_args (case orig of None \<Rightarrow> as | Some (Err _ _ _ as' _) \<Rightarrow> as' | Some _ \<Rightarrow> [])) (take 64 fs)"
| "erase_error _ = NoneObj"

definition view_keys :: "string list" where
  "view_keys = [''event'', ''request_id''] @ map fst FIELDS @ ALIASES"

definition view :: "string \<Rightarrow> object \<Rightarrow> object" where
  "view k v = (if k \<in> set ALIASES then erase_error v else scalar v)"

definition visible :: "event_dict \<Rightarrow> event_dict" where
  "visible ev = map (\<lambda>(k, v). (k, view k v)) (filter (\<lambda>kv. fst kv \<in> set view_keys) ev)"

lemma map_of_visible: "map_of (visible ev) k = (if k \<in> set view_keys then map_option (view k) (map_of ev k) else None)"
  by (induction ev) (auto simp: visible_def)

lemma listed_code_view: "listed_code (listed_object cd) = (case listed_code cd of Inl e \<Rightarrow> Inl e | Inr c \<Rightarrow> Inr c)"
  by (cases cd rule: listed_object.cases) auto

lemma args_code_view: "args_code (listed_args as) = args_code as"
  by (cases as rule: listed_args.cases) auto

lemma diagnostics_view [simp]: "error_diagnostics H (erase_error v) = error_diagnostics H v"
proof (cases v)
  case (Err name cd orig as fs)
  have "[] \<notin> set NAMES" by (simp add: NAMES_def)
  then show ?thesis using Err
    by (simp add: Let_def args_code_view listed_code_view min_absorb1 split: sum.split)
qed simp_all

lemma field_value_scalar [simp]: "field_value t (scalar v) = field_value t v"
  by (cases "(t, v)" rule: field_value.cases) (simp_all add: scalar_def split: object.splits)

lemma fields_view: "k \<in> set (map fst FIELDS) \<Longrightarrow> view k v = scalar v \<and> k \<in> set view_keys"
  by (auto simp: view_def view_keys_def FIELDS_def ALIASES_def)

lemma with_request_id_visible: "with_request_id (visible ev) = visible (with_request_id ev)"
proof -
  have k: "view ''request_id'' v = scalar v" "view ''requestId'' v = scalar v" for v
    by (simp_all add: view_def ALIASES_def)
  have m: "''request_id'' \<in> set view_keys" "''requestId'' \<in> set view_keys"
    by (simp_all add: view_keys_def FIELDS_def)
  have "visible (ev @ [(''requestId'', v)]) = visible ev @ [(''requestId'', scalar v)]" for v
    using m(2) by (simp add: visible_def k)
  moreover have "map_of (visible ev) ''request_id'' = map_option scalar (map_of ev ''request_id'')"
    "map_of (visible ev) ''requestId'' = map_option scalar (map_of ev ''requestId'')"
    using m by (simp_all add: map_of_visible k cong: option.map_cong)
  ultimately show ?thesis by (auto simp: with_request_id_def split: option.split)
qed

lemma event_message_visible: "event_message (visible ev) = event_message ev"
proof -
  have "view ''event'' v = scalar v" for v by (simp add: view_def ALIASES_def)
  moreover have "''event'' \<in> set view_keys" by (simp add: view_keys_def)
  ultimately show ?thesis
    by (auto simp: event_message_def map_of_visible scalar_def split: option.splits object.splits)
qed

lemma copied_fields_visible: "copied_fields (visible ev) = copied_fields ev"
proof -
  have "Option.bind (map_of (visible ev) k) (field_value t) = Option.bind (map_of ev k) (field_value t)"
    if "(k, t) \<in> set FIELDS" for k t
    using fields_view [of k] that by (cases "map_of ev k") (force simp: map_of_visible)+
  then show ?thesis unfolding copied_fields_def by (intro arg_cong [where f = concat] map_cong refl) auto
qed

lemma error_fields_visible: "error_fields H (visible ev) rec = error_fields H ev rec"
proof -
  have "map_of (visible ev) k = map_option erase_error (map_of ev k)" if "k \<in> set ALIASES" for k
    using that by (simp add: map_of_visible view_def view_keys_def cong: option.map_cong)
  then show ?thesis
    unfolding error_fields_def by (intro fold_cong refl ext) (simp split: option.split)
qed

text \<open>Escaped text is a single line and stays as it is.\<close>

definition printable :: "string \<Rightarrow> bool" where
  "printable s \<longleftrightarrow> list_all (\<lambda>c. 32 \<le> code c \<and> code c \<noteq> 127) s \<and> single_line s = s"

lemma code_hex [simp]: "n < 16 \<Longrightarrow> 48 \<le> code (hex_digit n) \<and> code (hex_digit n) \<le> 102"
  by (simp add: hex_digit_def code_digit_char)

lemma u_escape_plain: "list_all (\<lambda>c. 32 \<le> code c \<and> code c < 127) (u_escape n)" if "n < 65536"
proof -
  have "n div 4096 < 16" "n div 256 mod 16 < 16" "n div 16 mod 16 < 16" "n mod 16 < 16" using that by simp_all
  note h = this [THEN code_hex]
  show ?thesis using h by (simp add: u_escape_def code_def)
qed

lemma single_line_Nil [simp]: "single_line [] = []"
  by (simp add: single_line.simps(1))

definition separator :: "char \<Rightarrow> string \<Rightarrow> bool" where
  "separator c cs \<longleftrightarrow>
     (case cs of
        d # ds \<Rightarrow> code c = 194 \<and> 128 \<le> code d \<and> code d \<le> 159 \<or>
          (case ds of e # es \<Rightarrow> code c = 226 \<and> code d = 128 \<and> (code e = 168 \<or> code e = 169) | [] \<Rightarrow> False)
      | [] \<Rightarrow> False)"

lemma single_line_keeps:
  "32 \<le> code c \<Longrightarrow> code c \<noteq> 127 \<Longrightarrow> \<not> separator c cs \<Longrightarrow> single_line (c # cs) = c # single_line cs"
  by (subst single_line.simps(2)) (auto simp: separator_def split: list.splits)

lemma single_line_step:
  "(\<exists>n rest. n < 65536 \<and> length rest \<le> length cs \<and> single_line (c # cs) = u_escape n @ single_line rest) \<or>
   (32 \<le> code c \<and> code c \<noteq> 127 \<and> \<not> separator c cs)"
proof (cases "code c < 32 \<or> code c = 127")
  case True
  then have "single_line (c # cs) = u_escape (code c) @ single_line cs"
    by (subst single_line.simps(2)) simp
  moreover have "code c < 65536" using True by auto
  ultimately show ?thesis by blast
next
  case False
  show ?thesis
  proof (cases "separator c cs")
    case True
    then obtain d ds where cs: "cs = d # ds" by (auto simp: separator_def split: list.splits)
    show ?thesis
    proof (cases "code c = 194 \<and> 128 \<le> code d \<and> code d \<le> 159")
      case two: True
      then have "single_line (c # cs) = u_escape (code d) @ single_line ds"
        unfolding cs by (subst single_line.simps(2)) simp
      moreover have "code d < 65536" "length ds \<le> length cs" using two cs by auto
      ultimately show ?thesis by blast
    next
      case three: False
      then obtain e es where ds: "ds = e # es" "code c = 226" "code d = 128" "code e = 168 \<or> code e = 169"
        using True cs by (auto simp: separator_def split: list.splits)
      then have "single_line (c # cs) = u_escape (8064 + code e) @ single_line es"
        unfolding cs ds(1) by (subst single_line.simps(2)) auto
      moreover have "8064 + code e < 65536" "length es \<le> length cs" using ds cs by auto
      ultimately show ?thesis by blast
    qed
  next
    case no: False
    then show ?thesis using \<open>\<not> (code c < 32 \<or> code c = 127)\<close> by simp
  qed
qed

lemma single_line_hd:
  assumes "single_line s = c # t"
  shows "c = CHR 0x5C \<or> (\<exists>cs. s = c # cs \<and> t = single_line cs)"
proof (cases s)
  case Nil
  then show ?thesis using assms by simp
next
  case (Cons a as)
  then show ?thesis
    using assms single_line_step [of as a] single_line_keeps [of a as] by (auto simp: u_escape_def)
qed

lemma single_line_plain_append:
  "list_all (\<lambda>c. 32 \<le> code c \<and> code c < 127) w \<Longrightarrow> single_line (w @ s) = w @ single_line s"
proof (induction w)
  case (Cons c w)
  then have "\<not> separator c (w @ s)" by (auto simp: separator_def split: list.splits)
  then show ?case using Cons by (simp add: single_line_keeps)
qed simp

lemma separator_single_line:
  assumes "\<not> separator c cs"
  shows "\<not> separator c (single_line cs)"
proof
  assume a: "separator c (single_line cs)"
  obtain d t where t: "single_line cs = d # t" using a by (auto simp: separator_def split: list.splits)
  then have "code d \<noteq> 92" using a by (auto simp: separator_def split: list.splits)
  then have "d \<noteq> CHR 0x5C" by (auto simp: code_def)
  then obtain ds where ds: "cs = d # ds" "t = single_line ds" using single_line_hd [OF t] by blast
  then obtain e u where u: "single_line ds = e # u" "code c = 226" "code d = 128" "code e = 168 \<or> code e = 169"
    using a assms t by (auto simp: separator_def split: list.splits)
  have "e \<noteq> CHR 0x5C" using u(4) by (auto simp: code_def)
  then obtain es where "ds = e # es" using single_line_hd [OF u(1)] by blast
  then show False using assms u ds(1) by (simp add: separator_def)
qed

lemma printable_single_line: "printable (single_line s)"
proof (induction s rule: length_induct)
  case (1 s)
  show ?case
  proof (cases s)
    case (Cons c cs)
    show ?thesis
      using single_line_step [of cs c]
    proof
      assume "\<exists>n rest. n < 65536 \<and> length rest \<le> length cs \<and> single_line (c # cs) = u_escape n @ single_line rest"
      then obtain n rest where n: "n < 65536" "length rest \<le> length cs" "single_line s = u_escape n @ single_line rest"
        using Cons by blast
      then have "printable (single_line rest)" using 1 Cons by simp
      moreover have "list_all (\<lambda>c. 32 \<le> code c \<and> code c \<noteq> 127) (u_escape n)"
        using u_escape_plain [OF n(1)] by (auto simp: list_all_iff)
      ultimately show ?thesis
        unfolding printable_def n(3) single_line_plain_append [OF u_escape_plain [OF n(1)]] by simp
    next
      assume k: "32 \<le> code c \<and> code c \<noteq> 127 \<and> \<not> separator c cs"
      then have "single_line s = c # single_line cs" using Cons by (simp add: single_line_keeps)
      moreover have "printable (single_line cs)" using 1 Cons by simp
      ultimately show ?thesis
        using k separator_single_line [of c cs] by (simp add: printable_def single_line_keeps)
    qed
  qed (simp add: printable_def)
qed

text \<open>What a value of a record may be.\<close>

definition listed_diagnostics :: "diagnostics \<Rightarrow> bool" where
  "listed_diagnostics d \<longleftrightarrow> errorType d \<in> insert ''UnknownError'' (set NAMES) \<and>
     errorCode d \<in> insert None (Some ` (set DB_CODES \<union> snd ` set CODES))"

lemma diagnostics_listed: "listed_diagnostics (error_diagnostics H v)"
proof (cases v)
  case (Err name cd orig as fs)
  have l: "listed_code cd = Inr c \<Longrightarrow> c \<in> insert None (Some ` set DB_CODES)" for c
    by (cases cd rule: listed_code.cases) (auto split: if_splits)
  have a: "args_code xs \<in> insert None (Some ` snd ` set CODES)" for xs
  proof -
    have "map_of CODES n \<in> insert None (Some ` snd ` set CODES)" for n
      by (cases "map_of CODES n") (auto dest!: map_of_SomeD intro!: image_eqI [of _ snd "(n, _)"])
    then show ?thesis by (cases xs rule: args_code.cases) auto
  qed
  show ?thesis
  proof (cases "listed_code cd")
    case (Inl e)
    then show ?thesis using Err by (simp add: listed_diagnostics_def unknown_error_def)
  next
    case (Inr c)
    let ?as = "case orig of None \<Rightarrow> as | Some (Err _ _ _ as' _) \<Rightarrow> as' | Some _ \<Rightarrow> []"
    have "or_else (args_code ?as) c \<in> insert None (Some ` (set DB_CODES \<union> snd ` set CODES))"
      using a [of ?as] l [OF Inr] unfolding or_else_def image_Un by (cases "args_code ?as") auto
    then show ?thesis using Err Inr by (simp add: listed_diagnostics_def Let_def)
  qed
qed (simp_all add: listed_diagnostics_def unknown_error_def)

fun confined :: "process \<Rightarrow> string \<Rightarrow> string \<times> log_value \<Rightarrow> bool" where
  "confined pr meth (k, LStr s) \<longleftrightarrow>
     (k, s) \<in> {(''time'', pr_time pr), (''hostname'', pr_hostname pr), (''levelLabel'', meth)} \<or>
     k \<in> {''msg'', ''requestId'', ''ip'', ''route'', ''outcome''} \<and> printable s \<or>
     k = ''method'' \<and> s \<in> insert ''<other>'' (set LOGGED_METHODS)"
| "confined pr meth (k, LDiag d) \<longleftrightarrow> k \<in> {''error'', ''err'', ''reason''} \<and> listed_diagnostics d"
| "confined pr meth (k, v) \<longleftrightarrow> k \<in> {''pid'', ''headersSent'', ''status'', ''durationMs''}"

lemma field_value_confined:
  assumes "(k, t) \<in> set FIELDS" "field_value t v = Some w" "k \<noteq> ''method''"
  shows "confined pr meth (k, w)"
  using assms by (cases "(t, v)" rule: field_value.cases) (auto simp: FIELDS_def printable_single_line)

lemma copied_fields_from:
  assumes "(k, w) \<in> set (copied_fields ev)"
  shows "\<exists>t v. (k, t) \<in> set FIELDS \<and> field_value t v = Some w"
proof -
  obtain t where t: "(k, t) \<in> set FIELDS" "Option.bind (map_of ev k) (field_value t) = Some w"
    using assms unfolding copied_fields_def by (auto split: option.splits)
  then show ?thesis by (auto simp: bind_eq_Some_conv)
qed

lemma copied_confined: "list_all (confined pr meth) (known_method (copied_fields ev))"
proof -
  have "confined pr meth (if k = ''method'' \<and> w \<notin> LStr ` set LOGGED_METHODS then (k, LStr ''<other>'') else (k, w))"
    if copied: "(k, w) \<in> set (copied_fields ev)" for k w
  proof (cases "k = ''method''")
    case True
    then show ?thesis by auto
  next
    case False
    obtain t v where "(k, t) \<in> set FIELDS" "field_value t v = Some w" using copied_fields_from [OF copied] by blast
    then show ?thesis using field_value_confined False by simp
  qed
  then show ?thesis unfolding list_all_iff known_method_def set_map ball_simps
    by (intro ballI) (metis (mono_tags, lifting) case_prod_conv surj_pair)
qed

lemma list_all_od_set: "list_all P rec \<Longrightarrow> P (k, v) \<Longrightarrow> list_all P (od_set k v rec)"
  by (induction k v rec rule: od_set.induct) auto

lemma error_fields_confined: "list_all (confined pr meth) rec \<Longrightarrow> list_all (confined pr meth) (error_fields H ev rec)"
  unfolding error_fields_def ALIASES_def
  by (auto simp: diagnostics_listed intro!: list_all_od_set split: option.split)

subsection \<open>Loggers\<close>

text \<open>
  A call of the application's logger: calls below the configured level do nothing, the values bound
  to the context are added where the event has none, and the record is rendered as JSON by the
  parameter \<open>dumps\<close> or as a console line. An unknown level raises.
\<close>

definition METHOD_LEVELS :: "(string \<times> int) list" where
  "METHOD_LEVELS = [(''debug'', 10), (''info'', 20), (''warning'', 30), (''error'', 40), (''critical'', 50)]"

definition merge_contextvars :: "event_dict \<Rightarrow> event_dict \<Rightarrow> event_dict" where
  "merge_contextvars ctx ev = ev @ filter (\<lambda>(k, v). map_of ev k = None) ctx"

record logger =
  lg_production :: bool
  lg_minimum :: int

definition create_logger :: "bool \<Rightarrow> string \<Rightarrow> logger result" where
  "create_logger production level =
     (case map_of LOG_LEVEL_MAP level of
        None \<Rightarrow> Inl (KeyError level)
      | Some n \<Rightarrow> Inr \<lparr>lg_production = production, lg_minimum = n\<rparr>)"

definition log_call ::
  "(log_record \<Rightarrow> string) \<Rightarrow> (process \<Rightarrow> string \<Rightarrow> log_record \<Rightarrow> string) \<Rightarrow> (string \<Rightarrow> string) \<Rightarrow> process \<Rightarrow> logger \<Rightarrow> event_dict \<Rightarrow>
   string \<Rightarrow> event_dict \<Rightarrow> string option" where
  "log_call dumps console H pr lg ctx meth ev =
     (case map_of METHOD_LEVELS meth of
        None \<Rightarrow> None
      | Some n \<Rightarrow>
          if n < lg_minimum lg then None
          else
            (let rec = safe_event H pr meth (merge_contextvars ctx ev) in
             Some (if lg_production lg then dumps rec else console pr meth rec)))"

text \<open>Text that the encoding of the output cannot represent is written with escapes.\<close>

definition write_output :: "(string \<Rightarrow> bool) \<Rightarrow> (string \<Rightarrow> string) \<Rightarrow> string \<Rightarrow> string \<Rightarrow> string" where
  "write_output encodable backslashreplace out v = out @ (if encodable v then v else backslashreplace v)"

text \<open>The loggers of dependencies, and what becomes of one of their records.\<close>

datatype log_handler = SafeDependencyHandler int | NullHandler

record named_logger =
  nl_level :: int
  nl_handlers :: "log_handler list"
  nl_propagate :: bool

definition DEPENDENCIES :: "string list" where
  "DEPENDENCIES = [''uvicorn'', ''uvicorn.error'', ''fastapi'', ''asyncmy'', ''sqlalchemy'', ''httpx'', ''httpcore'', ''asyncio'']"

type_synonym loggers = "string \<Rightarrow> named_logger"

definition configure_dependency_logging :: "string \<Rightarrow> loggers \<Rightarrow> loggers result" where
  "configure_dependency_logging level lgs =
     (case dependency_minimum level of
        None \<Rightarrow> Inl (KeyError level)
      | Some n \<Rightarrow>
          (let lgs = lgs(''root'' := (lgs ''root'') \<lparr>nl_level := n, nl_handlers := [SafeDependencyHandler n]\<rparr>);
               lgs = fold (\<lambda>name lgs. lgs(name := \<lparr>nl_level = 30, nl_handlers = [], nl_propagate = True\<rparr>)) DEPENDENCIES lgs in
           Inr (lgs(''uvicorn.access'' := (lgs ''uvicorn.access'') \<lparr>nl_handlers := [NullHandler], nl_propagate := False\<rparr>))))"

text \<open>The handlers of a logger that is a child of the root, and of the root unless it does not propagate.\<close>

definition reached_handlers :: "loggers \<Rightarrow> string \<Rightarrow> log_handler list" where
  "reached_handlers lgs name =
     nl_handlers (lgs name) @ (if name \<noteq> ''root'' \<and> nl_propagate (lgs name) then nl_handlers (lgs ''root'') else [])"

lemma dependencies_filtered:
  assumes "configure_dependency_logging level lgs = Inr lgs'" "name \<in> set DEPENDENCIES"
  shows "\<exists>n. dependency_minimum level = Some n \<and> 30 \<le> n \<and> reached_handlers lgs' name = [SafeDependencyHandler n]"
    and "reached_handlers lgs' ''uvicorn.access'' = [NullHandler]"
proof -
  obtain n where n: "dependency_minimum level = Some n"
    using assms(1) by (auto simp: configure_dependency_logging_def split: option.splits)
  then have "30 \<le> n" by (auto simp: dependency_minimum_def)
  then show "\<exists>n. dependency_minimum level = Some n \<and> 30 \<le> n \<and> reached_handlers lgs' name = [SafeDependencyHandler n]"
    and "reached_handlers lgs' ''uvicorn.access'' = [NullHandler]"
    using assms n by (auto simp: configure_dependency_logging_def Let_def DEPENDENCIES_def reached_handlers_def)
qed

lemma visible_filter:
  "(\<And>k. k \<in> set view_keys \<Longrightarrow> Q k = Q' k) \<Longrightarrow> visible (filter (\<lambda>(k, v). Q k) ctx) = filter (\<lambda>(k, v). Q' k) (visible ctx)"
  by (induction ctx) (auto simp: visible_def)

lemma merge_visible: "visible (merge_contextvars ctx ev) = merge_contextvars (visible ctx) (visible ev)"
proof -
  have "map_of ev k = None \<longleftrightarrow> map_of (visible ev) k = None" if "k \<in> set view_keys" for k
    using that by (simp add: map_of_visible)
  from visible_filter [of "\<lambda>k. map_of ev k = None", OF this, of ctx]
  have "visible (filter (\<lambda>(k, v). map_of ev k = None) ctx) = filter (\<lambda>(k, v). map_of (visible ev) k = None) (visible ctx)" .
  moreover have "visible (xs @ ys) = visible xs @ visible ys" for xs ys by (simp add: visible_def)
  ultimately show ?thesis by (simp only: merge_contextvars_def)
qed

text \<open>What a call writes depends on the visible parts of the event and of the context.\<close>

lemma log_call_visible:
  "log_call dumps console H pr lg (visible ctx) meth (visible ev) = log_call dumps console H pr lg ctx meth ev"
proof -
  have "safe_event H pr meth (visible e) = safe_event H pr meth e" for e
    unfolding safe_event_def Let_def with_request_id_visible copied_fields_visible event_message_visible error_fields_visible
    by (rule refl)
  then show ?thesis by (simp add: log_call_def merge_visible [symmetric] split: option.split)
qed

subsection \<open>Properties\<close>

text \<open>
  Property C35. Log records reveal only what is listed: the record of an event is the record of its
  visible part, which has no exception texts, no exception arguments except listed error numbers,
  and no further keys; each entry has a listed key with a value of its kind; the message and the
  fields taken from a request are single lines without control characters, and diagnostics carry
  listed names and codes only.
\<close>

theorem log_records_confined:
  "safe_event H pr meth (visible ev) = safe_event H pr meth ev \<and> list_all (confined pr meth) (safe_event H pr meth ev)"
proof
  show "safe_event H pr meth (visible ev) = safe_event H pr meth ev"
    by (simp add: safe_event_def Let_def with_request_id_visible event_message_visible copied_fields_visible error_fields_visible)
  have "printable ''Application event.''" by code_simp
  then have "printable (event_message ev)"
    by (auto simp: event_message_def printable_single_line split: option.split object.split)
  then show "list_all (confined pr meth) (safe_event H pr meth ev)"
    unfolding safe_event_def Let_def by (intro error_fields_confined) (simp add: copied_confined)
qed

text \<open>Records of dependencies carry neither their text nor their arguments, and none below the floor is emitted.\<close>

lemma dependency_text_hidden:
  "dependency_log level (r \<lparr>dr_text := s\<rparr>) = dependency_log level r \<and>
   (dependency_log level r \<noteq> None \<longrightarrow> 30 \<le> dr_levelno r)"
proof -
  have "dependency_emit (r \<lparr>dr_text := s\<rparr>) = dependency_emit r" by (simp add: dependency_emit_def)
  then show ?thesis
    by (cases "map_of LOG_LEVEL_MAP level") (auto simp: dependency_log_def dependency_minimum_def)
qed

end
