(* ===== verification/Database.thy ===== *)
theory Database
  imports Background Environment
begin

text \<open>
  Database connections: the transport policy and the opening of connections
  (\<^verbatim>\<open>app/config/database_transport.py\<close>), the revision check (\<^verbatim>\<open>app/config/migrations.py\<close>), and
  the sessions and the lifecycle service of \<^verbatim>\<open>app/config/database.py\<close>.

  What the driver, the TLS library and SQLAlchemy answer is a parameter of each operation.
\<close>

subsection \<open>The transport policy\<close>

record DatabasePolicy =
  connection_limit :: int
  pool_queue_limit :: int
  acquire_timeout_ms :: int
  connect_timeout_ms :: int
  ssl_enabled :: bool
  ca_file :: "string option"

definition in_bounds :: "int \<times> int \<times> int \<Rightarrow> bool" where
  "in_bounds b = (case b of (v, lower, upper) \<Rightarrow> lower \<le> v \<and> v \<le> upper)"

definition new_database_policy :: "int \<Rightarrow> int \<Rightarrow> int \<Rightarrow> int \<Rightarrow> bool \<Rightarrow> string option \<Rightarrow> DatabasePolicy result" where
  "new_database_policy connections queued acquire connect ssl ca =
     (if list_all in_bounds
          [(connections, 1, 1000), (queued, 0, 10000), (acquire, 1, 2147483647), (connect, 1, 2147483647)]
      then Inr \<lparr>connection_limit = connections, pool_queue_limit = queued, acquire_timeout_ms = acquire,
             connect_timeout_ms = connect, ssl_enabled = ssl, ca_file = ca\<rparr>
      else Inl (ValueError ''Invalid database capacity or deadline policy.''))"

definition configured_policy :: "Settings \<Rightarrow> DatabasePolicy result" where
  "configured_policy s =
     new_database_policy (DB_POOL_CONNECTION_LIMIT s) (DB_POOL_QUEUE_LIMIT s) (DB_POOL_ACQUIRE_TIMEOUT_MS s)
       (DB_CONNECT_TIMEOUT_MS s) (DB_SSL s) (DB_SSL_CA_FILE s)"

text \<open>
  \<open>load ca\<close> tells whether the certificates load. The result tells whether connections use TLS,
  which is then at least version 1.2.
\<close>

definition tls_context :: "(string option \<Rightarrow> bool) \<Rightarrow> DatabasePolicy \<Rightarrow> bool result" where
  "tls_context load policy =
     (if \<not> ssl_enabled policy then
        (if ca_file policy \<noteq> None then Inl (ValueError ''DB_SSL_CA_FILE requires DB_SSL=true.'') else Inr False)
      else if load (ca_file policy) then Inr True
      else Inl (ValueError ''Unable to load valid database CA certificates.''))"

text \<open>What the engine is created with; times are in seconds.\<close>

record engine =
  en_tls :: bool
  en_connect_timeout :: rat
  en_queue_limit :: int
  en_acquire_timeout :: rat
  en_pool_size :: int
  en_max_overflow :: int
  en_pool_timeout :: rat
  en_hide_parameters :: bool

definition build_database_engine :: "libraries \<Rightarrow> (string option \<Rightarrow> bool) \<Rightarrow> string \<Rightarrow> DatabasePolicy \<Rightarrow> engine result" where
  "build_database_engine lib load url policy =
     (case make_url lib url of
        None \<Rightarrow> Inl (ValueError ''Could not parse SQLAlchemy URL'')
      | Some (driver, query) \<Rightarrow>
          bindR (tls_context load policy) (\<lambda>tls.
            if driver \<noteq> ''mysql+asyncmy'' \<or> \<not> set query \<subseteq> {''charset''}
            then Inl (ValueError ''MySQL requires asyncmy; only the charset URL option is supported.'')
            else Inr \<lparr>en_tls = tls, en_connect_timeout = of_int (connect_timeout_ms policy) / 1000,
              en_queue_limit = pool_queue_limit policy, en_acquire_timeout = of_int (acquire_timeout_ms policy) / 1000,
              en_pool_size = connection_limit policy, en_max_overflow = 0,
              en_pool_timeout = of_int (acquire_timeout_ms policy) / 1000, en_hide_parameters = True\<rparr>))"

subsection \<open>Opening a connection\<close>

text \<open>
  The driver's answers while a connection is opened: of \<^verbatim>\<open>connect\<close>, and of the query of the session
  cipher, whose row may be missing and whose value may be empty. \<^verbatim>\<open>TimeoutError\<close> is also what the
  deadline of the block raises. The state is whether the connection has been closed.
\<close>

record driver =
  connect_answer :: "unit result"
  cipher_answer :: "string option option result"

definition require_cipher :: "string option option \<Rightarrow> unit result" where
  "require_cipher row =
     (case row of
        Some (Some cipher) \<Rightarrow> if cipher = [] then Inl (DatabaseUnavailableError ''DB_TLS_REQUIRED'') else Inr ()
      | _ \<Rightarrow> Inl (DatabaseUnavailableError ''DB_TLS_REQUIRED''))"

definition open_session :: "bool \<Rightarrow> driver \<Rightarrow> unit result" where
  "open_session tls dr =
     bindR (connect_answer dr) (\<lambda>_. if tls then bindR (cipher_answer dr) require_cipher else Inr ())"

fun creation_failure :: "exn \<Rightarrow> exn" where
  "creation_failure TimeoutError = DatabaseUnavailableError ''DB_CONNECT_TIMEOUT''"
| "creation_failure CancelledError = CancelledError"
| "creation_failure (DatabaseUnavailableError c) = DatabaseUnavailableError c"
| "creation_failure e = DatabaseUnavailableError ''DB_CONNECTION_FAILED''"

definition creator :: "bool \<Rightarrow> driver \<Rightarrow> unit result \<times> bool" where
  "creator tls dr =
     (case open_session tls dr of
        Inr _ \<Rightarrow> (Inr (), False)
      | Inl e \<Rightarrow> (Inl (creation_failure e), True))"

subsection \<open>Revisions\<close>

definition stale_revision :: string where
  "stale_revision = ''Database schema revision is not current. Run python -m alembic upgrade head.''"

definition check_revision :: "string list \<Rightarrow> string list \<Rightarrow> unit result" where
  "check_revision heads current =
     (if length heads \<noteq> 1 \<or> set current \<noteq> set heads then Inl (RuntimeError stale_revision) else Inr ())"

subsection \<open>Sessions\<close>

text \<open>The entry of the transaction session in the scope: absent, a session, or something else.\<close>

datatype owned = NoSession | OwnedSession nat | NotASession

datatype given_session = Borrowed nat | Fresh

definition get_session :: "owned \<Rightarrow> given_session result" where
  "get_session ow =
     (case ow of
        NotASession \<Rightarrow> Inl (RuntimeError ''Invalid mutation transaction session.'')
      | OwnedSession i \<Rightarrow> Inr (Borrowed i)
      | NoSession \<Rightarrow> Inr Fresh)"

subsection \<open>The lifecycle service\<close>

text \<open>The engine's pool is disposed; \<open>disposals\<close> counts how often.\<close>

record DatabaseService =
  db_readiness :: DatabaseReadiness
  disposals :: nat

definition close_db :: "DatabaseService \<Rightarrow> DatabaseService" where
  "close_db db = db \<lparr>db_readiness := rd_stop (db_readiness db), disposals := disposals db + 1\<rparr>"

text \<open>
  \<open>heads_read\<close> is the answer of connecting and reading the heads of the schema within the time
  allowed for it.
\<close>

definition init_db :: "string list \<Rightarrow> string list result \<Rightarrow> DatabaseService \<Rightarrow> unit result \<times> DatabaseService" where
  "init_db heads heads_read db =
     (case bindR heads_read (check_revision heads) of
        Inr _ \<Rightarrow> (Inr (), db \<lparr>db_readiness := rd_resume (db_readiness db)\<rparr>)
      | Inl e \<Rightarrow> (Inl e, close_db db))"

definition db_check :: "time \<Rightarrow> nat \<Rightarrow> DatabaseService \<Rightarrow> answer_of \<times> DatabaseService" where
  "db_check now t db =
     (case rd_check now t (db_readiness db) of (a, r) \<Rightarrow> (a, db \<lparr>db_readiness := r\<rparr>))"

subsection \<open>Properties\<close>

text \<open>
  Opening a connection leaks nothing: it is closed exactly when opening fails, a
  failure is a cancellation or one of the service's own errors, whatever the driver raised, and
  with TLS an open connection has a session cipher.
\<close>

lemma creator_safe:
  "(snd (creator tls dr) \<longleftrightarrow> isl (fst (creator tls dr))) \<and>
   fst (creator tls dr) \<in> {Inr (), Inl CancelledError} \<union> range (\<lambda>c. Inl (DatabaseUnavailableError c)) \<and>
   (fst (creator tls dr) = Inr () \<longleftrightarrow> connect_answer dr = Inr () \<and>
     (tls = False \<or> (\<exists>c cs. cipher_answer dr = Inr (Some (Some (c # cs))))))"
proof -
  have "creation_failure e \<in> insert CancelledError (range DatabaseUnavailableError)" for e
    by (cases e rule: creation_failure.cases) auto
  then have "fst (creator tls dr) \<in> {Inr (), Inl CancelledError} \<union> range (\<lambda>c. Inl (DatabaseUnavailableError c))"
    unfolding creator_def by (auto split: sum.split)
  moreover have "require_cipher row = Inr () \<longleftrightarrow> (\<exists>c cs. row = Some (Some (c # cs)))" for row
    by (auto simp: require_cipher_def neq_Nil_conv split: option.split)
  then have "open_session tls dr = Inr () \<longleftrightarrow> connect_answer dr = Inr () \<and>
      (tls = False \<or> (\<exists>c cs. cipher_answer dr = Inr (Some (Some (c # cs)))))"
    by (auto simp: open_session_def bindR_eq_Inr)
  ultimately show ?thesis by (auto simp: creator_def split: sum.splits)
qed

text \<open>Settings that load give a valid transport policy.\<close>

lemma database_fields:
  "validate_fields lib env = Some s \<Longrightarrow>
    int_field env ''DB_POOL_CONNECTION_LIMIT'' 10 1 1000 = Some (DB_POOL_CONNECTION_LIMIT s) \<and>
    int_field env ''DB_POOL_QUEUE_LIMIT'' 50 0 10000 = Some (DB_POOL_QUEUE_LIMIT s) \<and>
    int_field env ''DB_POOL_ACQUIRE_TIMEOUT_MS'' 1000 1 2147483647 = Some (DB_POOL_ACQUIRE_TIMEOUT_MS s) \<and>
    int_field env ''DB_CONNECT_TIMEOUT_MS'' 10000 1 2147483647 = Some (DB_CONNECT_TIMEOUT_MS s)"
  unfolding validate_fields_def bind_eq_Some_conv by clarsimp

lemma configured_policy_ok:
  assumes "load_settings lib file process = Some s"
  shows "\<exists>p. configured_policy s = Inr p"
proof -
  obtain env where "validate_fields lib env = Some s" using load_settings_Some [OF assms] by blast
  from database_fields [OF this] show ?thesis
    by (simp add: configured_policy_def new_database_policy_def in_bounds_def) (blast dest: int_field_Some)
qed

text \<open>A failed start leaves the probe stopped and the pool disposed; a start that succeeds follows one head.\<close>

lemma init_db_cases:
  "case init_db heads heads_read db of
     (Inr _, db') \<Rightarrow> \<exists>h cur. heads = [h] \<and> heads_read = Inr cur \<and> set cur = {h} \<and> \<not> rd_stopped (db_readiness db') \<and> disposals db' = disposals db
   | (Inl e, db') \<Rightarrow> rd_stopped (db_readiness db') \<and> disposals db' = disposals db + 1"
  by (auto simp: init_db_def close_db_def check_revision_def rd_stop_def rd_resume_def bindR_def length_Suc_conv
      split: sum.splits if_splits)

end
