(* ===== verification/System.thy ===== *)
theory System
  imports Lifecycle Environment
begin

text \<open>
  The system endpoints: the services of \<^verbatim>\<open>app/api/system/services/system_service.py\<close>, the response
  models of \<^verbatim>\<open>app/api/system/models\<close> and the status of the readiness probe.

  What the platform answers (\<^verbatim>\<open>os\<close>, \<^verbatim>\<open>platform\<close>, \<^verbatim>\<open>resource\<close>, \<^verbatim>\<open>tracemalloc\<close> and \<^verbatim>\<open>/proc/meminfo\<close>)
  is the record \<open>platform\<close>. Instants are seconds since the epoch in UTC.
\<close>

subsection \<open>Liveness and readiness\<close>

text \<open>\<^verbatim>\<open>round(x, 3)\<close>.\<close>

definition round3 :: "rat \<Rightarrow> rat" where
  "round3 x = of_int (round_half_even (x * 1000)) / 1000"

record HealthData =
  hd_alive :: bool
  hd_uptime :: rat
  hd_timestamp :: time

definition live :: "time \<Rightarrow> rat \<Rightarrow> rat \<Rightarrow> LifecycleHandler \<Rightarrow> HealthData" where
  "live initialized_at started_at perf h =
     (let uptime = round3 (perf - started_at) in
      \<lparr>hd_alive = is_alive h, hd_uptime = uptime, hd_timestamp = initialized_at + uptime\<rparr>)"

definition ready :: "hooks \<Rightarrow> (string \<Rightarrow> time \<times> time) \<Rightarrow> LifecycleHandler \<Rightarrow> bool result" where
  "ready hk clock h = bindR (check_services hk clock h) (\<lambda>results. Inr (is_ready h \<and> list_all is_up results))"

record HealthResponse =
  hr_alive :: bool
  hr_status :: string
  hr_uptime :: rat
  hr_timestamp :: time

definition validate_health :: "HealthResponse \<Rightarrow> HealthResponse result" where
  "validate_health r =
     (if hr_uptime r < 0 then Inl (ValueError ''uptime'')
      else if hr_status r \<noteq> (if hr_alive r then ''alive'' else ''dead'')
      then Inl (ValueError ''status must correspond to alive'')
      else Inr r)"

definition from_alive :: "HealthData \<Rightarrow> HealthResponse result" where
  "from_alive d =
     validate_health \<lparr>hr_alive = hd_alive d, hr_status = (if hd_alive d then ''alive'' else ''dead''),
       hr_uptime = hd_uptime d, hr_timestamp = hd_timestamp d\<rparr>"

record ReadyResponse =
  rr_ready :: bool
  rr_status :: string
  rr_timestamp :: time

definition validate_ready :: "ReadyResponse \<Rightarrow> ReadyResponse result" where
  "validate_ready r =
     (if rr_status r \<noteq> (if rr_ready r then ''ready'' else ''not_ready'')
      then Inl (ValueError ''ready and status contradict each other'') else Inr r)"

definition from_state :: "time \<Rightarrow> bool \<Rightarrow> ReadyResponse result" where
  "from_state now b =
     validate_ready \<lparr>rr_ready = b, rr_status = (if b then ''ready'' else ''not_ready''), rr_timestamp = now\<rparr>"

definition ready_probe ::
  "hooks \<Rightarrow> (string \<Rightarrow> time \<times> time) \<Rightarrow> time \<Rightarrow> LifecycleHandler \<Rightarrow> (int \<times> ReadyResponse) result" where
  "ready_probe hk clock now h =
     bindR (ready hk clock h) (\<lambda>b. bindR (from_state now b) (\<lambda>r. Inr (if rr_ready r then 200 else 503, r)))"

subsection \<open>The platform\<close>

text \<open>\<open>None\<close> stands for a function that does not exist, \<open>Inl\<close> for one that raises.\<close>

record platform =
  getloadavg :: "(rat \<times> rat \<times> rat) result option"
  meminfo_lines :: "string list result"
  sysconf :: "(int \<times> int \<times> int) result option"
  max_rss :: "rat result option"
  traced_memory :: "(int \<times> int) option"
  cpu_count :: "int option"
  processor_name :: string
  system_name :: string
  release_name :: string
  machine_name :: string
  sys_platform :: string
  platform_python :: string
  sys_version :: string
  host_name :: string
  process_id :: int

definition load_average :: "(rat \<times> rat \<times> rat) result option \<Rightarrow> (rat \<times> rat \<times> rat) result" where
  "load_average f =
     (case f of
        None \<Rightarrow> Inr (0, 0, 0)
      | Some (Inl e) \<Rightarrow> if e = OSError then Inr (0, 0, 0) else Inl e
      | Some (Inr (a, b, c)) \<Rightarrow> Inr (max 0 a, max 0 b, max 0 c))"

text \<open>\<^verbatim>\<open>split()\<close>: the words between runs of white space.\<close>

fun py_words :: "string \<Rightarrow> string list" where
  "py_words [] = []"
| "py_words (c # cs) =
     (if py_isspace c then py_words cs
      else
        (case cs of
           [] \<Rightarrow> [[c]]
         | d # _ \<Rightarrow> if py_isspace d then [c] # py_words cs
             else (case py_words cs of w # ws \<Rightarrow> (c # w) # ws | [] \<Rightarrow> [[c]])))"

definition meminfo_entry :: "string \<Rightarrow> (string \<times> int) option" where
  "meminfo_entry line =
     (case py_words line of
        name # v # _ \<Rightarrow> if list_all py_isdigit v then Some (py_rstrip (CHR '':'') name, int (read_digits v) * 1024) else None
      | _ \<Rightarrow> None)"

definition meminfo_entries :: "string list \<Rightarrow> (string \<times> int) list" where
  "meminfo_entries ls =
     fold (\<lambda>l d. case meminfo_entry l of Some (k, v) \<Rightarrow> od_set k v d | None \<Rightarrow> d) ls []"

fun unreadable :: "exn \<Rightarrow> bool" where
  "unreadable OSError = True"
| "unreadable (ValueError m) = True"
| "unreadable UnicodeDecodeError = True"
| "unreadable e = False"

definition memory_from_proc :: "string list result \<Rightarrow> (int \<times> int) option result" where
  "memory_from_proc ls =
     (case ls of
        Inl e \<Rightarrow> if unreadable e then Inr None else Inl e
      | Inr ls \<Rightarrow>
          (let entries = meminfo_entries ls;
               available = (case map_of entries ''MemAvailable'' of Some v \<Rightarrow> Some v | None \<Rightarrow> map_of entries ''MemFree'') in
           case (map_of entries ''MemTotal'', available) of
             (Some tot, Some av) \<Rightarrow> Inr (Some (max 0 tot, min (max 0 av) (max 0 tot)))
           | _ \<Rightarrow> Inr None))"

definition memory_from_sysconf :: "(int \<times> int \<times> int) result option \<Rightarrow> (int \<times> int) option result" where
  "memory_from_sysconf f =
     (case f of
        None \<Rightarrow> Inr None
      | Some (Inl e) \<Rightarrow> if unreadable e then Inr None else Inl e
      | Some (Inr (page_size, pages, available_pages)) \<Rightarrow>
          if min page_size (min pages available_pages) < 0 then Inr None
          else Inr (Some (page_size * pages, min (page_size * available_pages) (page_size * pages))))"

record MemoryData =
  total_bytes :: int
  available_bytes :: int
  used_bytes :: int
  percentage :: rat

definition memory_diagnostics :: "platform \<Rightarrow> MemoryData result" where
  "memory_diagnostics pf =
     bindR (memory_from_proc (meminfo_lines pf)) (\<lambda>proc.
     bindR (case proc of Some m \<Rightarrow> Inr (Some m) | None \<Rightarrow> memory_from_sysconf (sysconf pf)) (\<lambda>found.
       (let (tot, available) = (case found of Some m \<Rightarrow> m | None \<Rightarrow> (0, 0)); used = max 0 (tot - available) in
        Inr \<lparr>total_bytes = tot, available_bytes = available, used_bytes = used,
          percentage = (if tot \<noteq> 0 then min 100 (max 0 (of_int used * 100 / of_int tot)) else 0)\<rparr>)))"

text \<open>\<^verbatim>\<open>int\<close> truncates towards zero.\<close>

definition py_trunc :: "rat \<Rightarrow> int" where
  "py_trunc q = (if 0 \<le> q then \<lfloor>q\<rfloor> else \<lceil>q\<rceil>)"

definition rss_bytes :: "string \<Rightarrow> rat \<Rightarrow> int" where
  "rss_bytes system rss =
     (let v = max 0 (py_trunc rss) in if system = ''Darwin'' then v else v * 1024)"

definition process_rss_bytes :: "platform \<Rightarrow> int result" where
  "process_rss_bytes pf =
     (case max_rss pf of
        None \<Rightarrow> Inr 0
      | Some (Inl e) \<Rightarrow> if unreadable e then Inr 0 else Inl e
      | Some (Inr rss) \<Rightarrow> Inr (rss_bytes (system_name pf) rss))"

record CpuData =
  cores :: int
  model :: string
  load_averages :: "rat \<times> rat \<times> rat"

record ProcessData =
  pd_rss_bytes :: int
  heap_total_bytes :: int
  heap_used_bytes :: int
  external_bytes :: int
  active_handles :: int

record OsData =
  os_platform :: string
  os_release :: string

type_synonym diagnostics = "CpuData \<times> MemoryData \<times> ProcessData \<times> OsData"

definition or_unknown :: "string \<Rightarrow> string" where
  "or_unknown s = (if s = [] then ''unknown'' else s)"

definition sync_diagnostics :: "platform \<Rightarrow> diagnostics result" where
  "sync_diagnostics pf =
     (let (current, peak) = (case traced_memory pf of Some m \<Rightarrow> m | None \<Rightarrow> (0, 0)) in
      bindR (load_average (getloadavg pf)) (\<lambda>loads.
      bindR (memory_diagnostics pf) (\<lambda>memory.
      bindR (process_rss_bytes pf) (\<lambda>rss.
        Inr (\<lparr>cores = max 1 (case cpu_count pf of Some n \<Rightarrow> if n = 0 then 1 else n | None \<Rightarrow> 1),
               model = or_unknown (processor_name pf), load_averages = loads\<rparr>,
             memory,
             \<lparr>pd_rss_bytes = rss, heap_total_bytes = max 0 peak, heap_used_bytes = max 0 current,
               external_bytes = 0, active_handles = 0\<rparr>,
             \<lparr>os_platform = or_unknown (system_name pf), os_release = or_unknown (release_name pf)\<rparr>)))))"

definition fallback_diagnostics :: diagnostics where
  "fallback_diagnostics =
     (\<lparr>cores = 1, model = ''unknown'', load_averages = (0, 0, 0)\<rparr>,
      \<lparr>total_bytes = 0, available_bytes = 0, used_bytes = 0, percentage = 0\<rparr>,
      \<lparr>pd_rss_bytes = 0, heap_total_bytes = 0, heap_used_bytes = 0, external_bytes = 0, active_handles = 0\<rparr>,
      \<lparr>os_platform = ''unknown'', os_release = ''unknown''\<rparr>)"

subsection \<open>Runtime identity\<close>

record InfoData =
  info_name :: string
  info_version :: string
  info_environment :: string
  info_hostname :: string
  info_pid :: int
  info_python_version :: string
  info_platform :: string
  info_architecture :: string
  info_started_at :: time
  info_timezone :: string

text \<open>\<open>sys_version\<close> is the first word of \<^verbatim>\<open>sys.version\<close>, the number of the running version.\<close>

definition info :: "Settings \<Rightarrow> platform \<Rightarrow> time \<Rightarrow> InfoData" where
  "info s pf started_at =
     \<lparr>info_name = APP_NAME s, info_version = APP_VERSION s, info_environment = ENV s,
      info_hostname = host_name pf, info_pid = process_id pf,
      info_python_version = (if platform_python pf \<noteq> [] then platform_python pf else sys_version pf),
      info_platform = (if system_name pf \<noteq> [] then system_name pf else sys_platform pf),
      info_architecture = or_unknown (machine_name pf), info_started_at = started_at,
      info_timezone = TIMEZONE s\<rparr>"

text \<open>\<^verbatim>\<open>InfoResponse.model_validate\<close>; instants are in UTC.\<close>

definition validate_info :: "libraries \<Rightarrow> InfoData \<Rightarrow> InfoData result" where
  "validate_info lib d =
     (if semver lib (info_version d) \<and> info_environment d \<in> {''development'', ''production'', ''test''} \<and>
         0 < info_pid d \<and> info_python_version d \<noteq> [] \<and> info_platform d \<noteq> [] \<and>
         info_architecture d \<noteq> [] \<and> info_timezone d \<noteq> [] \<and> zone_known lib (info_timezone d)
      then Inr d else Inl (ValueError ''InfoResponse''))"

subsection \<open>Diagnostics\<close>

definition new_diagnostics_service :: "rat \<Rightarrow> unit result" where
  "new_diagnostics_service timeout_seconds =
     (if timeout_seconds \<le> 0 then Inl (ValueError ''timeout_seconds must be greater than zero'') else Inr ())"

text \<open>What the awaited sampler, check and thread answer, with \<open>TimeoutError\<close> for a wait that is over.\<close>

definition event_loop_lag :: "rat result \<Rightarrow> rat result" where
  "event_loop_lag r =
     (case r of Inr lag \<Rightarrow> Inr (max 0 lag) | Inl e \<Rightarrow> if is_exception e then Inr 0 else Inl e)"

definition database_status :: "ReadinessCheckResult option result \<Rightarrow> string result" where
  "database_status r =
     (case r of
        Inl e \<Rightarrow> if is_exception e then Inr ''disconnected'' else Inl e
      | Inr (Some c) \<Rightarrow> Inr (if is_up c then ''connected'' else ''disconnected'')
      | Inr None \<Rightarrow> Inr ''disconnected'')"

record SystemData =
  uptime :: rat
  timestamp :: int
  sd_event_loop_lag :: rat
  sd_db :: string
  sd_cpu :: CpuData
  sd_memory :: MemoryData
  sd_process :: ProcessData
  sd_os :: OsData

record collection =
  col_database :: "ReadinessCheckResult option result"
  col_lag :: "rat result"
  col_thread :: "platform \<Rightarrow> diagnostics result"
  col_tasks :: nat
  col_perf :: rat
  col_clock :: rat

text \<open>The thread runs \<open>sync_diagnostics\<close> or is abandoned after the time allowed.\<close>

definition thread_diagnostics :: "platform \<Rightarrow> collection \<Rightarrow> diagnostics result" where
  "thread_diagnostics pf c =
     (case col_thread c pf of
        Inr d \<Rightarrow> Inr d
      | Inl e \<Rightarrow> if is_exception e then Inr fallback_diagnostics else Inl e)"

definition collect :: "platform \<Rightarrow> rat \<Rightarrow> collection \<Rightarrow> SystemData result" where
  "collect pf started_at c =
     bindR (thread_diagnostics pf c) (\<lambda>(cpu, memory, process, os_data).
     bindR (database_status (col_database c)) (\<lambda>db.
     bindR (event_loop_lag (col_lag c)) (\<lambda>lag.
       Inr \<lparr>uptime = round3 (max 0 (col_perf c - started_at)), timestamp = py_trunc (col_clock c * 1000),
         sd_event_loop_lag = round3 (max 0 lag), sd_db = db, sd_cpu = cpu, sd_memory = memory,
         sd_process = process \<lparr>active_handles := int (col_tasks c)\<rparr>, sd_os = os_data\<rparr>)))"

text \<open>The constraints of the response model \<^verbatim>\<open>SystemResponse\<close>.\<close>

definition cpu_valid :: "CpuData \<Rightarrow> bool" where
  "cpu_valid c \<longleftrightarrow> 1 \<le> cores c \<and> model c \<noteq> [] \<and> (case load_averages c of (x, y, z) \<Rightarrow> 0 \<le> x \<and> 0 \<le> y \<and> 0 \<le> z)"

definition memory_valid :: "MemoryData \<Rightarrow> bool" where
  "memory_valid m \<longleftrightarrow> 0 \<le> total_bytes m \<and> 0 \<le> available_bytes m \<and> 0 \<le> used_bytes m \<and> 0 \<le> percentage m \<and> percentage m \<le> 100"

definition process_valid :: "ProcessData \<Rightarrow> bool" where
  "process_valid p \<longleftrightarrow> 0 \<le> pd_rss_bytes p \<and> 0 \<le> heap_total_bytes p \<and> 0 \<le> heap_used_bytes p \<and>
     0 \<le> external_bytes p \<and> 0 \<le> active_handles p"

definition os_valid :: "OsData \<Rightarrow> bool" where
  "os_valid d \<longleftrightarrow> os_platform d \<noteq> [] \<and> os_release d \<noteq> []"

definition system_valid :: "SystemData \<Rightarrow> bool" where
  "system_valid d \<longleftrightarrow> 0 \<le> uptime d \<and> 0 \<le> timestamp d \<and> 0 \<le> sd_event_loop_lag d \<and>
     sd_db d \<in> {''connected'', ''disconnected''} \<and> cpu_valid (sd_cpu d) \<and> memory_valid (sd_memory d) \<and>
     process_valid (sd_process d) \<and> os_valid (sd_os d)"

subsection \<open>Lemmas\<close>

lemma round3_nonneg: "0 \<le> x \<Longrightarrow> 0 \<le> round3 x"
  by (auto simp: round3_def round_half_even_def Let_def)

definition memory_pair_ok :: "int \<times> int \<Rightarrow> bool" where
  "memory_pair_ok m \<longleftrightarrow> 0 \<le> snd m \<and> snd m \<le> fst m"

lemma memory_from_proc_ok: "memory_from_proc ls = Inr (Some m) \<Longrightarrow> memory_pair_ok m"
  by (auto simp: memory_from_proc_def memory_pair_ok_def Let_def split: sum.splits option.splits if_splits)

lemma memory_from_sysconf_ok: "memory_from_sysconf f = Inr (Some m) \<Longrightarrow> memory_pair_ok m"
  by (auto simp: memory_from_sysconf_def memory_pair_ok_def min_less_iff_disj split: sum.splits option.splits if_splits)

lemma memory_diagnostics_ok:
  assumes "memory_diagnostics pf = Inr m"
  shows "memory_valid m \<and> used_bytes m = total_bytes m - available_bytes m"
proof -
  obtain tot av where m: "memory_pair_ok (tot, av)"
      "m = \<lparr>total_bytes = tot, available_bytes = av, used_bytes = max 0 (tot - av),
        percentage = (if tot \<noteq> 0 then min 100 (max 0 (of_int (max 0 (tot - av)) * 100 / of_int tot)) else 0)\<rparr>"
    using assms memory_from_proc_ok memory_from_sysconf_ok
    by (force simp: memory_diagnostics_def bindR_eq_Inr Let_def memory_pair_ok_def split: option.splits prod.splits)
  then show ?thesis by (auto simp: memory_valid_def memory_pair_ok_def)
qed

definition diagnostics_valid :: "diagnostics \<Rightarrow> bool" where
  "diagnostics_valid d =
     (case d of (cpu, memory, process, os_data) \<Rightarrow>
        cpu_valid cpu \<and> memory_valid memory \<and> process_valid process \<and> os_valid os_data)"

lemma sync_diagnostics_valid:
  assumes "sync_diagnostics pf = Inr d"
  shows "diagnostics_valid d"
proof -
  have loads: "load_average f = Inr (a, b, c) \<Longrightarrow> 0 \<le> a \<and> 0 \<le> b \<and> 0 \<le> c" for f a b c
    by (auto simp: load_average_def split: option.splits sum.splits if_splits)
  have rss: "process_rss_bytes pf = Inr n \<Longrightarrow> 0 \<le> n" for n
    by (auto simp: process_rss_bytes_def rss_bytes_def Let_def split: option.splits sum.splits if_splits)
  have u: "or_unknown s \<noteq> []" for s by (simp add: or_unknown_def)
  obtain a b c memory n where o: "load_average (getloadavg pf) = Inr (a, b, c)" "memory_diagnostics pf = Inr memory"
      "process_rss_bytes pf = Inr n"
    using assms by (auto simp: sync_diagnostics_def Let_def bindR_eq_Inr split: prod.splits)
  then show ?thesis
    using assms loads [OF o(1)] rss [OF o(3)] memory_diagnostics_ok [OF o(2)] u
    by (auto simp: sync_diagnostics_def diagnostics_valid_def cpu_valid_def process_valid_def os_valid_def Let_def split: prod.splits)
qed

lemma fallback_valid: "diagnostics_valid fallback_diagnostics"
  by (simp add: diagnostics_valid_def fallback_diagnostics_def cpu_valid_def memory_valid_def process_valid_def os_valid_def)

subsection \<open>Properties\<close>

text \<open>
  The diagnostics endpoint always answers with a valid document: whatever the platform
  reports, refuses or fails to report in time, the collected data satisfy every constraint of
  the response model, and nothing but a cancellation escapes.
\<close>

lemma collected_diagnostics_valid:
  assumes "col_thread c \<in> {sync_diagnostics, (\<lambda>pf. Inl TimeoutError)}" "0 \<le> col_clock c"
  shows "case collect pf started_at c of Inr d \<Rightarrow> system_valid d | Inl e \<Rightarrow> e = CancelledError"
proof -
  have canc: "\<not> is_exception e \<Longrightarrow> e = CancelledError" for e by (cases e) simp_all
  have t: "case thread_diagnostics pf c of Inr d \<Rightarrow> diagnostics_valid d | Inl e \<Rightarrow> e = CancelledError"
    using assms(1) sync_diagnostics_valid fallback_valid canc by (auto simp: thread_diagnostics_def split: sum.splits)
  have db: "case database_status (col_database c) of Inr s \<Rightarrow> s \<in> {''connected'', ''disconnected''} | Inl e \<Rightarrow> e = CancelledError"
    using canc by (auto simp: database_status_def split: sum.splits option.splits)
  have lag: "case event_loop_lag (col_lag c) of Inr l \<Rightarrow> 0 \<le> l | Inl e \<Rightarrow> e = CancelledError"
    using canc by (auto simp: event_loop_lag_def split: sum.splits)
  have now: "0 \<le> py_trunc (col_clock c * 1000)" using assms(2) by (simp add: py_trunc_def)
  show ?thesis
    using t db lag now
    by (auto simp: collect_def bindR_def system_valid_def diagnostics_valid_def process_valid_def round3_nonneg
        split: sum.splits prod.splits)
qed

definition demo_platform :: platform where
  "demo_platform = \<lparr>getloadavg = Some (Inr (1, -1, 0)), meminfo_lines = Inr [''MemTotal:  100 kB'', ''MemFree:  300 kB''],
     sysconf = None, max_rss = Some (Inl OSError), traced_memory = None, cpu_count = None, processor_name = [],
     system_name = ''Linux'', release_name = ''6'',
     machine_name = [], sys_platform = ''linux'', platform_python = [], sys_version = ''3.12.1'', host_name = ''h'',
     process_id = 1\<rparr>"

definition demo_collection :: collection where
  "demo_collection = \<lparr>col_database = Inl TimeoutError, col_lag = Inr 3, col_thread = sync_diagnostics, col_tasks = 2,
     col_perf = 5, col_clock = 7\<rparr>"

text \<open>The readiness probe answers 200 exactly when the application is ready and every check is up.\<close>

lemma ready_probe_status:
  assumes "ready_probe hk clock now h = Inr (st, r)"
  shows "\<exists>results. check_services hk clock h = Inr results \<and>
    st = (if is_ready h \<and> list_all is_up results then 200 else 503) \<and> rr_ready r = (st = 200)"
  using assms
  by (auto simp: ready_probe_def ready_def from_state_def validate_ready_def bindR_eq_Inr split: if_splits)

text \<open>
  The identity of a running service is a valid response whenever its settings have been loaded
  and the platform names its process and its system.
\<close>

lemma validate_fields_identity:
  "validate_fields lib env = Some s \<Longrightarrow>
    text_field env ''APP_VERSION'' None (semver lib) = Some (APP_VERSION s) \<and>
    text_field env ''TIMEZONE'' (Some ''Etc/UTC'') (zone_known lib) = Some (TIMEZONE s)"
  unfolding validate_fields_def bind_eq_Some_conv by clarsimp

lemma text_field_Some: "text_field env name dflt ok = Some v \<Longrightarrow> ok v"
  by (auto simp: text_field_def bind_eq_Some_conv split: if_splits)

lemma info_valid:
  assumes "load_settings lib file process = Some s" "\<not> zone_known lib []"
    and "0 < process_id pf" "sys_version pf \<noteq> []" "sys_platform pf \<noteq> []"
  shows "validate_info lib (info s pf started_at) = Inr (info s pf started_at)"
proof -
  obtain env where v: "validate_fields lib env = Some s" using load_settings_Some [OF assms(1)] by blast
  note fields = validate_fields_identity [OF v, THEN conjunct1, THEN text_field_Some]
    validate_fields_identity [OF v, THEN conjunct2, THEN text_field_Some] validate_fields_mode [OF v, THEN text_field_Some]
  then show ?thesis
    using assms(2-5) by (auto simp: info_def validate_info_def or_unknown_def)
qed

end
