(* ===== verification/Server.thy ===== *)
theory Server
  imports Application
begin

text \<open>
  The server process (\<^verbatim>\<open>app/common/handlers/http_server.py\<close>): signals, the watchdog that bounds the
  exit of the process, and the order in which a shutdown quiesces and drains.

  Uvicorn's own \<^verbatim>\<open>startup\<close>, \<^verbatim>\<open>shutdown\<close> and \<^verbatim>\<open>run\<close> are parameters. A process that has exited does
  nothing any more.
\<close>

record server =
  watchdog_at :: "time option"
  watchdog_cancelled :: bool
  exit_code :: "int option"
  stderr :: "bytes list"
  should_exit :: bool
  server_started :: bool
  config_loaded :: bool
  notice_logged :: bool
  graceful_timeout :: "rat option"
  app_state :: lifespan_state

definition new_server :: "lifespan_state \<Rightarrow> server" where
  "new_server st =
     \<lparr>watchdog_at = None, watchdog_cancelled = False, exit_code = None, stderr = [], should_exit = False,
      server_started = False, config_loaded = False, notice_logged = False, graceful_timeout = None, app_state = st\<rparr>"

definition shutdown_deadline :: bytes where
  "shutdown_deadline = ''Final shutdown deadline exceeded; unfinished work may have an unknown outcome.'' @ [CHR 0x0A]"

definition repeated_signal :: bytes where
  "repeated_signal = ''Repeated shutdown signal; forcing termination.'' @ [CHR 0x0A]"

text \<open>The diagnostic may fail to be written; the process exits in any case.\<close>

definition force_exit :: "bool \<Rightarrow> bytes \<Rightarrow> server \<Rightarrow> server" where
  "force_exit writable diagnostic sv =
     sv \<lparr>stderr := (if writable then stderr sv @ [diagnostic] else stderr sv), exit_code := Some 1\<rparr>"

definition begin_shutdown :: "hooks \<Rightarrow> time \<Rightarrow> server \<Rightarrow> unit result \<times> server" where
  "begin_shutdown hk now sv =
     (let sv = (if watchdog_at sv = None then sv \<lparr>watchdog_at := Some now\<rparr> else sv) in
      if config_loaded sv then
        (case quiesce hk (lifecycle (app_state sv)) of
           (Inl e, h) \<Rightarrow> (Inl e, sv \<lparr>notice_logged := True, app_state := (app_state sv) \<lparr>lifecycle := h\<rparr>\<rparr>)
         | (Inr _, h) \<Rightarrow>
             (Inr (), sv \<lparr>notice_logged := True,
                app_state := \<lparr>lifecycle = h, request_work = quiesce_work now (request_work (app_state sv))\<rparr>\<rparr>))
      else (Inr (), sv))"

text \<open>\<open>base_exit\<close> is Uvicorn's handler, which asks the server to exit.\<close>

definition handle_exit :: "hooks \<Rightarrow> (server \<Rightarrow> server) \<Rightarrow> bool \<Rightarrow> time \<Rightarrow> server \<Rightarrow> unit result \<times> server" where
  "handle_exit hk base_exit writable now sv =
     (if watchdog_at sv \<noteq> None then (Inr (), force_exit writable repeated_signal sv)
      else
        (case begin_shutdown hk now sv of
           (Inl e, sv') \<Rightarrow> (Inl e, sv')
         | (Inr _, sv') \<Rightarrow> (Inr (), base_exit sv')))"

definition request_shutdown :: "hooks \<Rightarrow> bool \<Rightarrow> time \<Rightarrow> server \<Rightarrow> unit result \<times> server" where
  "request_shutdown hk writable now sv =
     (if watchdog_at sv \<noteq> None then (Inr (), force_exit writable shutdown_deadline sv)
      else
        (case begin_shutdown hk now sv of
           (Inl e, sv') \<Rightarrow> (Inl e, sv')
         | (Inr _, sv') \<Rightarrow> (Inr (), sv' \<lparr>should_exit := True\<rparr>)))"

text \<open>
  Waiting for requests: \<open>base_wait\<close> is Uvicorn's wait, \<open>drained\<close> the request work after it. Running
  into the timeout, or being cancelled, marks the work as failed.
\<close>

definition wait_tasks_to_complete :: "unit result \<Rightarrow> RequestWork result \<Rightarrow> server \<Rightarrow> unit result \<times> server" where
  "wait_tasks_to_complete base_wait drained sv =
     (case bindR base_wait (\<lambda>_. drained) of
        Inr w \<Rightarrow> (Inr (), sv \<lparr>app_state := (app_state sv) \<lparr>request_work := w\<rparr>\<rparr>)
      | Inl e \<Rightarrow>
          (Inl e, if e \<in> {CancelledError, TimeoutError}
             then sv \<lparr>app_state := (app_state sv) \<lparr>request_work := (request_work (app_state sv)) \<lparr>failed := True\<rparr>\<rparr>\<rparr>
             else sv))"

definition server_shutdown ::
  "hooks \<Rightarrow> (server \<Rightarrow> unit result \<times> server) \<Rightarrow> time \<Rightarrow> server \<Rightarrow> unit result \<times> server" where
  "server_shutdown hk base_shutdown now sv =
     (case begin_shutdown hk now sv of
        (Inl e, sv1) \<Rightarrow> (Inl e, sv1)
      | (Inr _, sv1) \<Rightarrow>
          (case base_shutdown (sv1 \<lparr>graceful_timeout := Some (remaining now (request_work (app_state sv1)))\<rparr>) of
             (Inl e, sv2) \<Rightarrow> (Inl e, sv2)
           | (Inr _, sv2) \<Rightarrow>
               if failed (request_work (app_state sv2)) \<or> shutdown_failed (lifecycle (app_state sv2))
               then (Inl (RuntimeError ''Application shutdown failed.''), sv2)
               else (Inr (), sv2)))"

definition server_startup ::
  "hooks \<Rightarrow> (server \<Rightarrow> unit result \<times> server) \<Rightarrow> (server \<Rightarrow> unit result \<times> server) \<Rightarrow> time \<Rightarrow> server \<Rightarrow> unit result \<times> server" where
  "server_startup hk base_startup base_shutdown now sv =
     (case base_startup sv of
        (Inl e, sv1) \<Rightarrow> (Inl e, sv1)
      | (Inr _, sv1) \<Rightarrow>
          if should_exit sv1 \<and> server_started sv1 then server_shutdown hk base_shutdown now sv1 else (Inr (), sv1))"

definition server_run :: "(server \<Rightarrow> unit result \<times> server) \<Rightarrow> server \<Rightarrow> unit result \<times> server" where
  "server_run base_run sv =
     (let (r, sv1) = base_run sv;
          r1 = bindR r (\<lambda>_. if server_started sv1 then Inr () else Inl (RuntimeError ''HTTP server did not start.'')) in
      (r1, if watchdog_at sv1 \<noteq> None then sv1 \<lparr>watchdog_cancelled := True\<rparr> else sv1))"

text \<open>\<^verbatim>\<open>main.run\<close>: the exit code of the process, and what the timer does when its time is over.\<close>

definition process_exit :: "unit result \<Rightarrow> int result" where
  "process_exit r = (case r of Inr _ \<Rightarrow> Inr 0 | Inl e \<Rightarrow> if is_exception e then Inr 1 else Inl e)"

definition timer :: "rat \<Rightarrow> bool \<Rightarrow> time \<Rightarrow> server \<Rightarrow> server" where
  "timer shutdown_timeout writable now sv =
     (case watchdog_at sv of
        Some t \<Rightarrow>
          if \<not> watchdog_cancelled sv \<and> t + shutdown_timeout \<le> now then force_exit writable shutdown_deadline sv else sv
      | None \<Rightarrow> sv)"

subsection \<open>Histories\<close>

text \<open>What happens to a running server between its start and its exit, in the order of time.\<close>

datatype occurrence = Loaded | Signal bool | Requested bool | ShutDown | Timer bool

fun occur :: "hooks \<Rightarrow> rat \<Rightarrow> time \<times> occurrence \<Rightarrow> server \<Rightarrow> server" where
  "occur hk limit (now, oc) sv =
     (if exit_code sv \<noteq> None then sv
      else
        (case oc of
           Loaded \<Rightarrow> sv \<lparr>config_loaded := True\<rparr>
         | Signal writable \<Rightarrow> snd (handle_exit hk (\<lambda>sv. sv \<lparr>should_exit := True\<rparr>) writable now sv)
         | Requested writable \<Rightarrow> snd (request_shutdown hk writable now sv)
         | ShutDown \<Rightarrow> snd (begin_shutdown hk now sv)
         | Timer writable \<Rightarrow> timer limit writable now sv))"

definition history :: "hooks \<Rightarrow> rat \<Rightarrow> (time \<times> occurrence) list \<Rightarrow> server \<Rightarrow> server" where
  "history hk limit ocs sv = fold (occur hk limit) ocs sv"

text \<open>The occurrences that begin a shutdown.\<close>

definition begins :: "time \<times> occurrence \<Rightarrow> bool" where
  "begins oc = (case snd oc of Loaded \<Rightarrow> False | Timer b \<Rightarrow> False | _ \<Rightarrow> True)"

definition stop_wanted :: "time \<times> occurrence \<Rightarrow> bool" where
  "stop_wanted oc = (case snd oc of Signal b \<Rightarrow> True | Requested b \<Rightarrow> True | _ \<Rightarrow> False)"

lemma begin_shutdown_watchdog:
  "watchdog_at (snd (begin_shutdown hk now sv)) = Some (case watchdog_at sv of None \<Rightarrow> now | Some t \<Rightarrow> t) \<and>
   exit_code (snd (begin_shutdown hk now sv)) = exit_code sv \<and>
   watchdog_cancelled (snd (begin_shutdown hk now sv)) = watchdog_cancelled sv"
  by (auto simp: begin_shutdown_def Let_def split: option.split prod.splits sum.splits)

lemma occur_watchdog:
  assumes "exit_code sv = None"
  shows "watchdog_at (occur hk limit oc sv) =
    (case watchdog_at sv of Some t \<Rightarrow> Some t | None \<Rightarrow> if begins oc then Some (fst oc) else None) \<and>
    watchdog_cancelled (occur hk limit oc sv) = watchdog_cancelled sv"
proof -
  obtain now o1 where oc: "oc = (now, o1)" by force
  have h: "snd (handle_exit hk f w now sv) = (if watchdog_at sv \<noteq> None then force_exit w repeated_signal sv
      else if isl (fst (begin_shutdown hk now sv)) then snd (begin_shutdown hk now sv) else f (snd (begin_shutdown hk now sv)))"
    "snd (request_shutdown hk w now sv) = (if watchdog_at sv \<noteq> None then force_exit w shutdown_deadline sv
      else if isl (fst (begin_shutdown hk now sv)) then snd (begin_shutdown hk now sv)
      else (snd (begin_shutdown hk now sv)) \<lparr>should_exit := True\<rparr>)" for w f
    by (simp_all add: handle_exit_def request_shutdown_def split: prod.split sum.split)
  show ?thesis
    using assms begin_shutdown_watchdog [of hk now sv] unfolding oc
    by (cases o1) (auto simp: h begins_def force_exit_def timer_def split: option.splits)
qed

lemma occur_exits:
  assumes "exit_code sv = None" "watchdog_at sv = Some t" "\<not> watchdog_cancelled sv"
    and "stop_wanted oc \<or> (\<exists>w. snd oc = Timer w) \<and> t + limit \<le> fst oc"
  shows "exit_code (occur hk limit oc sv) = Some 1"
  using assms
  by (cases oc; cases "snd oc")
    (auto simp: stop_wanted_def handle_exit_def request_shutdown_def timer_def force_exit_def)

lemma history_exited: "exit_code sv \<noteq> None \<Longrightarrow> history hk limit ocs sv = sv"
proof (induction ocs)
  case (Cons oc ocs)
  then show ?case by (cases oc) (simp add: history_def)
qed (simp add: history_def)

lemma history_exit_code:
  "exit_code sv \<in> {None, Some 1} \<Longrightarrow> exit_code (history hk limit ocs sv) \<in> {None, Some 1}"
proof (induction ocs arbitrary: sv)
  case (Cons oc ocs)
  have "exit_code (occur hk limit oc sv) \<in> {None, Some 1}"
    using Cons.prems begin_shutdown_watchdog [of hk "fst oc" sv]
    by (cases oc; cases "snd oc")
      (auto simp: handle_exit_def request_shutdown_def timer_def force_exit_def split: prod.splits sum.splits option.splits)
  then show ?case using Cons.IH by (simp add: history_def)
qed (simp add: history_def)

lemma history_append: "history hk limit (as @ bs) sv = history hk limit bs (history hk limit as sv)"
  by (simp add: history_def)

lemma history_Cons: "history hk limit (oc # ocs) sv = history hk limit ocs (occur hk limit oc sv)"
  by (simp add: history_def)

definition running :: "time option \<Rightarrow> server \<Rightarrow> bool" where
  "running t sv \<longleftrightarrow> exit_code sv = None \<and> watchdog_at sv = t \<and> \<not> watchdog_cancelled sv"

lemma occur_quiet:
  assumes "running None sv" "\<not> begins oc"
  shows "running None (occur hk limit oc sv)"
  using assms by (cases oc; cases "snd oc") (auto simp: running_def begins_def timer_def)

lemma history_quiet:
  "running None sv \<Longrightarrow> \<not> list_ex begins ocs \<Longrightarrow> running None (history hk limit ocs sv)"
  by (induction ocs arbitrary: sv) (auto simp: history_Cons history_def [of _ _ "[]"] intro: occur_quiet)

lemma history_watched:
  "running (Some t) sv \<Longrightarrow> running (Some t) (history hk limit ocs sv) \<or> exit_code (history hk limit ocs sv) \<noteq> None"
proof (induction ocs arbitrary: sv)
  case (Cons oc ocs)
  then have "running (Some t) (occur hk limit oc sv) \<or> exit_code (occur hk limit oc sv) \<noteq> None"
    using occur_watchdog [of sv hk limit oc] by (auto simp: running_def)
  then show ?case using Cons.IH history_exited by (auto simp: history_Cons)
qed (simp add: history_def)

text \<open>
  When the server begins to shut down a loaded application, the drain is over before the watchdog
  ends the process, for every configuration that loads.
\<close>

lemma drain_precedes_watchdog:
  assumes "load_settings lib file process = Some s" "begin_shutdown hk now sv = (Inr (), sv')"
    and "config_loaded sv" "watchdog_at sv = None" "draining_at (request_work (app_state sv)) = None"
    and "drain_seconds (request_work (app_state sv)) = of_int (HTTP_DRAIN_TIMEOUT_MS s) / 1000"
  shows "\<exists>t. draining_at (request_work (app_state sv')) = Some t \<and> watchdog_at sv' = Some t \<and>
    t + drain_seconds (request_work (app_state sv')) < t + of_int (SHUTDOWN_TIMEOUT_MS s) / 1000"
proof -
  have "HTTP_DRAIN_TIMEOUT_MS s < SHUTDOWN_TIMEOUT_MS s"
    using load_settings_Some [OF assms(1)] limits_validated by (metis deadlines_ok_def)
  then have "(of_int (HTTP_DRAIN_TIMEOUT_MS s) :: rat) / 1000 < of_int (SHUTDOWN_TIMEOUT_MS s) / 1000"
    by (simp add: divide_strict_right_mono)
  then show ?thesis
    using assms(2-6) by (auto simp: begin_shutdown_def Let_def quiesce_work_def split: prod.splits sum.splits)
qed

subsection \<open>Properties\<close>



end
