(* ===== verification/Json.thy ===== *)
theory Json
  imports Prelude
begin

text \<open>
  JSON documents as the scripts of \<^verbatim>\<open>src/scripts\<close> handle them, and the strict reading and the checked
  accessors of \<^verbatim>\<open>scripts/security_policy.py\<close>. A document is a tree of JSON values as the parser sees
  them, objects with their fields in order.
\<close>

subsection \<open>Documents\<close>

text \<open>\<open>JConst\<close> is a constant such as \<^verbatim>\<open>NaN\<close> that is not JSON but that Python's parser knows.\<close>

datatype json = JNull | JBool bool | JInt int | JFloat rat | JStr string | JConst string
  | JArr "json list" | JObj "(string \<times> json) list"

type_synonym object = "(string \<times> json) list"

definition unique_fields :: "object \<Rightarrow> object result" where
  "unique_fields pairs = (if distinct (map fst pairs) then Inr pairs else Inl (ValueError ''Duplicate JSON field.''))"

definition invalid_constant :: "string \<Rightarrow> json result" where
  "invalid_constant v = Inl (ValueError (''Invalid JSON constant: '' @ v))"

fun read_tree :: "json \<Rightarrow> json result"
  and read_items :: "json list \<Rightarrow> json list result"
  and read_fields :: "object \<Rightarrow> object result" where
  "read_tree (JConst v) = invalid_constant v"
| "read_tree (JArr vs) = bindR (read_items vs) (\<lambda>vs. Inr (JArr vs))"
| "read_tree (JObj fs) = bindR (bindR (read_fields fs) unique_fields) (\<lambda>fs. Inr (JObj fs))"
| "read_tree v = Inr v"
| "read_items [] = Inr []"
| "read_items (v # vs) = bindR (read_tree v) (\<lambda>v. bindR (read_items vs) (\<lambda>vs. Inr (v # vs)))"
| "read_fields [] = Inr []"
| "read_fields ((k, v) # fs) = bindR (read_tree v) (\<lambda>v. bindR (read_fields fs) (\<lambda>fs. Inr ((k, v) # fs)))"

fun json_text :: "json \<Rightarrow> string result" where
  "json_text (JStr s) =
     (if py_strip s = [] \<or> py_len s > 2048 then Inl (ValueError ''Expected bounded nonempty text.'') else Inr s)"
| "json_text _ = Inl (ValueError ''Expected bounded nonempty text.'')"

fun json_mapping :: "json \<Rightarrow> object result" where
  "json_mapping (JObj fs) = Inr fs"
| "json_mapping _ = Inl (ValueError ''Expected an object.'')"

fun json_sequence :: "json \<Rightarrow> json list result" where
  "json_sequence (JArr vs) = Inr vs"
| "json_sequence _ = Inl (ValueError ''Expected a list.'')"

text \<open>\<^verbatim>\<open>get\<close> with a default, \<^verbatim>\<open>None\<close> if there is none.\<close>

definition get_or :: "object \<Rightarrow> string \<Rightarrow> json \<Rightarrow> json" where
  "get_or fs k d = (case map_of fs k of Some v \<Rightarrow> v | None \<Rightarrow> d)"

definition get :: "object \<Rightarrow> string \<Rightarrow> json" where
  "get fs k = get_or fs k JNull"

text \<open>Comparison with an integer, which Booleans and floats may equal.\<close>

fun equals_int :: "json \<Rightarrow> int \<Rightarrow> bool" where
  "equals_int (JInt m) n = (m = n)"
| "equals_int (JBool b) n = ((if b then 1 else 0) = n)"
| "equals_int (JFloat q) n = (q = of_int n)"
| "equals_int _ n = False"

fun mapR :: "('a \<Rightarrow> 'b result) \<Rightarrow> 'a list \<Rightarrow> 'b list result" where
  "mapR f [] = Inr []"
| "mapR f (x # xs) = bindR (f x) (\<lambda>y. bindR (mapR f xs) (\<lambda>ys. Inr (y # ys)))"

subsection \<open>Python operations on parsed documents\<close>

text \<open>\<^verbatim>\<open>fs[k]\<close>.\<close>

definition entry_of :: "object \<Rightarrow> string \<Rightarrow> json result" where
  "entry_of fs k = (case map_of fs k of Some v \<Rightarrow> Inr v | None \<Rightarrow> Inl (KeyError k))"

fun truthy :: "json \<Rightarrow> bool" where
  "truthy JNull = False"
| "truthy (JBool b) = b"
| "truthy (JInt n) = (n \<noteq> 0)"
| "truthy (JFloat q) = (q \<noteq> 0)"
| "truthy (JStr s) = (s \<noteq> [])"
| "truthy (JConst s) = True"
| "truthy (JArr vs) = (vs \<noteq> [])"
| "truthy (JObj fs) = (fs \<noteq> [])"

text \<open>Membership in a set of strings needs a hashable value.\<close>

fun member_of :: "json \<Rightarrow> string list \<Rightarrow> bool result" where
  "member_of (JArr vs) ks = Inl (TypeError ''unhashable type: list'')"
| "member_of (JObj fs) ks = Inl (TypeError ''unhashable type: dict'')"
| "member_of (JStr s) ks = Inr (s \<in> set ks)"
| "member_of v ks = Inr False"

fun json_number :: "json \<Rightarrow> rat option" where
  "json_number (JInt n) = Some (of_int n)"
| "json_number (JBool b) = Some (if b then 1 else 0)"
| "json_number (JFloat q) = Some q"
| "json_number v = None"

text \<open>Equality: numbers by their value, lists pointwise, dictionaries in any order.\<close>

fun json_eq :: "json \<Rightarrow> json \<Rightarrow> bool"
  and items_eq :: "json list \<Rightarrow> json list \<Rightarrow> bool"
  and fields_eq :: "object \<Rightarrow> object \<Rightarrow> bool" where
  "json_eq (JArr vs) w = (case w of JArr ws \<Rightarrow> items_eq vs ws | _ \<Rightarrow> False)"
| "json_eq (JObj fs) w = (case w of JObj gs \<Rightarrow> length fs = length gs \<and> fields_eq fs gs | _ \<Rightarrow> False)"
| "json_eq v w =
     (case (json_number v, json_number w) of
        (Some p, Some q) \<Rightarrow> p = q
      | (None, None) \<Rightarrow> v = w
      | _ \<Rightarrow> False)"
| "items_eq [] ws = (ws = [])"
| "items_eq (v # vs) ws = (case ws of [] \<Rightarrow> False | w # ws \<Rightarrow> json_eq v w \<and> items_eq vs ws)"
| "fields_eq [] gs = True"
| "fields_eq ((k, v) # fs) gs = ((case map_of gs k of None \<Rightarrow> False | Some w \<Rightarrow> json_eq v w) \<and> fields_eq fs gs)"

text \<open>\<^verbatim>\<open>int(v)\<close>.\<close>

fun json_int :: "json \<Rightarrow> int result" where
  "json_int (JInt n) = Inr n"
| "json_int (JBool b) = Inr (if b then 1 else 0)"
| "json_int (JFloat q) = Inr (if 0 \<le> q then floor q else ceiling q)"
| "json_int (JStr s) = (case py_int s of Some n \<Rightarrow> Inr n | None \<Rightarrow> Inl (ValueError ''invalid literal for int()''))"
| "json_int v = Inl (TypeError ''int() argument'')"

text \<open>\<^verbatim>\<open>repr(v)\<close> and \<^verbatim>\<open>str(v)\<close>; \<open>repr_float\<close> renders a float.\<close>

fun repr_json :: "(rat \<Rightarrow> string) \<Rightarrow> json \<Rightarrow> string"
  and repr_items :: "(rat \<Rightarrow> string) \<Rightarrow> json list \<Rightarrow> string list"
  and repr_fields :: "(rat \<Rightarrow> string) \<Rightarrow> object \<Rightarrow> string list" where
  "repr_json rf JNull = ''None''"
| "repr_json rf (JBool b) = (if b then ''True'' else ''False'')"
| "repr_json rf (JInt n) = show_int n"
| "repr_json rf (JFloat q) = rf q"
| "repr_json rf (JStr s) = py_repr s"
| "repr_json rf (JConst c) = (if c = ''NaN'' then ''nan'' else if c = ''-Infinity'' then ''-inf'' else ''inf'')"
| "repr_json rf (JArr vs) = ''['' @ py_join '', '' (repr_items rf vs) @ '']''"
| "repr_json rf (JObj fs) = ''{'' @ py_join '', '' (repr_fields rf fs) @ ''}''"
| "repr_items rf [] = []"
| "repr_items rf (v # vs) = repr_json rf v # repr_items rf vs"
| "repr_fields rf [] = []"
| "repr_fields rf ((k, v) # fs) = (py_repr k @ '': '' @ repr_json rf v) # repr_fields rf fs"

definition str_json :: "(rat \<Rightarrow> string) \<Rightarrow> json \<Rightarrow> string" where
  "str_json rf v = (case v of JStr s \<Rightarrow> s | _ \<Rightarrow> repr_json rf v)"

text \<open>The text of a value that is known to be one.\<close>

definition plain_text :: "json \<Rightarrow> string" where
  "plain_text v = (case v of JStr s \<Rightarrow> s | _ \<Rightarrow> [])"

subsection \<open>Digests\<close>

definition hex_lower :: "char \<Rightarrow> bool" where
  "hex_lower c \<longleftrightarrow> py_isdigit c \<or> (97 \<le> code c \<and> code c \<le> 102)"

definition is_digest :: "string \<Rightarrow> bool" where
  "is_digest s \<longleftrightarrow> startswith s ''sha256:'' \<and> length s = 71 \<and> list_all hex_lower (drop 7 s)"

subsection \<open>Lemmas\<close>

lemma mapR_Inr: "mapR f xs = Inr ys \<Longrightarrow> list_all2 (\<lambda>x y. f x = Inr y) xs ys"
  by (induction xs arbitrary: ys) (auto simp: bindR_eq_Inr)

lemma mapR_mem: "mapR f xs = Inr ys \<Longrightarrow> x \<in> set xs \<Longrightarrow> \<exists>y \<in> set ys. f x = Inr y"
  by (induction xs arbitrary: ys) (auto simp: bindR_eq_Inr)

lemma mapR_source: "mapR f xs = Inr ys \<Longrightarrow> y \<in> set ys \<Longrightarrow> \<exists>x \<in> set xs. f x = Inr y"
  by (induction xs arbitrary: ys) (auto simp: bindR_eq_Inr)

lemma mapR_exists: "(\<exists>ys. mapR f xs = Inr ys) \<longleftrightarrow> list_all (\<lambda>x. \<exists>y. f x = Inr y) xs"
  by (induction xs) (auto simp: bindR_eq_Inr)

lemma json_text_Inr: "json_text v = Inr s \<Longrightarrow> v = JStr s"
  by (cases v) (auto split: if_splits)

lemma json_mapping_Inr: "json_mapping v = Inr fs \<longleftrightarrow> v = JObj fs"
  by (cases v) auto

lemma json_sequence_Inr: "json_sequence v = Inr vs \<longleftrightarrow> v = JArr vs"
  by (cases v) auto

lemma entry_of_Inr: "entry_of fs k = Inr v \<longleftrightarrow> map_of fs k = Some v"
  by (simp add: entry_of_def split: option.split)

lemma entry_of_get: "entry_of fs k = Inr v \<Longrightarrow> get fs k = v"
  by (simp add: entry_of_Inr get_def get_or_def)

lemma get_JStr: "get fs k = JStr s \<longleftrightarrow> map_of fs k = Some (JStr s)"
  by (simp add: get_def get_or_def split: option.split)

lemma json_eq_JStr [simp]: "json_eq v (JStr s) \<longleftrightarrow> v = JStr s" "json_eq (JStr s) v \<longleftrightarrow> v = JStr s"
  by (cases v; auto split: option.splits)+

lemma py_len_le: "py_len s \<le> length s"
  by (simp add: py_len_def)

lemma py_strip_hd: "s \<noteq> [] \<Longrightarrow> \<not> py_isspace (hd s) \<Longrightarrow> py_strip s \<noteq> []"
  by (cases s) (auto simp: py_strip_def dropWhile_eq_Nil_conv)

text \<open>A digest is always a bounded text.\<close>

lemma digest_text: "is_digest d \<Longrightarrow> json_text (JStr d) = Inr d"
proof -
  assume d: "is_digest d"
  then obtain t where t: "d = ''sha256:'' @ t" "length d = 71" by (auto simp: is_digest_def startswith_iff)
  have "\<not> py_isspace (hd d)" unfolding t(1) by code_simp
  then have "py_strip d \<noteq> []" using t(1) by (intro py_strip_hd) auto
  then show ?thesis using py_len_le [of d] t(2) by simp
qed

end
