(* ===== verification/ScanPolicy.thy ===== *)
theory ScanPolicy
  imports Json
begin

text \<open>
  The release gates that judge evidence: the vulnerability policy of \<^verbatim>\<open>scripts/security_policy.py\<close>
  and the summary of the required jobs in \<^verbatim>\<open>scripts/ci_gate.py\<close>. Instants are seconds since the first of January of the year 1 in UTC.
\<close>

subsection \<open>Packages and requirements\<close>

fun dashes :: "bool \<Rightarrow> string \<Rightarrow> string" where
  "dashes in_run [] = []"
| "dashes in_run (c # cs) =
     (if c \<in> {CHR ''-'', CHR ''_'', CHR ''.''} then (if in_run then [] else ''-'') @ dashes True cs
      else c # dashes False cs)"

definition normalize :: "string \<Rightarrow> string" where
  "normalize name = py_lower (dashes False name)"

definition package_version :: "object \<Rightarrow> string \<Rightarrow> string result" where
  "package_version package kind =
     bindR (json_text (get package ''Version'')) (\<lambda>version.
       if kind \<noteq> ''debian'' then Inr version
       else
         (case get_or package ''Epoch'' (JInt 0) of
            JInt epoch \<Rightarrow>
              if epoch < 0 then Inl (ValueError ''Invalid Debian package epoch.'')
              else
                bindR (if get package ''Release'' = JNull then Inr version
                       else bindR (json_text (get package ''Release'')) (\<lambda>r. Inr (version @ ''-'' @ r)))
                  (\<lambda>version. Inr (if epoch \<noteq> 0 then show_int epoch @ '':'' @ version else version))
          | _ \<Rightarrow> Inl (ValueError ''Invalid Debian package epoch.'')))"

definition requirement :: "string \<Rightarrow> (string \<times> string) option" where
  "requirement line =
     (let name = takeWhile (\<lambda>c. c \<noteq> CHR ''='') line; rest = drop (length name) line; version = drop 2 rest in
      if name \<noteq> [] \<and> list_all (\<lambda>c. py_isalnum c \<or> c \<in> {CHR ''_'', CHR ''.'', CHR ''-''}) name \<and>
         startswith rest ''=='' \<and> version \<noteq> [] \<and>
         list_all (\<lambda>c. py_isalnum c \<or> c \<in> {CHR ''.'', CHR ''+'', CHR ''!'', CHR ''-''}) version
      then Some (name, version) else None)"

fun requirement_lines :: "string \<Rightarrow> string list \<Rightarrow> (string \<times> string) list \<Rightarrow> (string \<times> string) list result" where
  "requirement_lines file [] acc = Inr acc"
| "requirement_lines file (l # ls) acc =
     (let line = py_strip l in
      if line = [] \<or> startswith line ''#'' \<or> line = ''-r requirements.txt'' then requirement_lines file ls acc
      else
        (case requirement line of
           None \<Rightarrow> Inl (ValueError (''Unsupported unpinned requirement in '' @ file @ ''.''))
         | Some (name, version) \<Rightarrow>
             if map_of acc (normalize name) \<noteq> None then Inl (ValueError ''Duplicate requirement.'')
             else requirement_lines file ls (acc @ [(normalize name, version)])))"

definition requirements :: "string \<Rightarrow> string list \<Rightarrow> (string \<times> string) list result" where
  "requirements file ls =
     bindR (requirement_lines file ls []) (\<lambda>r.
       if r = [] then Inl (ValueError ''Empty requirements inventory.'') else Inr r)"

subsection \<open>Exceptions\<close>

definition SCOPE :: "string list" where
  "SCOPE = [''vulnerabilityId'', ''packageName'', ''installedVersion'', ''packagePath'', ''target'', ''type'']"

definition SEVERITIES :: "string list" where
  "SEVERITIES = [''UNKNOWN'', ''LOW'', ''MEDIUM'', ''HIGH'', ''CRITICAL'']"

definition leap :: "nat \<Rightarrow> bool" where
  "leap y \<longleftrightarrow> y mod 4 = 0 \<and> (y mod 100 \<noteq> 0 \<or> y mod 400 = 0)"

definition month_days :: "nat \<Rightarrow> nat list" where
  "month_days y = [31, if leap y then 29 else 28, 31, 30, 31, 30, 31, 31, 30, 31, 30, 31]"

definition date_seconds :: "nat \<Rightarrow> nat \<Rightarrow> nat \<Rightarrow> time option" where
  "date_seconds y m d =
     (if 1 \<le> y \<and> 1 \<le> m \<and> m \<le> 12 \<and> 1 \<le> d \<and> d \<le> month_days y ! (m - 1)
      then Some (86400 * of_nat (365 * (y - 1) + (y - 1) div 4 - (y - 1) div 100 + (y - 1) div 400 +
        sum_list (take (m - 1) (month_days y)) + (d - 1)))
      else None)"

definition parse_date :: "string \<Rightarrow> time result" where
  "parse_date s =
     (if length s = 10 \<and> list_all (\<lambda>i. if i \<in> {4, 7} then s ! i = CHR ''-'' else py_isdigit (s ! i)) [0..<10]
      then
        (case date_seconds (read_digits (take 4 s)) (read_digits (take 2 (drop 5 s))) (read_digits (drop 8 s)) of
           Some t \<Rightarrow> Inr t
         | None \<Rightarrow> Inl (ValueError ''time data does not match format''))
      else Inl (ValueError ''Invalid exception expiry.''))"

fun check_fields :: "object \<Rightarrow> string list \<Rightarrow> unit result" where
  "check_fields entry [] = Inr ()"
| "check_fields entry (f # fs) =
     (if f = ''packagePath'' \<and> get entry f = JNull then check_fields entry fs
      else
        bindR (json_text (get entry f)) (\<lambda>v.
          if f \<in> set SCOPE \<and> (CHR ''*'' \<in> set v \<or> CHR ''?'' \<in> set v)
          then Inl (ValueError ''Wildcard exceptions are forbidden.'')
          else check_fields entry fs))"

definition exception_key :: "object \<Rightarrow> json list" where
  "exception_key entry = map (get entry) SCOPE"

definition exception_entry :: "time \<Rightarrow> json \<Rightarrow> json list result" where
  "exception_entry now raw =
     bindR (json_mapping raw) (\<lambda>entry.
       if set (map fst entry) \<noteq> set (SCOPE @ [''owner'', ''reason'', ''review'', ''expiresOn''])
       then Inl (ValueError ''Invalid exception fields.'')
       else
         bindR (check_fields entry (SCOPE @ [''owner'', ''reason'', ''review''])) (\<lambda>_.
         bindR (json_text (get entry ''expiresOn'')) (\<lambda>expiry.
         bindR (parse_date expiry) (\<lambda>deadline.
           if \<not> (now < deadline \<and> deadline \<le> now + 30 * 86400)
           then Inl (ValueError ''Exception expired or exceeds 30 days.'')
           else Inr (exception_key entry)))))"

fun exception_rules :: "time \<Rightarrow> json list \<Rightarrow> json list list \<Rightarrow> json list list result" where
  "exception_rules now [] rules = Inr rules"
| "exception_rules now (raw # rest) rules =
     bindR (exception_entry now raw) (\<lambda>key.
       if key \<in> set rules then Inl (ValueError ''Duplicate exception scope.'')
       else exception_rules now rest (rules @ [key]))"

definition exceptions :: "json \<Rightarrow> time \<Rightarrow> json list list result" where
  "exceptions policy now =
     bindR (json_mapping policy) (\<lambda>policy.
       if \<not> equals_int (get policy ''version'') 1 then Inl (ValueError ''Unsupported exception policy.'')
       else bindR (json_sequence (get policy ''exceptions'')) (\<lambda>es. exception_rules now es []))"

subsection \<open>Evaluation\<close>

type_synonym pairs = "(string \<times> string) list"

record finding =
  fd_scope :: "json list"
  fd_severity :: string
  fd_development_only :: bool
  fd_exception :: bool
  fd_fixed_version :: json

record scan =
  inventory :: pairs
  os_packages :: bool
  findings :: "finding list"

definition package_entry :: "string \<Rightarrow> json \<Rightarrow> (string \<times> string) result" where
  "package_entry kind raw =
     bindR (json_mapping raw) (\<lambda>package.
     bindR (json_text (get package ''Name'')) (\<lambda>name.
     bindR (package_version package kind) (\<lambda>version. Inr (name, version))))"

definition scan_finding ::
  "json list list \<Rightarrow> pairs \<Rightarrow> pairs \<Rightarrow> bool \<Rightarrow> string \<Rightarrow> string \<Rightarrow> pairs \<Rightarrow> json \<Rightarrow> finding result" where
  "scan_finding rules expected production img target kind entries raw =
     bindR (json_mapping raw) (\<lambda>vulnerability.
     bindR (json_text (get vulnerability ''PkgName'')) (\<lambda>name.
     bindR (json_text (get vulnerability ''InstalledVersion'')) (\<lambda>version.
     bindR (json_text (get vulnerability ''Severity'')) (\<lambda>severity.
       if severity \<notin> set SEVERITIES
       then Inl (ValueError (''Invalid vulnerability severity in '' @ kind @ ''.''))
       else if (name, version) \<notin> set entries
       then Inl (ValueError (''Vulnerability outside '' @ kind @ '' inventory: '' @ name @ ''@'' @ version @ ''.''))
       else
         (let package_path = get vulnerability ''PkgPath'' in
          bindR (if package_path = JNull then Inr [] else json_text package_path) (\<lambda>_.
          bindR (json_text (get vulnerability ''VulnerabilityID'')) (\<lambda>vid.
            (let key = [JStr vid, JStr name, JStr version, package_path, JStr target, JStr kind] in
             if \<not> img \<and> map_of expected (normalize name) \<noteq> Some version
             then Inl (ValueError ''Finding outside declared requirements.'')
             else Inr \<lparr>fd_scope = key, fd_severity = severity,
               fd_development_only = (\<not> img \<and> (normalize name, version) \<notin> set production),
               fd_exception = (key \<in> set rules), fd_fixed_version = get vulnerability ''FixedVersion''\<rparr>)))))))) "

definition scan_result ::
  "json list list \<Rightarrow> pairs \<Rightarrow> pairs \<Rightarrow> bool \<Rightarrow> json \<Rightarrow> scan \<Rightarrow> scan result" where
  "scan_result rules expected production img raw sc =
     bindR (json_mapping raw) (\<lambda>result.
     bindR (json_text (get result ''Target'')) (\<lambda>target.
     bindR (json_text (get result ''Type'')) (\<lambda>kind.
     bindR (json_sequence (get result ''Packages'')) (\<lambda>packages.
     bindR (mapR (package_entry kind) packages) (\<lambda>entries.
     bindR (json_sequence (get_or result ''Vulnerabilities'' (JArr []))) (\<lambda>vs.
     bindR (mapR (scan_finding rules expected production img target kind entries) vs) (\<lambda>fs.
       Inr \<lparr>inventory = inventory sc @
              (if get result ''Class'' = JStr ''lang-pkgs'' \<and> kind = (if img then ''python-pkg'' else ''pip'')
               then map (\<lambda>(n, v). (normalize n, v)) entries else []),
            os_packages = os_packages sc \<or> get result ''Class'' = JStr ''os-pkgs'' \<and> entries \<noteq> [],
            findings = findings sc @ fs\<rparr>)))))))"

fun scan_results :: "json list list \<Rightarrow> pairs \<Rightarrow> pairs \<Rightarrow> bool \<Rightarrow> json list \<Rightarrow> scan \<Rightarrow> scan result" where
  "scan_results rules expected production img [] sc = Inr sc"
| "scan_results rules expected production img (raw # rest) sc =
     bindR (scan_result rules expected production img raw sc)
       (\<lambda>sc. scan_results rules expected production img rest sc)"

definition check_image :: "object \<Rightarrow> string \<Rightarrow> unit result" where
  "check_image report image_id =
     bindR (json_mapping (get report ''Metadata'')) (\<lambda>metadata.
     bindR (json_mapping (get metadata ''OS'')) (\<lambda>os_info.
       if get metadata ''ImageID'' \<noteq> JStr image_id
       then Inl (ValueError ''Scan does not identify the qualified image.'')
       else
         bindR (json_text (get os_info ''Family'')) (\<lambda>family.
           if family = ''unknown'' \<or> get os_info ''EOSL'' = JBool True
           then Inl (ValueError ''Unsupported or end-of-life image OS.'')
           else bindR (json_text (get os_info ''Name'')) (\<lambda>_. Inr ()))))"

record decision =
  allowed :: bool
  blocked :: "finding list"
  all_findings :: "finding list"
  evaluated_at :: string

definition blocks :: "finding \<Rightarrow> bool" where
  "blocks f \<longleftrightarrow> fd_severity f = ''CRITICAL'' \<and> \<not> fd_development_only f \<and> \<not> fd_exception f"

text \<open>\<open>image_id\<close> is empty for a scan of the file system; \<open>stamp\<close> renders the instant.\<close>

definition evaluate ::
  "(time \<Rightarrow> string) \<Rightarrow> json \<Rightarrow> json \<Rightarrow> pairs \<Rightarrow> pairs \<Rightarrow> string \<Rightarrow> time \<Rightarrow> decision result" where
  "evaluate stamp report policy expected production image_id now =
     (let img = (image_id \<noteq> []) in
      bindR (exceptions policy now) (\<lambda>rules.
      bindR (json_mapping report) (\<lambda>report.
        if \<not> equals_int (get report ''SchemaVersion'') 2 \<or>
           get report ''ArtifactType'' \<noteq> JStr (if img then ''container_image'' else ''filesystem'')
        then Inl (ValueError ''Unsupported or incomplete scan report.'')
        else
          bindR (if img then check_image report image_id else Inr ()) (\<lambda>_.
          bindR (json_sequence (get report ''Results'')) (\<lambda>results.
          bindR (scan_results rules expected production img results
              \<lparr>inventory = [], os_packages = False, findings = []\<rparr>) (\<lambda>sc.
            if \<not> set expected \<subseteq> set (inventory sc) \<or> (img \<and> \<not> os_packages sc)
            then Inl (ValueError ''Missing Python requirements or OS inventory coverage.'')
            else
              (let bl = filter blocks (findings sc) in
               Inr \<lparr>allowed = (bl = []), blocked = bl, all_findings = findings sc, evaluated_at = stamp now\<rparr>)))))))"

subsection \<open>The gate of the required jobs\<close>

definition REQUIRED_JOBS :: "string list" where
  "REQUIRED_JOBS = [''dependency-security'', ''static-analysis'', ''test-layers'', ''mysql-tests'',
     ''combined-coverage'', ''production-container'']"

definition gate_evaluate :: "json \<Rightarrow> (bool \<times> (string \<times> json) list) result" where
  "gate_evaluate raw =
     bindR (read_tree raw) (\<lambda>v.
     bindR (json_mapping v) (\<lambda>results.
       if set (map fst results) \<noteq> set REQUIRED_JOBS
       then Inl (ValueError ''Missing or unexpected required job results.'')
       else
         bindR (mapR (\<lambda>name. bindR (json_mapping (get results name)) (\<lambda>job. Inr (name, get job ''result''))) REQUIRED_JOBS)
           (\<lambda>outcomes. Inr (list_all (\<lambda>kv. snd kv = JStr ''success'') outcomes, outcomes))))"

text \<open>The exit code, for the parsed document or the error of the parser.\<close>

definition gate_main :: "json result \<Rightarrow> int" where
  "gate_main raw = (case bindR raw gate_evaluate of Inr (True, _) \<Rightarrow> 0 | _ \<Rightarrow> 1)"

subsection \<open>Lemmas\<close>

text \<open>The parts of the documents that the properties speak of.\<close>

fun field_list :: "json \<Rightarrow> string \<Rightarrow> json list" where
  "field_list (JObj fs) k = (case get fs k of JArr vs \<Rightarrow> vs | _ \<Rightarrow> [])"
| "field_list _ k = []"

definition finding_scope :: "object \<Rightarrow> object \<Rightarrow> json list" where
  "finding_scope r v = [get v ''VulnerabilityID'', get v ''PkgName'', get v ''InstalledVersion'', get v ''PkgPath'',
     get r ''Target'', get r ''Type'']"

definition live_exception :: "time \<Rightarrow> json \<Rightarrow> json list \<Rightarrow> bool" where
  "live_exception now raw key \<longleftrightarrow>
     (\<exists>entry e deadline. raw = JObj entry \<and> exception_key entry = key \<and> get entry ''expiresOn'' = JStr e \<and>
        parse_date e = Inr deadline \<and> now < deadline \<and> deadline \<le> now + 30 * 86400)"

lemma exception_entry_live: "exception_entry now raw = Inr key \<Longrightarrow> live_exception now raw key"
  by (auto simp: exception_entry_def live_exception_def bindR_eq_Inr json_mapping_Inr dest!: json_text_Inr split: if_splits)

lemma exception_rules_live:
  "exception_rules now es rules = Inr rules' \<Longrightarrow> key \<in> set rules' \<Longrightarrow>
     key \<in> set rules \<or> (\<exists>raw \<in> set es. live_exception now raw key)"
  by (induction now es rules rule: exception_rules.induct)
    (fastforce simp: bindR_eq_Inr dest: exception_entry_live split: if_splits)+

lemma exceptions_live:
  "exceptions policy now = Inr rules \<Longrightarrow> key \<in> set rules \<Longrightarrow> \<exists>raw \<in> set (field_list policy ''exceptions''). live_exception now raw key"
  by (fastforce simp: exceptions_def bindR_eq_Inr json_mapping_Inr json_sequence_Inr
      dest: exception_rules_live split: if_splits)

lemma scan_finding_Inr:
  assumes "scan_finding rules expected production img target kind entries (JObj v) = Inr f"
  shows "\<exists>n ver. get v ''PkgName'' = JStr n \<and> get v ''InstalledVersion'' = JStr ver \<and>
    get v ''Severity'' = JStr (fd_severity f) \<and> (n, ver) \<in> set entries \<and>
    fd_development_only f = (\<not> img \<and> (normalize n, ver) \<notin> set production) \<and>
    (img \<or> map_of expected (normalize n) = Some ver) \<and>
    fd_exception f = ([get v ''VulnerabilityID'', get v ''PkgName'', get v ''InstalledVersion'', get v ''PkgPath'',
      JStr target, JStr kind] \<in> set rules)"
  using assms
  by (auto simp: scan_finding_def bindR_eq_Inr Let_def dest!: json_text_Inr split: if_splits)

lemma scan_results_findings:
  "scan_results rules expected production img rs sc = Inr sc' \<Longrightarrow> set (findings sc) \<subseteq> set (findings sc') \<and>
     (\<forall>raw \<in> set rs. \<exists>sc0 sc1. scan_result rules expected production img raw sc0 = Inr sc1 \<and>
        set (findings sc1) \<subseteq> set (findings sc'))"
proof (induction rs arbitrary: sc)
  case (Cons raw rest)
  then obtain sc1 where s: "scan_result rules expected production img raw sc = Inr sc1"
      "scan_results rules expected production img rest sc1 = Inr sc'" by (auto simp: bindR_eq_Inr)
  have "set (findings sc) \<subseteq> set (findings sc1)" using s(1) by (auto simp: scan_result_def bindR_eq_Inr)
  then show ?case using Cons.IH [OF s(2)] s(1) by auto
qed simp

lemma scan_result_finding:
  assumes "scan_result rules expected production img (JObj r) sc0 = Inr sc1"
    and "JObj v \<in> set (field_list (JObj r) ''Vulnerabilities'')"
  shows "\<exists>f target kind entries. f \<in> set (findings sc1) \<and> get r ''Target'' = JStr target \<and> get r ''Type'' = JStr kind \<and>
    scan_finding rules expected production img target kind entries (JObj v) = Inr f"
proof -
  obtain target kind packages entries vs fs where o: "json_text (get r ''Target'') = Inr target"
      "json_text (get r ''Type'') = Inr kind" "json_sequence (get_or r ''Vulnerabilities'' (JArr [])) = Inr vs"
      "mapR (scan_finding rules expected production img target kind entries) vs = Inr fs"
      "set fs \<subseteq> set (findings sc1)"
    using assms(1) by (auto simp: scan_result_def bindR_eq_Inr)
  have "JObj v \<in> set vs" using assms(2) o(3)
    by (auto simp: json_sequence_Inr get_def get_or_def split: option.splits json.splits)
  then show ?thesis using mapR_mem [OF o(4)] o(1,2,5) json_text_Inr by blast
qed

subsection \<open>Instances for witnesses\<close>

definition demo_policy_document :: json where
  "demo_policy_document = JObj [(''version'', JInt 1), (''exceptions'', JArr [JObj
     [(''vulnerabilityId'', JStr ''CVE-1''), (''packageName'', JStr ''lib_x''), (''installedVersion'', JStr ''1.0''),
      (''packagePath'', JNull), (''target'', JStr ''requirements.txt''), (''type'', JStr ''pip''), (''owner'', JStr ''o''),
      (''reason'', JStr ''r''), (''review'', JStr ''v''), (''expiresOn'', JStr ''2025-01-20'')]])]"

definition demo_vulnerability :: object where
  "demo_vulnerability = [(''VulnerabilityID'', JStr ''CVE-1''), (''PkgName'', JStr ''lib_x''),
     (''InstalledVersion'', JStr ''1.0''), (''Severity'', JStr ''CRITICAL'')]"

definition demo_result :: object where
  "demo_result = [(''Target'', JStr ''requirements.txt''), (''Type'', JStr ''pip''), (''Class'', JStr ''lang-pkgs''),
     (''Packages'', JArr [JObj [(''Name'', JStr ''lib_x''), (''Version'', JStr ''1.0'')]]),
     (''Vulnerabilities'', JArr [JObj demo_vulnerability])]"

definition demo_report :: json where
  "demo_report = JObj [(''SchemaVersion'', JInt 2), (''ArtifactType'', JStr ''filesystem''), (''Results'', JArr [JObj demo_result])]"

definition demo_now :: time where
  "demo_now = 86400 * 739250"

subsection \<open>Properties\<close>

text \<open>
  Property C40. The vulnerability gate fails closed: when it allows a release, every critical finding
  of the report is of a declared package that is not shipped, or exactly its identifier,
  package, version, path, target and type are excepted by an entry of the policy that has not
  expired and expires within 30 days.
\<close>

theorem scan_gate_sound:
  assumes "evaluate stamp report policy expected production image_id now = Inr d" "allowed d"
    and "JObj r \<in> set (field_list report ''Results'')"
    and "JObj v \<in> set (field_list (JObj r) ''Vulnerabilities'')" "get v ''Severity'' = JStr ''CRITICAL''"
  shows "(\<exists>n ver. image_id = [] \<and> get v ''PkgName'' = JStr n \<and> get v ''InstalledVersion'' = JStr ver \<and>
      map_of expected (normalize n) = Some ver \<and> (normalize n, ver) \<notin> set production) \<or>
    (\<exists>raw \<in> set (field_list policy ''exceptions''). live_exception now raw (finding_scope r v))"
proof -
  let ?img = "image_id \<noteq> []"
  obtain rules fs results sc where e: "exceptions policy now = Inr rules" "report = JObj fs" "get fs ''Results'' = JArr results"
      "scan_results rules expected production ?img results \<lparr>inventory = [], os_packages = False, findings = []\<rparr> = Inr sc"
      "filter blocks (findings sc) = []"
    using assms(1,2) by (auto simp: evaluate_def Let_def bindR_eq_Inr json_mapping_Inr json_sequence_Inr split: if_splits)
  have "JObj r \<in> set results" using assms(3) e(2,3) by simp
  then obtain sc0 sc1 where s: "scan_result rules expected production ?img (JObj r) sc0 = Inr sc1"
      "set (findings sc1) \<subseteq> set (findings sc)"
    using scan_results_findings [OF e(4)] by blast
  obtain f target kind entries where f: "f \<in> set (findings sc1)" "get r ''Target'' = JStr target" "get r ''Type'' = JStr kind"
      "scan_finding rules expected production ?img target kind entries (JObj v) = Inr f"
    using scan_result_finding [OF s(1) assms(4)] by blast
  have "\<not> blocks f" using f(1) s(2) e(5) by (auto simp: filter_empty_conv)
  then show ?thesis
    using scan_finding_Inr [OF f(4)] assms(5) exceptions_live [OF e(1), of "finding_scope r v"] f(2,3)
    by (auto simp: blocks_def finding_scope_def)
qed

theorem scan_gate_sound_witness:
  "\<exists>raw \<in> set (field_list demo_policy_document ''exceptions''). live_exception demo_now raw (finding_scope demo_result demo_vulnerability)"
proof -
  let ?req = "[(''lib-x'', ''1.0'')]"
  let ?d = "evaluate (\<lambda>t. []) demo_report demo_policy_document ?req ?req [] demo_now"
  have "\<not> isl ?d" "allowed (projr ?d)" by code_simp+
  then obtain d where d: "?d = Inr d" "allowed d" by (cases ?d) auto
  have v: "JObj demo_result \<in> set (field_list demo_report ''Results'')"
    "JObj demo_vulnerability \<in> set (field_list (JObj demo_result) ''Vulnerabilities'')"
    "get demo_vulnerability ''Severity'' = JStr ''CRITICAL''" "get demo_vulnerability ''PkgName'' = JStr ''lib_x''"
    "normalize ''lib_x'' = ''lib-x''" "get demo_vulnerability ''InstalledVersion'' = JStr ''1.0''"
    by code_simp+
  then show ?thesis using scan_gate_sound [OF d v(1-3)] by simp
qed

text \<open>
  The deployment gate succeeds exactly when the document of job results is valid, names
  the required jobs and no others, and every one of them reports \<open>success\<close>.
\<close>

lemma ci_gate_exact:
  "gate_main raw = 0 \<longleftrightarrow>
     (\<exists>fs. bindR raw read_tree = Inr (JObj fs) \<and> set (map fst fs) = set REQUIRED_JOBS \<and>
        list_all (\<lambda>name. \<exists>job. get fs name = JObj job \<and> get job ''result'' = JStr ''success'') REQUIRED_JOBS)"
proof -
  let ?job = "\<lambda>fs name. bindR (json_mapping (get fs name)) (\<lambda>job. Inr (name, get job ''result''))"
  have jobs: "(\<exists>outs. mapR (?job fs) names = Inr outs \<and> list_all (\<lambda>kv. snd kv = JStr ''success'') outs) \<longleftrightarrow>
      list_all (\<lambda>name. \<exists>job. get fs name = JObj job \<and> get job ''result'' = JStr ''success'') names" for fs names
    by (induction names) (auto simp: bindR_eq_Inr json_mapping_Inr)
  have "gate_main raw = 0 \<longleftrightarrow> (\<exists>outs. bindR raw gate_evaluate = Inr (True, outs))"
    by (auto simp: gate_main_def split: sum.splits bool.splits)
  also have "\<dots> \<longleftrightarrow> (\<exists>fs. bindR raw read_tree = Inr (JObj fs) \<and> set (map fst fs) = set REQUIRED_JOBS \<and>
      (\<exists>outs. mapR (?job fs) REQUIRED_JOBS = Inr outs \<and> list_all (\<lambda>kv. snd kv = JStr ''success'') outs))"
    by (auto simp: gate_evaluate_def bindR_eq_Inr json_mapping_Inr)
  finally show ?thesis unfolding jobs .
qed

end
