(* ===== verification/ReleaseSource.thy ===== *)
theory ReleaseSource
  imports ScanPolicy
begin

text \<open>
  The choice of the commit a release is built from (\<^verbatim>\<open>scripts/release_source.py\<close>).

  \<open>api\<close> answers a path of the GitHub API with the parsed object, or raises. The environment is a
  partial map. Files are given by the result of reading them.
\<close>

subsection \<open>Formats\<close>

definition full_sha :: "string \<Rightarrow> bool" where
  "full_sha s \<longleftrightarrow> length s = 40 \<and> list_all hex_lower s"

definition slug_char :: "char \<Rightarrow> bool" where
  "slug_char c \<longleftrightarrow> py_isalnum c \<or> c \<in> {CHR ''_'', CHR ''.'', CHR ''-''}"

definition repository_name :: "string \<Rightarrow> bool" where
  "repository_name s =
     (case py_split (CHR ''/'') s of
        [owner, name] \<Rightarrow> owner \<noteq> [] \<and> name \<noteq> [] \<and> list_all slug_char (owner @ name)
      | _ \<Rightarrow> False)"

text \<open>Three numbers and an optional suffix behind a dash.\<close>

definition version_format :: "string \<Rightarrow> bool" where
  "version_format s =
     (let core = takeWhile (\<lambda>c. c \<noteq> CHR ''-'') s; suffix = drop (length core) s; parts = py_split (CHR ''.'') core in
      length parts = 3 \<and> list_all (\<lambda>p. p \<noteq> [] \<and> list_all py_isdigit p) parts \<and>
      (suffix = [] \<or> length suffix > 1 \<and>
        list_all (\<lambda>c. py_isalnum c \<or> c \<in> {CHR ''.'', CHR ''-''}) (tl suffix)))"

definition lower_alnum :: "char \<Rightarrow> bool" where
  "lower_alnum c \<longleftrightarrow> py_isdigit c \<or> (97 \<le> code c \<and> code c \<le> 122)"

fun registry_name :: "string \<Rightarrow> bool" where
  "registry_name [] = False"
| "registry_name (c # cs) =
     (lower_alnum c \<and> list_all (\<lambda>c. lower_alnum c \<or> c \<in> {CHR ''.'', CHR '':'', CHR ''-''}) cs)"

text \<open>Words of lower case letters and digits, separated by single separators.\<close>

fun separated_words :: "bool \<Rightarrow> string \<Rightarrow> bool" where
  "separated_words in_word [] = in_word"
| "separated_words in_word (c # cs) =
     (if lower_alnum c then separated_words True cs
      else c \<in> {CHR ''.'', CHR ''_'', CHR ''/'', CHR ''-''} \<and> in_word \<and> separated_words False cs)"

definition image_name :: "string \<Rightarrow> bool" where
  "image_name s = separated_words False s"

subsection \<open>Continuous integration\<close>

definition push_run :: "object \<Rightarrow> string \<Rightarrow> bool" where
  "push_run run sha \<longleftrightarrow>
     get run ''head_sha'' = JStr sha \<and> get run ''head_branch'' = JStr ''main'' \<and> get run ''event'' = JStr ''push'' \<and>
     get run ''status'' = JStr ''completed'' \<and> get run ''conclusion'' = JStr ''success'' \<and> get run ''name'' = JStr ''Quality''"

definition passed_gate :: "object \<Rightarrow> bool" where
  "passed_gate job \<longleftrightarrow> get job ''conclusion'' = JStr ''success'' \<and> get job ''status'' = JStr ''completed''"

definition validate_ci :: "object \<Rightarrow> json list \<Rightarrow> string \<Rightarrow> string \<Rightarrow> unit result" where
  "validate_ci run jobs sha repository =
     bindR (if \<not> push_run run sha then Inr False
            else bindR (json_mapping (get run ''head_repository'')) (\<lambda>r. Inr (get r ''full_name'' = JStr repository)))
       (\<lambda>ok.
         if \<not> ok then Inl (ValueError ''Latest exact-source main push CI must succeed in this repository.'')
         else
           bindR (mapR json_mapping jobs) (\<lambda>jobs.
             case filter (\<lambda>job. get job ''name'' = JStr ''Deployment gate'') jobs of
               [gate] \<Rightarrow>
                 if passed_gate gate then Inr ()
                 else Inl (ValueError ''The selected CI attempt must contain one successful Deployment gate.'')
             | _ \<Rightarrow> Inl (ValueError ''The selected CI attempt must contain one successful Deployment gate.'')))"

text \<open>
  The pages of jobs until one is not full. The loop has no bound of its own: it returns if the
  API does not answer with full pages forever.
\<close>

partial_function (option) job_pages ::
  "(string \<Rightarrow> object result) \<Rightarrow> (nat \<Rightarrow> string) \<Rightarrow> nat \<Rightarrow> json list \<Rightarrow> json list result option" where
  "job_pages api url page jobs =
     (case bindR (api (url page)) (\<lambda>r. json_sequence (get r ''jobs'')) of
        Inl e \<Rightarrow> Some (Inl e)
      | Inr batch \<Rightarrow>
          if length batch < 100 then Some (Inr (jobs @ batch)) else job_pages api url (page + 1) (jobs @ batch))"

declare job_pages.simps [code]

text \<open>The first of the runs with the largest number.\<close>

definition run_id :: "object \<Rightarrow> int result" where
  "run_id run = bindR (entry_of run ''id'') json_int"

fun newest :: "int \<times> object \<Rightarrow> (int \<times> object) list \<Rightarrow> int \<times> object" where
  "newest best [] = best"
| "newest best (r # rs) = newest (if fst best < fst r then r else best) rs"

definition latest_run :: "json list \<Rightarrow> (int \<times> object) result" where
  "latest_run runs =
     bindR (mapR (\<lambda>v. bindR (json_mapping v) (\<lambda>run. bindR (run_id run) (\<lambda>n. Inr (n, run)))) runs) (\<lambda>rs.
       case rs of
         [] \<Rightarrow> Inl (ValueError ''No exact-source main push CI is available.'')
       | r # rs \<Rightarrow> Inr (newest r rs))"

subsection \<open>Selection\<close>

definition compare_path :: "string \<Rightarrow> string \<Rightarrow> string" where
  "compare_path repository sha = ''repos/'' @ repository @ ''/compare/'' @ sha @ ''...main''"

definition runs_path :: "string \<Rightarrow> string \<Rightarrow> string" where
  "runs_path repository sha =
     ''repos/'' @ repository @ ''/actions/workflows/tests.yml/runs?head_sha='' @ sha @
       ''&event=push&branch=main&per_page=100''"

definition jobs_path :: "string \<Rightarrow> int \<Rightarrow> int \<Rightarrow> nat \<Rightarrow> string" where
  "jobs_path repository n attempt page =
     ''repos/'' @ repository @ ''/actions/runs/'' @ show_int n @ ''/attempts/'' @ show_int attempt @
       ''/jobs?per_page=100&page='' @ show_nat page"

definition on_main :: "object \<Rightarrow> string \<Rightarrow> bool result" where
  "on_main comparison sha =
     bindR (member_of (get comparison ''status'') [''identical'', ''ahead'']) (\<lambda>ok.
       if \<not> ok then Inr False
       else bindR (json_mapping (get comparison ''merge_base_commit'')) (\<lambda>base. Inr (get base ''sha'' = JStr sha)))"

definition optional_text :: "string option \<Rightarrow> json" where
  "optional_text v = (case v of Some s \<Rightarrow> JStr s | None \<Rightarrow> JNull)"

definition source_record :: "(string \<Rightarrow> string option) \<Rightarrow> string \<Rightarrow> string \<Rightarrow> int \<Rightarrow> int \<Rightarrow> object result" where
  "source_record env sha repository n attempt =
     (let registry = (case env ''REGISTRY'' of Some r \<Rightarrow> r | None \<Rightarrow> ''ghcr.io'');
          image = py_lower (case env ''IMAGE_REPOSITORY'' of Some r \<Rightarrow> r | None \<Rightarrow> repository) in
      if \<not> registry_name registry \<or> \<not> image_name image
      then Inl (ValueError ''Invalid release registry/repository.'')
      else Inr [(''sha'', JStr sha), (''repository'', JStr (''https://github.com/'' @ repository)),
        (''ciRunId'', JInt n), (''ciAttempt'', JInt attempt), (''image'', JStr (registry @ ''/'' @ image)),
        (''releaseRunId'', optional_text (env ''GITHUB_RUN_ID'')),
        (''releaseAttempt'', optional_text (env ''GITHUB_RUN_ATTEMPT''))])"

text \<open>\<open>None\<close> if the pages of jobs never end.\<close>

definition select_source :: "(string \<Rightarrow> string option) \<Rightarrow> (string \<Rightarrow> object result) \<Rightarrow> object result option" where
  "select_source env api =
     (let sha = (case env ''REQUESTED_SHA'' of Some s \<Rightarrow> s | None \<Rightarrow> []);
          repository = (case env ''GITHUB_REPOSITORY'' of Some s \<Rightarrow> s | None \<Rightarrow> []);
          selected =
            (if \<not> full_sha sha \<or> \<not> repository_name repository
             then Inl (ValueError ''A full lowercase SHA and repository are required.'')
             else
               bindR (api (compare_path repository sha)) (\<lambda>comparison.
               bindR (on_main comparison sha) (\<lambda>ok.
                 if \<not> ok then Inl (ValueError ''Selected commit must belong to main.'')
                 else
                   bindR (bindR (api (runs_path repository sha)) (\<lambda>r. json_sequence (get r ''workflow_runs''))) (\<lambda>runs.
                   bindR (latest_run runs) (\<lambda>(n, run).
                   bindR (bindR (entry_of run ''run_attempt'') json_int) (\<lambda>attempt. Inr (n, run, attempt))))))) in
      case selected of
        Inl e \<Rightarrow> Some (Inl e)
      | Inr (n, run, attempt) \<Rightarrow>
          map_option
            (\<lambda>jobs. bindR jobs (\<lambda>jobs.
               bindR (validate_ci run jobs sha repository) (\<lambda>_. source_record env sha repository n attempt)))
            (job_pages api (jobs_path repository n attempt) 1 []))"

text \<open>The version of the release, for the texts of \<^verbatim>\<open>VERSION\<close> and the lines of \<^verbatim>\<open>.env.example\<close>.\<close>

definition release_version :: "string result \<Rightarrow> string list result \<Rightarrow> string result" where
  "release_version version_text example_lines =
     bindR version_text (\<lambda>t.
     bindR example_lines (\<lambda>ls.
       (let version = py_strip t;
            example = map (\<lambda>l. drop (length ''APP_VERSION='') l) (filter (\<lambda>l. startswith l ''APP_VERSION='') ls) in
        if \<not> version_format version \<or> example \<noteq> [version]
        then Inl (ValueError ''VERSION and .env.example APP_VERSION must agree on a release version.'')
        else Inr version)))"

subsection \<open>The script\<close>

text \<open>
  What the script leaves: the evidence it writes, the lines it appends to the job's output, and
  whether it raises. \<open>show_error\<close> renders an exception.
\<close>

record selection =
  sel_source :: "json option"
  sel_failure :: "json option"
  sel_output :: string
  sel_raised :: "exn option"

definition source_main ::
  "(exn \<Rightarrow> string) \<Rightarrow> (string \<Rightarrow> string option) \<Rightarrow> (string \<Rightarrow> object result) \<Rightarrow> selection option" where
  "source_main show_error env api =
     (if env ''RELEASE_EVIDENCE'' = None
      then Some \<lparr>sel_source = None, sel_failure = None, sel_output = [], sel_raised = Some (KeyError ''RELEASE_EVIDENCE'')\<rparr>
      else
        map_option
          (\<lambda>r. case r of
             Inl e \<Rightarrow>
               \<lparr>sel_source = None,
                sel_failure =
                  (if is_exception e
                   then Some (JObj [(''stage'', JStr ''source''), (''error'', JStr (show_error e))]) else None),
                sel_output = [], sel_raised = Some e\<rparr>
           | Inr source \<Rightarrow>
               if env ''GITHUB_OUTPUT'' = None
               then \<lparr>sel_source = Some (JObj source), sel_failure = None, sel_output = [],
                 sel_raised = Some (KeyError ''GITHUB_OUTPUT'')\<rparr>
               else \<lparr>sel_source = Some (JObj source), sel_failure = None,
                 sel_output = ''sha='' @ plain_text (get source ''sha'') @ [CHR 0x0A] @
                   ''image='' @ plain_text (get source ''image'') @ [CHR 0x0A], sel_raised = None\<rparr>)
          (select_source env api))"

subsection \<open>Lemmas\<close>

lemma newest_max:
  "newest best rs \<in> insert best (set rs) \<and> (\<forall>r \<in> insert best (set rs). fst r \<le> fst (newest best rs))"
proof (induction rs arbitrary: best)
  case (Cons r rs)
  let ?b = "if fst best < fst r then r else best"
  have le: "fst best \<le> fst ?b" "fst r \<le> fst ?b" by auto
  show ?case using Cons [of ?b] le by (auto simp del: split_paired_All split_paired_Ex intro: order_trans [OF le(1)] order_trans [OF le(2)])
qed simp

lemma validate_ci_Inr:
  assumes "validate_ci run jobs sha repository = Inr u"
  shows "push_run run sha \<and> (\<exists>r. get run ''head_repository'' = JObj r \<and> get r ''full_name'' = JStr repository) \<and>
     (\<exists>os gate. mapR json_mapping jobs = Inr os \<and>
        filter (\<lambda>job. get job ''name'' = JStr ''Deployment gate'') os = [gate] \<and> passed_gate gate)"
proof -
  let ?gates = "\<lambda>os. filter (\<lambda>job. get job ''name'' = JStr ''Deployment gate'') os"
  let ?err = "Inl (ValueError ''The selected CI attempt must contain one successful Deployment gate.'')"
  have run: "push_run run sha \<and> (\<exists>r. get run ''head_repository'' = JObj r \<and> get r ''full_name'' = JStr repository)"
    using assms by (auto simp: validate_ci_def bindR_eq_Inr json_mapping_Inr split: if_splits)
  then have "bindR (mapR json_mapping jobs)
      (\<lambda>os. case ?gates os of [gate] \<Rightarrow> if passed_gate gate then Inr () else ?err | _ \<Rightarrow> ?err) = Inr u"
    using assms by (auto simp: validate_ci_def)
  then obtain os where os: "mapR json_mapping jobs = Inr os"
      "(case ?gates os of [gate] \<Rightarrow> if passed_gate gate then Inr () else ?err | _ \<Rightarrow> ?err) = Inr u"
    unfolding bindR_eq_Inr by blast
  obtain gate where "?gates os = [gate] \<and> passed_gate gate"
    using os(2) by (cases "?gates os"; cases "tl (?gates os)") (auto split: if_splits)
  then show ?thesis using run os(1) by blast
qed

text \<open>One page of jobs, and when it is not the last.\<close>

definition page_of :: "(string \<Rightarrow> object result) \<Rightarrow> (nat \<Rightarrow> string) \<Rightarrow> nat \<Rightarrow> json list result" where
  "page_of api url n = bindR (api (url n)) (\<lambda>r. json_sequence (get r ''jobs''))"

definition full_page :: "json list result \<Rightarrow> bool" where
  "full_page r = (case r of Inr batch \<Rightarrow> 100 \<le> length batch | Inl e \<Rightarrow> False)"

lemma job_pages_unfold:
  "job_pages api url page jobs =
     (if full_page (page_of api url page) then job_pages api url (page + 1) (jobs @ projr (page_of api url page))
      else Some (bindR (page_of api url page) (\<lambda>batch. Inr (jobs @ batch))))"
  by (subst job_pages.simps) (auto simp: page_of_def full_page_def split: sum.split)

text \<open>The loop returns exactly if some page is not full.\<close>

lemma job_pages_returns:
  assumes "\<not> full_page (page_of api url (page + k))"
  shows "job_pages api url page jobs \<noteq> None"
  using assms
proof (induction k arbitrary: page jobs)
  case 0
  then show ?case by (subst job_pages_unfold) simp
next
  case (Suc k)
  then have "job_pages api url (page + 1) (jobs @ projr (page_of api url page)) \<noteq> None"
    by simp
  then show ?case by (subst job_pages_unfold) simp
qed

lemma job_pages_ends:
  assumes "job_pages api url page jobs = Some r"
  shows "\<exists>n \<ge> page. \<not> full_page (page_of api url n)"
proof (rule job_pages.raw_induct [where P = "\<lambda>api url page jobs r. \<exists>n \<ge> page. \<not> full_page (page_of api url n)", OF _ assms])
  fix jp :: "(string \<Rightarrow> object result) \<Rightarrow> (nat \<Rightarrow> string) \<Rightarrow> nat \<Rightarrow> json list \<Rightarrow> json list result option"
  fix api url page jobs r
  assume hyp: "\<And>api url page jobs r. jp api url page jobs = Some r \<Longrightarrow> \<exists>n \<ge> page. \<not> full_page (page_of api url n)"
    and eq: "(case bindR (api (url page)) (\<lambda>r. json_sequence (get r ''jobs'')) of
        Inl e \<Rightarrow> Some (Inl e)
      | Inr batch \<Rightarrow>
          if length batch < 100 then Some (Inr (jobs @ batch)) else jp api url (page + 1) (jobs @ batch)) = Some r"
  show "\<exists>n \<ge> page. \<not> full_page (page_of api url n)"
  proof (cases "full_page (page_of api url page)")
    case True
    then obtain batch where "page_of api url page = Inr batch" "100 \<le> length batch"
      by (auto simp: full_page_def split: sum.splits)
    then have "jp api url (page + 1) (jobs @ batch) = Some r" using eq by (simp add: page_of_def)
    then obtain n where "n \<ge> page + 1" "\<not> full_page (page_of api url n)" using hyp by blast
    then show ?thesis by (intro exI [of _ n]) simp
  qed auto
qed

text \<open>What it returns are the pages up to the first that is not full.\<close>

definition pages_read :: "(string \<Rightarrow> object result) \<Rightarrow> (nat \<Rightarrow> string) \<Rightarrow> nat \<Rightarrow> json list list \<Rightarrow> bool" where
  "pages_read api url page ps \<longleftrightarrow> ps \<noteq> [] \<and> (\<forall>i < length ps. page_of api url (page + i) = Inr (ps ! i)) \<and>
     (\<forall>i < length ps - 1. 100 \<le> length (ps ! i)) \<and> length (last ps) < 100"

lemma pages_read_Cons:
  assumes "page_of api url page = Inr batch" "100 \<le> length batch" "pages_read api url (page + 1) ps"
  shows "pages_read api url page (batch # ps)"
  using assms unfolding pages_read_def by (auto simp: nth_Cons split: nat.split)

lemma job_pages_Inr:
  assumes "job_pages api url page jobs = Some (Inr all)"
  shows "\<exists>ps. all = jobs @ concat ps \<and> pages_read api url page ps"
proof -
  obtain k where "\<not> full_page (page_of api url (page + k))"
    using job_pages_ends [OF assms] by (metis le_iff_add)
  then show ?thesis using assms
  proof (induction k arbitrary: page jobs)
    case 0
    then obtain batch where "page_of api url page = Inr batch" "length batch < 100" "all = jobs @ batch"
      by (auto simp: job_pages_unfold [of api url page] full_page_def bindR_eq_Inr split: sum.splits)
    then show ?case by (intro exI [of _ "[batch]"]) (simp add: pages_read_def)
  next
    case (Suc k)
    show ?case
    proof (cases "full_page (page_of api url page)")
      case True
      then obtain batch where b: "page_of api url page = Inr batch" "100 \<le> length batch"
        by (auto simp: full_page_def split: sum.splits)
      then have "job_pages api url (page + 1) (jobs @ batch) = Some (Inr all)"
        using Suc.prems(2) True by (simp add: job_pages_unfold [of api url page])
      moreover have "\<not> full_page (page_of api url ((page + 1) + k))" using Suc.prems(1) by simp
      ultimately obtain ps where ps: "all = (jobs @ batch) @ concat ps" "pages_read api url (page + 1) ps"
        using Suc.IH by blast
      then show ?thesis using pages_read_Cons [OF b ps(2)] by (intro exI [of _ "batch # ps"]) simp
    next
      case False
      then obtain batch where "page_of api url page = Inr batch" "length batch < 100" "all = jobs @ batch"
        using Suc.prems(2) by (auto simp: job_pages_unfold [of api url page] full_page_def bindR_eq_Inr split: sum.splits)
      then show ?thesis by (intro exI [of _ "[batch]"]) (simp add: pages_read_def)
    qed
  qed
qed

text \<open>What has to be true of a commit that is selected.\<close>

definition main_commit :: "(string \<Rightarrow> object result) \<Rightarrow> string \<Rightarrow> string \<Rightarrow> bool" where
  "main_commit api repository sha \<longleftrightarrow>
     (\<exists>comparison base. api (compare_path repository sha) = Inr comparison \<and>
        get comparison ''status'' \<in> {JStr ''identical'', JStr ''ahead''} \<and>
        get comparison ''merge_base_commit'' = JObj base \<and> get base ''sha'' = JStr sha)"

definition newest_push_run :: "(string \<Rightarrow> object result) \<Rightarrow> string \<Rightarrow> string \<Rightarrow> int \<Rightarrow> object \<Rightarrow> bool" where
  "newest_push_run api repository sha n run \<longleftrightarrow>
     (\<exists>r runs. api (runs_path repository sha) = Inr r \<and> get r ''workflow_runs'' = JArr runs \<and>
        JObj run \<in> set runs \<and> run_id run = Inr n \<and>
        list_all (\<lambda>v. \<exists>run' m. v = JObj run' \<and> run_id run' = Inr m \<and> m \<le> n) runs) \<and>
     push_run run sha \<and> (\<exists>r. get run ''head_repository'' = JObj r \<and> get r ''full_name'' = JStr repository)"

definition one_gate_passed :: "(string \<Rightarrow> object result) \<Rightarrow> string \<Rightarrow> int \<Rightarrow> object \<Rightarrow> bool" where
  "one_gate_passed api repository n run \<longleftrightarrow>
     (\<exists>attempt ps os gate. bindR (entry_of run ''run_attempt'') json_int = Inr attempt \<and>
        pages_read api (jobs_path repository n attempt) 1 ps \<and> mapR json_mapping (concat ps) = Inr os \<and>
        filter (\<lambda>job. get job ''name'' = JStr ''Deployment gate'') os = [gate] \<and> passed_gate gate)"

lemma latest_run_Inr:
  assumes "latest_run runs = Inr (n, run)"
  shows "JObj run \<in> set runs \<and> run_id run = Inr n \<and>
    list_all (\<lambda>v. \<exists>run' m. v = JObj run' \<and> run_id run' = Inr m \<and> m \<le> n) runs"
proof -
  let ?f = "\<lambda>v. bindR (json_mapping v) (\<lambda>run. bindR (run_id run) (\<lambda>n. Inr (n, run)))"
  obtain r rs where rs: "mapR ?f runs = Inr (r # rs)" "newest r rs = (n, run)"
  proof -
    obtain xs where "mapR ?f runs = Inr xs"
        "(case xs of [] \<Rightarrow> Inl (ValueError ''No exact-source main push CI is available.'') | r # rs \<Rightarrow> Inr (newest r rs)) = Inr (n, run)"
      using assms unfolding latest_run_def bindR_eq_Inr [of "mapR ?f runs"] by blast
    then show thesis using that by (cases xs) auto
  qed
  have f: "?f v = Inr (m, run') \<longleftrightarrow> v = JObj run' \<and> run_id run' = Inr m" for v m run'
    by (auto simp: bindR_eq_Inr json_mapping_Inr)
  have "(n, run) \<in> set (r # rs)" and max: "\<forall>x \<in> set (r # rs). fst x \<le> n"
    using newest_max [of r rs] rs(2) by auto
  then obtain v where "v \<in> set runs" "?f v = Inr (n, run)"
    using mapR_source [OF rs(1)] by blast
  moreover have "\<exists>run' m. v = JObj run' \<and> run_id run' = Inr m \<and> m \<le> n" if v: "v \<in> set runs" for v
  proof -
    obtain y where "y \<in> set (r # rs)" "?f v = Inr y" using mapR_mem [OF rs(1) v] by blast
    then show ?thesis using max f [of v "fst y" "snd y"] by auto
  qed
  ultimately show ?thesis using f by (auto simp: list_all_iff)
qed

subsection \<open>Properties\<close>

text \<open>
  Property C16. A selected source is a tested commit of the main branch: the commit that was asked
  for, contained in main, whose newest push run of the quality workflow in this repository
  succeeded with exactly one successful deployment gate among all jobs of the attempt, however
  many pages they fill.
\<close>

theorem selected_source_tested:
  assumes "select_source env api = Some (Inr source)"
  shows "\<exists>sha repository n run. env ''REQUESTED_SHA'' = Some sha \<and> env ''GITHUB_REPOSITORY'' = Some repository \<and>
    full_sha sha \<and> repository_name repository \<and>
    get source ''sha'' = JStr sha \<and> get source ''repository'' = JStr (''https://github.com/'' @ repository) \<and>
    get source ''ciRunId'' = JInt n \<and> main_commit api repository sha \<and>
    newest_push_run api repository sha n run \<and> one_gate_passed api repository n run"
proof -
  define sha where "sha = (case env ''REQUESTED_SHA'' of Some s \<Rightarrow> s | None \<Rightarrow> [])"
  define repository where "repository = (case env ''GITHUB_REPOSITORY'' of Some s \<Rightarrow> s | None \<Rightarrow> [])"
  have names: "full_sha sha" "repository_name repository"
    using assms by (auto simp: select_source_def sha_def [symmetric] repository_def [symmetric] Let_def split: if_splits)
  then obtain comparison r runs n run attempt all where sel: "api (compare_path repository sha) = Inr comparison"
      "on_main comparison sha = Inr True"
      "api (runs_path repository sha) = Inr r" "get r ''workflow_runs'' = JArr runs" "latest_run runs = Inr (n, run)"
      "bindR (entry_of run ''run_attempt'') json_int = Inr attempt"
      "job_pages api (jobs_path repository n attempt) 1 [] = Some (Inr all)"
      "validate_ci run all sha repository = Inr ()" "source_record env sha repository n attempt = Inr source"
    using assms
    by (auto simp: select_source_def sha_def [symmetric] repository_def [symmetric] Let_def bindR_eq_Inr json_sequence_Inr
        split: if_splits sum.splits prod.splits)
  have env: "env ''REQUESTED_SHA'' = Some sha" "env ''GITHUB_REPOSITORY'' = Some repository"
    using names by (auto simp: sha_def repository_def full_sha_def repository_name_def split: option.splits)
  have "main_commit api repository sha"
    using sel(1,2) unfolding main_commit_def on_main_def
    by (cases "get comparison ''status''") (auto simp: bindR_eq_Inr json_mapping_Inr split: if_splits)
  moreover have "newest_push_run api repository sha n run"
    using sel(3,4) latest_run_Inr [OF sel(5)] validate_ci_Inr [OF sel(8)] by (auto simp: newest_push_run_def)
  moreover have "one_gate_passed api repository n run"
    using sel(6) job_pages_Inr [OF sel(7)] validate_ci_Inr [OF sel(8)] by (auto simp: one_gate_passed_def)
  moreover have "get source ''sha'' = JStr sha" "get source ''repository'' = JStr (''https://github.com/'' @ repository)"
      "get source ''ciRunId'' = JInt n"
    using sel(9) by (auto simp: source_record_def Let_def get_def get_or_def split: if_splits)
  ultimately show ?thesis using env names by blast
qed

definition demo_sha :: string where
  "demo_sha = replicate 40 (CHR ''a'')"

definition demo_env :: "string \<Rightarrow> string option" where
  "demo_env k = map_of [(''REQUESTED_SHA'', demo_sha), (''GITHUB_REPOSITORY'', ''Me/api'')] k"

definition demo_api :: "string \<Rightarrow> object result" where
  "demo_api path =
     (if path = compare_path ''Me/api'' demo_sha
      then Inr [(''status'', JStr ''ahead''), (''merge_base_commit'', JObj [(''sha'', JStr demo_sha)])]
      else if path = runs_path ''Me/api'' demo_sha
      then Inr [(''workflow_runs'', JArr [JObj [(''id'', JInt 3)], JObj [(''id'', JInt 7), (''run_attempt'', JInt 1),
        (''head_sha'', JStr demo_sha), (''head_branch'', JStr ''main''), (''event'', JStr ''push''),
        (''status'', JStr ''completed''), (''conclusion'', JStr ''success''), (''name'', JStr ''Quality''),
        (''head_repository'', JObj [(''full_name'', JStr ''Me/api'')])]])]
      else if path = jobs_path ''Me/api'' 7 1 1
      then Inr [(''jobs'', JArr [JObj [(''name'', JStr ''Deployment gate''), (''status'', JStr ''completed''),
        (''conclusion'', JStr ''success'')]])]
      else Inl OSError)"

theorem selected_source_tested_witness:
  "\<exists>repository n run. main_commit demo_api repository demo_sha \<and> newest_push_run demo_api repository demo_sha n run"
proof -
  have "(case select_source demo_env demo_api of Some (Inr s) \<Rightarrow> True | _ \<Rightarrow> False)" by code_simp
  then obtain s where "select_source demo_env demo_api = Some (Inr s)" by (auto split: option.splits sum.splits)
  from selected_source_tested [OF this] show ?thesis by (auto simp: demo_env_def)
qed

text \<open>The choice is made as soon as some page of jobs is not full, and only then.\<close>

lemma job_pages_total:
  "job_pages api url page jobs \<noteq> None \<longleftrightarrow> (\<exists>n \<ge> page. \<not> full_page (page_of api url n))"
  using job_pages_ends job_pages_returns by (metis le_iff_add not_None_eq)

end
