(* ===== verification/ReleaseOci.thy ===== *)
theory ReleaseOci
  imports ReleaseSource
begin

text \<open>
  Reading and validating the OCI archive of a release candidate (\<^verbatim>\<open>scripts/release_oci.py\<close>).

  The members of an archive are what \<^verbatim>\<open>tarfile\<close> lists; parsing of JSON, hashing, base64 and URL
  splitting are the standard library's, collected in \<open>release_libraries\<close>. \<open>loads\<close> is the plain
  parser, the strict hooks are applied by \<open>read_tree\<close>. The archive is closed in every case.
\<close>

subsection \<open>Archives\<close>

datatype member_kind = Directory | Regular | OtherMember

record tar_member =
  tm_name :: string
  tm_kind :: member_kind
  tm_size :: int
  tm_data :: "bytes option"

record release_libraries =
  untar :: "bytes \<Rightarrow> tar_member list result"
  loads :: "bytes \<Rightarrow> json result"
  hexdigest :: "bytes \<Rightarrow> string"
  b64decode :: "string \<Rightarrow> bytes result"
  urlsplit :: "string \<Rightarrow> (string \<times> string \<times> string) result"
  urlunsplit :: "string \<times> string \<times> string \<Rightarrow> string"
  repr_float :: "rat \<Rightarrow> string"

type_synonym candidate = "(string \<times> tar_member) list"

definition removeprefix :: "string \<Rightarrow> string \<Rightarrow> string" where
  "removeprefix p s = (if startswith s p then drop (length p) s else s)"

definition decode :: "release_libraries \<Rightarrow> bytes \<Rightarrow> object result" where
  "decode lib body = bindR (bindR (loads lib body) read_tree) json_mapping"

definition source_uri :: "release_libraries \<Rightarrow> string \<Rightarrow> string result" where
  "source_uri lib uri =
     bindR (urlsplit lib (removeprefix ''git+'' uri)) (\<lambda>(scheme, netloc, path).
       Inr (urlunsplit lib (scheme, netloc, removesuffix ''.git'' path)))"

definition blob_name :: "string \<Rightarrow> string" where
  "blob_name hex = ''blobs/sha256/'' @ hex"

definition archive_entry :: "string \<Rightarrow> bool" where
  "archive_entry name \<longleftrightarrow> name \<in> {''index.json'', ''oci-layout''} \<or>
     startswith name (blob_name []) \<and> length name = 77 \<and> list_all hex_lower (drop 13 name)"

fun add_members :: "tar_member list \<Rightarrow> candidate \<Rightarrow> candidate result" where
  "add_members [] c = Inr c"
| "add_members (m # ms) c =
     (let name = removeprefix ''./'' (tm_name m) in
      if tm_kind m = Directory \<and> py_rstrip (CHR ''/'') name \<in> {''blobs'', ''blobs/sha256''} then add_members ms c
      else if tm_kind m \<noteq> Regular \<or> \<not> archive_entry name \<or> map_of c name \<noteq> None
      then Inl (ValueError ''Unsafe, duplicate or unsupported OCI archive entry.'')
      else add_members ms (c @ [(name, m)]))"

definition new_candidate :: "release_libraries \<Rightarrow> bytes \<Rightarrow> candidate result" where
  "new_candidate lib archive = bindR (untar lib archive) (\<lambda>ms. add_members ms [])"

definition read_member :: "release_libraries \<Rightarrow> candidate \<Rightarrow> string \<Rightarrow> object result" where
  "read_member lib c name =
     (case map_of c name of
        None \<Rightarrow> Inl (KeyError name)
      | Some m \<Rightarrow>
          if tm_size m > 16 * 1024 * 1024 then Inl (ValueError ''Oversized OCI metadata.'')
          else
            (case tm_data m of
               None \<Rightarrow> Inl (ValueError ''Missing OCI metadata.'')
             | Some body \<Rightarrow> decode lib body))"

text \<open>Contents named by their digest, in the archive or inline. Without \<open>metadata\<close> they are not parsed.\<close>

definition inline_blob :: "release_libraries \<Rightarrow> object \<Rightarrow> string \<Rightarrow> bool \<Rightarrow> object result" where
  "inline_blob lib d digest metadata =
     (case get d ''data'' of
        JStr encoded \<Rightarrow>
          if \<not> (0 < py_len encoded \<and> py_len encoded \<le> 24 * 1024 * 1024)
          then Inl (ValueError ''Oversized inline OCI metadata.'')
          else
            bindR (b64decode lib encoded) (\<lambda>body.
              if \<not> equals_int (get d ''size'') (int (length body)) \<or> ''sha256:'' @ hexdigest lib body \<noteq> digest
              then Inl (ValueError ''Inline OCI descriptor size/digest differs.'')
              else if metadata then decode lib body else Inr [])
      | _ \<Rightarrow> Inl (ValueError ''Oversized inline OCI metadata.''))"

definition blob :: "release_libraries \<Rightarrow> candidate \<Rightarrow> bool \<Rightarrow> json \<Rightarrow> object result" where
  "blob lib c metadata descriptor =
     bindR (json_mapping descriptor) (\<lambda>d.
     bindR (json_text (get d ''digest'')) (\<lambda>digest.
       if \<not> is_digest digest then Inl (ValueError ''Invalid OCI descriptor digest.'')
       else
         (let name = blob_name (drop 7 digest) in
          case map_of c name of
            None \<Rightarrow> inline_blob lib d digest metadata
          | Some m \<Rightarrow>
              if \<not> equals_int (get d ''size'') (tm_size m) then Inl (ValueError ''OCI descriptor size differs.'')
              else
                (case tm_data m of
                   None \<Rightarrow> Inl (ValueError ''Missing OCI blob.'')
                 | Some body \<Rightarrow>
                     if ''sha256:'' @ hexdigest lib body \<noteq> digest then Inl (ValueError ''OCI blob digest differs.'')
                     else if metadata then read_member lib c name else Inr []))))"

text \<open>What \<^verbatim>\<open>extract\<close> writes below its directory.\<close>

definition extracted :: "candidate \<Rightarrow> (string \<times> bytes) list result" where
  "extracted c =
     mapR (\<lambda>(name, m). case tm_data m of
        None \<Rightarrow> Inl (ValueError ''Missing OCI archive file.'')
      | Some body \<Rightarrow> Inr (name, body)) c"

subsection \<open>The index and the runtime\<close>

text \<open>Without an expected digest there has to be one index; otherwise the approved one is selected.\<close>

definition pick_descriptor :: "json list \<Rightarrow> string option \<Rightarrow> object result" where
  "pick_descriptor roots expected =
     (case expected of
        Some digest \<Rightarrow>
          if \<not> is_digest digest then Inl (ValueError ''Invalid expected OCI candidate digest.'')
          else
            bindR (mapR json_mapping roots) (\<lambda>rs.
              case filter (\<lambda>r. get r ''digest'' = JStr digest) rs of
                [] \<Rightarrow> Inl (ValueError ''Approved candidate digest is missing from OCI layout.'')
              | d # ds \<Rightarrow>
                  if list_ex (\<lambda>e. \<not> json_eq (get e ''size'') (get d ''size'') \<or>
                       \<not> json_eq (get e ''mediaType'') (get d ''mediaType'')) (d # ds)
                  then Inl (ValueError ''Conflicting OCI descriptors for the approved digest.'')
                  else Inr d)
      | None \<Rightarrow>
          (case roots of
             [r] \<Rightarrow> json_mapping r
           | _ \<Rightarrow> Inl (ValueError ''Expected exactly one OCI candidate index.'')))"

definition runtime_platform :: json where
  "runtime_platform = JObj [(''architecture'', JStr ''amd64''), (''os'', JStr ''linux'')]"

definition pick_runtime :: "object list \<Rightarrow> object result" where
  "pick_runtime entries =
     (case filter (\<lambda>e. json_eq (get e ''platform'') runtime_platform) entries of
        [r] \<Rightarrow> Inr r
      | _ \<Rightarrow> Inl (ValueError ''Expected one linux/amd64 runtime.''))"

definition check_config :: "object \<Rightarrow> object \<Rightarrow> string \<Rightarrow> unit result" where
  "check_config source config version =
     bindR (bindR (json_mapping (get config ''config'')) (\<lambda>cc. json_mapping (get cc ''Labels''))) (\<lambda>labels.
     bindR
       (if get config ''os'' \<noteq> JStr ''linux'' \<or> get config ''architecture'' \<noteq> JStr ''amd64'' then Inr False
        else
          bindR (entry_of source ''sha'') (\<lambda>sha.
            if \<not> json_eq (get labels ''org.opencontainers.image.revision'') sha then Inr False
            else
              bindR (entry_of source ''repository'') (\<lambda>repository.
                Inr (json_eq (get labels ''org.opencontainers.image.source'') repository \<and>
                  get labels ''org.opencontainers.image.version'' = JStr version))))
       (\<lambda>ok.
         if ok then Inr ()
         else Inl (ValueError ''Runtime platform/source/version differs from the selected candidate.'')))"

subsection \<open>Attestations\<close>

datatype attestation_key = Sbom | Provenance

fun subjects_bound :: "string \<Rightarrow> json list \<Rightarrow> bool result" where
  "subjects_bound hex [] = Inr True"
| "subjects_bound hex (s # ss) =
     bindR (bindR (json_mapping s) (\<lambda>s. json_mapping (get s ''digest''))) (\<lambda>d.
       if get d ''sha256'' \<noteq> JStr hex then Inr False else subjects_bound hex ss)"

definition predicate_key :: "json \<Rightarrow> attestation_key option result" where
  "predicate_key t =
     (if t = JStr ''https://spdx.dev/Document'' then Inr (Some Sbom)
      else
        bindR (member_of t [''https://slsa.dev/provenance/v0.2'', ''https://slsa.dev/provenance/v1'']) (\<lambda>b.
          Inr (if b then Some Provenance else None)))"

definition supported_statement :: "object \<Rightarrow> object \<Rightarrow> bool result" where
  "supported_statement layer statement =
     (if get layer ''mediaType'' \<noteq> JStr ''application/vnd.in-toto+json'' then Inr False
      else
        bindR (member_of (get statement ''_type'')
            [''https://in-toto.io/Statement/v0.1'', ''https://in-toto.io/Statement/v1'']) (\<lambda>b.
          if \<not> b then Inr False
          else
            bindR (json_mapping (get layer ''annotations'')) (\<lambda>ann.
              Inr (json_eq (get ann ''in-toto.io/predicate-type'') (get statement ''predicateType'')))))"

type_synonym attestations = "(attestation_key \<times> object) list"

definition attestation_layer ::
  "release_libraries \<Rightarrow> candidate \<Rightarrow> string \<Rightarrow> json \<Rightarrow> attestations \<Rightarrow> attestations result" where
  "attestation_layer lib c runtime_digest raw acc =
     bindR (json_mapping raw) (\<lambda>layer.
     bindR (blob lib c True raw) (\<lambda>statement.
     bindR (supported_statement layer statement) (\<lambda>ok.
       if \<not> ok then Inl (ValueError ''Unsupported attestation statement.'')
       else
         bindR (bindR (json_sequence (get statement ''subject'')) (subjects_bound (drop 7 runtime_digest))) (\<lambda>bound.
           if \<not> bound then Inl (ValueError ''Attestation subject differs from runtime.'')
           else
             bindR (predicate_key (get statement ''predicateType'')) (\<lambda>key.
               case key of
                 None \<Rightarrow> Inl (ValueError ''Unsupported or duplicate attestation predicate.'')
               | Some k \<Rightarrow>
                   if map_of acc k \<noteq> None then Inl (ValueError ''Unsupported or duplicate attestation predicate.'')
                   else bindR (json_mapping (get statement ''predicate'')) (\<lambda>p. Inr (acc @ [(k, p)])))))))"

fun attestation_layers ::
  "release_libraries \<Rightarrow> candidate \<Rightarrow> string \<Rightarrow> json list \<Rightarrow> attestations \<Rightarrow> attestations result" where
  "attestation_layers lib c runtime_digest [] acc = Inr acc"
| "attestation_layers lib c runtime_digest (l # ls) acc =
     bindR (attestation_layer lib c runtime_digest l acc) (\<lambda>acc. attestation_layers lib c runtime_digest ls acc)"

text \<open>A manifest beside the runtime has to be an attestation bound to it.\<close>

definition bound_attestation :: "string \<Rightarrow> object \<Rightarrow> object \<Rightarrow> bool result" where
  "bound_attestation runtime_digest entry attestation =
     bindR (json_mapping (get_or entry ''annotations'' (JObj []))) (\<lambda>ann.
     bindR (json_mapping (get_or attestation ''subject'' (JObj []))) (\<lambda>subject.
       (let bindings = filter (\<lambda>v. v \<noteq> JNull) [get ann ''vnd.docker.reference.digest'', get subject ''digest''] in
        Inr (bindings \<noteq> [] \<and> list_all (\<lambda>v. v = JStr runtime_digest) bindings \<and>
          (get ann ''vnd.docker.reference.type'' = JStr ''attestation-manifest'' \<or>
           get attestation ''artifactType'' = JStr ''application/vnd.docker.attestation.manifest.v1+json'')))))"

fun attestation_entries ::
  "release_libraries \<Rightarrow> candidate \<Rightarrow> object \<Rightarrow> object list \<Rightarrow> attestations \<Rightarrow> attestations result" where
  "attestation_entries lib c runtime [] acc = Inr acc"
| "attestation_entries lib c runtime (entry # es) acc =
     (let rd = plain_text (get runtime ''digest'') in
      if json_eq (JObj entry) (JObj runtime) then attestation_entries lib c runtime es acc
      else
        bindR (blob lib c True (JObj entry)) (\<lambda>attestation.
        bindR (bound_attestation rd entry attestation) (\<lambda>ok.
          if \<not> ok then Inl (ValueError ''Unrecognized or wrongly bound attestation manifest.'')
          else
            bindR (blob lib c True (get attestation ''config'')) (\<lambda>_.
            bindR (json_sequence (get attestation ''layers'')) (\<lambda>layers.
            bindR (attestation_layers lib c rd layers acc) (\<lambda>acc. attestation_entries lib c runtime es acc))))))"

text \<open>The packages of the SBOM.\<close>

fun sbom_packages :: "json list \<Rightarrow> pairs result" where
  "sbom_packages [] = Inr []"
| "sbom_packages (raw # rest) =
     bindR (json_mapping raw) (\<lambda>package.
       if \<not> truthy (get package ''versionInfo'') then sbom_packages rest
       else
         bindR (json_text (get package ''name'')) (\<lambda>name.
         bindR (json_text (get package ''versionInfo'')) (\<lambda>version.
         bindR (sbom_packages rest) (\<lambda>ps. Inr ((normalize name, version) # ps)))))"

definition check_sbom :: "object \<Rightarrow> pairs \<Rightarrow> unit result" where
  "check_sbom sbom packages =
     bindR (bindR (json_sequence (get sbom ''packages'')) sbom_packages) (\<lambda>inv.
     bindR (json_text (get sbom ''spdxVersion'')) (\<lambda>spdx.
       if \<not> startswith spdx ''SPDX-2.'' \<or> \<not> set packages \<subseteq> set inv
       then Inl (ValueError ''Missing runtime package inventory in SPDX SBOM.'') else Inr ()))"

text \<open>Whether some material of the build is the selected source.\<close>

fun material_bound :: "release_libraries \<Rightarrow> object \<Rightarrow> json list \<Rightarrow> bool result" where
  "material_bound lib source [] = Inr False"
| "material_bound lib source (raw # rest) =
     bindR (json_mapping raw) (\<lambda>material.
     bindR (bindR (json_text (get material ''uri'')) (source_uri lib)) (\<lambda>uri.
     bindR (entry_of source ''repository'') (\<lambda>repository.
       if \<not> json_eq (JStr uri) repository then material_bound lib source rest
       else
         bindR (entry_of source ''sha'') (\<lambda>sha.
         bindR (json_mapping (get material ''digest'')) (\<lambda>digests.
           if list_ex (\<lambda>kv. json_eq sha (snd kv)) digests then Inr True else material_bound lib source rest)))))"

definition vcs_of :: "object \<Rightarrow> object result" where
  "vcs_of provenance =
     bindR (json_mapping (get_or provenance ''metadata'' (JObj []))) (\<lambda>metadata.
     bindR (json_mapping (get_or metadata ''https://mobyproject.org/buildkit@v1#metadata'' (JObj []))) (\<lambda>buildkit.
     bindR (json_mapping (get_or provenance ''runDetails'' (JObj []))) (\<lambda>run_details.
     bindR (json_mapping (get_or run_details ''metadata'' (JObj []))) (\<lambda>run_metadata.
     bindR (json_mapping (get_or run_metadata ''buildkit_metadata'' (JObj []))) (\<lambda>run_buildkit.
       Inr [(''vcs'', get_or run_buildkit ''vcs'' (get_or buildkit ''vcs'' (JObj [])))])))))"

definition vcs_bound :: "release_libraries \<Rightarrow> object \<Rightarrow> json \<Rightarrow> bool result" where
  "vcs_bound lib source vcs =
     bindR (json_mapping vcs) (\<lambda>v.
     bindR (entry_of source ''sha'') (\<lambda>sha.
       if \<not> json_eq (get v ''revision'') sha then Inr False
       else
         bindR (source_uri lib (str_json (repr_float lib) (get_or v ''source'' (JStr [])))) (\<lambda>uri.
         bindR (entry_of source ''repository'') (\<lambda>repository. Inr (json_eq (JStr uri) repository)))))"

definition check_provenance :: "release_libraries \<Rightarrow> object \<Rightarrow> object \<Rightarrow> unit result" where
  "check_provenance lib source provenance =
     bindR (json_mapping (get_or provenance ''buildDefinition'' (JObj []))) (\<lambda>build.
     bindR (vcs_of provenance) (\<lambda>vcs.
     bindR (bindR (json_sequence (get_or provenance ''materials'' (get_or build ''resolvedDependencies'' (JArr []))))
        (material_bound lib source)) (\<lambda>by_material.
     bindR (vcs_bound lib source (get vcs ''vcs'')) (\<lambda>by_vcs.
       if \<not> by_material \<and> \<not> by_vcs then Inl (ValueError ''Provenance does not identify the selected source.'')
       else Inr ()))))"

subsection \<open>The candidate\<close>

record oci_info =
  oi_digest :: string
  oi_runtime :: string
  oi_image :: string
  oi_sbom :: object
  oi_provenance :: object

definition inspect_index ::
  "release_libraries \<Rightarrow> candidate \<Rightarrow> object \<Rightarrow> string \<Rightarrow> pairs \<Rightarrow> object \<Rightarrow> object \<Rightarrow> oci_info result" where
  "inspect_index lib c source version packages descriptor index =
     bindR (bindR (json_sequence (get index ''manifests'')) (mapR json_mapping)) (\<lambda>entries.
     bindR (pick_runtime entries) (\<lambda>runtime.
     bindR (blob lib c True (JObj runtime)) (\<lambda>manifest.
     bindR (blob lib c True (get manifest ''config'')) (\<lambda>config.
     bindR (check_config source config version) (\<lambda>_.
     bindR (bindR (json_sequence (get manifest ''layers'')) (mapR (blob lib c False))) (\<lambda>_.
     bindR (attestation_entries lib c runtime entries []) (\<lambda>ats.
       (case (map_of ats Sbom, map_of ats Provenance) of
          (Some sbom, Some provenance) \<Rightarrow>
            bindR (check_sbom sbom packages) (\<lambda>_.
            bindR (check_provenance lib source provenance) (\<lambda>_.
            bindR (json_mapping (get manifest ''config'')) (\<lambda>image.
              Inr \<lparr>oi_digest = plain_text (get descriptor ''digest''), oi_runtime = plain_text (get runtime ''digest''),
                oi_image = plain_text (get image ''digest''), oi_sbom = sbom, oi_provenance = provenance\<rparr>)))
        | _ \<Rightarrow> Inl (ValueError ''Candidate requires SPDX SBOM and provenance.'')))))))))"

definition inspect ::
  "release_libraries \<Rightarrow> bytes \<Rightarrow> object \<Rightarrow> string \<Rightarrow> pairs \<Rightarrow> string option \<Rightarrow> oci_info result" where
  "inspect lib archive source version packages expected =
     bindR (new_candidate lib archive) (\<lambda>c.
     bindR (read_member lib c ''oci-layout'') (\<lambda>layout.
       if get layout ''imageLayoutVersion'' \<noteq> JStr ''1.0.0'' then Inl (ValueError ''Unsupported OCI layout.'')
       else
         bindR (read_member lib c ''index.json'') (\<lambda>root.
         bindR (json_sequence (get root ''manifests'')) (\<lambda>roots.
           if \<not> equals_int (get root ''schemaVersion'') 2 then Inl (ValueError ''Unsupported OCI index schema.'')
           else
             bindR (pick_descriptor roots expected) (\<lambda>descriptor.
             bindR (blob lib c True (JObj descriptor)) (\<lambda>index.
               inspect_index lib c source version packages descriptor index))))))"

subsection \<open>Lemmas\<close>

text \<open>A blob is the content that its digest names.\<close>

definition named_by :: "release_libraries \<Rightarrow> json \<Rightarrow> bytes \<Rightarrow> bool" where
  "named_by lib descriptor body \<longleftrightarrow>
     (\<exists>d. descriptor = JObj d \<and> get d ''digest'' = JStr (''sha256:'' @ hexdigest lib body) \<and>
        is_digest (''sha256:'' @ hexdigest lib body))"

lemma blob_named:
  assumes "blob lib c metadata d = Inr doc"
  shows "\<exists>body. named_by lib d body \<and> (metadata \<longrightarrow> decode lib body = Inr doc)"
proof -
  obtain x digest where x: "d = JObj x" "get x ''digest'' = JStr digest" "is_digest digest"
    and r: "(case map_of c (blob_name (drop 7 digest)) of
        None \<Rightarrow> inline_blob lib x digest metadata
      | Some m \<Rightarrow>
          if \<not> equals_int (get x ''size'') (tm_size m) then Inl (ValueError ''OCI descriptor size differs.'')
          else (case tm_data m of
             None \<Rightarrow> Inl (ValueError ''Missing OCI blob.'')
           | Some body \<Rightarrow>
               if ''sha256:'' @ hexdigest lib body \<noteq> digest then Inl (ValueError ''OCI blob digest differs.'')
               else if metadata then read_member lib c (blob_name (drop 7 digest)) else Inr [])) = Inr doc"
    using assms by (auto simp: blob_def bindR_eq_Inr json_mapping_Inr Let_def dest!: json_text_Inr split: if_splits)
  have named: "named_by lib d body" if "''sha256:'' @ hexdigest lib body = digest" for body
    using x that by (simp add: named_by_def)
  show ?thesis
  proof (cases "map_of c (blob_name (drop 7 digest))")
    case None
    then obtain body where "''sha256:'' @ hexdigest lib body = digest" "metadata \<longrightarrow> decode lib body = Inr doc"
      using r by (auto simp: inline_blob_def bindR_eq_Inr split: json.splits if_splits)
    then show ?thesis using named by blast
  next
    case (Some m)
    then obtain body where "''sha256:'' @ hexdigest lib body = digest" "tm_data m = Some body"
        "metadata \<longrightarrow> read_member lib c (blob_name (drop 7 digest)) = Inr doc"
      using r by (auto split: if_splits option.splits)
    then show ?thesis using named Some by (auto simp: read_member_def split: if_splits)
  qed
qed

lemma named_same:
  assumes "inj (hexdigest lib)" "named_by lib (JObj d1) b1" "named_by lib (JObj d2) b2" "get d1 ''digest'' = get d2 ''digest''"
  shows "b1 = b2"
  using assms by (auto simp: named_by_def inj_eq)

lemma blob_same:
  assumes "inj (hexdigest lib)" "blob lib c1 True (JObj d1) = Inr o1" "blob lib c2 True (JObj d2) = Inr o2"
    "get d1 ''digest'' = get d2 ''digest''"
  shows "o1 = o2"
  using blob_named [OF assms(2)] blob_named [OF assms(3)] named_same [OF assms(1) _ _ assms(4)] by fastforce

lemma blob_same_descriptor:
  assumes "inj (hexdigest lib)" "blob lib c1 True d = Inr o1" "blob lib c2 True d = Inr o2"
  shows "o1 = o2"
proof -
  obtain x where "d = JObj x" using assms(2) by (auto simp: blob_def bindR_eq_Inr json_mapping_Inr)
  then show ?thesis using blob_same [OF assms(1)] assms(2,3) by blast
qed

lemma attestation_layer_same:
  assumes "inj (hexdigest lib)" "attestation_layer lib c1 rd raw acc = Inr r1" "attestation_layer lib c2 rd raw acc = Inr r2"
  shows "r1 = r2"
proof -
  obtain s1 where s1: "blob lib c1 True raw = Inr s1" using assms(2) by (auto simp: attestation_layer_def bindR_eq_Inr)
  obtain s2 where s2: "blob lib c2 True raw = Inr s2" using assms(3) by (auto simp: attestation_layer_def bindR_eq_Inr)
  have "s1 = s2" using blob_same_descriptor [OF assms(1) s1 s2] .
  then have "attestation_layer lib c1 rd raw acc = attestation_layer lib c2 rd raw acc"
    by (simp only: attestation_layer_def s1 s2)
  then show ?thesis using assms(2,3) by simp
qed

lemma attestation_layers_same:
  assumes "inj (hexdigest lib)" "attestation_layers lib c1 rd ls acc = Inr r1" "attestation_layers lib c2 rd ls acc = Inr r2"
  shows "r1 = r2"
  using assms(2,3)
proof (induction ls arbitrary: acc)
  case (Cons l ls)
  obtain a1 a2 where a: "attestation_layer lib c1 rd l acc = Inr a1" "attestation_layers lib c1 rd ls a1 = Inr r1"
      "attestation_layer lib c2 rd l acc = Inr a2" "attestation_layers lib c2 rd ls a2 = Inr r2"
    using Cons.prems by (auto simp: bindR_eq_Inr)
  then show ?case using attestation_layer_same [OF assms(1) a(1,3)] Cons.IH by simp
qed simp

lemma attestation_entries_same:
  assumes "inj (hexdigest lib)" "attestation_entries lib c1 runtime es acc = Inr r1"
    "attestation_entries lib c2 runtime es acc = Inr r2"
  shows "r1 = r2"
  using assms(2,3)
proof (induction es arbitrary: acc)
  case (Cons e es)
  show ?case
  proof (cases "json_eq (JObj e) (JObj runtime)")
    case False
    let ?rd = "plain_text (get runtime ''digest'')"
    obtain m1 ls1 a1 where 1: "blob lib c1 True (JObj e) = Inr m1" "get m1 ''layers'' = JArr ls1"
        "attestation_layers lib c1 ?rd ls1 acc = Inr a1" "attestation_entries lib c1 runtime es a1 = Inr r1"
      using Cons.prems(1) False by (auto simp: bindR_eq_Inr Let_def json_sequence_Inr split: if_splits)
    obtain m2 ls2 a2 where 2: "blob lib c2 True (JObj e) = Inr m2" "get m2 ''layers'' = JArr ls2"
        "attestation_layers lib c2 ?rd ls2 acc = Inr a2" "attestation_entries lib c2 runtime es a2 = Inr r2"
      using Cons.prems(2) False by (auto simp: bindR_eq_Inr Let_def json_sequence_Inr split: if_splits)
    have "m1 = m2" using blob_same_descriptor [OF assms(1) 1(1) 2(1)] .
    then have ls: "ls1 = ls2" using 1(2) 2(2) by simp
    show ?thesis using Cons.IH [of a1] attestation_layers_same [OF assms(1) 1(3)] 1(4) 2(3,4) ls by simp
  qed (use Cons in \<open>simp add: Let_def\<close>)
qed simp

text \<open>What a successful inspection of an index has found.\<close>

lemma inspect_index_Inr:
  assumes "inspect_index lib c source version packages descriptor index = Inr info"
  obtains entries runtime manifest config layers ats image where
    "bindR (json_sequence (get index ''manifests'')) (mapR json_mapping) = Inr entries"
    "pick_runtime entries = Inr runtime" "blob lib c True (JObj runtime) = Inr manifest"
    "blob lib c True (get manifest ''config'') = Inr config" "check_config source config version = Inr ()"
    "get manifest ''layers'' = JArr layers" "\<And>l. l \<in> set layers \<Longrightarrow> \<exists>x. blob lib c False l = Inr x"
    "attestation_entries lib c runtime entries [] = Inr ats"
    "map_of ats Sbom = Some (oi_sbom info)" "map_of ats Provenance = Some (oi_provenance info)"
    "check_sbom (oi_sbom info) packages = Inr ()" "check_provenance lib source (oi_provenance info) = Inr ()"
    "get manifest ''config'' = JObj image" "oi_digest info = plain_text (get descriptor ''digest'')"
    "oi_runtime info = plain_text (get runtime ''digest'')" "oi_image info = plain_text (get image ''digest'')"
proof -
  obtain entries runtime manifest config ls ats where f: "bindR (json_sequence (get index ''manifests'')) (mapR json_mapping) = Inr entries"
    "pick_runtime entries = Inr runtime" "blob lib c True (JObj runtime) = Inr manifest"
    "blob lib c True (get manifest ''config'') = Inr config" "check_config source config version = Inr ()"
    "bindR (json_sequence (get manifest ''layers'')) (mapR (blob lib c False)) = Inr ls"
    "attestation_entries lib c runtime entries [] = Inr ats"
    and r: "(case (map_of ats Sbom, map_of ats Provenance) of
          (Some sbom, Some provenance) \<Rightarrow>
            bindR (check_sbom sbom packages) (\<lambda>_.
            bindR (check_provenance lib source provenance) (\<lambda>_.
            bindR (json_mapping (get manifest ''config'')) (\<lambda>image.
              Inr \<lparr>oi_digest = plain_text (get descriptor ''digest''), oi_runtime = plain_text (get runtime ''digest''),
                oi_image = plain_text (get image ''digest''), oi_sbom = sbom, oi_provenance = provenance\<rparr>)))
        | _ \<Rightarrow> Inl (ValueError ''Candidate requires SPDX SBOM and provenance.'')) = Inr info"
    using assms unfolding inspect_index_def bindR_eq_Inr [of "bindR (json_sequence (get index ''manifests'')) (mapR json_mapping)"]
      bindR_eq_Inr [of "pick_runtime _"] bindR_eq_Inr [of "blob _ _ _ _"] bindR_eq_Inr [of "check_config _ _ _"]
      bindR_eq_Inr [of "attestation_entries _ _ _ _ _"] bindR_eq_Inr [of "bindR (json_sequence _) (mapR (blob _ _ _))"]
    by auto
  obtain layers where l: "get manifest ''layers'' = JArr layers" "mapR (blob lib c False) layers = Inr ls"
    using f(6) by (auto simp: bindR_eq_Inr json_sequence_Inr)
  have "\<exists>x. blob lib c False l = Inr x" if "l \<in> set layers" for l using mapR_mem [OF l(2) that] by blast
  moreover obtain image where "map_of ats Sbom = Some (oi_sbom info)" "map_of ats Provenance = Some (oi_provenance info)"
    "check_sbom (oi_sbom info) packages = Inr ()" "check_provenance lib source (oi_provenance info) = Inr ()"
    "get manifest ''config'' = JObj image" "oi_digest info = plain_text (get descriptor ''digest'')"
    "oi_runtime info = plain_text (get runtime ''digest'')" "oi_image info = plain_text (get image ''digest'')"
    using r by (auto simp: bindR_eq_Inr json_mapping_Inr split: option.splits)
  ultimately show thesis using that f(1-5,7) l(1) by blast
qed

lemma inspect_index_same:
  assumes "inj (hexdigest lib)" "inspect_index lib c1 source1 version1 packages1 d1 index = Inr i1"
    "inspect_index lib c2 source2 version2 packages2 d2 index = Inr i2" "get d1 ''digest'' = get d2 ''digest''"
  shows "i1 = i2"
proof -
  obtain es1 rt1 m1 ats1 im1 where 1: "bindR (json_sequence (get index ''manifests'')) (mapR json_mapping) = Inr es1"
      "pick_runtime es1 = Inr rt1" "blob lib c1 True (JObj rt1) = Inr m1" "attestation_entries lib c1 rt1 es1 [] = Inr ats1"
      "map_of ats1 Sbom = Some (oi_sbom i1)" "map_of ats1 Provenance = Some (oi_provenance i1)"
      "get m1 ''config'' = JObj im1" "oi_digest i1 = plain_text (get d1 ''digest'')"
      "oi_runtime i1 = plain_text (get rt1 ''digest'')" "oi_image i1 = plain_text (get im1 ''digest'')"
    by (rule inspect_index_Inr [OF assms(2)]) blast
  obtain es2 rt2 m2 ats2 im2 where 2: "bindR (json_sequence (get index ''manifests'')) (mapR json_mapping) = Inr es2"
      "pick_runtime es2 = Inr rt2" "blob lib c2 True (JObj rt2) = Inr m2" "attestation_entries lib c2 rt2 es2 [] = Inr ats2"
      "map_of ats2 Sbom = Some (oi_sbom i2)" "map_of ats2 Provenance = Some (oi_provenance i2)"
      "get m2 ''config'' = JObj im2" "oi_digest i2 = plain_text (get d2 ''digest'')"
      "oi_runtime i2 = plain_text (get rt2 ''digest'')" "oi_image i2 = plain_text (get im2 ''digest'')"
    by (rule inspect_index_Inr [OF assms(3)]) blast
  have rt: "es1 = es2" "rt1 = rt2" using 1(1,2) 2(1,2) by simp_all
  have "m1 = m2" using blob_same_descriptor [OF assms(1) 1(3)] 2(3) rt by blast
  moreover have "ats1 = ats2" using attestation_entries_same [OF assms(1) 1(4)] 2(4) rt by blast
  ultimately show ?thesis using 1 2 rt assms(4) by (intro oci_info.equality) simp_all
qed

lemma inspect_Inr:
  assumes "inspect lib archive source version packages expected = Inr info"
  obtains c roots descriptor index where "new_candidate lib archive = Inr c" "pick_descriptor roots expected = Inr descriptor"
    "blob lib c True (JObj descriptor) = Inr index"
    "inspect_index lib c source version packages descriptor index = Inr info"
  using assms unfolding inspect_def bindR_eq_Inr by (auto split: if_splits simp: bindR_eq_Inr)

lemma inspect_digest:
  assumes "blob lib c True (JObj d) = Inr x"
  shows "get d ''digest'' = JStr (plain_text (get d ''digest''))"
  using blob_named [OF assms] by (auto simp: named_by_def plain_text_def)

subsection \<open>Properties\<close>

lemma inspect_same:
  assumes "inj (hexdigest lib)" "inspect lib a1 source1 version1 packages1 expected1 = Inr i1"
    "inspect lib a2 source2 version2 packages2 expected2 = Inr i2" "oi_digest i1 = oi_digest i2"
  shows "i1 = i2"
proof -
  obtain c1 d1 x1 where 1: "blob lib c1 True (JObj d1) = Inr x1"
      "inspect_index lib c1 source1 version1 packages1 d1 x1 = Inr i1"
    by (rule inspect_Inr [OF assms(2)]) blast
  obtain c2 d2 x2 where 2: "blob lib c2 True (JObj d2) = Inr x2"
      "inspect_index lib c2 source2 version2 packages2 d2 x2 = Inr i2"
    by (rule inspect_Inr [OF assms(3)]) blast
  have "oi_digest i1 = plain_text (get d1 ''digest'')" "oi_digest i2 = plain_text (get d2 ''digest'')"
    using inspect_index_Inr [OF 1(2)] inspect_index_Inr [OF 2(2)] by metis+
  then have d: "get d1 ''digest'' = get d2 ''digest''"
    using inspect_digest [OF 1(1)] inspect_digest [OF 2(1)] assms(4) by simp
  then have "x1 = x2" using blob_same [OF assms(1) 1(1) 2(1)] by simp
  then show ?thesis using inspect_index_same [OF assms(1) 1(2)] 2(2) d by simp
qed

text \<open>
  Property C15. The digest of a candidate determines everything that is read from it: with a
  collision-free hash, two archives that pass inspection and have the same index digest have
  the same runtime, image, SBOM and provenance, whatever else the archives contain and
  whatever they were inspected for.
\<close>

theorem inspection_determined_by_digest:
  assumes "inj (hexdigest lib)" "inspect lib a1 source1 version1 packages1 expected1 = Inr i1"
    "inspect lib a2 source2 version2 packages2 expected2 = Inr i2" "oi_digest i1 = oi_digest i2"
  shows "i1 = i2"
  using assms by (rule inspect_same)

text \<open>What an inspection has to have established about the image and its attestations.\<close>

definition holds_document :: "release_libraries \<Rightarrow> object \<Rightarrow> object \<Rightarrow> bool" where
  "holds_document lib descriptor doc \<longleftrightarrow> (\<exists>body. named_by lib (JObj descriptor) body \<and> decode lib body = Inr doc)"

definition labelled :: "object \<Rightarrow> object \<Rightarrow> string \<Rightarrow> bool" where
  "labelled config source version \<longleftrightarrow>
     get config ''os'' = JStr ''linux'' \<and> get config ''architecture'' = JStr ''amd64'' \<and>
     (\<exists>cc labels. get config ''config'' = JObj cc \<and> get cc ''Labels'' = JObj labels \<and>
        json_eq (get labels ''org.opencontainers.image.revision'') (get source ''sha'') \<and>
        json_eq (get labels ''org.opencontainers.image.source'') (get source ''repository'') \<and>
        get labels ''org.opencontainers.image.version'' = JStr version)"

definition lists_packages :: "object \<Rightarrow> pairs \<Rightarrow> bool" where
  "lists_packages sbom packages \<longleftrightarrow>
     (\<exists>raw inv. get sbom ''packages'' = JArr raw \<and> sbom_packages raw = Inr inv \<and> set packages \<subseteq> set inv)"

definition names_source :: "release_libraries \<Rightarrow> object \<Rightarrow> object \<Rightarrow> bool" where
  "names_source lib source provenance \<longleftrightarrow>
     (\<exists>build materials. get_or provenance ''buildDefinition'' (JObj []) = JObj build \<and>
        get_or provenance ''materials'' (get_or build ''resolvedDependencies'' (JArr [])) = JArr materials \<and>
        material_bound lib source materials = Inr True) \<or>
     (\<exists>vcs. vcs_of provenance = Inr vcs \<and> vcs_bound lib source (get vcs ''vcs'') = Inr True)"

lemma check_config_Inr: "check_config source config version = Inr u \<Longrightarrow> labelled config source version"
  by (auto simp: check_config_def labelled_def bindR_eq_Inr json_mapping_Inr dest!: entry_of_get split: if_splits)

lemma check_sbom_Inr: "check_sbom sbom packages = Inr u \<Longrightarrow> lists_packages sbom packages"
  by (auto simp: check_sbom_def lists_packages_def bindR_eq_Inr json_sequence_Inr split: if_splits)

lemma check_provenance_Inr: "check_provenance lib source provenance = Inr u \<Longrightarrow> names_source lib source provenance"
  by (auto simp: check_provenance_def names_source_def bindR_eq_Inr json_mapping_Inr json_sequence_Inr split: if_splits)

lemma holds_document_blob: "blob lib c True (JObj d) = Inr doc \<Longrightarrow> holds_document lib d doc"
  using blob_named [of lib c True "JObj d" doc] by (auto simp: holds_document_def)


text \<open>An archive whose contents are named by a small table of digests.\<close>

definition demo_bodies :: "string list" where
  "demo_bodies = [''layout'', ''root'', ''index'', ''manifest'', ''config'', ''bound'', ''bill'', ''built'', ''{}'']"

definition demo_hash :: "bytes \<Rightarrow> string" where
  "demo_hash b =
     (case find (\<lambda>i. demo_bodies ! i = b) [0..<9] of
        Some i \<Rightarrow> replicate 63 (CHR ''0'') @ [digit_char i]
      | None \<Rightarrow> CHR ''x'' # b)"

definition demo_descriptor :: "nat \<Rightarrow> object \<Rightarrow> object" where
  "demo_descriptor i rest =
     [(''digest'', JStr (''sha256:'' @ demo_hash (demo_bodies ! i))), (''size'', JInt (int (length (demo_bodies ! i))))] @ rest"

definition demo_statement :: "string \<Rightarrow> object \<Rightarrow> object" where
  "demo_statement t predicate = [(''_type'', JStr ''https://in-toto.io/Statement/v1''), (''predicateType'', JStr t),
     (''subject'', JArr [JObj [(''digest'', JObj [(''sha256'', JStr (demo_hash ''manifest''))])]]), (''predicate'', JObj predicate)]"

definition demo_layer :: "nat \<Rightarrow> string \<Rightarrow> json" where
  "demo_layer i t = JObj (demo_descriptor i [(''mediaType'', JStr ''application/vnd.in-toto+json''),
     (''annotations'', JObj [(''in-toto.io/predicate-type'', JStr t)])])"

definition demo_index :: object where
  "demo_index = [(''manifests'', JArr [JObj (demo_descriptor 3 [(''platform'', runtime_platform)]),
     JObj (demo_descriptor 5 [(''annotations'', JObj [(''vnd.docker.reference.type'', JStr ''attestation-manifest''),
       (''vnd.docker.reference.digest'', JStr (''sha256:'' @ demo_hash ''manifest''))])])])]"

definition demo_manifest :: object where
  "demo_manifest = [(''config'', JObj (demo_descriptor 4 [])), (''layers'', JArr [JObj (demo_descriptor 0 [])])]"

definition demo_config :: object where
  "demo_config = [(''os'', JStr ''linux''), (''architecture'', JStr ''amd64''), (''config'', JObj [(''Labels'', JObj [
     (''org.opencontainers.image.revision'', JStr ''c0ffee0123456789abcdef0123456789abcdef00''), (''org.opencontainers.image.source'', JStr ''https://h/me/api''),
     (''org.opencontainers.image.version'', JStr ''1.0.0'')])])]"

definition demo_bound :: object where
  "demo_bound = [(''config'', JObj (demo_descriptor 8 [(''data'', JStr ''e30='')])),
     (''layers'', JArr [demo_layer 6 ''https://spdx.dev/Document'', demo_layer 7 ''https://slsa.dev/provenance/v1''])]"

definition demo_sbom :: object where
  "demo_sbom = [(''spdxVersion'', JStr ''SPDX-2.3''),
     (''packages'', JArr [JObj [(''name'', JStr ''Lib_X''), (''versionInfo'', JStr ''1.0'')]])]"

definition demo_provenance :: object where
  "demo_provenance = [(''materials'', JArr [JObj [(''uri'', JStr ''https://h/me/api''), (''digest'', JObj [(''sha1'', JStr ''c0ffee0123456789abcdef0123456789abcdef00'')])]])]"

definition demo_object :: "string \<Rightarrow> object" where
  "demo_object b =
     (if b = ''layout'' then [(''imageLayoutVersion'', JStr ''1.0.0'')]
      else if b = ''root'' then [(''schemaVersion'', JInt 2), (''manifests'', JArr [JObj (demo_descriptor 2 [])])]
      else if b = ''index'' then demo_index else if b = ''manifest'' then demo_manifest
      else if b = ''config'' then demo_config else if b = ''bound'' then demo_bound
      else if b = ''bill'' then demo_statement ''https://spdx.dev/Document'' demo_sbom
      else if b = ''built'' then demo_statement ''https://slsa.dev/provenance/v1'' demo_provenance else [])"

definition demo_loads :: "(bytes \<Rightarrow> json result) \<Rightarrow> bytes \<Rightarrow> json result" where
  "demo_loads others b = (if b \<in> set demo_bodies then Inr (JObj (demo_object b)) else others b)"

definition demo_member :: "string \<Rightarrow> string \<Rightarrow> tar_member" where
  "demo_member name b = \<lparr>tm_name = name, tm_kind = Regular, tm_size = int (length b), tm_data = Some b\<rparr>"

definition demo_archive :: "tar_member list" where
  "demo_archive = demo_member ''oci-layout'' ''layout'' # demo_member ''index.json'' ''root'' #
     map (\<lambda>b. demo_member (blob_name (demo_hash b)) b)
       [''layout'', ''index'', ''manifest'', ''config'', ''bound'', ''bill'', ''built'']"

definition demo_tools :: "(bytes \<Rightarrow> json result) \<Rightarrow> release_libraries" where
  "demo_tools others = \<lparr>untar = (\<lambda>a. Inr (if a = ''b'' then rev demo_archive else demo_archive)), loads = demo_loads others, hexdigest = demo_hash,
     b64decode = (\<lambda>s. Inr ''{}''), urlsplit = (\<lambda>u. Inr (''https'', ''h'', drop 9 u)),
     urlunsplit = (\<lambda>(s, n, p). s @ ''://'' @ n @ p), repr_float = (\<lambda>q. [])\<rparr>"

definition demo_source :: object where
  "demo_source = [(''sha'', JStr ''c0ffee0123456789abcdef0123456789abcdef00''), (''repository'', JStr ''https://h/me/api''), (''image'', JStr ''ghcr.io/me/api'')]"

lemma demo_hash_inj: "inj demo_hash"
proof
  fix a b
  assume eq: "demo_hash a = demo_hash b"
  show "a = b"
  proof (cases "find (\<lambda>i. demo_bodies ! i = a) [0..<9]")
    case None
    then show ?thesis using eq
      by (cases "find (\<lambda>i. demo_bodies ! i = b) [0..<9]") (auto simp: demo_hash_def numeral_eq_Suc)
  next
    case (Some i)
    then have i: "demo_bodies ! i = a" "i < 9" by (auto simp: find_Some_iff)
    show ?thesis
    proof (cases "find (\<lambda>i. demo_bodies ! i = b) [0..<9]")
      case None
      then show ?thesis using eq Some by (auto simp: demo_hash_def numeral_eq_Suc)
    next
      case (Some j)
      then have j: "demo_bodies ! j = b" "j < 9" by (auto simp: find_Some_iff)
      have "digit_char i = digit_char j" using eq \<open>find _ _ = Some i\<close> Some by (simp add: demo_hash_def)
      moreover have "digit_val (digit_char i) = i" "digit_val (digit_char j) = j"
        using i(2) j(2) by (simp_all add: digit_val_char)
      ultimately have "i = j" by (metis (no_types))
      then show ?thesis using i(1) j(1) by simp
    qed
  qed
qed

lemma demo_hash_ok:
  assumes "b \<in> set demo_bodies"
  shows "is_digest (''sha256:'' @ demo_hash b)" "archive_entry (blob_name (demo_hash b))"
proof -
  have "length demo_bodies = 9" by (simp add: demo_bodies_def)
  then obtain i where "i < 9" "demo_bodies ! i = b" using assms by (metis in_set_conv_nth)
  then obtain j where j: "find (\<lambda>i. demo_bodies ! i = b) [0..<9] = Some j" "j < 9"
    by (cases "find (\<lambda>i. demo_bodies ! i = b) [0..<9]") (auto simp: find_None_iff find_Some_iff)
  have "hex_lower (CHR ''0'')" by code_simp
  moreover have "hex_lower (digit_char j)" using j(2) by (simp add: hex_lower_def py_isdigit_def code_digit_char)
  ultimately have "list_all hex_lower (demo_hash b)" "length (demo_hash b) = 64"
    using j by (auto simp: demo_hash_def list_all_iff)
  then show "is_digest (''sha256:'' @ demo_hash b)" "archive_entry (blob_name (demo_hash b))"
    by (simp_all add: is_digest_def archive_entry_def blob_name_def startswith_def)
qed

lemma demo_names:
  "blob_name (demo_hash x) = blob_name (demo_hash y) \<longleftrightarrow> x = y"
  "blob_name d \<noteq> ''oci-layout''" "''oci-layout'' \<noteq> blob_name d" "blob_name d \<noteq> ''index.json''" "''index.json'' \<noteq> blob_name d"
  "removeprefix ''./'' (blob_name d) = blob_name d"
  using demo_hash_inj by (simp_all add: blob_name_def inj_eq removeprefix_def startswith_def)

definition demo_candidate :: candidate where
  "demo_candidate = map (\<lambda>m. (tm_name m, m)) demo_archive"

lemma demo_new:
  "new_candidate (demo_tools others) ''a'' = Inr demo_candidate" "new_candidate (demo_tools others) ''b'' = Inr (rev demo_candidate)"
proof -
  have "list_all (\<lambda>b. archive_entry (blob_name (demo_hash b))) demo_bodies"
    using demo_hash_ok(2) by (simp add: list_all_iff)
  moreover have "archive_entry ''oci-layout''" "archive_entry ''index.json''" by (simp_all add: archive_entry_def)
  moreover have "removeprefix ''./'' ''oci-layout'' = ''oci-layout''" "removeprefix ''./'' ''index.json'' = ''index.json''"
    by (simp_all add: removeprefix_def startswith_def)
  ultimately show "new_candidate (demo_tools others) ''a'' = Inr demo_candidate" "new_candidate (demo_tools others) ''b'' = Inr (rev demo_candidate)"
    by (simp_all add: new_candidate_def demo_tools_def demo_candidate_def demo_archive_def demo_member_def demo_names demo_bodies_def Let_def)
qed

text \<open>The documents that are read from it, in either order of its members.\<close>

lemma demo_find:
  assumes "c \<in> {demo_candidate, rev demo_candidate}"
  shows "map_of c ''oci-layout'' = Some (demo_member ''oci-layout'' ''layout'')"
    "map_of c ''index.json'' = Some (demo_member ''index.json'' ''root'')"
    "b \<in> {''layout'', ''index'', ''manifest'', ''config'', ''bound'', ''bill'', ''built''} \<Longrightarrow>
      map_of c (blob_name (demo_hash b)) = Some (demo_member (blob_name (demo_hash b)) b)"
    "map_of c (blob_name (demo_hash ''{}'')) = None"
  using assms by (auto simp: demo_candidate_def demo_archive_def demo_member_def demo_names)

lemma demo_descriptor_get:
  "get (demo_descriptor i fs) ''digest'' = JStr (''sha256:'' @ demo_hash (demo_bodies ! i))"
  "get (demo_descriptor i fs) ''size'' = JInt (int (length (demo_bodies ! i)))"
  "k \<noteq> ''digest'' \<Longrightarrow> k \<noteq> ''size'' \<Longrightarrow> get (demo_descriptor i fs) k = get fs k"
  "k \<noteq> ''digest'' \<Longrightarrow> k \<noteq> ''size'' \<Longrightarrow> get_or (demo_descriptor i fs) k d = get_or fs k d"
  by (simp_all add: demo_descriptor_def get_def get_or_def)

lemma demo_descriptor_read:
  "read_fields (demo_descriptor i fs) = bindR (read_fields fs) (\<lambda>fs. Inr (demo_descriptor i fs))"
  "map fst (demo_descriptor i fs) = ''digest'' # ''size'' # map fst fs"
  by (cases "read_fields fs"; simp add: demo_descriptor_def) (simp add: demo_descriptor_def)

lemma demo_read:
  "read_tree (JObj (demo_object ''layout'')) = Inr (JObj (demo_object ''layout''))"
  "read_tree (JObj (demo_object ''root'')) = Inr (JObj (demo_object ''root''))"
  "read_tree (JObj (demo_object ''{}'')) = Inr (JObj (demo_object ''{}''))"
  "read_tree (JObj demo_index) = Inr (JObj demo_index)" "read_tree (JObj demo_manifest) = Inr (JObj demo_manifest)"
  "read_tree (JObj demo_config) = Inr (JObj demo_config)" "read_tree (JObj demo_bound) = Inr (JObj demo_bound)"
  by (simp_all add: demo_object_def demo_descriptor_read demo_layer_def runtime_platform_def unique_fields_def
      demo_index_def demo_manifest_def demo_config_def demo_bound_def)

lemma demo_read_statement:
  "read_tree (JObj (demo_statement t demo_sbom)) = Inr (JObj (demo_statement t demo_sbom))"
  "read_tree (JObj (demo_statement t demo_provenance)) = Inr (JObj (demo_statement t demo_provenance))"
  by (simp_all add: demo_statement_def demo_sbom_def demo_provenance_def unique_fields_def)

lemma demo_decode: "b \<in> set demo_bodies \<Longrightarrow> decode (demo_tools others) b = Inr (demo_object b)"
proof -
  assume b: "b \<in> set demo_bodies"
  have "list_all (\<lambda>b. read_tree (JObj (demo_object b)) = Inr (JObj (demo_object b))) demo_bodies"
    using demo_read demo_read_statement by (simp add: demo_bodies_def demo_object_def del: read_tree.simps)
  then show ?thesis using b by (simp add: list_all_iff decode_def demo_tools_def demo_loads_def del: read_tree.simps)
qed

lemma demo_size: "length (demo_bodies ! i) < 1000" if "i < 9"
proof -
  have "list_all (\<lambda>b. length b < 1000) demo_bodies" by (simp add: demo_bodies_def)
  then show ?thesis using that by (simp add: list_all_length demo_bodies_def)
qed

text \<open>Blobs in the archive, and the inline configuration of the attestation.\<close>

lemma demo_blob:
  assumes "i < 9" "map_of c (blob_name (demo_hash (demo_bodies ! i))) = Some (demo_member n (demo_bodies ! i))"
  shows "blob (demo_tools others) c m (JObj (demo_descriptor i rest)) = Inr (if m then demo_object (demo_bodies ! i) else [])"
proof -
  let ?b = "demo_bodies ! i"
  have "length demo_bodies = 9" by (simp add: demo_bodies_def)
  then have b: "?b \<in> set demo_bodies" using assms(1) by (metis nth_mem)
  have h: "hexdigest (demo_tools others) = demo_hash" by (simp add: demo_tools_def)
  show ?thesis
    using assms(2) demo_hash_ok(1) [OF b] digest_text [OF demo_hash_ok(1) [OF b]] demo_size [OF assms(1)] demo_decode [OF b]
    by (simp add: blob_def demo_descriptor_get read_member_def demo_member_def Let_def h del: json_text.simps)
qed

lemma demo_inline:
  assumes "map_of c (blob_name (demo_hash ''{}'')) = None"
  shows "blob (demo_tools others) c m (JObj (demo_descriptor 8 [(''data'', JStr ''e30='')])) = Inr []"
proof -
  have b: "''{}'' \<in> set demo_bodies" "demo_bodies ! 8 = ''{}''" by (simp_all add: demo_bodies_def)
  have h: "hexdigest (demo_tools others) = demo_hash" "b64decode (demo_tools others) s = Inr ''{}''" for s by (simp_all add: demo_tools_def)
  have d: "decode (demo_tools others) ''{}'' = Inr []" using demo_decode [OF b(1)] by (simp add: demo_object_def)
  have d2: "get [(''data'', JStr ''e30='')] ''data'' = JStr ''e30=''" by (simp add: get_def get_or_def)
  have "py_len ''e30='' = 4" by code_simp
  then show ?thesis
    using assms demo_hash_ok(1) [OF b(1)] digest_text [OF demo_hash_ok(1) [OF b(1)]] d
    by (simp add: blob_def inline_blob_def demo_descriptor_get Let_def h b(2) d2 del: json_text.simps)
qed

lemma demo_inspect_index:
  assumes "c \<in> {demo_candidate, rev demo_candidate}" "set packages \<subseteq> {(''lib-x'', ''1.0'')}"
  shows "inspect_index (demo_tools others) c demo_source ''1.0.0'' packages descriptor demo_index =
    Inr \<lparr>oi_digest = plain_text (get descriptor ''digest''), oi_runtime = ''sha256:'' @ demo_hash ''manifest'',
      oi_image = ''sha256:'' @ demo_hash ''config'', oi_sbom = demo_sbom, oi_provenance = demo_provenance\<rparr>"
proof -
  note find = demo_find [OF assms(1)]
  have n: "demo_bodies ! 0 = ''layout''" "demo_bodies ! 3 = ''manifest''" "demo_bodies ! 4 = ''config''" "demo_bodies ! 5 = ''bound''"
    "demo_bodies ! 6 = ''bill''" "demo_bodies ! 7 = ''built''" "demo_bodies ! 8 = ''{}''"
    by (simp_all add: demo_bodies_def)
  have o: "demo_object ''manifest'' = demo_manifest" "demo_object ''config'' = demo_config" "demo_object ''bound'' = demo_bound"
    "demo_object ''bill'' = demo_statement ''https://spdx.dev/Document'' demo_sbom"
    "demo_object ''built'' = demo_statement ''https://slsa.dev/provenance/v1'' demo_provenance"
    by (simp_all add: demo_object_def)
  have blobs: "blob (demo_tools others) c True (JObj (demo_descriptor 3 rest)) = Inr demo_manifest"
    "blob (demo_tools others) c True (JObj (demo_descriptor 4 rest)) = Inr demo_config"
    "blob (demo_tools others) c False (JObj (demo_descriptor 0 rest)) = Inr []"
    "blob (demo_tools others) c True (JObj (demo_descriptor 5 rest)) = Inr demo_bound"
    "blob (demo_tools others) c True (JObj (demo_descriptor 6 rest)) = Inr (demo_statement ''https://spdx.dev/Document'' demo_sbom)"
    "blob (demo_tools others) c True (JObj (demo_descriptor 7 rest)) = Inr (demo_statement ''https://slsa.dev/provenance/v1'' demo_provenance)"
    "blob (demo_tools others) c True (JObj (demo_descriptor 8 [(''data'', JStr ''e30='')])) = Inr []" for rest
    using demo_blob [of _ c] find demo_inline [OF find(4)] by (simp_all add: n o)
  let ?rt = "demo_descriptor 3 [(''platform'', runtime_platform)]"
  let ?at = "demo_descriptor 5 [(''annotations'', JObj [(''vnd.docker.reference.type'', JStr ''attestation-manifest''),
       (''vnd.docker.reference.digest'', JStr (''sha256:'' @ demo_hash ''manifest''))])]"
  have entries: "bindR (json_sequence (get demo_index ''manifests'')) (mapR json_mapping) = Inr [?rt, ?at]"
    by (simp add: demo_index_def get_def get_or_def)
  have "json_eq runtime_platform runtime_platform" "\<not> json_eq JNull runtime_platform" by code_simp+
  then have pick: "pick_runtime [?rt, ?at] = Inr ?rt"
    by (simp add: pick_runtime_def demo_descriptor_get) (simp add: get_def get_or_def)
  have rd: "plain_text (get ?rt ''digest'') = ''sha256:'' @ demo_hash ''manifest''"
    by (simp add: demo_descriptor_get n plain_text_def)
  have skip: "json_eq (JObj ?rt) (JObj ?rt)" "\<not> json_eq (JObj ?at) (JObj ?rt)"
    by (simp_all add: demo_descriptor_def n demo_names runtime_platform_def)
  have hex: "drop 7 (''sha256:'' @ demo_hash ''manifest'') = demo_hash ''manifest''" by simp
  have supported: "supported_statement (demo_descriptor i [(''mediaType'', JStr ''application/vnd.in-toto+json''),
     (''annotations'', JObj [(''in-toto.io/predicate-type'', JStr t)])]) (demo_statement t p) = Inr True" for i t p
  proof -
    have "get (demo_statement t p) ''_type'' = JStr ''https://in-toto.io/Statement/v1''"
      "get (demo_statement t p) ''predicateType'' = JStr t"
      by (simp_all add: demo_statement_def get_def get_or_def)
    then show ?thesis by (simp add: supported_statement_def demo_descriptor_get) (simp add: get_def get_or_def)
  qed
  have layer: "attestation_layer (demo_tools others) c (''sha256:'' @ demo_hash ''manifest'') (demo_layer i t) acc = Inr (acc @ [(k, p)])"
    if "blob (demo_tools others) c True (demo_layer i t) = Inr (demo_statement t p)" "predicate_key (JStr t) = Inr (Some k)" "map_of acc k = None"
    for i t p k acc
    using that supported [of i t p]
    by (simp add: attestation_layer_def demo_layer_def get_def get_or_def demo_statement_def)
  have keys: "predicate_key (JStr ''https://spdx.dev/Document'') = Inr (Some Sbom)"
    "predicate_key (JStr ''https://slsa.dev/provenance/v1'') = Inr (Some Provenance)" by code_simp+
  have layers: "attestation_layers (demo_tools others) c (''sha256:'' @ demo_hash ''manifest'')
      [demo_layer 6 ''https://spdx.dev/Document'', demo_layer 7 ''https://slsa.dev/provenance/v1''] [] =
    Inr [(Sbom, demo_sbom), (Provenance, demo_provenance)]"
    using layer [OF _ keys(1)] layer [OF _ keys(2)] blobs(5,6) by (simp add: demo_layer_def)
  have "bound_attestation (''sha256:'' @ demo_hash ''manifest'') ?at demo_bound = Inr True"
    by (simp add: bound_attestation_def demo_descriptor_get) (simp add: get_def get_or_def demo_bound_def)
  then have ats: "attestation_entries (demo_tools others) c ?rt [?rt, ?at] [] = Inr [(Sbom, demo_sbom), (Provenance, demo_provenance)]"
    using skip blobs(4,7) layers rd by (simp add: Let_def demo_bound_def get_def get_or_def del: json_eq.simps attestation_layers.simps)
  have config: "check_config demo_source demo_config ''1.0.0'' = Inr ()" by code_simp
  have manifest: "get demo_manifest ''config'' = JObj (demo_descriptor 4 [])" "get demo_manifest ''layers'' = JArr [JObj (demo_descriptor 0 [])]"
    by (simp_all add: demo_manifest_def get_def get_or_def)
  have "bindR (bindR (json_sequence (get demo_sbom ''packages'')) sbom_packages) Inr = Inr [(''lib-x'', ''1.0'')]"
    "json_text (get demo_sbom ''spdxVersion'') = Inr ''SPDX-2.3''" "startswith ''SPDX-2.3'' ''SPDX-2.''" by code_simp+
  then have sbom: "check_sbom demo_sbom packages = Inr ()"
    using assms(2) by (cases "bindR (json_sequence (get demo_sbom ''packages'')) sbom_packages") (auto simp: check_sbom_def)
  have prov: "check_provenance (demo_tools others) demo_source demo_provenance = Inr ()" by code_simp
  show ?thesis
    unfolding inspect_index_def entries bindR_simps pick blobs manifest config ats
    using sbom prov by (simp add: blobs rd demo_descriptor_get n plain_text_def)
qed

lemma demo_inspect:
  assumes "a \<in> {''a'', ''b''}" "set packages \<subseteq> {(''lib-x'', ''1.0'')}" "expected \<in> {None, Some (''sha256:'' @ demo_hash ''index'')}"
  shows "inspect (demo_tools others) a demo_source ''1.0.0'' packages expected =
    Inr \<lparr>oi_digest = ''sha256:'' @ demo_hash ''index'', oi_runtime = ''sha256:'' @ demo_hash ''manifest'',
      oi_image = ''sha256:'' @ demo_hash ''config'', oi_sbom = demo_sbom, oi_provenance = demo_provenance\<rparr>"
proof -
  obtain c where c: "new_candidate (demo_tools others) a = Inr c" "c \<in> {demo_candidate, rev demo_candidate}" using assms(1) demo_new by auto
  note find = demo_find [OF c(2)]
  have n: "demo_bodies ! 2 = ''index''" by (simp add: demo_bodies_def)
  have b: "''layout'' \<in> set demo_bodies" "''root'' \<in> set demo_bodies" "''index'' \<in> set demo_bodies" by (simp_all add: demo_bodies_def)
  have read: "read_member (demo_tools others) c ''oci-layout'' = Inr (demo_object ''layout'')"
      "read_member (demo_tools others) c ''index.json'' = Inr (demo_object ''root'')"
    using find(1,2) demo_decode [OF b(1)] demo_decode [OF b(2)] by (simp_all add: read_member_def demo_member_def)
  have "pick_descriptor [JObj (demo_descriptor 2 [])] expected = Inr (demo_descriptor 2 [])"
    using assms(3) demo_hash_ok(1) [OF b(3)] by (auto simp: pick_descriptor_def demo_descriptor_get n) (auto simp: get_def get_or_def)
  moreover have "blob (demo_tools others) c True (JObj (demo_descriptor 2 [])) = Inr demo_index"
    using demo_blob [of 2 c] find(3) [of "''index''"] by (simp add: n demo_object_def)
  moreover have "get (demo_object ''layout'') ''imageLayoutVersion'' = JStr ''1.0.0''"
    "get (demo_object ''root'') ''manifests'' = JArr [JObj (demo_descriptor 2 [])]" "get (demo_object ''root'') ''schemaVersion'' = JInt 2"
    by (simp_all add: demo_object_def get_def get_or_def)
  ultimately show ?thesis
    using demo_inspect_index [OF c(2) assms(2), of others "demo_descriptor 2 []"]
    by (simp add: inspect_def c(1) read demo_descriptor_get n plain_text_def)
qed

theorem inspection_determined_by_digest_witness:
  "inspect (demo_tools (\<lambda>b. Inl OSError)) ''a'' demo_source ''1.0.0'' [(''lib-x'', ''1.0'')] None =
   inspect (demo_tools (\<lambda>b. Inl OSError)) ''b'' demo_source ''1.0.0'' [] (Some (''sha256:'' @ demo_hash ''index''))"
proof -
  have "inj (hexdigest (demo_tools (\<lambda>b. Inl OSError)))" using demo_hash_inj by (simp add: demo_tools_def)
  from inspection_determined_by_digest [OF this demo_inspect demo_inspect]
  show ?thesis by (simp add: demo_inspect)
qed


end
