(* ===== verification/Host.thy ===== *)
theory Host
  imports Steps ReleaseOci
begin

text \<open>
  What the release scripts act on: the files they read and write and the tools they run
  (the helpers of \<^verbatim>\<open>scripts/security_scan.py\<close> and \<^verbatim>\<open>scripts/release_candidate.py\<close>).

  A file is named by the role its directory has for a script: the directory of evidence, the
  repository, a temporary directory, or the archive of the candidate; the environment names files
  elsewhere. Files with different names are different. Tools are programs such as \<^verbatim>\<open>docker\<close>: the parameter \<open>exec\<close> gives their exit code and
  output, and they may change files and the rest of the world. Writing a file succeeds.
\<close>

subsection \<open>Files and tools\<close>

datatype place = Evidence string | Repository string | Temporary string | ArchiveFile | Elsewhere string

record 'd host =
  files :: "place \<Rightarrow> bytes option"
  world :: 'd

text \<open>
  \<open>locate\<close> is the absolute path of a place, \<open>directory\<close> and \<open>archive_name\<close> split that of the
  archive, \<open>executable\<close> is the interpreter, \<open>user\<close> the identity of the process, \<open>instant\<close> the
  clock, which does not move while a script reads files, and \<open>unique\<close> a random name. \<open>http_status\<close> asks
  an address, with \<open>None\<close> for an address that cannot be reached, and \<open>sleep\<close> waits. \<open>dumps\<close>,
  \<open>isoformat\<close> and \<open>fromisoformat\<close> are the standard library's; the last gives \<open>None\<close> for a time without a zone.
\<close>

datatype file_kind = RegularFile | Link | OtherFile

record 'd tools =
  exec :: "string list \<Rightarrow> 'd host \<Rightarrow> (int \<times> string \<times> string) result \<times> 'd host"
  environment :: "string \<Rightarrow> string option"
  libs :: release_libraries
  locate :: "place \<Rightarrow> string"
  directory :: string
  archive_name :: string
  executable :: string
  user :: string
  home :: string
  instant :: "'d \<Rightarrow> time"
  unique :: "'d \<Rightarrow> string"
  http_status :: "string \<Rightarrow> 'd host \<Rightarrow> int option result \<times> 'd host"
  sleep :: "rat \<Rightarrow> 'd host \<Rightarrow> unit result \<times> 'd host"
  dumps :: "json \<Rightarrow> string"
  isoformat :: "time \<Rightarrow> string"
  fromisoformat :: "string \<Rightarrow> time option result"
  str_error :: "exn \<Rightarrow> string"
  tree :: "place \<Rightarrow> 'd host \<Rightarrow> (string \<times> file_kind \<times> bytes) list"
  tar :: "(string \<times> bytes) list \<Rightarrow> bytes"

definition read_bytes :: "place \<Rightarrow> 'd host \<Rightarrow> bytes result" where
  "read_bytes p s = (case files s p of Some b \<Rightarrow> Inr b | None \<Rightarrow> Inl OSError)"

definition read_text :: "place \<Rightarrow> 'd host \<Rightarrow> string result" where
  "read_text p s = bindR (read_bytes p s) (\<lambda>b. if utf8_valid b then Inr b else Inl UnicodeDecodeError)"

definition read_json :: "'d tools \<Rightarrow> place \<Rightarrow> 'd host \<Rightarrow> json result" where
  "read_json tk p s = bindR (read_text p s) (\<lambda>t. bindR (loads (libs tk) t) read_tree)"

definition sha256 :: "'d tools \<Rightarrow> place \<Rightarrow> 'd host \<Rightarrow> string result" where
  "sha256 tk p s = bindR (read_bytes p s) (\<lambda>b. Inr (hexdigest (libs tk) b))"

text \<open>A step that only reads.\<close>

definition readS :: "('s \<Rightarrow> 'a result) \<Rightarrow> ('s, 'a) step" where
  "readS f s = (f s, s)"

definition write_file :: "place \<Rightarrow> bytes \<Rightarrow> ('d host, unit) step" where
  "write_file p b = modifyS (\<lambda>s. s \<lparr>files := (files s)(p \<mapsto> b)\<rparr>)"

definition append_file :: "place \<Rightarrow> bytes \<Rightarrow> ('d host, unit) step" where
  "append_file p b =
     modifyS (\<lambda>s. s \<lparr>files := (files s)(p \<mapsto> (case files s p of Some old \<Rightarrow> old | None \<Rightarrow> []) @ b)\<rparr>)"

definition unlink :: "place \<Rightarrow> ('d host, unit) step" where
  "unlink p = modifyS (\<lambda>s. s \<lparr>files := (files s)(p := None)\<rparr>)"

fun temporary :: "place \<Rightarrow> bool" where
  "temporary (Temporary n) = True"
| "temporary p = False"

text \<open>The end of a block with a temporary directory.\<close>

definition remove_temporary :: "('d host, unit) step" where
  "remove_temporary = modifyS (\<lambda>s. s \<lparr>files := (\<lambda>p. if temporary p then None else files s p)\<rparr>)"

definition newline :: string where
  "newline = [CHR 0x0A]"

definition write_json :: "'d tools \<Rightarrow> place \<Rightarrow> json \<Rightarrow> ('d host, unit) step" where
  "write_json tk p v = write_file p (dumps tk v @ newline)"

text \<open>Running a tool logs its arguments and errors and, where \<open>log_output\<close> holds, the output of a failure.\<close>

definition run_logged :: "'d tools \<Rightarrow> bool \<Rightarrow> string \<Rightarrow> string list \<Rightarrow> ('d host, string) step" where
  "run_logged tk log_output what args =
     bindS (exec tk args) (\<lambda>(code, out, err).
     bindS (append_file (Evidence ''commands.log'')
       (py_repr_list args @ newline @ err @ newline @ (if log_output \<and> code \<noteq> 0 then out else []))) (\<lambda>_.
       if code \<noteq> 0 then raiseS (RuntimeError (what @ show_int code @ ''; see commands.log.''))
       else returnS out))"

subsection \<open>Lines\<close>

text \<open>\<^verbatim>\<open>splitlines\<close> on UTF-8 text: the length of a line boundary at the beginning of a text, and the lines.\<close>

fun line_boundary :: "string \<Rightarrow> nat" where
  "line_boundary (c # cs) =
     (if code c \<in> {10, 11, 12, 13, 28, 29, 30} then (if code c = 13 \<and> startswith cs newline then 2 else 1)
      else if code c = 194 \<and> cs \<noteq> [] \<and> code (hd cs) = 133 then 2
      else if code c = 226 \<and> length cs \<ge> 2 \<and> code (hd cs) = 128 \<and> code (cs ! 1) \<in> {168, 169} then 3
      else 0)"
| "line_boundary [] = 0"

function split_lines :: "string \<Rightarrow> string \<Rightarrow> string list" where
  "split_lines acc [] = (if acc = [] then [] else [rev acc])"
| "split_lines acc (c # cs) =
     (if line_boundary (c # cs) = 0 then split_lines (c # acc) cs
      else rev acc # split_lines [] (drop (line_boundary (c # cs)) (c # cs)))"
  by pat_completeness auto

termination by (relation "measure (\<lambda>(acc, s). length s)") auto

definition py_splitlines :: "string \<Rightarrow> string list" where
  "py_splitlines s = split_lines [] s"

definition read_requirements :: "string \<Rightarrow> 'd host \<Rightarrow> pairs result" where
  "read_requirements file s =
     bindR (read_text (Repository file) s) (\<lambda>t. requirements file (py_splitlines t))"

subsection \<open>Documents that are written\<close>

definition text_object :: "pairs \<Rightarrow> json" where
  "text_object ps = JObj (map (\<lambda>(k, v). (k, JStr v)) ps)"

definition finding_json :: "finding \<Rightarrow> json" where
  "finding_json f = JObj (zip SCOPE (fd_scope f) @
     [(''severity'', JStr (fd_severity f)), (''developmentOnly'', JBool (fd_development_only f)),
      (''exception'', JBool (fd_exception f)), (''fixedVersion'', fd_fixed_version f)])"

definition decision_json :: "decision \<Rightarrow> json" where
  "decision_json d = JObj [(''allowed'', JBool (allowed d)), (''blocked'', JArr (map finding_json (blocked d))),
     (''findings'', JArr (map finding_json (all_findings d))), (''evaluatedAt'', JStr (evaluated_at d))]"

definition holds_json :: "'d tools \<Rightarrow> place \<Rightarrow> json \<Rightarrow> 'd host \<Rightarrow> bool" where
  "holds_json tk p v s \<longleftrightarrow> files s p = Some (dumps tk v @ newline)"

definition absent :: "place \<Rightarrow> 'd host \<Rightarrow> bool" where
  "absent p s \<longleftrightarrow> files s p = None"

subsection \<open>Lemmas\<close>

lemma readS_simps [simp]: "readS f s = (f s, s)"
  by (simp add: readS_def)

lemma file_steps [simp]:
  "write_file p b s = (Inr (), s \<lparr>files := (files s)(p \<mapsto> b)\<rparr>)"
  "unlink p s = (Inr (), s \<lparr>files := (files s)(p := None)\<rparr>)"
  "write_json tk p v s = (Inr (), s \<lparr>files := (files s)(p \<mapsto> dumps tk v @ newline)\<rparr>)"
  by (simp_all add: write_file_def unlink_def write_json_def)

lemma keeps_readS [simp, intro]: "keeps P (readS f)"
  by (simp add: keeps_def)

lemma readS_Inr: "readS f s = (Inr x, s') \<longleftrightarrow> f s = Inr x \<and> s' = s"
  by auto

lemma sha256_Inr: "sha256 tk p s = Inr h \<longleftrightarrow> (\<exists>b. files s p = Some b \<and> h = hexdigest (libs tk) b)"
  by (auto simp: sha256_def read_bytes_def bindR_eq_Inr split: option.splits)

lemma finallyS_Inr: "finallyS m c s = (Inr x, s') \<longleftrightarrow> (\<exists>s1 u. m s = (Inr x, s1) \<and> c s1 = (Inr u, s'))"
  by (auto simp: finallyS_def split: prod.splits sum.splits)

subsection \<open>The course of a script\<close>

text \<open>
  The states a script can go through: tools act on files and on the world, the script itself only
  on files.
\<close>

inductive reaches :: "'d tools \<Rightarrow> 'd host \<Rightarrow> 'd host \<Rightarrow> bool" for tk where
  stay: "reaches tk s s"
| tool: "reaches tk s u \<Longrightarrow> reaches tk s (snd (exec tk args u))"
| edit: "reaches tk s u \<Longrightarrow> world v = world u \<Longrightarrow> reaches tk s v"

lemma reaches_trans: "reaches tk u v \<Longrightarrow> reaches tk s u \<Longrightarrow> reaches tk s v"
  by (induction rule: reaches.induct) (auto intro: reaches.intros)

definition evolves :: "'d tools \<Rightarrow> ('d host, 'a) step \<Rightarrow> bool" where
  "evolves tk m \<longleftrightarrow> (\<forall>s. reaches tk s (snd (m s)))"

lemma evolvesD: "evolves tk m \<Longrightarrow> m s = (r, s') \<Longrightarrow> reaches tk s s'"
  unfolding evolves_def by (metis snd_conv)

lemma evolves_basic [simp, intro]:
  "evolves tk (returnS x)" "evolves tk (raiseS e)" "evolves tk (liftS r)" "evolves tk (getS g)" "evolves tk (readS f)"
  "evolves tk (write_file p b)" "evolves tk (append_file p b)" "evolves tk (unlink p)" "evolves tk (write_json tk p v)"
  "evolves tk remove_temporary" "evolves tk (exec tk args)"
  by (auto simp: evolves_def append_file_def remove_temporary_def intro: stay tool [OF stay] edit [OF stay])

lemma evolves_bindS [intro]:
  assumes "evolves tk m" "\<And>x. evolves tk (f x)"
  shows "evolves tk (bindS m f)"
  unfolding evolves_def
proof
  fix s
  have "reaches tk s (snd (m s))" using assms(1) by (simp add: evolves_def)
  moreover have "reaches tk u (snd (f x u))" for x u using assms(2) by (simp add: evolves_def)
  ultimately show "reaches tk s (snd (bindS m f s))"
    by (cases "m s") (auto simp: bindS_def intro: reaches_trans split: sum.splits)
qed

lemma evolves_finallyS [intro]:
  assumes "evolves tk m" "evolves tk c"
  shows "evolves tk (finallyS m c)"
  unfolding evolves_def
proof
  fix s
  have "reaches tk s (snd (m s))" "reaches tk (snd (m s)) (snd (c (snd (m s))))" using assms by (simp_all add: evolves_def)
  then have "reaches tk s (snd (c (snd (m s))))" by (rule reaches_trans [rotated])
  then show "reaches tk s (snd (finallyS m c s))"
    by (cases "m s"; cases "c (snd (m s))") (auto simp: finallyS_def split: sum.splits)
qed

lemma evolves_run_logged [intro]: "evolves tk (run_logged tk log_output what args)"
  unfolding run_logged_def by (intro evolves_bindS) (auto intro!: evolves_bindS)

lemma run_logged_Inr:
  assumes "run_logged tk log_output what args s = (Inr out, s')"
  shows "\<exists>v err. exec tk args s = (Inr (0, out, err), v) \<and> reaches tk v s'"
  using assms unfolding run_logged_def
  by (auto simp: bindS_Inr split: if_splits dest!: evolvesD [OF evolves_basic(7)])

end
