(* ===== verification/SecurityScan.thy ===== *)
theory SecurityScan
  imports Host
begin

text \<open>
  The vulnerability scan of dependencies and images (\<^verbatim>\<open>scripts/security_scan.py\<close>). The directory of
  evidence is \<^verbatim>\<open>test-artifacts/security/MODE\<close>. Warnings on the standard output are not modelled.
\<close>

subsection \<open>The archive of the image\<close>

text \<open>The last member of a name; \<open>tm_data\<close> is what \<^verbatim>\<open>extractfile\<close> gives.\<close>

definition getmember :: "tar_member list \<Rightarrow> string \<Rightarrow> tar_member result" where
  "getmember ms name = (case find (\<lambda>m. tm_name m = name) (rev ms) of Some m \<Rightarrow> Inr m | None \<Rightarrow> Inl (KeyError name))"

definition bounded_data :: "tar_member \<Rightarrow> int \<Rightarrow> string \<Rightarrow> bytes result" where
  "bounded_data m limit message =
     (case tm_data m of
        Some b \<Rightarrow> if tm_size m > limit then Inl (ValueError message) else Inr b
      | None \<Rightarrow> Inl (ValueError message))"

definition archive_identity :: "release_libraries \<Rightarrow> bytes \<Rightarrow> string \<Rightarrow> unit result" where
  "archive_identity lib archive image_id =
     bindR (untar lib archive) (\<lambda>ms.
     bindR (getmember ms ''manifest.json'') (\<lambda>mm.
     bindR (bounded_data mm (1024 * 1024) ''Missing or oversized Docker archive manifest.'') (\<lambda>mb.
     bindR (bindR (loads lib mb) json_sequence) (\<lambda>manifest.
       case manifest of
         [entry] \<Rightarrow>
           bindR (bindR (json_mapping entry) (\<lambda>i. json_text (get i ''Config''))) (\<lambda>name.
           bindR (getmember ms name) (\<lambda>cm.
           bindR (bounded_data cm (16 * 1024 * 1024) ''Missing or oversized image configuration.'') (\<lambda>cb.
             if ''sha256:'' @ hexdigest lib cb \<noteq> image_id
             then Inl (ValueError ''Archive does not contain the qualified image configuration.'')
             else Inr ())))
       | _ \<Rightarrow> Inl (ValueError ''Expected one image in runtime archive.'')))))"

subsection \<open>Scans\<close>

definition run :: "'d tools \<Rightarrow> string list \<Rightarrow> ('d host, string) step" where
  "run tk = run_logged tk False ''Security tool failed with exit ''"

definition cache_volume :: "'d tools \<Rightarrow> string" where
  "cache_volume tk = locate tk (Repository ''.cache/trivy'') @ '':/root/.cache/trivy''"

definition base_arguments :: "'d tools \<Rightarrow> string list" where
  "base_arguments tk = [''docker'', ''run'', ''--rm'', ''--volume'', cache_volume tk]"

definition scan_options :: "string list" where
  "scan_options = [''--scanners'', ''vuln'', ''--format'', ''json'', ''--list-all-pkgs'', ''--exit-code'', ''0'',
     ''--ignorefile'', ''/dev/null'']"

definition requirement_text :: "pairs \<Rightarrow> string" where
  "requirement_text ps =
     concat (map (\<lambda>(package, version). package @ ''=='' @ version @ newline) (isort_by (\<lambda>a b. fst a \<le> fst b) ps))"

text \<open>Evaluating the report that has just been written, against a policy.\<close>

definition judge ::
  "'d tools \<Rightarrow> string \<Rightarrow> json \<Rightarrow> pairs \<Rightarrow> pairs \<Rightarrow> string \<Rightarrow> 'd host \<Rightarrow> decision result" where
  "judge tk report policy expected production image_id s =
     bindR (read_json tk (Evidence report) s) (\<lambda>r.
       evaluate (isoformat tk) r policy expected production image_id (instant tk (world s)))"

definition scan_requirements ::
  "'d tools \<Rightarrow> string \<Rightarrow> json \<Rightarrow> pairs \<Rightarrow> pairs \<Rightarrow> string \<Rightarrow> ('d host, decision) step" where
  "scan_requirements tk scanner_id policy production expected name =
     bindS (write_file (Temporary (name @ ''/requirements.txt'')) (requirement_text expected)) (\<lambda>_.
     bindS (run tk (base_arguments tk @ [''--volume'', locate tk (Temporary name) @ '':/input:ro'', scanner_id, ''filesystem''] @
       scan_options @ [''/input''])) (\<lambda>report.
     bindS (write_file (Evidence (name @ ''.json'')) report) (\<lambda>_.
       readS (judge tk (name @ ''.json'') policy expected production []))))"

definition scan_dependencies ::
  "'d tools \<Rightarrow> string \<Rightarrow> pairs \<Rightarrow> pairs \<Rightarrow> ('d host, decision list) step" where
  "scan_dependencies tk scanner_id production development =
     bindS (readS (read_json tk (Repository ''security/dependency-audit-exceptions.json''))) (\<lambda>policy.
     bindS (scan_requirements tk scanner_id policy production production ''runtime'') (\<lambda>d1.
     bindS (scan_requirements tk scanner_id policy production (production @ development) ''full'') (\<lambda>d2.
       returnS [d1, d2])))"

definition scan_image ::
  "'d tools \<Rightarrow> string \<Rightarrow> object \<Rightarrow> pairs \<Rightarrow> string option \<Rightarrow> ('d host, object \<times> decision list) step" where
  "scan_image tk scanner_id identity production wanted =
     (case wanted of
        None \<Rightarrow> raiseS (ValueError ''Image scan requires the immutable qualified image ID.'')
      | Some image_id \<Rightarrow>
          if \<not> is_digest image_id then raiseS (ValueError ''Image scan requires the immutable qualified image ID.'')
          else
            (let archive = Temporary ''runtime.tar'' in
             bindS (run tk [''docker'', ''image'', ''save'', ''--output'', locate tk archive, image_id]) (\<lambda>_.
             bindS (readS (\<lambda>s. bindR (read_bytes archive s) (\<lambda>b. archive_identity (libs tk) b image_id))) (\<lambda>_.
             bindS (readS (sha256 tk archive)) (\<lambda>archive_hash.
               (let identity = identity @ [(''imageId'', JStr image_id), (''archiveSha256'', JStr archive_hash)] in
                bindS (write_json tk (Evidence ''identity.json'') (JObj identity)) (\<lambda>_.
                bindS (run tk (base_arguments tk @ [''--volume'', locate tk (Temporary []) @ '':/input:ro'', scanner_id, ''image''] @
                  scan_options @ [''--input'', ''/input/runtime.tar''])) (\<lambda>report.
                bindS (write_file (Evidence ''image.json'') report) (\<lambda>_.
                bindS (readS (sha256 tk archive)) (\<lambda>later_hash.
                  if later_hash \<noteq> archive_hash then raiseS (ValueError ''Runtime archive changed during scanning.'')
                  else
                    bindS (readS (read_json tk (Repository ''security/container-vulnerability-exceptions.json''))) (\<lambda>policy.
                    bindS (readS (judge tk ''image.json'' policy production production image_id)) (\<lambda>d.
                      returnS (identity, [d])))))))))))))"

definition summary_line :: "finding \<Rightarrow> string" where
  "summary_line f =
     (let field = (\<lambda>i. plain_text (fd_scope f ! i)); flag = (\<lambda>b. if b then ''True'' else ''False'') in
      ''- '' @ fd_severity f @ '': '' @ field 0 @ '' '' @ field 1 @ ''@'' @ field 2 @ ''; development-only='' @
        flag (fd_development_only f) @ ''; exception='' @ flag (fd_exception f))"

definition summary_text :: "bool \<Rightarrow> finding list \<Rightarrow> string" where
  "summary_text ok fs =
     py_join newline ([''# Security gate: '' @ (if ok then ''PASS'' else ''BLOCKED''), [],
       ''Critical production/image findings block; development-only findings are nonblocking.'', []] @ map summary_line fs) @
     newline"

definition result_json :: "decision list \<Rightarrow> json" where
  "result_json ds = JObj [(''allowed'', JBool (list_all allowed ds)), (''scans'', JArr (map decision_json ds))]"

definition failure_json :: "'d tools \<Rightarrow> exn \<Rightarrow> json" where
  "failure_json tk e = JObj [(''allowed'', JBool False), (''error'', JStr (str_error tk e))]"

definition evidence_names :: "string list" where
  "evidence_names = [''result.json'', ''summary.md'', ''runtime.json'', ''full.json'', ''image.json'', ''identity.json'']"

text \<open>The scans of a mode, in a temporary directory that is then removed.\<close>

definition scans ::
  "'d tools \<Rightarrow> string \<Rightarrow> string \<Rightarrow> object \<Rightarrow> pairs \<Rightarrow> pairs \<Rightarrow> string option \<Rightarrow> ('d host, object \<times> decision list) step" where
  "scans tk mode scanner_id identity production development wanted =
     finallyS
       (if mode = ''dependencies''
        then bindS (scan_dependencies tk scanner_id production development) (\<lambda>ds.
          returnS (identity @ [(''requirements'', JObj [(''runtime'', text_object production),
            (''development'', text_object development)])], ds))
        else scan_image tk scanner_id identity production wanted)
       remove_temporary"

definition conclude :: "'d tools \<Rightarrow> string \<Rightarrow> object \<Rightarrow> decision list \<Rightarrow> ('d host, bool) step" where
  "conclude tk scanner_id identity ds =
     bindS (run tk (base_arguments tk @ [scanner_id, ''--version''])) (\<lambda>version.
     bindS (write_json tk (Evidence ''identity.json'') (JObj (identity @ [(''scannerVersion'', JStr version)]))) (\<lambda>_.
     bindS (write_json tk (Evidence ''result.json'') (result_json ds)) (\<lambda>_.
     bindS (write_file (Evidence ''summary.md'') (summary_text (list_all allowed ds) (concat (map all_findings ds)))) (\<lambda>_.
       returnS (list_all allowed ds)))))"

definition scan_body :: "'d tools \<Rightarrow> string \<Rightarrow> string option \<Rightarrow> ('d host, bool) step" where
  "scan_body tk mode wanted =
     bindS (readS (read_requirements ''requirements.txt'')) (\<lambda>production.
     bindS (readS (read_requirements ''requirements-dev.txt'')) (\<lambda>development.
       if set (map fst production) \<inter> set (map fst development) \<noteq> {}
       then raiseS (ValueError ''Runtime and development requirement declarations overlap.'')
       else
         (let scanner = (case environment tk ''TRIVY_SCANNER_IMAGE'' of Some r \<Rightarrow> r | None \<Rightarrow> ''aquasec/trivy:latest'') in
          bindS (run tk [''docker'', ''pull'', scanner]) (\<lambda>_.
          bindS (run tk [''docker'', ''image'', ''inspect'', ''--format'', ''{{.Id}}'', scanner]) (\<lambda>out.
            (let scanner_id = py_strip out;
                 identity = [(''scannerReference'', JStr scanner), (''scannerId'', JStr scanner_id)] in
             if \<not> is_digest scanner_id then raiseS (ValueError ''Invalid scanner identity.'')
             else
               bindS (write_json tk (Evidence ''identity.json'') (JObj identity)) (\<lambda>_.
               bindS (scans tk mode scanner_id identity production development wanted) (\<lambda>(identity, ds).
                 conclude tk scanner_id identity ds))))))))"

definition scan :: "'d tools \<Rightarrow> string \<Rightarrow> string option \<Rightarrow> ('d host, bool) step" where
  "scan tk mode wanted =
     bindS (mapS (\<lambda>name. unlink (Evidence name)) evidence_names) (\<lambda>_.
       tryS (scan_body tk mode wanted) (\<lambda>e.
         bindS (write_json tk (Evidence ''result.json'') (failure_json tk e)) (\<lambda>_.
         bindS (write_file (Evidence ''summary.md'') (''# Security gate: BLOCKED'' @ newline @ newline @
           ''Tool or evidence validation failed; see result.json and commands.log.'' @ newline)) (\<lambda>_.
           raiseS e))))"

text \<open>The exit code of the script.\<close>

definition scan_main :: "'d tools \<Rightarrow> string \<Rightarrow> string option \<Rightarrow> ('d host, int) step" where
  "scan_main tk mode wanted =
     tryS (bindS (scan tk mode wanted) (\<lambda>ok. returnS (if ok then 0 else 1))) (\<lambda>e. returnS 1)"

subsection \<open>What the result says\<close>

text \<open>A decision comes from a report that was evaluated.\<close>

definition judged :: "'d tools \<Rightarrow> string set \<Rightarrow> decision \<Rightarrow> bool" where
  "judged tk ids d \<longleftrightarrow> (\<exists>report policy expected production image_id now.
     image_id \<in> ids \<and> evaluate (isoformat tk) report policy expected production image_id now = Inr d)"

lemma judge_judged: "judge tk report policy expected production image_id s = Inr d \<Longrightarrow> judged tk {image_id} d"
  unfolding judge_def judged_def bindR_eq_Inr by blast

lemma scan_requirements_judged:
  "scan_requirements tk i policy production expected name s = (Inr d, s') \<Longrightarrow> judged tk {[]} d"
  unfolding scan_requirements_def bindS_Inr readS_Inr by (blast dest: judge_judged)

lemma scan_dependencies_judged:
  "scan_dependencies tk i production development s = (Inr ds, s') \<Longrightarrow> ds \<noteq> [] \<and> list_all (judged tk {[]}) ds"
  unfolding scan_dependencies_def bindS_Inr readS_Inr by (auto dest: scan_requirements_judged)

text \<open>The archive that was scanned holds the configuration of the image, and \<open>identity\<close> names both.\<close>

definition names_image :: "'d tools \<Rightarrow> string \<Rightarrow> object \<Rightarrow> bool" where
  "names_image tk image_id identity \<longleftrightarrow> is_digest image_id \<and> (\<exists>archive.
     archive_identity (libs tk) archive image_id = Inr () \<and>
     (\<exists>rest. identity = rest @ [(''imageId'', JStr image_id), (''archiveSha256'', JStr (hexdigest (libs tk) archive))]))"

lemma scan_image_judged:
  assumes "scan_image tk i identity production wanted s = (Inr (identity', ds), s')"
  shows "\<exists>image_id. wanted = Some image_id \<and> names_image tk image_id identity' \<and> ds \<noteq> [] \<and> list_all (judged tk {image_id}) ds"
proof (cases wanted)
  case None
  then show ?thesis using assms by (simp add: scan_image_def)
next
  case (Some image_id)
  then have "is_digest image_id" using assms by (auto simp: scan_image_def split: if_splits)
  with Some assms show ?thesis
    unfolding scan_image_def names_image_def
    by (auto simp: bindS_Inr Let_def sha256_Inr bindR_eq_Inr read_bytes_def split: if_splits option.splits dest!: judge_judged)
qed

text \<open>What an evaluation of the reports leaves: the result, and for an image the identity of what was scanned.\<close>

definition concluded :: "'d tools \<Rightarrow> string \<Rightarrow> string option \<Rightarrow> decision list \<Rightarrow> 'd host \<Rightarrow> bool" where
  "concluded tk mode wanted ds s \<longleftrightarrow> ds \<noteq> [] \<and> holds_json tk (Evidence ''result.json'') (result_json ds) s \<and>
     (if mode = ''dependencies'' then list_all (judged tk {[]}) ds
      else \<exists>image_id identity version. wanted = Some image_id \<and> list_all (judged tk {image_id}) ds \<and>
        names_image tk image_id identity \<and>
        holds_json tk (Evidence ''identity.json'') (JObj (identity @ [(''scannerVersion'', JStr version)])) s)"

lemma scans_concluded:
  assumes "scans tk mode i identity p q wanted s = (Inr (identity', ds), s')"
    and "holds_json tk (Evidence ''identity.json'') (JObj (identity' @ [(''scannerVersion'', JStr version)])) t"
    and "holds_json tk (Evidence ''result.json'') (result_json ds) t"
  shows "concluded tk mode wanted ds t"
proof (cases "mode = ''dependencies''")
  case True
  then show ?thesis using assms(1,3) by (auto simp: scans_def finallyS_Inr bindS_Inr concluded_def dest: scan_dependencies_judged)
next
  case False
  then obtain u where "scan_image tk i identity p wanted s = (Inr (identity', ds), u)" using assms(1) by (auto simp: scans_def finallyS_Inr)
  from scan_image_judged [OF this] show ?thesis using False assms(2,3) unfolding concluded_def by auto
qed

lemma conclude_Inr:
  assumes "conclude tk i identity ds s = (Inr ok, s')"
  shows "ok = list_all allowed ds" "holds_json tk (Evidence ''result.json'') (result_json ds) s'"
    "\<exists>version. holds_json tk (Evidence ''identity.json'') (JObj (identity @ [(''scannerVersion'', JStr version)])) s'"
  using assms by (auto simp: conclude_def bindS_Inr holds_json_def)

lemma scan_body_concluded:
  assumes "scan_body tk mode wanted s = (Inr ok, s')"
  shows "\<exists>ds. ok = list_all allowed ds \<and> concluded tk mode wanted ds s'"
proof -
  from assms obtain i p q identity identity' ds s1 s2 where
      a: "scans tk mode i identity p q wanted s1 = (Inr (identity', ds), s2)" and b: "conclude tk i identity' ds s2 = (Inr ok, s')"
    by (auto simp: scan_body_def bindS_Inr Let_def simp del: file_steps split: if_splits)
  show ?thesis using conclude_Inr [OF b] scans_concluded [OF a] by blast
qed

lemma mapS_unlink: "\<exists>s'. mapS (\<lambda>n. unlink (p n)) ns s = (Inr (map (\<lambda>_. ()) ns), s')"
proof (induction ns arbitrary: s)
  case (Cons n ns)
  from Cons.IH [of "snd (unlink (p n) s)"] show ?case by (auto simp: bindS_def)
qed simp

lemma scan_cases:
  obtains (concluded) ds s' where "scan tk mode wanted s = (Inr (list_all allowed ds), s')" "concluded tk mode wanted ds s'"
  | (failed) e s' where "scan tk mode wanted s = (Inl e, s')" "is_exception e"
      "holds_json tk (Evidence ''result.json'') (failure_json tk e) s'"
  | (escaped) e s' where "scan tk mode wanted s = (Inl e, s')" "\<not> is_exception e"
proof -
  obtain u s0 where s0: "mapS (\<lambda>n. unlink (Evidence n)) evidence_names s = (Inr u, s0)" using mapS_unlink by blast
  obtain r s1 where b: "scan_body tk mode wanted s0 = (r, s1)" by (cases "scan_body tk mode wanted s0")
  show thesis
  proof (cases r)
    case (Inr ok)
    then show thesis using scan_body_concluded b s0 concluded by (fastforce simp: scan_def tryS_def)
  next
    case (Inl e)
    then show thesis
    proof (cases "is_exception e")
      case True
      show thesis
        by (rule failed [OF _ True]) (use True Inl b s0 in \<open>auto simp: scan_def tryS_def holds_json_def\<close>)
    next
      case False
      show thesis by (rule escaped [OF _ False]) (use False Inl b s0 in \<open>auto simp: scan_def tryS_def\<close>)
    qed
  qed
qed


subsection \<open>Instances for witnesses\<close>

definition demo_scan_report :: json where
  "demo_scan_report = JObj [(''SchemaVersion'', JInt 2), (''ArtifactType'', JStr ''filesystem''), (''Results'', JArr [JObj
     [(''Target'', JStr ''requirements.txt''), (''Type'', JStr ''pip''), (''Class'', JStr ''lang-pkgs''),
      (''Packages'', JArr [JObj [(''Name'', JStr ''lib_x''), (''Version'', JStr ''1.0'')],
        JObj [(''Name'', JStr ''tool''), (''Version'', JStr ''2.0'')]])]])]"

definition demo_scan_policy :: json where
  "demo_scan_policy = JObj [(''version'', JInt 1), (''exceptions'', JArr [])]"

text \<open>Every tool prints the same report, except the one that prints the identity of the scanner.\<close>

definition demo_scanner :: "unit tools" where
  "demo_scanner = \<lparr>
     exec = (\<lambda>args s. (Inr (0, if args ! 1 = ''image'' then ''sha256:'' @ replicate 64 CHR ''a'' else ''report'', []), s)),
     environment = (\<lambda>n. None), libs = demo_tools (\<lambda>t. Inr (if t = ''report'' then demo_scan_report else demo_scan_policy)),
     locate = (\<lambda>p. ''/d''), directory = ''/d'', archive_name = ''a'', executable = ''python'', user = ''0:0'', home = ''/h'',
     instant = (\<lambda>w. demo_now), unique = (\<lambda>w. []), http_status = (\<lambda>u s. (Inr None, s)), sleep = (\<lambda>t s. (Inr (), s)), dumps = (\<lambda>v. []), isoformat = (\<lambda>t. []), fromisoformat = (\<lambda>s. Inr None),
     str_error = (\<lambda>e. []), tree = (\<lambda>p s. []), tar = (\<lambda>es. ''a'')\<rparr>"

definition demo_checkout :: "unit host" where
  "demo_checkout = \<lparr>files = [Repository ''requirements.txt'' \<mapsto> ''lib-x==1.0'', Repository ''requirements-dev.txt'' \<mapsto> ''tool==2.0'',
     Repository ''security/dependency-audit-exceptions.json'' \<mapsto> ''policy''], world = ()\<rparr>"

lemma demo_scan_parts:
  "requirements ''requirements.txt'' (py_splitlines ''lib-x==1.0'') = Inr [(''lib-x'', ''1.0'')]"
  "requirements ''requirements-dev.txt'' (py_splitlines ''tool==2.0'') = Inr [(''tool'', ''2.0'')]"
  "utf8_valid ''lib-x==1.0''" "utf8_valid ''tool==2.0''" "utf8_valid ''report''" "utf8_valid ''policy''"
  "read_tree demo_scan_report = Inr demo_scan_report" "read_tree demo_scan_policy = Inr demo_scan_policy"
  "py_strip (''sha256:'' @ replicate 64 CHR ''a'') = ''sha256:'' @ replicate 64 CHR ''a''"
  "is_digest (''sha256:'' @ replicate 64 CHR ''a'')"
  by code_simp+

lemma demo_scan_decisions:
  "evaluate (\<lambda>t. []) demo_scan_report demo_scan_policy [(''lib-x'', ''1.0'')] [(''lib-x'', ''1.0'')] [] demo_now =
    Inr \<lparr>allowed = True, blocked = [], all_findings = [], evaluated_at = []\<rparr>"
  "evaluate (\<lambda>t. []) demo_scan_report demo_scan_policy [(''lib-x'', ''1.0''), (''tool'', ''2.0'')] [(''lib-x'', ''1.0'')] [] demo_now =
    Inr \<lparr>allowed = True, blocked = [], all_findings = [], evaluated_at = []\<rparr>"
  by code_simp+

lemma demo_run:
  "run demo_scanner args s =
    (Inr (if args ! 1 = ''image'' then ''sha256:'' @ replicate 64 CHR ''a'' else ''report''),
     snd (append_file (Evidence ''commands.log'') (py_repr_list args @ newline @ newline) s))"
  by (simp add: run_def run_logged_def bindS_def demo_scanner_def append_file_def)

definition checkout :: "unit host \<Rightarrow> bool" where
  "checkout s \<longleftrightarrow> (\<forall>n. files s (Repository n) = files demo_checkout (Repository n))"

lemma demo_run_checkout: "checkout s \<Longrightarrow> checkout (snd (append_file (Evidence n) b s))"
  by (simp add: checkout_def append_file_def)

lemma demo_scan_requirements:
  assumes "checkout s" "expected \<in> {[(''lib-x'', ''1.0'')], [(''lib-x'', ''1.0''), (''tool'', ''2.0'')]}"
  shows "\<exists>s'. scan_requirements demo_scanner i demo_scan_policy [(''lib-x'', ''1.0'')] expected name s =
    (Inr \<lparr>allowed = True, blocked = [], all_findings = [], evaluated_at = []\<rparr>, s') \<and> checkout s'"
  using assms demo_scan_decisions demo_scan_parts
  by (auto simp: scan_requirements_def bindS_def demo_run append_file_def judge_def base_arguments_def read_json_def
      read_text_def read_bytes_def checkout_def) (simp_all add: demo_scanner_def demo_tools_def demo_loads_def demo_bodies_def)

lemma demo_requirements_read:
  assumes "checkout s"
  shows "read_requirements ''requirements.txt'' s = Inr [(''lib-x'', ''1.0'')]"
    "read_requirements ''requirements-dev.txt'' s = Inr [(''tool'', ''2.0'')]"
    "read_json demo_scanner (Repository ''security/dependency-audit-exceptions.json'') s = Inr demo_scan_policy"
  using assms demo_scan_parts
  by (simp_all add: read_requirements_def read_json_def read_text_def read_bytes_def checkout_def demo_checkout_def)
    (simp add: demo_scanner_def demo_tools_def demo_loads_def demo_bodies_def)

lemma demo_scans:
  assumes "checkout s"
  shows "\<exists>identity' s'. scans demo_scanner ''dependencies'' i identity [(''lib-x'', ''1.0'')] [(''tool'', ''2.0'')] None s =
    (Inr (identity', [\<lparr>allowed = True, blocked = [], all_findings = [], evaluated_at = []\<rparr>, \<lparr>allowed = True, blocked = [], all_findings = [], evaluated_at = []\<rparr>]), s')"
proof -
  obtain s1 where 1: "scan_requirements demo_scanner i demo_scan_policy [(''lib-x'', ''1.0'')] [(''lib-x'', ''1.0'')] ''runtime'' s =
    (Inr \<lparr>allowed = True, blocked = [], all_findings = [], evaluated_at = []\<rparr>, s1)" "checkout s1"
    using demo_scan_requirements [OF assms] by blast
  obtain s2 where 2: "scan_requirements demo_scanner i demo_scan_policy [(''lib-x'', ''1.0'')] [(''lib-x'', ''1.0''), (''tool'', ''2.0'')] ''full'' s1 =
    (Inr \<lparr>allowed = True, blocked = [], all_findings = [], evaluated_at = []\<rparr>, s2)"
    using demo_scan_requirements [OF 1(2)] by blast
  show ?thesis
    by (simp add: scans_def scan_dependencies_def demo_requirements_read [OF assms] 1 2 bindS_def finallyS_def remove_temporary_def)
qed

lemma demo_scan_passes: "\<exists>s'. scan_main demo_scanner ''dependencies'' None demo_checkout = (Inr 0, s')"
proof -
  have "checkout demo_checkout" by (simp add: checkout_def)
  moreover have "\<exists>s'. mapS (\<lambda>n. unlink (Evidence n)) ns s = (Inr (map (\<lambda>_. ()) ns), s') \<and> checkout s'" if "checkout s" for s ns
    using that
  proof (induction ns arbitrary: s)
    case (Cons n ns)
    then have "checkout (snd (unlink (Evidence n) s))" by (simp add: checkout_def)
    from Cons.IH [OF this] show ?case by (auto simp: bindS_def)
  qed simp
  ultimately obtain u s0 where s0: "mapS (\<lambda>n. unlink (Evidence n)) evidence_names demo_checkout = (Inr u, s0)" "checkout s0" by blast
  let ?i = "''sha256:'' @ replicate 64 CHR ''a''"
  obtain s1 where 1: "run demo_scanner [''docker'', ''pull'', ''aquasec/trivy:latest''] s0 = (Inr ''report'', s1)" "checkout s1"
    using demo_run_checkout [OF s0(2)] by (auto simp: demo_run)
  obtain s2 where 2: "run demo_scanner [''docker'', ''image'', ''inspect'', ''--format'', ''{{.Id}}'', ''aquasec/trivy:latest''] s1 = (Inr ?i, s2)"
      "checkout s2"
    using demo_run_checkout [OF 1(2)] by (auto simp: demo_run)
  define s3 where "s3 = snd (write_json demo_scanner (Evidence ''identity.json'')
    (JObj [(''scannerReference'', JStr ''aquasec/trivy:latest''), (''scannerId'', JStr ?i)]) s2)"
  have 3: "checkout s3" using 2(2) by (simp add: s3_def checkout_def)
  obtain identity s4 where 4: "scans demo_scanner ''dependencies'' ?i
      [(''scannerReference'', JStr ''aquasec/trivy:latest''), (''scannerId'', JStr ?i)] [(''lib-x'', ''1.0'')] [(''tool'', ''2.0'')] None s3 =
    (Inr (identity, [\<lparr>allowed = True, blocked = [], all_findings = [], evaluated_at = []\<rparr>, \<lparr>allowed = True, blocked = [], all_findings = [], evaluated_at = []\<rparr>]), s4)"
    using demo_scans [OF 3] by blast
  have env: "environment demo_scanner n = None" for n by (simp add: demo_scanner_def demo_tools_def demo_loads_def demo_bodies_def)
  have w: "write_json demo_scanner (Evidence ''identity.json'')
    (JObj [(''scannerReference'', JStr ''aquasec/trivy:latest''), (''scannerId'', JStr ?i)]) s2 = (Inr (), s3)" by (simp add: s3_def)
  obtain s5 where 5: "conclude demo_scanner ?i identity [\<lparr>allowed = True, blocked = [], all_findings = [], evaluated_at = []\<rparr>,
      \<lparr>allowed = True, blocked = [], all_findings = [], evaluated_at = []\<rparr>] s4 = (Inr True, s5)"
    by (auto simp: conclude_def bindS_def demo_run append_file_def base_arguments_def)
  have "scan_body demo_scanner ''dependencies'' None s0 = (Inr True, s5)"
    using demo_requirements_read(1,2) [OF s0(2)] demo_scan_parts(9,10) w 4 5 1(1) 2(1)
    unfolding scan_body_def env Let_def
    by (simp add: bindS_def env del: file_steps)
  then show ?thesis using s0(1) by (auto simp: scan_main_def scan_def tryS_def bindS_def)
qed


end
