(* ===== verification/ReleaseCandidate.thy ===== *)
theory ReleaseCandidate
  imports SecurityScan
begin

text \<open>
  Qualifying and verifying a release candidate (\<^verbatim>\<open>scripts/release_candidate.py\<close>): the archive is
  inspected, loaded, tested and scanned, and the record of the candidate binds the archive, the
  policy and every file of evidence by its digest. Warnings on the standard output are not modelled.
\<close>

subsection \<open>The selected source and the scan of the archive\<close>

definition run :: "'d tools \<Rightarrow> string list \<Rightarrow> ('d host, string) step" where
  "run tk = run_logged tk True ''Release tool exited ''"

definition text_of :: "'d tools \<Rightarrow> object \<Rightarrow> string \<Rightarrow> string" where
  "text_of tk fs k = str_json (repr_float (libs tk)) (get_or fs k (JStr []))"

definition context_of :: "'d tools \<Rightarrow> 'd host \<Rightarrow> (object \<times> string \<times> pairs) result" where
  "context_of tk s =
     bindR (bindR (read_json tk (Evidence ''source.json'') s) json_mapping) (\<lambda>source.
       if \<not> full_sha (text_of tk source ''sha'') \<or>
          \<not> json_eq (get source ''sha'') (optional_text (environment tk ''RELEASE_SHA'')) \<or>
          \<not> json_eq (get source ''repository'') (optional_text (environment tk ''RELEASE_SOURCE''))
       then Inl (ValueError ''Release evidence must match the independently selected source.'')
       else
         bindR (release_version (read_text (Repository ''VERSION'') s)
           (bindR (read_text (Repository ''.env.example'') s) (\<lambda>t. Inr (py_splitlines t)))) (\<lambda>version.
         bindR (read_requirements ''requirements.txt'' s) (\<lambda>packages. Inr (source, version, packages))))"

definition POLICY :: place where
  "POLICY = Repository ''security/container-vulnerability-exceptions.json''"

definition judge_archive :: "'d tools \<Rightarrow> pairs \<Rightarrow> string \<Rightarrow> 'd host \<Rightarrow> decision result" where
  "judge_archive tk packages image_id s =
     bindR (read_json tk (Evidence ''vulnerabilities.json'') s) (\<lambda>report.
     bindR (read_json tk POLICY s) (\<lambda>policy.
       evaluate (isoformat tk) report policy packages packages image_id (instant tk (world s))))"

definition extract_archive :: "'d tools \<Rightarrow> ('d host, unit) step" where
  "extract_archive tk =
     bindS (readS (\<lambda>s. bindR (read_bytes ArchiveFile s) (new_candidate (libs tk)))) (\<lambda>c.
     bindS (liftS (extracted c)) (\<lambda>members.
     bindS (mapS (\<lambda>(name, b). write_file (Temporary name) b) members) (\<lambda>_. returnS ())))"

definition scan_arguments :: "'d tools \<Rightarrow> string \<Rightarrow> string list" where
  "scan_arguments tk scanner =
     [''docker'', ''run'', ''--rm'', ''--volume'', locate tk (Temporary []) @ '':/image:ro'', ''--volume'', cache_volume tk,
      scanner, ''image'', ''--input'', ''/image'', ''--scanners'', ''vuln'', ''--list-all-pkgs'', ''--ignorefile'', ''/dev/null'',
      ''--format'', ''json'', ''--exit-code'', ''0'', ''--timeout'', ''5m'']"

definition gate_summary :: "decision \<Rightarrow> string" where
  "gate_summary d =
     ''# Release security gate: '' @ (if allowed d then ''PASS'' else ''BLOCKED'') @ newline @ newline @
     ''Critical blockers: '' @ show_nat (length (blocked d)) @ ''; findings: '' @ show_nat (length (all_findings d)) @ ''.'' @ newline"

definition scan_archive :: "'d tools \<Rightarrow> oci_info \<Rightarrow> pairs \<Rightarrow> ('d host, object) step" where
  "scan_archive tk info packages =
     (let reference = (case environment tk ''TRIVY_SCANNER_IMAGE'' of Some r \<Rightarrow> r | None \<Rightarrow> ''aquasec/trivy:latest'') in
      bindS (run tk [''docker'', ''pull'', reference]) (\<lambda>_.
      bindS (run tk [''docker'', ''image'', ''inspect'', ''--format'', ''{{.Id}}'', reference]) (\<lambda>out.
        (let scanner = py_strip out in
         if \<not> is_digest scanner then raiseS (ValueError ''Invalid immutable scanner identity.'')
         else
           bindS (finallyS
             (bindS (extract_archive tk) (\<lambda>_.
              bindS (run tk (scan_arguments tk scanner)) (\<lambda>report.
                write_file (Evidence ''vulnerabilities.json'') report)))
             remove_temporary) (\<lambda>_.
           bindS (readS (judge_archive tk packages (oi_image info))) (\<lambda>d.
           bindS (write_json tk (Evidence ''gate.json'') (decision_json d)) (\<lambda>_.
           bindS (write_file (Evidence ''summary.md'') (gate_summary d)) (\<lambda>_.
           bindS (run tk [''docker'', ''run'', ''--rm'', scanner, ''--version'']) (\<lambda>version.
           bindS (getS (\<lambda>s. isoformat tk (instant tk (world s)))) (\<lambda>now.
             returnS [(''scannerId'', JStr scanner), (''scannerVersion'', JStr version), (''scannedAt'', JStr now)]))))))))))"

subsection \<open>Verification\<close>

definition bound_names :: "string list" where
  "bound_names = [''source.json'', ''smoke.json'', ''smoke.log'', ''vulnerabilities.json'', ''gate.json'', ''sbom.spdx.json'',
     ''provenance.json'']"

fun bound_files :: "'d tools \<Rightarrow> object \<Rightarrow> 'd host \<Rightarrow> unit result" where
  "bound_files tk [] s = Inr ()"
| "bound_files tk ((name, digest) # fs) s =
     bindR (sha256 tk (Evidence name) s) (\<lambda>h.
       if \<not> json_eq (JStr h) digest then Inl (ValueError ''Bound release evidence changed.'')
       else bound_files tk fs s)"

fun same_fields :: "object \<Rightarrow> object \<Rightarrow> string list \<Rightarrow> bool result" where
  "same_fields smoke rec [] = Inr True"
| "same_fields smoke rec (f # fs) =
     bindR (entry_of rec f) (\<lambda>v. if \<not> json_eq (get smoke f) v then Inr False else same_fields smoke rec fs)"

definition identity_fields :: "oci_info \<Rightarrow> object" where
  "identity_fields info =
     [(''digest'', JStr (oi_digest info)), (''runtimeDigest'', JStr (oi_runtime info)), (''imageId'', JStr (oi_image info))]"

definition check_binding :: "'d tools \<Rightarrow> object \<Rightarrow> string \<Rightarrow> object \<Rightarrow> 'd host \<Rightarrow> unit result" where
  "check_binding tk source version rec s =
     (let changed = Inl (ValueError ''Candidate source, archive, version or policy changed.'') in
      if \<not> json_eq (get rec ''source'') (JObj source) \<or> \<not> json_eq (get rec ''version'') (JStr version) then changed
      else
        bindR (sha256 tk ArchiveFile s) (\<lambda>h.
          if \<not> json_eq (get rec ''archiveSha256'') (JStr h) then changed
          else
            bindR (sha256 tk POLICY s) (\<lambda>h. if \<not> json_eq (get rec ''policySha256'') (JStr h) then changed else Inr ())))"

definition check_freshness :: "'d tools \<Rightarrow> object \<Rightarrow> 'd host \<Rightarrow> unit result" where
  "check_freshness tk rec s =
     bindR (entry_of rec ''scannedAt'') (\<lambda>v.
     bindR (case v of JStr t \<Rightarrow> fromisoformat tk t | _ \<Rightarrow> Inl (TypeError ''fromisoformat: argument must be str'')) (\<lambda>scanned.
       case scanned of
         None \<Rightarrow> Inl (ValueError ''Release scan evidence is stale or has an invalid clock.'')
       | Some t \<Rightarrow>
           if \<not> (- 300 \<le> instant tk (world s) - t \<and> instant tk (world s) - t \<le> 86400)
           then Inl (ValueError ''Release scan evidence is stale or has an invalid clock.'') else Inr ()))"

definition check_smoke :: "'d tools \<Rightarrow> object \<Rightarrow> 'd host \<Rightarrow> unit result" where
  "check_smoke tk rec s =
     bindR (bindR (read_json tk (Evidence ''smoke.json'') s) json_mapping) (\<lambda>smoke.
     bindR (if get smoke ''passed'' \<noteq> JBool True then Inr False
        else same_fields smoke rec [''source'', ''version'', ''digest'', ''runtimeDigest'', ''imageId'', ''archiveSha256'']) (\<lambda>ok.
       if \<not> ok then Inl (ValueError ''Missing or mismatched successful smoke evidence.'') else Inr ()))"

definition check_attestations :: "'d tools \<Rightarrow> oci_info \<Rightarrow> 'd host \<Rightarrow> unit result" where
  "check_attestations tk info s =
     bindR (read_json tk (Evidence ''sbom.spdx.json'') s) (\<lambda>sbom.
       if \<not> json_eq sbom (JObj (oi_sbom info)) then Inl (ValueError ''Retained attestations differ from the candidate.'')
       else
         bindR (read_json tk (Evidence ''provenance.json'') s) (\<lambda>provenance.
           if \<not> json_eq provenance (JObj (oi_provenance info))
           then Inl (ValueError ''Retained attestations differ from the candidate.'') else Inr ()))"

definition check_gate :: "'d tools \<Rightarrow> pairs \<Rightarrow> oci_info \<Rightarrow> 'd host \<Rightarrow> unit result" where
  "check_gate tk packages info s =
     (let refused = Inl (ValueError ''Critical findings or invalid policy block publication.'') in
      bindR (judge_archive tk packages (oi_image info) s) (\<lambda>d.
        if \<not> allowed d then refused
        else
          bindR (bindR (read_json tk (Evidence ''gate.json'') s) json_mapping) (\<lambda>gate.
            if get gate ''allowed'' \<noteq> JBool True then refused else Inr ())))"

definition verify :: "'d tools \<Rightarrow> 'd host \<Rightarrow> object result" where
  "verify tk s =
     (if \<not> absent (Evidence ''failure.json'') s then Inl (ValueError ''A failed release attempt cannot publish.'')
      else
        bindR (context_of tk s) (\<lambda>(source, version, packages).
        bindR (bindR (read_bytes ArchiveFile s) (\<lambda>b. inspect (libs tk) b source version packages None)) (\<lambda>info.
        bindR (bindR (read_json tk (Evidence ''candidate.json'') s) json_mapping) (\<lambda>rec.
        bindR (json_mapping (get rec ''files'')) (\<lambda>fs.
          if set (map fst fs) \<noteq> set bound_names then Inl (ValueError ''Incomplete bound release evidence.'')
          else
            bindR (bound_files tk fs s) (\<lambda>_.
            bindR (check_binding tk source version rec s) (\<lambda>_.
              if \<exists>(k, v) \<in> set (identity_fields info). \<not> json_eq (get rec k) v
              then Inl (ValueError ''Candidate identity differs from retained evidence.'')
              else if environment tk ''BUILD_DIGEST'' \<noteq> Some (oi_digest info) \<or> \<not> is_digest (text_of tk rec ''scannerId'')
              then Inl (ValueError ''Missing build/scanner identity.'')
              else
                bindR (check_freshness tk rec s) (\<lambda>_.
                bindR (check_smoke tk rec s) (\<lambda>_.
                bindR (check_attestations tk info s) (\<lambda>_.
                bindR (check_gate tk packages info s) (\<lambda>_. Inr rec)))))))))))"

subsection \<open>Qualification\<close>

definition stale_names :: "string list" where
  "stale_names = [''candidate.json'', ''smoke.json'', ''gate.json'', ''failure.json'']"

definition candidate_identity :: "object \<Rightarrow> string \<Rightarrow> oci_info \<Rightarrow> string \<Rightarrow> object" where
  "candidate_identity source version info archive_hash =
     [(''source'', JObj source), (''version'', JStr version)] @ identity_fields info @ [(''archiveSha256'', JStr archive_hash)]"

definition bind_evidence :: "'d tools \<Rightarrow> object \<Rightarrow> object \<Rightarrow> ('d host, unit) step" where
  "bind_evidence tk identity scanner =
     bindS (readS (\<lambda>s. mapR (\<lambda>name. bindR (sha256 tk (Evidence name) s) (\<lambda>h. Inr (name, JStr h))) bound_names)) (\<lambda>hashes.
     bindS (readS (sha256 tk POLICY)) (\<lambda>policy_hash.
       write_json tk (Evidence ''candidate.json'')
         (JObj (identity @ scanner @ [(''files'', JObj hashes), (''policySha256'', JStr policy_hash)]))))"

definition smoke_test :: "'d tools \<Rightarrow> oci_info \<Rightarrow> object \<Rightarrow> ('d host, unit) step" where
  "smoke_test tk info identity =
     bindS (write_json tk (Evidence ''smoke.json'') (JObj (identity @ [(''passed'', JBool False)]))) (\<lambda>_.
     bindS (run tk [''docker'', ''load'', ''--input'', locate tk ArchiveFile]) (\<lambda>_.
     bindS (run tk [''docker'', ''image'', ''inspect'', ''--format'', ''{{.Id}}'', oi_digest info]) (\<lambda>out.
       (let loaded = py_strip out in
        if loaded \<notin> {oi_digest info, oi_image info} then raiseS (ValueError ''Loaded image differs from OCI candidate.'')
        else
          bindS (run tk [executable tk, ''-m'', ''scripts.test_image'', ''--image'', loaded]) (\<lambda>output.
          bindS (write_file (Evidence ''smoke.log'') output) (\<lambda>_.
            write_json tk (Evidence ''smoke.json'') (JObj (identity @ [(''passed'', JBool True)]))))))))"

definition qualify :: "'d tools \<Rightarrow> ('d host, unit) step" where
  "qualify tk =
     bindS (getS (\<lambda>s. \<exists>name \<in> set stale_names. \<not> absent (Evidence name) s)) (\<lambda>stale.
       if stale then raiseS (ValueError ''Release qualification requires fresh evidence.'')
       else
         bindS (readS (context_of tk)) (\<lambda>(source, version, packages).
         bindS (readS (\<lambda>s. bindR (read_bytes ArchiveFile s) (\<lambda>b. inspect (libs tk) b source version packages None))) (\<lambda>info.
         bindS (readS (sha256 tk ArchiveFile)) (\<lambda>archive_hash.
           if environment tk ''BUILD_DIGEST'' \<noteq> Some (oi_digest info)
           then raiseS (ValueError ''Build output and candidate index digest differ.'')
           else
             (let identity = candidate_identity source version info archive_hash in
              bindS (smoke_test tk info identity) (\<lambda>_.
              bindS (scan_archive tk info packages) (\<lambda>scanner.
              bindS (readS (sha256 tk ArchiveFile)) (\<lambda>later_hash.
                if later_hash \<noteq> archive_hash then raiseS (ValueError ''Candidate archive changed during qualification.'')
                else
                  bindS (write_json tk (Evidence ''sbom.spdx.json'') (JObj (oi_sbom info))) (\<lambda>_.
                  bindS (write_json tk (Evidence ''provenance.json'') (JObj (oi_provenance info))) (\<lambda>_.
                  bindS (bind_evidence tk identity scanner) (\<lambda>_.
                  bindS (readS (verify tk)) (\<lambda>_. returnS ()))))))))))))"

subsection \<open>The script\<close>

definition stage_failure :: "'d tools \<Rightarrow> string \<Rightarrow> exn \<Rightarrow> json" where
  "stage_failure tk mode e = JObj [(''stage'', JStr mode), (''error'', JStr (str_error tk e))]"

definition reported :: "'d tools \<Rightarrow> string \<Rightarrow> ('d host, unit) step \<Rightarrow> ('d host, int) step" where
  "reported tk mode m =
     tryS (bindS m (\<lambda>_. returnS 0)) (\<lambda>e.
       bindS (write_json tk (Evidence ''failure.json'') (stage_failure tk mode e)) (\<lambda>_. returnS 1))"

definition candidate_main :: "'d tools \<Rightarrow> string \<Rightarrow> ('d host, int) step" where
  "candidate_main tk mode =
     reported tk mode (if mode = ''qualify'' then qualify tk else bindS (readS (verify tk)) (\<lambda>_. returnS ()))"

subsection \<open>What a verification has established\<close>

definition names_candidate :: "object \<Rightarrow> oci_info \<Rightarrow> bool" where
  "names_candidate rec info \<longleftrightarrow> get rec ''digest'' = JStr (oi_digest info) \<and> get rec ''runtimeDigest'' = JStr (oi_runtime info) \<and>
     get rec ''imageId'' = JStr (oi_image info)"

definition selected :: "'d tools \<Rightarrow> object \<Rightarrow> bool" where
  "selected tk source \<longleftrightarrow> (\<exists>sha. full_sha sha \<and> get source ''sha'' = JStr sha \<and> environment tk ''RELEASE_SHA'' = Some sha)"

definition fresh_scan :: "'d tools \<Rightarrow> object \<Rightarrow> 'd host \<Rightarrow> bool" where
  "fresh_scan tk rec s \<longleftrightarrow> (\<exists>t u. get rec ''scannedAt'' = JStr t \<and> fromisoformat tk t = Inr (Some u) \<and>
     u - 300 \<le> instant tk (world s) \<and> instant tk (world s) \<le> u + 86400)"

definition smoke_passed :: "'d tools \<Rightarrow> object \<Rightarrow> oci_info \<Rightarrow> 'd host \<Rightarrow> bool" where
  "smoke_passed tk rec info s \<longleftrightarrow> (\<exists>smoke. read_json tk (Evidence ''smoke.json'') s = Inr (JObj smoke) \<and>
     get smoke ''passed'' = JBool True \<and> names_candidate smoke info \<and> get smoke ''archiveSha256'' = get rec ''archiveSha256'')"

definition gate_open :: "'d tools \<Rightarrow> pairs \<Rightarrow> oci_info \<Rightarrow> 'd host \<Rightarrow> bool" where
  "gate_open tk packages info s \<longleftrightarrow> (\<exists>report policy d. read_json tk (Evidence ''vulnerabilities.json'') s = Inr report \<and>
     read_json tk POLICY s = Inr policy \<and>
     evaluate (isoformat tk) report policy packages packages (oi_image info) (instant tk (world s)) = Inr d \<and> allowed d)"

lemma context_of_Inr:
  assumes "context_of tk s = Inr (source, version, packages)"
  shows "selected tk source" "read_json tk (Evidence ''source.json'') s = Inr (JObj source)"
    "version_format version" "packages \<noteq> []"
proof -
  have e: "json_eq v (optional_text o') \<Longrightarrow> v = JNull \<or> (\<exists>t. v = JStr t \<and> o' = Some t)" for v o'
    by (cases o'; cases v) (auto simp: optional_text_def)
  have "full_sha (text_of tk source ''sha'')" "json_eq (get source ''sha'') (optional_text (environment tk ''RELEASE_SHA''))"
    using assms by (auto simp: context_of_def bindR_eq_Inr split: if_splits)
  moreover have "get source ''sha'' = JStr t \<Longrightarrow> text_of tk source ''sha'' = t" for t
    by (auto simp: get_def get_or_def text_of_def str_json_def split: option.splits)
  moreover have "get source ''sha'' = JNull \<Longrightarrow> \<not> full_sha (text_of tk source ''sha'')"
    by (auto simp: get_def get_or_def text_of_def str_json_def full_sha_def split: option.splits)
  ultimately show "selected tk source" using e unfolding selected_def by blast
  show "read_json tk (Evidence ''source.json'') s = Inr (JObj source)" "version_format version" "packages \<noteq> []"
    using assms by (auto simp: context_of_def bindR_eq_Inr json_mapping_Inr release_version_def Let_def
        read_requirements_def requirements_def split: if_splits)
qed

lemma check_binding_Inr:
  assumes "check_binding tk source version rec s = Inr ()"
  shows "get rec ''version'' = JStr version" "\<exists>a. files s ArchiveFile = Some a \<and> get rec ''archiveSha256'' = JStr (hexdigest (libs tk) a)"
    "\<exists>p. files s POLICY = Some p \<and> get rec ''policySha256'' = JStr (hexdigest (libs tk) p)"
  using assms by (auto simp: check_binding_def Let_def bindR_eq_Inr sha256_Inr split: if_splits)

lemma bound_files_Inr:
  "bound_files tk fs s = Inr () \<Longrightarrow> (name, v) \<in> set fs \<Longrightarrow> \<exists>b. files s (Evidence name) = Some b \<and> v = JStr (hexdigest (libs tk) b)"
  by (induction tk fs s rule: bound_files.induct) (auto simp: bindR_eq_Inr sha256_Inr split: if_splits)

lemma same_fields_get:
  "same_fields smoke rec ks = Inr True \<Longrightarrow> k \<in> set ks \<Longrightarrow> get rec k = JStr t \<Longrightarrow> get smoke k = JStr t"
proof (induction smoke rec ks rule: same_fields.induct)
  case (2 smoke rec f fs)
  from 2(2) obtain v where v: "entry_of rec f = Inr v" "json_eq (get smoke f) v" "same_fields smoke rec fs = Inr True"
    by (auto simp: bindR_eq_Inr split: if_splits)
  show ?case
  proof (cases "k = f")
    case True
    then have "v = JStr t" using entry_of_get [OF v(1)] 2(4) by simp
    then show ?thesis using v(2) True by simp
  next
    case False
    then show ?thesis using 2(1) [of v] 2(3,4) v by simp
  qed
qed simp

lemma check_smoke_Inr:
  assumes "check_smoke tk rec s = Inr ()" "names_candidate rec info" "get rec ''archiveSha256'' = JStr h"
  shows "smoke_passed tk rec info s"
proof -
  obtain smoke where "read_json tk (Evidence ''smoke.json'') s = Inr (JObj smoke)" "get smoke ''passed'' = JBool True"
      and f: "same_fields smoke rec [''source'', ''version'', ''digest'', ''runtimeDigest'', ''imageId'', ''archiveSha256''] = Inr True"
    using assms(1) by (auto simp: check_smoke_def bindR_eq_Inr json_mapping_Inr simp del: same_fields.simps split: if_splits)
  moreover have "get smoke k = JStr t" if "k \<in> {''digest'', ''runtimeDigest'', ''imageId'', ''archiveSha256''}" "get rec k = JStr t" for k t
    using same_fields_get [OF f _ that(2)] that(1) by auto
  ultimately show ?thesis using assms(2,3) by (auto simp: smoke_passed_def names_candidate_def)
qed

lemma check_gate_Inr: "check_gate tk packages info s = Inr () \<Longrightarrow> gate_open tk packages info s"
  unfolding check_gate_def gate_open_def judge_archive_def Let_def bindR_eq_Inr by (auto split: if_splits)

lemma check_freshness_Inr:
  assumes "check_freshness tk rec s = Inr ()"
  shows "fresh_scan tk rec s"
proof -
  obtain v where v: "entry_of rec ''scannedAt'' = Inr v" using assms by (auto simp: check_freshness_def bindR_eq_Inr)
  then show ?thesis using assms entry_of_get [OF v]
    by (cases v) (auto simp: check_freshness_def fresh_scan_def bindR_eq_Inr split: if_splits option.splits)
qed

lemma verify_Inr:
  assumes "verify tk s = Inr rec"
  obtains source version packages info archive fs where
    "absent (Evidence ''failure.json'') s" "context_of tk s = Inr (source, version, packages)"
    "files s ArchiveFile = Some archive" "inspect (libs tk) archive source version packages None = Inr info"
    "read_json tk (Evidence ''candidate.json'') s = Inr (JObj rec)" "get rec ''files'' = JObj fs"
    "set (map fst fs) = set bound_names" "bound_files tk fs s = Inr ()" "check_binding tk source version rec s = Inr ()"
    "names_candidate rec info" "environment tk ''BUILD_DIGEST'' = Some (oi_digest info)"
    "check_freshness tk rec s = Inr ()" "check_smoke tk rec s = Inr ()" "check_gate tk packages info s = Inr ()"
proof -
  obtain source version packages info archive fs where v: "absent (Evidence ''failure.json'') s" "context_of tk s = Inr (source, version, packages)"
    "read_bytes ArchiveFile s = Inr archive" "inspect (libs tk) archive source version packages None = Inr info"
    "read_json tk (Evidence ''candidate.json'') s = Inr (JObj rec)" "get rec ''files'' = JObj fs"
    "set (map fst fs) = set bound_names" "bound_files tk fs s = Inr ()" "check_binding tk source version rec s = Inr ()"
    "names_candidate rec info" "environment tk ''BUILD_DIGEST'' = Some (oi_digest info)"
    "check_freshness tk rec s = Inr ()" "check_smoke tk rec s = Inr ()" "check_gate tk packages info s = Inr ()"
    using assms unfolding verify_def bindR_eq_Inr names_candidate_def
    by (auto simp: json_mapping_Inr bindR_eq_Inr identity_fields_def simp del: bound_files.simps split: if_splits)
  moreover have "files s ArchiveFile = Some archive" using v(3) by (auto simp: read_bytes_def split: option.splits)
  ultimately show thesis using that by blast
qed

lemma verify_binds:
  assumes "verify tk s = Inr rec" "p \<in> {ArchiveFile, POLICY} \<union> Evidence ` set bound_names"
  shows "\<exists>b. files s p = Some b \<and> (p = ArchiveFile \<longrightarrow> get rec ''archiveSha256'' = JStr (hexdigest (libs tk) b)) \<and>
    (p = POLICY \<longrightarrow> get rec ''policySha256'' = JStr (hexdigest (libs tk) b)) \<and>
    (\<forall>name. p = Evidence name \<longrightarrow> (\<exists>fs. get rec ''files'' = JObj fs \<and> (name, JStr (hexdigest (libs tk) b)) \<in> set fs))"
proof -
  obtain source version fs where v: "get rec ''files'' = JObj fs" "set (map fst fs) = set bound_names"
      "bound_files tk fs s = Inr ()" "check_binding tk source version rec s = Inr ()"
    by (rule verify_Inr [OF assms(1)]) blast
  consider "p = ArchiveFile" | "p = POLICY" | name where "p = Evidence name" "name \<in> set bound_names" using assms(2) by blast
  then show ?thesis
  proof cases
    case 3
    then obtain h where h: "(name, h) \<in> set fs" using v(2) by fastforce
    then show ?thesis using bound_files_Inr [OF v(3)] 3(1) v(1) by (fastforce simp: POLICY_def)
  qed (use check_binding_Inr [OF v(4)] in \<open>auto simp: POLICY_def\<close>)
qed

text \<open>The files that the script keeps under their names are different, so their digests determine them.\<close>

lemma verify_same_files:
  assumes "inj (hexdigest (libs tk))" "verify tk s = Inr rec" "verify tk t = Inr rec"
    "p \<in> {ArchiveFile, POLICY} \<union> Evidence ` set bound_names"
  shows "files s p = files t p"
proof -
  obtain b where b: "files s p = Some b" "p = ArchiveFile \<Longrightarrow> get rec ''archiveSha256'' = JStr (hexdigest (libs tk) b)"
    "p = POLICY \<Longrightarrow> get rec ''policySha256'' = JStr (hexdigest (libs tk) b)"
    "\<And>n. p = Evidence n \<Longrightarrow> \<exists>fs. get rec ''files'' = JObj fs \<and> (n, JStr (hexdigest (libs tk) b)) \<in> set fs"
    using verify_binds [OF assms(2,4)] by blast
  obtain c where c: "files t p = Some c" "p = ArchiveFile \<Longrightarrow> get rec ''archiveSha256'' = JStr (hexdigest (libs tk) c)"
    "p = POLICY \<Longrightarrow> get rec ''policySha256'' = JStr (hexdigest (libs tk) c)"
    "\<And>n. p = Evidence n \<Longrightarrow> \<exists>fs. get rec ''files'' = JObj fs \<and> (n, JStr (hexdigest (libs tk) c)) \<in> set fs"
    using verify_binds [OF assms(3,4)] by blast
  consider "p = ArchiveFile" | "p = POLICY" | n where "p = Evidence n" using assms(4) by blast
  then have "hexdigest (libs tk) b = hexdigest (libs tk) c"
  proof cases
    case 3
    obtain fs where fs: "get rec ''files'' = JObj fs" "bound_files tk fs s = Inr ()"
      by (rule verify_Inr [OF assms(2)]) blast
    have "(n, JStr (hexdigest (libs tk) c)) \<in> set fs" using c(4) [OF 3] fs(1) by auto
    then obtain b' where "files s (Evidence n) = Some b'" "JStr (hexdigest (libs tk) c) = JStr (hexdigest (libs tk) b')"
      using bound_files_Inr [OF fs(2)] by blast
    then show ?thesis using b(1) 3 by simp
  qed (use b c in auto)
  then show ?thesis using b(1) c(1) assms(1) by (simp add: inj_eq)
qed

subsection \<open>Instances for witnesses\<close>

definition demo_image_report :: json where
  "demo_image_report = JObj [(''SchemaVersion'', JInt 2), (''ArtifactType'', JStr ''container_image''),
     (''Metadata'', JObj [(''ImageID'', JStr (''sha256:'' @ demo_hash ''config'')),
       (''OS'', JObj [(''Family'', JStr ''debian''), (''Name'', JStr ''13'')])]),
     (''Results'', JArr [
       JObj [(''Target'', JStr ''debian''), (''Type'', JStr ''debian''), (''Class'', JStr ''os-pkgs''),
         (''Packages'', JArr [JObj [(''Name'', JStr ''libc''), (''Version'', JStr ''2'')]])],
       JObj [(''Target'', JStr ''python''), (''Type'', JStr ''python-pkg''), (''Class'', JStr ''lang-pkgs''),
         (''Packages'', JArr [JObj [(''Name'', JStr ''lib_x''), (''Version'', JStr ''1.0'')]])]])]"

definition demo_identity :: object where
  "demo_identity = [(''source'', JObj demo_source), (''version'', JStr ''1.0.0''), (''digest'', JStr (''sha256:'' @ demo_hash ''index'')),
     (''runtimeDigest'', JStr (''sha256:'' @ demo_hash ''manifest'')), (''imageId'', JStr (''sha256:'' @ demo_hash ''config'')),
     (''archiveSha256'', JStr (demo_hash ''a''))]"

text \<open>The evidence: the documents of its files are named by their contents.\<close>

definition demo_evidence :: "(string \<times> string) list" where
  "demo_evidence = [(''source.json'', ''source''), (''smoke.json'', ''smoke''), (''smoke.log'', ''log''),
     (''vulnerabilities.json'', ''report''), (''gate.json'', ''gate''), (''sbom.spdx.json'', ''sbom''), (''provenance.json'', ''prov'')]"

definition demo_record :: object where
  "demo_record = demo_identity @ [(''scannerId'', JStr (''sha256:'' @ demo_hash ''index'')), (''scannerVersion'', JStr ''v''),
     (''scannedAt'', JStr ''t''), (''files'', JObj (map (\<lambda>(n, b). (n, JStr (demo_hash b))) demo_evidence)),
     (''policySha256'', JStr (demo_hash ''policy''))]"

definition demo_texts :: "(string \<times> json) list" where
  "demo_texts = [(''source'', JObj demo_source), (''smoke'', JObj (demo_identity @ [(''passed'', JBool True)])),
     (''report'', demo_image_report), (''gate'', JObj [(''allowed'', JBool True)]), (''sbom'', JObj demo_sbom),
     (''prov'', JObj demo_provenance), (''candidate'', JObj demo_record), (''policy'', demo_scan_policy),
     (''rehearsal'', JObj [(''passed'', JBool True), (''digest'', JStr (''sha256:'' @ demo_hash ''index'')),
       (''archiveSha256'', JStr (demo_hash ''a''))])]"

definition demo_documents :: "bytes \<Rightarrow> json result" where
  "demo_documents b = (case map_of demo_texts b of Some v \<Rightarrow> Inr v | None \<Rightarrow> Inl (ValueError ''JSONDecodeError''))"

definition demo_commit :: string where
  "demo_commit = plain_text (get demo_source ''sha'')"

text \<open>Every tool prints the digest of the index and exports it, and the clock stands still.\<close>

definition demo_releaser :: "unit tools" where
  "demo_releaser = \<lparr>
     exec = (\<lambda>args s. (Inr (0, ''sha256:'' @ demo_hash ''index'', []),
       s \<lparr>files := (files s)(Temporary ''publication/layout/index.json'' \<mapsto> ''{}'')\<rparr>)),
     environment = map_of [(''RELEASE_SHA'', demo_commit), (''RELEASE_SOURCE'', ''https://h/me/api''),
       (''BUILD_DIGEST'', ''sha256:'' @ demo_hash ''index'')],
     libs = demo_tools demo_documents,
     locate = (\<lambda>p. ''/d''), directory = ''/d'', archive_name = ''a'', executable = ''python'', user = ''0:0'', home = ''/h'',
     instant = (\<lambda>w. demo_now), unique = (\<lambda>w. []), http_status = (\<lambda>u s. (Inr (Some 200), s)), sleep = (\<lambda>t s. (Inr (), s)),
     dumps = (\<lambda>v. []), isoformat = (\<lambda>t. []), fromisoformat = (\<lambda>s. Inr (Some demo_now)), str_error = (\<lambda>e. []), tree = (\<lambda>p s. []), tar = (\<lambda>es. ''a'')\<rparr>"

fun demo_file :: "place \<Rightarrow> bytes option" where
  "demo_file (Evidence n) = map_of (demo_evidence @ [(''candidate.json'', ''candidate''), (''registry-test.json'', ''rehearsal'')]) n"
| "demo_file (Repository n) = map_of [(''VERSION'', ''1.0.0''), (''.env.example'', ''APP_VERSION=1.0.0''),
     (''requirements.txt'', ''lib-x==1.0''), (''security/container-vulnerability-exceptions.json'', ''policy'')] n"
| "demo_file ArchiveFile = Some ''a''"
| "demo_file (Elsewhere n) = Some ''{}''"
| "demo_file (Temporary n) = None"

lemma demo_file_names:
  "(n, b) \<in> set demo_evidence \<Longrightarrow> demo_file (Evidence n) = Some b" "demo_file (Evidence ''candidate.json'') = Some ''candidate''"
  "demo_file (Evidence ''failure.json'') = None" "demo_file (Evidence ''registry-test.json'') = Some ''rehearsal''"
  "demo_file (Repository ''VERSION'') = Some ''1.0.0''" "demo_file (Repository ''.env.example'') = Some ''APP_VERSION=1.0.0''"
  "demo_file (Repository ''requirements.txt'') = Some ''lib-x==1.0''" "demo_file POLICY = Some ''policy''"
proof -
  have d: "distinct (map fst demo_evidence)" unfolding demo_evidence_def by code_simp
  show "(n, b) \<in> set demo_evidence \<Longrightarrow> demo_file (Evidence n) = Some b"
    using map_of_is_SomeI [OF d] by (simp add: map_add_def split: option.split)
qed (code_simp; simp add: POLICY_def)+

declare demo_file.simps [simp del]

definition demo_release :: "unit host" where
  "demo_release = \<lparr>files = demo_file, world = ()\<rparr>"

lemma demo_release_text:
  "b \<in> set [''source'', ''smoke'', ''report'', ''gate'', ''sbom'', ''prov'', ''candidate'', ''policy'', ''rehearsal'', ''1.0.0'',
     ''APP_VERSION=1.0.0'', ''lib-x==1.0'', ''{}''] \<Longrightarrow> utf8_valid b"
proof -
  have "list_all utf8_valid [''source'', ''smoke'', ''report'', ''gate'', ''sbom'', ''prov'', ''candidate'', ''policy'', ''rehearsal'', ''1.0.0'',
     ''APP_VERSION=1.0.0'', ''lib-x==1.0'', ''{}'']" by code_simp
  then show "b \<in> set [''source'', ''smoke'', ''report'', ''gate'', ''sbom'', ''prov'', ''candidate'', ''policy'', ''rehearsal'', ''1.0.0'',
     ''APP_VERSION=1.0.0'', ''lib-x==1.0'', ''{}''] \<Longrightarrow> utf8_valid b" unfolding list_all_iff by blast
qed

lemma demo_texts_names:
  "distinct (map fst demo_texts)" "set (map fst demo_texts) \<inter> set demo_bodies = {}" "list_all utf8_valid (map fst demo_texts)"
proof -
  have n: "map fst demo_texts = [''source'', ''smoke'', ''report'', ''gate'', ''sbom'', ''prov'', ''candidate'', ''policy'', ''rehearsal'']"
    by (simp add: demo_texts_def)
  show "distinct (map fst demo_texts)" unfolding n by code_simp
  show "set (map fst demo_texts) \<inter> set demo_bodies = {}" unfolding n demo_bodies_def by simp
  show "list_all utf8_valid (map fst demo_texts)" unfolding n by code_simp
qed

lemma demo_texts_read: "list_all (\<lambda>v. read_tree v = Inr v) (map snd demo_texts)"
proof -
  have "read_tree (JObj demo_source) = Inr (JObj demo_source)" by (simp add: demo_source_def unique_fields_def)
  moreover have "read_tree (JObj (demo_identity @ [(''passed'', JBool True)])) = Inr (JObj (demo_identity @ [(''passed'', JBool True)]))"
    by (simp add: demo_identity_def demo_source_def unique_fields_def)
  moreover have "read_tree demo_image_report = Inr demo_image_report" by (simp add: demo_image_report_def unique_fields_def)
  moreover have "read_tree (JObj demo_sbom) = Inr (JObj demo_sbom)" by (simp add: demo_sbom_def unique_fields_def)
  moreover have "read_tree (JObj demo_provenance) = Inr (JObj demo_provenance)" by (simp add: demo_provenance_def unique_fields_def)
  moreover have "read_tree (JObj demo_record) = Inr (JObj demo_record)"
    by (simp add: demo_record_def demo_identity_def demo_source_def demo_evidence_def unique_fields_def)
  moreover have "read_tree demo_scan_policy = Inr demo_scan_policy" by (simp add: demo_scan_policy_def unique_fields_def)
  moreover have "read_tree (JObj [(''allowed'', JBool True)]) = Inr (JObj [(''allowed'', JBool True)])" by (simp add: unique_fields_def)
  moreover have "read_tree (JObj [(''passed'', JBool True), (''digest'', JStr a), (''archiveSha256'', JStr b)]) =
    Inr (JObj [(''passed'', JBool True), (''digest'', JStr a), (''archiveSha256'', JStr b)])" for a b by (simp add: unique_fields_def)
  ultimately show ?thesis by (simp add: demo_texts_def del: read_tree.simps)
qed

lemma demo_release_json:
  assumes "files s p = Some b" "(b, v) \<in> set demo_texts"
  shows "read_json demo_releaser p s = Inr v"
proof -
  have "map_of demo_texts b = Some v" using assms(2) demo_texts_names(1) by simp
  moreover have "b \<notin> set demo_bodies" using assms(2) demo_texts_names(2) by force
  moreover have "utf8_valid b" "read_tree v = Inr v"
    using assms(2) demo_texts_names(3) demo_texts_read by (auto simp: list_all_iff)
  ultimately show ?thesis using assms(1)
    by (simp add: read_json_def read_text_def read_bytes_def demo_releaser_def demo_tools_def demo_loads_def demo_documents_def)
qed

text \<open>A host with the evidence; other files may differ.\<close>

definition release_ready :: "unit host \<Rightarrow> bool" where
  "release_ready s \<longleftrightarrow> files s ArchiveFile = Some ''a'' \<and> (\<forall>n. files s (Repository n) = demo_file (Repository n)) \<and>
     (\<forall>n \<in> set (''candidate.json'' # ''failure.json'' # ''registry-test.json'' # map fst demo_evidence).
        files s (Evidence n) = demo_file (Evidence n)) \<and> (\<forall>n. files s (Elsewhere n) = Some ''{}'')"

lemma release_ready_demo: "release_ready demo_release"
  by (simp add: release_ready_def demo_release_def demo_file.simps(3,4))

lemma release_ready_files:
  assumes "release_ready s"
  shows "(n, b) \<in> set demo_evidence \<Longrightarrow> files s (Evidence n) = Some b" "files s (Evidence ''candidate.json'') = Some ''candidate''"
    "files s (Evidence ''failure.json'') = None" "files s (Evidence ''registry-test.json'') = Some ''rehearsal''"
    "files s (Repository ''VERSION'') = Some ''1.0.0''" "files s (Repository ''.env.example'') = Some ''APP_VERSION=1.0.0''"
    "files s (Repository ''requirements.txt'') = Some ''lib-x==1.0''" "files s POLICY = Some ''policy''"
proof -
  have e: "files s (Evidence n) = demo_file (Evidence n)"
    if "n \<in> {''candidate.json'', ''failure.json'', ''registry-test.json''} \<union> fst ` set demo_evidence" for n
    using assms that unfolding release_ready_def by auto
  show "files s (Evidence n) = Some b" if "(n, b) \<in> set demo_evidence"
  proof -
    have "n \<in> fst ` set demo_evidence" using that by force
    then show ?thesis using e [of n] demo_file_names(1) [OF that] by simp
  qed
  show "files s (Evidence ''candidate.json'') = Some ''candidate''" "files s (Evidence ''failure.json'') = None"
    "files s (Evidence ''registry-test.json'') = Some ''rehearsal''"
    using e [of "''candidate.json''"] e [of "''failure.json''"] e [of "''registry-test.json''"] demo_file_names(2,3,4) by simp_all
  show "files s (Repository ''VERSION'') = Some ''1.0.0''" "files s (Repository ''.env.example'') = Some ''APP_VERSION=1.0.0''"
    "files s (Repository ''requirements.txt'') = Some ''lib-x==1.0''" "files s POLICY = Some ''policy''"
    using assms demo_file_names(5-8) by (simp_all add: release_ready_def POLICY_def)
qed

lemma demo_release_version: "release_version (Inr ''1.0.0'') (Inr (py_splitlines ''APP_VERSION=1.0.0'')) = Inr ''1.0.0''"
  by code_simp

lemma demo_sha: "full_sha (demo_commit)"
  by code_simp

lemma demo_source_get:
  "get demo_source ''sha'' = JStr (demo_commit)" "get demo_source ''repository'' = JStr ''https://h/me/api''"
  "get demo_source ''image'' = JStr ''ghcr.io/me/api''" "text_of tk demo_source ''sha'' = demo_commit"
  by (simp_all add: demo_source_def get_def get_or_def plain_text_def text_of_def str_json_def demo_commit_def)

lemma demo_environment:
  "environment demo_releaser ''RELEASE_SHA'' = Some (demo_commit)"
  "environment demo_releaser ''RELEASE_SOURCE'' = Some ''https://h/me/api''"
  "environment demo_releaser ''BUILD_DIGEST'' = Some (''sha256:'' @ demo_hash ''index'')"
  by (simp_all add: demo_releaser_def)

lemma demo_context:
  assumes "release_ready s"
  shows "context_of demo_releaser s = Inr (demo_source, ''1.0.0'', [(''lib-x'', ''1.0'')])"
proof -
  note f = release_ready_files [OF assms]
  have "(''source.json'', ''source'') \<in> set demo_evidence" "(''source'', JObj demo_source) \<in> set demo_texts"
    by (simp_all add: demo_evidence_def demo_texts_def)
  then have j: "read_json demo_releaser (Evidence ''source.json'') s = Inr (JObj demo_source)"
    using demo_release_json f(1) by blast
  have t: "read_text (Repository ''VERSION'') s = Inr ''1.0.0''" "read_text (Repository ''.env.example'') s = Inr ''APP_VERSION=1.0.0''"
    "read_text (Repository ''requirements.txt'') s = Inr ''lib-x==1.0''"
    unfolding read_text_def read_bytes_def f using demo_release_text [of "''1.0.0''"] demo_release_text [of "''APP_VERSION=1.0.0''"]
      demo_release_text [of "''lib-x==1.0''"] by simp_all
  have o: "json_eq (get demo_source ''sha'') (optional_text (Some demo_commit))"
    "json_eq (get demo_source ''repository'') (optional_text (Some ''https://h/me/api''))"
    unfolding optional_text_def demo_source_get by simp_all
  show ?thesis
    unfolding context_of_def j bindR_simps json_mapping.simps demo_source_get(4) demo_environment read_requirements_def t
      demo_release_version demo_scan_parts(1)
    using o demo_sha demo_release_version demo_scan_parts(1) by (simp del: json_eq.simps)
qed

lemma demo_record_get:
  "get demo_record ''source'' = JObj demo_source" "get demo_record ''version'' = JStr ''1.0.0''"
  "get demo_record ''archiveSha256'' = JStr (demo_hash ''a'')" "get demo_record ''policySha256'' = JStr (demo_hash ''policy'')"
  "get demo_record ''digest'' = JStr (''sha256:'' @ demo_hash ''index'')" "get demo_record ''runtimeDigest'' = JStr (''sha256:'' @ demo_hash ''manifest'')"
  "get demo_record ''imageId'' = JStr (''sha256:'' @ demo_hash ''config'')" "entry_of demo_record ''scannedAt'' = Inr (JStr ''t'')"
  "get demo_record ''files'' = JObj (map (\<lambda>(n, b). (n, JStr (demo_hash b))) demo_evidence)"
  "text_of tk demo_record ''scannerId'' = ''sha256:'' @ demo_hash ''index''"
  by (simp_all add: demo_record_def demo_identity_def get_def get_or_def entry_of_def text_of_def str_json_def)

lemma demo_bound_files:
  assumes "\<forall>(n, b) \<in> set es. files s (Evidence n) = Some b"
  shows "bound_files demo_releaser (map (\<lambda>(n, b). (n, JStr (demo_hash b))) es) s = Inr ()"
  using assms
proof (induction es)
  case (Cons e es)
  have "hexdigest (libs demo_releaser) = demo_hash" by (simp add: demo_releaser_def demo_tools_def)
  with Cons show ?case by (cases e) (simp add: sha256_def read_bytes_def)
qed simp

lemma demo_release_gate:
  "evaluate (\<lambda>t. []) demo_image_report demo_scan_policy [(''lib-x'', ''1.0'')] [(''lib-x'', ''1.0'')] (''sha256:'' @ demo_hash ''config'') demo_now =
    Inr \<lparr>allowed = True, blocked = [], all_findings = [], evaluated_at = []\<rparr>"
  by code_simp

lemma demo_same_fields:
  "same_fields (demo_identity @ [(''passed'', JBool True)]) demo_record
     [''source'', ''version'', ''digest'', ''runtimeDigest'', ''imageId'', ''archiveSha256''] = Inr True"
proof -
  have "get (demo_identity @ [(''passed'', JBool True)]) k = get demo_record k \<and> entry_of demo_record k = Inr (get demo_record k)"
    if "k \<in> set [''source'', ''version'', ''digest'', ''runtimeDigest'', ''imageId'', ''archiveSha256'']" for k
    using that by (auto simp: demo_record_def demo_identity_def get_def get_or_def entry_of_def)
  moreover have "json_eq (JObj demo_source) (JObj demo_source)" by (simp add: demo_source_def)
  ultimately show ?thesis by (simp add: demo_record_get del: json_eq.simps)
qed

definition demo_info :: oci_info where
  "demo_info = \<lparr>oi_digest = ''sha256:'' @ demo_hash ''index'', oi_runtime = ''sha256:'' @ demo_hash ''manifest'',
      oi_image = ''sha256:'' @ demo_hash ''config'', oi_sbom = demo_sbom, oi_provenance = demo_provenance\<rparr>"

lemma demo_release_checks:
  assumes "release_ready s"
  shows "check_binding demo_releaser demo_source ''1.0.0'' demo_record s = Inr ()" "check_freshness demo_releaser demo_record s = Inr ()"
    "check_smoke demo_releaser demo_record s = Inr ()" "check_attestations demo_releaser demo_info s = Inr ()"
    "check_gate demo_releaser [(''lib-x'', ''1.0'')] demo_info s = Inr ()"
proof -
  note f = release_ready_files [OF assms]
  have a: "files s ArchiveFile = Some ''a''" using assms by (simp add: release_ready_def)
  have h: "hexdigest (libs demo_releaser) = demo_hash" "instant demo_releaser w = demo_now" "isoformat demo_releaser = (\<lambda>t. [])"
    "fromisoformat demo_releaser t = Inr (Some demo_now)" for w t by (simp_all add: demo_releaser_def demo_tools_def)
  have e: "(n, b) \<in> set demo_evidence \<Longrightarrow> (b, v) \<in> set demo_texts \<Longrightarrow> read_json demo_releaser (Evidence n) s = Inr v" for n b v
    using f(1) demo_release_json by blast
  have j: "read_json demo_releaser (Evidence ''smoke.json'') s = Inr (JObj (demo_identity @ [(''passed'', JBool True)]))"
    "read_json demo_releaser (Evidence ''vulnerabilities.json'') s = Inr demo_image_report"
    "read_json demo_releaser (Evidence ''gate.json'') s = Inr (JObj [(''allowed'', JBool True)])"
    "read_json demo_releaser (Evidence ''sbom.spdx.json'') s = Inr (JObj demo_sbom)"
    "read_json demo_releaser (Evidence ''provenance.json'') s = Inr (JObj demo_provenance)"
    by (rule e [of _ "''smoke''"] e [of _ "''report''"] e [of _ "''gate''"] e [of _ "''sbom''"] e [of _ "''prov''"];
      simp add: demo_evidence_def demo_texts_def; fail)+
  have p: "read_json demo_releaser POLICY s = Inr demo_scan_policy"
    by (rule demo_release_json [OF f(8)]) (simp add: demo_texts_def)
  have eq: "json_eq (JObj demo_source) (JObj demo_source)" "json_eq (JObj demo_sbom) (JObj demo_sbom)"
    "json_eq (JObj demo_provenance) (JObj demo_provenance)"
    by (simp_all add: demo_source_def demo_sbom_def demo_provenance_def)
  show "check_binding demo_releaser demo_source ''1.0.0'' demo_record s = Inr ()"
    using eq by (simp add: check_binding_def Let_def demo_record_get sha256_def read_bytes_def a f(8) h del: json_eq.simps)
  show "check_freshness demo_releaser demo_record s = Inr ()"
    by (simp add: check_freshness_def demo_record_get h)
  have "get (demo_identity @ [(''passed'', JBool True)]) ''passed'' = JBool True" by (simp add: demo_identity_def get_def get_or_def)
  then show "check_smoke demo_releaser demo_record s = Inr ()"
    by (simp add: check_smoke_def j demo_same_fields del: same_fields.simps)
  show "check_attestations demo_releaser demo_info s = Inr ()"
    using eq by (simp add: check_attestations_def j demo_info_def del: json_eq.simps)
  show "check_gate demo_releaser [(''lib-x'', ''1.0'')] demo_info s = Inr ()"
    using demo_release_gate by (simp add: check_gate_def judge_archive_def Let_def j p demo_info_def h get_def get_or_def)
qed

lemma demo_verify:
  assumes "release_ready s"
  shows "verify demo_releaser s = Inr demo_record"
proof -
  note f = release_ready_files [OF assms]
  have a: "read_bytes ArchiveFile s = Inr ''a''" using assms by (simp add: release_ready_def read_bytes_def)
  have i: "inspect (libs demo_releaser) ''a'' demo_source ''1.0.0'' [(''lib-x'', ''1.0'')] None = Inr demo_info"
    unfolding demo_info_def demo_releaser_def tools.simps by (rule demo_inspect) simp_all
  have j: "read_json demo_releaser (Evidence ''candidate.json'') s = Inr (JObj demo_record)"
    by (rule demo_release_json [OF f(2)]) (simp add: demo_texts_def)
  have n: "set (map fst (map (\<lambda>(n, b). (n, JStr (demo_hash b))) demo_evidence)) = set bound_names"
    by (simp add: demo_evidence_def bound_names_def)
  have b: "bound_files demo_releaser (map (\<lambda>(n, b). (n, JStr (demo_hash b))) demo_evidence) s = Inr ()"
    using f(1) by (intro demo_bound_files) auto
  have d: "is_digest (''sha256:'' @ demo_hash ''index'')" by (rule demo_hash_ok) (simp add: demo_bodies_def)
  have o: "\<not> (\<exists>(k, v) \<in> set (identity_fields demo_info). \<not> json_eq (get demo_record k) v)"
    by (simp add: identity_fields_def demo_info_def demo_record_get)
  have g: "oi_digest demo_info = ''sha256:'' @ demo_hash ''index''" by (simp add: demo_info_def)
  show ?thesis
    unfolding verify_def absent_def f(3) demo_context [OF assms] bindR_simps a i j json_mapping.simps demo_record_get n b
    using o d demo_release_checks [OF assms] by (simp add: i demo_environment g)
qed

subsection \<open>Properties\<close>

text \<open>
  Property C14. A verified candidate may be published: no attempt has failed before; its source is
  the commit that was selected independently; the archive passes inspection for that source, and
  its index digest is the one the build reported and, with the runtime, the image and the
  archive's own digest, the one in the record; the smoke test passed for that candidate; it was
  scanned within the last day; and evaluating the retained report against the current policy
  allows it.
\<close>

theorem verified_candidate_sound:
  assumes "verify tk s = Inr rec"
  shows "\<exists>source version packages info archive. selected tk source \<and>
    files s ArchiveFile = Some archive \<and> inspect (libs tk) archive source version packages None = Inr info \<and>
    environment tk ''BUILD_DIGEST'' = Some (oi_digest info) \<and> names_candidate rec info \<and>
    get rec ''archiveSha256'' = JStr (hexdigest (libs tk) archive) \<and> get rec ''version'' = JStr version \<and>
    files s (Evidence ''failure.json'') = None \<and> smoke_passed tk rec info s \<and> fresh_scan tk rec s \<and> gate_open tk packages info s"
proof -
  obtain source version packages info archive where v: "absent (Evidence ''failure.json'') s"
      "context_of tk s = Inr (source, version, packages)" "files s ArchiveFile = Some archive"
      "inspect (libs tk) archive source version packages None = Inr info" "check_binding tk source version rec s = Inr ()"
      "names_candidate rec info" "environment tk ''BUILD_DIGEST'' = Some (oi_digest info)"
      "check_freshness tk rec s = Inr ()" "check_smoke tk rec s = Inr ()" "check_gate tk packages info s = Inr ()"
    by (rule verify_Inr [OF assms]) blast
  have a: "get rec ''archiveSha256'' = JStr (hexdigest (libs tk) archive)" using check_binding_Inr(2) [OF v(5)] v(3) by auto
  show ?thesis
    using v context_of_Inr(1) [OF v(2)] a check_smoke_Inr [OF v(9,6) a] check_freshness_Inr [OF v(8)] check_gate_Inr [OF v(10)]
      check_binding_Inr(1) [OF v(5)]
    unfolding absent_def by blast
qed

theorem verified_candidate_sound_witness:
  "\<exists>info. environment demo_releaser ''BUILD_DIGEST'' = Some (oi_digest info) \<and> names_candidate demo_record info \<and>
    smoke_passed demo_releaser demo_record info demo_release"
  using verified_candidate_sound [OF demo_verify [OF release_ready_demo]] by blast

text \<open>
  Property C38. The record of a candidate binds what was qualified: with a collision-free hash,
  every state in which the same record verifies holds the same archive, the same policy and the
  same files of evidence, and none of them is missing.
\<close>

theorem record_binds_evidence:
  assumes "inj (hexdigest (libs tk))" "verify tk s = Inr rec" "verify tk t = Inr rec"
    and "p \<in> {ArchiveFile, POLICY} \<union> Evidence ` set bound_names"
  shows "files s p = files t p \<and> files s p \<noteq> None"
  using verify_same_files [OF assms] verify_binds [OF assms(2,4)] by auto

theorem record_binds_evidence_witness:
  "files demo_release ArchiveFile = files (demo_release \<lparr>files := (files demo_release)(Evidence ''summary.md'' \<mapsto> ''x'')\<rparr>) ArchiveFile"
proof -
  let ?t = "demo_release \<lparr>files := (files demo_release)(Evidence ''summary.md'' \<mapsto> ''x'')\<rparr>"
  have "inj (hexdigest (libs demo_releaser))" using demo_hash_inj by (simp add: demo_releaser_def demo_tools_def)
  moreover have "release_ready ?t"
    by (simp add: release_ready_def demo_release_def demo_file.simps(3,4) demo_evidence_def)
  ultimately show ?thesis
    using record_binds_evidence [of demo_releaser demo_release demo_record ?t ArchiveFile] demo_verify release_ready_demo by blast
qed

end
