(* ===== verification/ReleasePublish.thy ===== *)
theory ReleasePublish
  imports ReleaseCandidate
begin

text \<open>
  Publishing a verified candidate and its rehearsal against a disposable registry
  (\<^verbatim>\<open>scripts/release_publish.py\<close>).
\<close>

subsection \<open>Names of images\<close>

definition registry_of :: "string \<Rightarrow> string" where
  "registry_of wanted = takeWhile (\<lambda>c. c \<noteq> CHR ''/'') wanted"

definition publication_name :: "string \<Rightarrow> bool" where
  "publication_name wanted \<longleftrightarrow>
     (let rest = drop (length (registry_of wanted)) wanted in
      registry_name (registry_of wanted) \<and> rest \<noteq> [] \<and> image_name (tl rest))"

definition loopback :: "string \<Rightarrow> bool" where
  "loopback address \<longleftrightarrow>
     (let port = drop (length ''127.0.0.1:'') address in
      startswith address ''127.0.0.1:'' \<and> port \<noteq> [] \<and> list_all py_isdigit port)"

subsection \<open>The publisher\<close>

definition environ_or :: "'d tools \<Rightarrow> string \<Rightarrow> string \<Rightarrow> string" where
  "environ_or tk name d = (case environment tk name of Some v \<Rightarrow> v | None \<Rightarrow> d)"

definition login_file :: "'d tools \<Rightarrow> place option \<Rightarrow> place" where
  "login_file tk docker_config =
     (case docker_config of
        Some p \<Rightarrow> p
      | None \<Rightarrow> Elsewhere (environ_or tk ''DOCKER_CONFIG'' (home tk @ ''/.docker'') @ ''/config.json''))"

definition check_rehearsal :: "'d tools \<Rightarrow> object \<Rightarrow> object \<Rightarrow> string \<Rightarrow> 'd host \<Rightarrow> unit result" where
  "check_rehearsal tk source rec wanted s =
     (let refused = Inl (ValueError ''Publication requires matching source and registry rehearsal.'') in
      bindR (bindR (read_json tk (Evidence ''registry-test.json'') s) json_mapping) (\<lambda>rehearsal.
      bindR (entry_of source ''image'') (\<lambda>own.
        if \<not> json_eq (JStr wanted) own \<or> get rehearsal ''passed'' \<noteq> JBool True then refused
        else
          bindR (same_fields rehearsal rec [''digest'', ''archiveSha256'']) (\<lambda>ok. if \<not> ok then refused else Inr ()))))"

definition check_login :: "'d tools \<Rightarrow> place \<Rightarrow> 'd host \<Rightarrow> unit result" where
  "check_login tk config s =
     (if absent config s then Inl (ValueError ''Registry login configuration is missing.'')
      else
        bindR (bindR (read_json tk config s) json_mapping) (\<lambda>credentials.
          if truthy (get credentials ''credsStore'') \<or> truthy (get credentials ''credHelpers'')
          then Inl (ValueError ''Publisher requires self-contained Docker login configuration.'') else Inr ()))"

definition immutable_id :: "'d tools \<Rightarrow> string \<Rightarrow> string \<Rightarrow> ('d host, string) step" where
  "immutable_id tk reference message =
     bindS (run tk [''docker'', ''pull'', reference]) (\<lambda>_.
     bindS (run tk [''docker'', ''image'', ''inspect'', ''--format'', ''{{.Id}}'', reference]) (\<lambda>out.
       if \<not> is_digest (py_strip out) then raiseS (ValueError message) else returnS (py_strip out)))"

definition publisher_arguments :: "'d tools \<Rightarrow> place \<Rightarrow> string list" where
  "publisher_arguments tk config =
     [''docker'', ''run'', ''--rm'', ''--user'', user tk, ''--env'', ''HOME=/publisher'', ''--network'', ''host'',
      ''--volume'', locate tk config @ '':/publisher/.docker/config.json:ro'', ''--volume'', directory tk @ '':/candidate:ro'']"

definition registry_options :: "bool \<Rightarrow> string \<Rightarrow> string list result" where
  "registry_options sandbox wanted =
     (if \<not> sandbox then Inr []
      else if \<not> loopback (registry_of wanted)
      then Inl (ValueError ''Plain HTTP rehearsal is restricted to the disposable loopback registry.'')
      else Inr [''--host'', ''reg='' @ registry_of wanted @ '',tls=disabled''])"

definition digest_reference :: "string \<Rightarrow> object \<Rightarrow> string" where
  "digest_reference wanted rec = wanted @ ''@'' @ plain_text (get rec ''digest'')"

text \<open>The registry answers the digest of the candidate for a tag.\<close>

definition confirm_tag :: "'d tools \<Rightarrow> string list \<Rightarrow> object \<Rightarrow> string \<Rightarrow> ('d host, unit) step" where
  "confirm_tag tk base rec tag =
     bindS (run tk (base @ [''image'', ''digest'', tag])) (\<lambda>out.
       if \<not> json_eq (JStr (py_strip out)) (get rec ''digest'')
       then raiseS (ValueError ''Registry tag differs from the qualified candidate digest.'') else returnS ())"

definition push_tags :: "'d tools \<Rightarrow> string list \<Rightarrow> object \<Rightarrow> string \<Rightarrow> string \<Rightarrow> string \<Rightarrow> ('d host, unit) step" where
  "push_tags tk base rec wanted tag1 tag2 =
     bindS (run tk (base @ [''image'', ''import'', tag1, ''/candidate/'' @ archive_name tk])) (\<lambda>_.
     bindS (confirm_tag tk base rec tag1) (\<lambda>_.
     bindS (run tk (base @ [''image'', ''copy'', digest_reference wanted rec, tag2])) (\<lambda>_.
       confirm_tag tk base rec tag2)))"

subsection \<open>The round trip through the registry\<close>

definition path_le :: "string \<Rightarrow> string \<Rightarrow> bool" where
  "path_le a b \<longleftrightarrow> py_split (CHR ''/'') a \<le> py_split (CHR ''/'') b"

fun layout_files :: "(string \<times> file_kind \<times> bytes) list \<Rightarrow> (string \<times> bytes) list result" where
  "layout_files [] = Inr []"
| "layout_files ((name, kind, b) # es) =
     (if kind = Link then Inl (ValueError ''Registry export contains an unexpected link.'')
      else bindR (layout_files es) (\<lambda>fs. Inr (if kind = RegularFile then (name, b) # fs else fs)))"

definition check_return ::
  "'d tools \<Rightarrow> object \<Rightarrow> object \<Rightarrow> string \<Rightarrow> pairs \<Rightarrow> ('d host, unit) step" where
  "check_return tk rec source version packages =
     bindS (readS (\<lambda>s. layout_files (isort_by (\<lambda>a b. path_le (fst a) (fst b)) (tree tk (Temporary ''publication/layout'') s)))) (\<lambda>fs.
     bindS (write_file (Temporary ''publication/image.tar'') (tar tk fs)) (\<lambda>_.
     bindS (readS (\<lambda>s. bindR (read_bytes (Temporary ''publication/image.tar'') s) (\<lambda>b.
       inspect (libs tk) b source version packages (Some (plain_text (get rec ''digest'')))))) (\<lambda>info.
       if \<exists>(k, v) \<in> set (identity_fields info). \<not> json_eq v (get rec k)
       then raiseS (ValueError ''Registry round-trip changed candidate or attestation identity.'') else returnS ())))"

definition round_trip ::
  "'d tools \<Rightarrow> string list \<Rightarrow> string list \<Rightarrow> string \<Rightarrow> object \<Rightarrow> object \<Rightarrow> string \<Rightarrow> pairs \<Rightarrow> ('d host, unit) step" where
  "round_trip tk base helper wanted rec source version packages =
     finallyS
       (bindS (run tk (base @ [''--volume'', locate tk (Temporary ''publication'') @ '':/roundtrip''] @ helper @
          [''image'', ''copy'', digest_reference wanted rec, ''ocidir:///roundtrip/layout:verified''])) (\<lambda>_.
        bindS (readS (read_json tk (Temporary ''publication/layout/index.json''))) (\<lambda>index.
        bindS (write_json tk (Evidence ''roundtrip-index.json'') index) (\<lambda>_.
          check_return tk rec source version packages))))
       remove_temporary"

subsection \<open>Publication\<close>

text \<open>Seconds of the Unix epoch.\<close>

definition unix_time :: "'d tools \<Rightarrow> 'd host \<Rightarrow> rat" where
  "unix_time tk s = instant tk (world s) - 62135596800"

definition publication_record ::
  "string \<Rightarrow> object \<Rightarrow> string list \<Rightarrow> object \<Rightarrow> string \<Rightarrow> rat \<Rightarrow> object" where
  "publication_record wanted rec tags source helper_id now =
     [(''image'', JStr wanted), (''digest'', get rec ''digest''), (''tags'', JArr (map JStr tags)),
      (''archiveSha256'', get rec ''archiveSha256''), (''source'', JObj source), (''publisherImageId'', JStr helper_id),
      (''publishedAt'', JFloat now), (''passed'', JBool True)]"

definition announce :: "'d tools \<Rightarrow> string \<Rightarrow> object \<Rightarrow> ('d host, unit) step" where
  "announce tk wanted rec =
     bindS (write_file (Evidence ''release-image.env'') (''QUICKAPI_IMAGE='' @ digest_reference wanted rec @ newline)) (\<lambda>_.
       let output = environ_or tk ''GITHUB_OUTPUT'' [] in
       if output = [] then returnS ()
       else append_file (Elsewhere output) (''quickapi-image='' @ digest_reference wanted rec @ newline))"

definition record_publication :: "'d tools \<Rightarrow> bool \<Rightarrow> string \<Rightarrow> object \<Rightarrow> string list \<Rightarrow> object \<Rightarrow> string \<Rightarrow> ('d host, object) step" where
  "record_publication tk sandbox wanted rec tags source helper_id =
     bindS (readS (verify tk)) (\<lambda>_.
     bindS (getS (unix_time tk)) (\<lambda>now.
       let publication = publication_record wanted rec tags source helper_id now in
       bindS (write_json tk (Evidence (if sandbox then ''registry-test.json'' else ''publication.json'')) (JObj publication)) (\<lambda>_.
       bindS (if sandbox then returnS () else announce tk wanted rec) (\<lambda>_. returnS publication))))"

definition publish :: "'d tools \<Rightarrow> string \<Rightarrow> bool \<Rightarrow> place option \<Rightarrow> ('d host, object) step" where
  "publish tk wanted sandbox docker_config =
     bindS (readS (verify tk)) (\<lambda>rec.
     bindS (readS (context_of tk)) (\<lambda>(source, version, packages).
       if \<not> publication_name wanted then raiseS (ValueError ''Invalid publication repository.'')
       else
         (let config = login_file tk docker_config in
          bindS (readS (\<lambda>s. if sandbox then Inr () else check_rehearsal tk source rec wanted s)) (\<lambda>_.
          bindS (readS (check_login tk config)) (\<lambda>_.
          bindS (immutable_id tk (environ_or tk ''REGCTL_IMAGE'' ''ghcr.io/regclient/regctl:latest'')
            ''Invalid immutable publisher identity.'') (\<lambda>helper_id.
          bindS (liftS (registry_options sandbox wanted)) (\<lambda>options.
          bindS (liftS (entry_of source ''sha'')) (\<lambda>sha.
            (let base = publisher_arguments tk config;
                 tag1 = wanted @ '':'' @ str_json (repr_float (libs tk)) sha;
                 tag2 = wanted @ '':'' @ version in
             bindS (push_tags tk (base @ helper_id # options) rec wanted tag1 tag2) (\<lambda>_.
             bindS (round_trip tk base (helper_id # options) wanted rec source version packages) (\<lambda>_.
               record_publication tk sandbox wanted rec [tag1, tag2] source helper_id)))))))))))"

subsection \<open>The rehearsal\<close>

text \<open>Waiting for the disposable registry, with the attempts that are left.\<close>

fun await_registry :: "'d tools \<Rightarrow> string \<Rightarrow> nat \<Rightarrow> ('d host, unit) step" where
  "await_registry tk address 0 = returnS ()"
| "await_registry tk address (Suc n) =
     bindS (http_status tk (''http://'' @ address @ ''/v2/'')) (\<lambda>status.
       if status = Some 200 then returnS ()
       else if n = 0 then raiseS (RuntimeError ''Disposable registry did not become ready.'')
       else bindS (sleep tk (1 / 5)) (\<lambda>_. await_registry tk address n))"

definition rehearse :: "'d tools \<Rightarrow> string \<Rightarrow> string \<Rightarrow> ('d host, unit) step" where
  "rehearse tk registry_id name =
     bindS (run tk [''docker'', ''run'', ''-d'', ''--name'', name, ''--publish'', ''127.0.0.1::5000'', ''--tmpfs'',
       ''/var/lib/registry'', registry_id]) (\<lambda>_.
     bindS (run tk [''docker'', ''port'', name, ''5000/tcp'']) (\<lambda>out.
       (let address = py_strip out in
        if \<not> loopback address then raiseS (ValueError ''Disposable registry must publish only to loopback.'')
        else
          bindS (await_registry tk address 30) (\<lambda>_.
            finallyS
              (bindS (write_file (Temporary ''auth/config.json'') (''{'' @ [CHR 0x22] @ ''auths'' @ [CHR 0x22] @ '': {}}'')) (\<lambda>_.
               bindS (publish tk (address @ ''/quickapi/rehearsal'') True (Some (Temporary ''auth/config.json''))) (\<lambda>_. returnS ())))
              remove_temporary))))"

definition registry_test :: "'d tools \<Rightarrow> ('d host, unit) step" where
  "registry_test tk =
     bindS (readS (verify tk)) (\<lambda>_.
     bindS (getS (\<lambda>s. ''quickapi-release-'' @ unique tk (world s))) (\<lambda>name.
     bindS (immutable_id tk ''registry:3'' ''Invalid registry test image identity.'') (\<lambda>registry_id.
       finallyS (rehearse tk registry_id name)
         (bindS (run tk [''docker'', ''rm'', ''--force'', ''--volumes'', name]) (\<lambda>_. returnS ())))))"

subsection \<open>The script\<close>

definition publish_main :: "'d tools \<Rightarrow> string \<Rightarrow> ('d host, int) step" where
  "publish_main tk mode =
     reported tk mode
       (if mode = ''registry-test'' then registry_test tk
        else
          bindS (unlink (Evidence ''release-image.env'')) (\<lambda>_.
          bindS (unlink (Evidence ''publication.json'')) (\<lambda>_.
          bindS (liftS (case environment tk ''RELEASE_IMAGE'' of Some i \<Rightarrow> Inr i | None \<Rightarrow> Inl (KeyError ''RELEASE_IMAGE''))) (\<lambda>i.
          bindS (publish tk i False None) (\<lambda>_. returnS ())))))"

subsection \<open>What a publication has established\<close>

text \<open>In the course from \<open>s\<close> to \<open>t\<close> the registry was asked for the digest of a tag, and answered it.\<close>

definition answered :: "'d tools \<Rightarrow> string \<Rightarrow> json \<Rightarrow> 'd host \<Rightarrow> 'd host \<Rightarrow> bool" where
  "answered tk tag digest s t \<longleftrightarrow> (\<exists>args out err u v. reaches tk s u \<and>
     exec tk (args @ [''image'', ''digest'', tag]) u = (Inr (0, out, err), v) \<and> digest = JStr (py_strip out) \<and> reaches tk v t)"

lemma answered_widen: "answered tk tag d s t \<Longrightarrow> reaches tk r s \<Longrightarrow> reaches tk t u \<Longrightarrow> answered tk tag d r u"
  unfolding answered_def by (elim exE conjE) (rule exI, rule exI, rule exI, rule exI, rule exI,
    rule conjI, rule reaches_trans, assumption, assumption, rule conjI, assumption, rule conjI, assumption,
    rule reaches_trans, assumption, assumption)

lemma run_evolves [intro]: "evolves tk (run tk args)"
  unfolding run_def by blast

lemma confirm_tag_Inr:
  assumes "confirm_tag tk base rec tag s = (Inr (), s')"
  shows "answered tk tag (get rec ''digest'') s s'"
proof -
  obtain out where "run tk (base @ [''image'', ''digest'', tag]) s = (Inr out, s')" "get rec ''digest'' = JStr (py_strip out)"
    using assms by (auto simp: confirm_tag_def bindS_Inr split: if_splits)
  then show ?thesis using run_logged_Inr reaches.stay unfolding run_def answered_def by metis
qed

lemma evolves_confirm [intro]: "evolves tk (confirm_tag tk base rec tag)"
  unfolding confirm_tag_def by (intro evolves_bindS) auto

lemma push_tags_Inr:
  assumes "push_tags tk base rec wanted tag1 tag2 s = (Inr (), s')" "tag \<in> {tag1, tag2}"
  shows "answered tk tag (get rec ''digest'') s s'"
proof -
  obtain s1 s2 s3 o1 o3 where steps: "run tk (base @ [''image'', ''import'', tag1, ''/candidate/'' @ archive_name tk]) s = (Inr o1, s1)"
      "confirm_tag tk base rec tag1 s1 = (Inr (), s2)"
      "run tk (base @ [''image'', ''copy'', digest_reference wanted rec, tag2]) s2 = (Inr o3, s3)"
      "confirm_tag tk base rec tag2 s3 = (Inr (), s')"
    using assms(1) by (auto simp: push_tags_def bindS_Inr)
  have r: "reaches tk s s1" "reaches tk s1 s2" "reaches tk s2 s3" "reaches tk s3 s'"
    using steps evolvesD [OF run_evolves] evolvesD [OF evolves_confirm] by blast+
  show ?thesis
  proof (cases "tag = tag1")
    case True
    have "reaches tk s2 s'" using r(3,4) reaches_trans by blast
    then show ?thesis using answered_widen [OF confirm_tag_Inr [OF steps(2)] r(1)] True by simp
  next
    case False
    have "reaches tk s s3" using r(1-3) reaches_trans by blast
    then show ?thesis using answered_widen [OF confirm_tag_Inr [OF steps(4)] _ reaches.stay] False assms(2) by auto
  qed
qed

lemma check_return_Inr:
  assumes "check_return tk rec source version packages s = (Inr (), s')"
  shows "\<exists>fs info. inspect (libs tk) (tar tk fs) source version packages (Some (plain_text (get rec ''digest''))) = Inr info \<and>
    names_candidate rec info"
  using assms
  by (auto simp: check_return_def bindS_Inr bindR_eq_Inr read_bytes_def identity_fields_def names_candidate_def split: if_splits)

lemma round_trip_Inr:
  assumes "round_trip tk base helper wanted rec source version packages s = (Inr (), s')"
  shows "\<exists>fs info. inspect (libs tk) (tar tk fs) source version packages (Some (plain_text (get rec ''digest''))) = Inr info \<and>
    names_candidate rec info"
  using assms by (auto simp: round_trip_def finallyS_Inr bindS_Inr dest!: check_return_Inr)

lemma evolves_push [intro]: "evolves tk (push_tags tk base rec wanted tag1 tag2)"
  unfolding push_tags_def by (intro evolves_bindS) auto

lemma evolves_check_return [intro]: "evolves tk (check_return tk rec source version packages)"
  unfolding check_return_def by (intro evolves_bindS) auto

lemma evolves_round_trip [intro]: "evolves tk (round_trip tk base helper wanted rec source version packages)"
  unfolding round_trip_def by (intro evolves_finallyS evolves_bindS) auto

lemma evolves_immutable [intro]: "evolves tk (immutable_id tk reference message)"
  unfolding immutable_id_def by (intro evolves_bindS) auto

lemma evolves_record [intro]: "evolves tk (record_publication tk sandbox wanted rec tags source helper_id)"
  unfolding record_publication_def announce_def Let_def by (intro evolves_bindS) (auto simp: Let_def intro!: evolves_bindS)

lemma record_publication_Inr:
  assumes "record_publication tk sandbox wanted rec tags source helper_id s = (Inr pub, s')"
  shows "pub = publication_record wanted rec tags source helper_id (unix_time tk s)" "\<exists>rec'. verify tk s = Inr rec'"
    "\<not> sandbox \<Longrightarrow> files s' (Evidence ''release-image.env'') = Some (''QUICKAPI_IMAGE='' @ digest_reference wanted rec @ newline)"
    "\<not> sandbox \<Longrightarrow> holds_json tk (Evidence ''publication.json'') (JObj pub) s'"
  using assms
  by (auto simp: record_publication_def announce_def bindS_Inr Let_def append_file_def holds_json_def split: if_splits)

lemma publish_Inr:
  assumes "publish tk wanted sandbox config s = (Inr pub, s')"
  obtains rec source version packages helper_id base helper tag1 tag2 s1 s2 s3 where
    "verify tk s = Inr rec" "context_of tk s = Inr (source, version, packages)"
    "\<not> sandbox \<Longrightarrow> check_rehearsal tk source rec wanted s = Inr ()"
    "tag2 = wanted @ '':'' @ version" "\<And>sha. get source ''sha'' = JStr sha \<Longrightarrow> tag1 = wanted @ '':'' @ sha" "reaches tk s s1"
    "push_tags tk (base @ helper) rec wanted tag1 tag2 s1 = (Inr (), s2)"
    "round_trip tk base helper wanted rec source version packages s2 = (Inr (), s3)"
    "record_publication tk sandbox wanted rec [tag1, tag2] source helper_id s3 = (Inr pub, s')"
proof -
  let ?config = "login_file tk config"
  obtain rec source version packages helper_id s1 options sha where p: "verify tk s = Inr rec"
      "context_of tk s = Inr (source, version, packages)" "\<not> sandbox \<Longrightarrow> check_rehearsal tk source rec wanted s = Inr ()"
      "immutable_id tk (environ_or tk ''REGCTL_IMAGE'' ''ghcr.io/regclient/regctl:latest'') ''Invalid immutable publisher identity.'' s =
        (Inr helper_id, s1)" "entry_of source ''sha'' = Inr sha"
    and r: "(let base = publisher_arguments tk ?config; tag1 = wanted @ '':'' @ str_json (repr_float (libs tk)) sha;
        tag2 = wanted @ '':'' @ version in
      bindS (push_tags tk (base @ helper_id # options) rec wanted tag1 tag2) (\<lambda>_.
      bindS (round_trip tk base (helper_id # options) wanted rec source version packages) (\<lambda>_.
        record_publication tk sandbox wanted rec [tag1, tag2] source helper_id))) s1 = (Inr pub, s')"
    using assms unfolding publish_def
    by (auto simp: bindS_Inr Let_def split: if_splits) blast+
  have "get source ''sha'' = JStr t \<Longrightarrow> str_json (repr_float (libs tk)) sha = t" for t
    using entry_of_get [OF p(5)] by (simp add: str_json_def)
  note sha = this
  let ?tag1 = "wanted @ '':'' @ str_json (repr_float (libs tk)) sha" and ?tag2 = "wanted @ '':'' @ version"
  obtain s2 s3 where t: "push_tags tk (publisher_arguments tk ?config @ helper_id # options) rec wanted ?tag1 ?tag2 s1 = (Inr (), s2)"
      "round_trip tk (publisher_arguments tk ?config) (helper_id # options) wanted rec source version packages s2 = (Inr (), s3)"
      "record_publication tk sandbox wanted rec [?tag1, ?tag2] source helper_id s3 = (Inr pub, s')"
    using r by (auto simp: Let_def bindS_Inr)
  show thesis
    by (rule that [OF p(1-3) refl _ evolvesD [OF evolves_immutable p(4)] t]) (auto simp: sha)
qed

lemma same_fields_rehearsal:
  assumes "check_rehearsal tk source rec wanted s = Inr ()" "names_candidate rec info" "get rec ''archiveSha256'' = JStr h"
  shows "get source ''image'' = JStr wanted" "\<exists>rehearsal. read_json tk (Evidence ''registry-test.json'') s = Inr (JObj rehearsal) \<and>
    get rehearsal ''passed'' = JBool True \<and> get rehearsal ''digest'' = JStr (oi_digest info) \<and> get rehearsal ''archiveSha256'' = JStr h"
proof -
  obtain rehearsal own where r: "read_json tk (Evidence ''registry-test.json'') s = Inr (JObj rehearsal)"
      "entry_of source ''image'' = Inr own" "own = JStr wanted" "get rehearsal ''passed'' = JBool True"
      "same_fields rehearsal rec [''digest'', ''archiveSha256''] = Inr True"
    using assms(1) by (auto simp: check_rehearsal_def Let_def bindR_eq_Inr json_mapping_Inr simp del: same_fields.simps split: if_splits)
  show "get source ''image'' = JStr wanted" using entry_of_get r(2,3) by simp
  have "get rec ''digest'' = JStr (oi_digest info)" using assms(2) by (simp add: names_candidate_def)
  then show "\<exists>rehearsal. read_json tk (Evidence ''registry-test.json'') s = Inr (JObj rehearsal) \<and>
    get rehearsal ''passed'' = JBool True \<and> get rehearsal ''digest'' = JStr (oi_digest info) \<and> get rehearsal ''archiveSha256'' = JStr h"
    using r(1,4) same_fields_get [OF r(5), of "''digest''"] same_fields_get [OF r(5) _ assms(3)] by auto
qed

text \<open>The failure of an attempt, and what it does to later ones.\<close>

lemma reported_cases:
  assumes "reported tk mode m s = (Inr rc, s')"
  shows "(rc = 0 \<and> m s = (Inr (), s')) \<or> (rc = 1 \<and> files s' (Evidence ''failure.json'') \<noteq> None)"
  using assms by (auto simp: reported_def tryS_def bindS_def split: prod.splits sum.splits if_splits)

lemma refused_step:
  assumes "m t = (Inl (ValueError e), t1)"
  shows "reported tk mode m t = (Inr 1, t1 \<lparr>files := (files t1)(Evidence ''failure.json'' \<mapsto> dumps tk (stage_failure tk mode (ValueError e)) @ newline)\<rparr>)"
  using assms by (simp add: reported_def tryS_def bindS_def)

lemma verify_failed: "files t (Evidence ''failure.json'') \<noteq> None \<Longrightarrow> verify tk t = Inl (ValueError ''A failed release attempt cannot publish.'')"
  by (simp add: verify_def absent_def)

lemma candidate_refused:
  assumes "files t (Evidence ''failure.json'') \<noteq> None"
  shows "\<exists>t'. candidate_main tk m t = (Inr 1, t') \<and> world t' = world t"
proof -
  have q: "qualify tk t = (Inl (ValueError ''Release qualification requires fresh evidence.''), t)"
    using assms by (simp add: qualify_def absent_def stale_names_def bindS_def)
  have "bindS (readS (verify tk)) (\<lambda>_. returnS ()) t = (Inl (ValueError ''A failed release attempt cannot publish.''), t)"
    using verify_failed [OF assms] by (simp add: bindS_def)
  then show ?thesis using refused_step [of "qualify tk" t] refused_step [of "bindS (readS (verify tk)) (\<lambda>_. returnS ())" t] q
    by (simp add: candidate_main_def)
qed

lemma publish_refused:
  assumes "files t (Evidence ''failure.json'') \<noteq> None"
  shows "publish tk wanted sandbox config t = (Inl (ValueError ''A failed release attempt cannot publish.''), t)"
    "registry_test tk t = (Inl (ValueError ''A failed release attempt cannot publish.''), t)"
  using verify_failed [OF assms] by (simp_all add: publish_def registry_test_def bindS_def)

lemma publisher_refused:
  assumes "files t (Evidence ''failure.json'') \<noteq> None"
  shows "\<exists>t'. publish_main tk m t = (Inr 1, t') \<and> world t' = world t \<and>
    (m = ''publish'' \<longrightarrow> files t' (Evidence ''publication.json'') = None \<and> files t' (Evidence ''release-image.env'') = None)"
proof (cases "m = ''registry-test''")
  case True
  then show ?thesis using refused_step [of "registry_test tk" t, OF publish_refused(2) [OF assms]] by (simp add: publish_main_def)
next
  case False
  let ?t1 = "t \<lparr>files := (files t)(Evidence ''release-image.env'' := None, Evidence ''publication.json'' := None)\<rparr>"
  have "files ?t1 (Evidence ''failure.json'') \<noteq> None" using assms by simp
  note p = publish_refused(1) [OF this]
  have "is_exception (KeyError k)" for k by simp
  then show ?thesis using p False
    by (cases "environment tk ''RELEASE_IMAGE''") (simp_all add: publish_main_def reported_def tryS_def bindS_def)
qed

subsection \<open>Properties\<close>


text \<open>A publication of the example.\<close>

lemma demo_publish_run:
  assumes "release_ready s"
  shows "\<exists>s'. run demo_releaser args s = (Inr (''sha256:'' @ demo_hash ''index''), s') \<and> release_ready s' \<and>
    files s' (Temporary ''publication/layout/index.json'') = Some ''{}''"
  using assms by (simp add: run_def run_logged_def bindS_def demo_releaser_def append_file_def release_ready_def demo_evidence_def)

lemma demo_publish_parts:
  "py_strip (''sha256:'' @ demo_hash ''index'') = ''sha256:'' @ demo_hash ''index''" "is_digest (''sha256:'' @ demo_hash ''index'')"
  "publication_name ''ghcr.io/me/api''"
  by code_simp+

lemma demo_empty_json: "files s p = Some ''{}'' \<Longrightarrow> read_json demo_releaser p s = Inr (JObj [])"
  using demo_release_text [of "''{}''"]
  by (simp add: read_json_def read_text_def read_bytes_def demo_releaser_def demo_tools_def demo_loads_def demo_bodies_def
      demo_object_def unique_fields_def)

lemma demo_immutable:
  assumes "release_ready s"
  shows "\<exists>s'. immutable_id demo_releaser i m s = (Inr (''sha256:'' @ demo_hash ''index''), s') \<and> release_ready s'"
proof -
  obtain s1 where 1: "run demo_releaser [''docker'', ''pull'', i] s = (Inr (''sha256:'' @ demo_hash ''index''), s1)" "release_ready s1"
    using demo_publish_run [OF assms] by blast
  obtain s2 where 2: "run demo_releaser [''docker'', ''image'', ''inspect'', ''--format'', ''{{.Id}}'', i] s1 =
      (Inr (''sha256:'' @ demo_hash ''index''), s2)" "release_ready s2"
    using demo_publish_run [OF 1(2)] by blast
  show ?thesis using 1 2 demo_publish_parts by (simp add: immutable_id_def)
qed

lemma demo_confirm:
  assumes "release_ready s"
  shows "\<exists>s'. confirm_tag demo_releaser base demo_record tag s = (Inr (), s') \<and> release_ready s'"
proof -
  obtain s1 where 1: "run demo_releaser (base @ [''image'', ''digest'', tag]) s = (Inr (''sha256:'' @ demo_hash ''index''), s1)" "release_ready s1"
    using demo_publish_run [OF assms] by blast
  then show ?thesis using demo_publish_parts(1) by (simp add: confirm_tag_def demo_record_get)
qed

lemma demo_push:
  assumes "release_ready s"
  shows "\<exists>s'. push_tags demo_releaser base demo_record wanted tag1 tag2 s = (Inr (), s') \<and> release_ready s'"
proof -
  obtain s1 o1 where 1: "run demo_releaser (base @ [''image'', ''import'', tag1, ''/candidate/'' @ archive_name demo_releaser]) s = (Inr o1, s1)"
      "release_ready s1" using demo_publish_run [OF assms] by blast
  obtain s2 where 2: "confirm_tag demo_releaser base demo_record tag1 s1 = (Inr (), s2)" "release_ready s2"
    using demo_confirm [OF 1(2)] by blast
  obtain s3 o3 where 3: "run demo_releaser (base @ [''image'', ''copy'', digest_reference wanted demo_record, tag2]) s2 = (Inr o3, s3)"
      "release_ready s3" using demo_publish_run [OF 2(2)] by blast
  obtain s4 where 4: "confirm_tag demo_releaser base demo_record tag2 s3 = (Inr (), s4)" "release_ready s4"
    using demo_confirm [OF 3(2)] by blast
  show ?thesis using 1 2 3 4 by (simp add: push_tags_def)
qed

lemma demo_round_trip:
  assumes "release_ready s"
  shows "\<exists>s'. round_trip demo_releaser base helper wanted demo_record demo_source ''1.0.0'' [(''lib-x'', ''1.0'')] s = (Inr (), s') \<and> release_ready s'"
proof -
  obtain s1 o1 where 1: "run demo_releaser (base @ [''--volume'', locate demo_releaser (Temporary ''publication'') @ '':/roundtrip''] @ helper @
          [''image'', ''copy'', digest_reference wanted demo_record, ''ocidir:///roundtrip/layout:verified'']) s = (Inr o1, s1)"
      "release_ready s1" "files s1 (Temporary ''publication/layout/index.json'') = Some ''{}''"
    using demo_publish_run [OF assms] by blast
  have t: "tree demo_releaser p u = []" "tar demo_releaser fs = ''a''" for p u fs by (simp_all add: demo_releaser_def)
  have i: "inspect (libs demo_releaser) ''a'' demo_source ''1.0.0'' [(''lib-x'', ''1.0'')] (Some (plain_text (get demo_record ''digest''))) = Inr demo_info"
    unfolding demo_info_def demo_releaser_def tools.simps by (rule demo_inspect) (simp_all add: demo_record_get plain_text_def)
  have n: "\<not> (\<exists>(k, v) \<in> set (identity_fields demo_info). \<not> json_eq v (get demo_record k))"
    by (simp add: identity_fields_def demo_info_def demo_record_get)
  show ?thesis
    using 1 i n demo_empty_json [OF 1(3)]
    by (simp add: round_trip_def finallyS_def check_return_def bindS_def t isort_by_def read_bytes_def remove_temporary_def)
      (simp add: release_ready_def demo_evidence_def)
qed

lemma demo_publication: "\<exists>pub s'. publish demo_releaser ''ghcr.io/me/api'' False None demo_release = (Inr pub, s')"
proof -
  let ?config = "login_file demo_releaser None" and ?rec = demo_record and ?id = "''sha256:'' @ demo_hash ''index''"
  note ready = release_ready_demo and v = demo_verify [OF release_ready_demo] and c = demo_context [OF release_ready_demo]
  have "read_json demo_releaser (Evidence ''registry-test.json'') demo_release = Inr (JObj [(''passed'', JBool True),
      (''digest'', JStr ?id), (''archiveSha256'', JStr (demo_hash ''a''))])"
    by (rule demo_release_json [OF release_ready_files(4) [OF ready]]) (simp add: demo_texts_def)
  moreover have "entry_of ?rec ''digest'' = Inr (JStr ?id)" "entry_of ?rec ''archiveSha256'' = Inr (JStr (demo_hash ''a''))"
    by (simp_all add: demo_record_def demo_identity_def entry_of_def)
  moreover have src: "entry_of demo_source ''image'' = Inr (JStr ''ghcr.io/me/api'')" "\<exists>sha. entry_of demo_source ''sha'' = Inr sha"
    by (simp_all add: demo_source_def entry_of_def)
  ultimately have rehearsal: "check_rehearsal demo_releaser demo_source ?rec ''ghcr.io/me/api'' demo_release = Inr ()"
    by (simp add: check_rehearsal_def get_def get_or_def)
  have cfg: "files demo_release ?config = Some ''{}''"
    by (simp add: login_file_def demo_release_def demo_file.simps(4))
  then have login: "check_login demo_releaser ?config demo_release = Inr ()"
    using demo_empty_json [OF cfg] by (simp add: check_login_def absent_def get_def get_or_def)
  obtain sha where sha: "entry_of demo_source ''sha'' = Inr sha" using src(2) by blast
  obtain s1 where 1: "immutable_id demo_releaser (environ_or demo_releaser ''REGCTL_IMAGE'' ''ghcr.io/regclient/regctl:latest'')
      ''Invalid immutable publisher identity.'' demo_release = (Inr ?id, s1)" "release_ready s1"
    using demo_immutable [OF ready] by blast
  let ?tag1 = "''ghcr.io/me/api'' @ '':'' @ str_json (repr_float (libs demo_releaser)) sha" and ?tag2 = "''ghcr.io/me/api'' @ '':'' @ ''1.0.0''"
  obtain s2 where 2: "push_tags demo_releaser (publisher_arguments demo_releaser ?config @ ?id # []) ?rec ''ghcr.io/me/api'' ?tag1 ?tag2 s1 =
      (Inr (), s2)" "release_ready s2"
    using demo_push [OF 1(2)] by blast
  obtain s3 where 3: "round_trip demo_releaser (publisher_arguments demo_releaser ?config) (?id # []) ''ghcr.io/me/api'' ?rec demo_source ''1.0.0''
      [(''lib-x'', ''1.0'')] s2 = (Inr (), s3)" "release_ready s3"
    using demo_round_trip [OF 2(2)] by blast
  have "\<exists>pub s'. record_publication demo_releaser False ''ghcr.io/me/api'' ?rec [?tag1, ?tag2] demo_source ?id s3 = (Inr pub, s')"
    using demo_verify [OF 3(2)] by (simp add: record_publication_def announce_def bindS_def Let_def append_file_def)
  then show ?thesis
    unfolding publish_def
    using v c demo_publish_parts(3) rehearsal login 1(1) sha 2(1) 3(1)
    by (simp add: bindS_def registry_options_def Let_def)
qed


text \<open>
  Property C39. A failed attempt is final: once qualification, verification, rehearsal or publication
  has failed, the failure it records refuses every later attempt on the evidence, before any tool
  is run, and a later attempt to publish leaves no record of a publication and no image file.
\<close>

theorem failed_attempt_final:
  assumes "candidate_main tk mode s = (Inr 1, s') \<or> publish_main tk mode s = (Inr 1, s')"
    and "files t (Evidence ''failure.json'') = files s' (Evidence ''failure.json'')"
  shows "isl (verify tk t) \<and> (\<exists>t'. candidate_main tk m t = (Inr 1, t') \<and> world t' = world t) \<and>
    (\<exists>t'. publish_main tk m t = (Inr 1, t') \<and> world t' = world t \<and>
      (m = ''publish'' \<longrightarrow> files t' (Evidence ''publication.json'') = None \<and> files t' (Evidence ''release-image.env'') = None))"
proof -
  have "files s' (Evidence ''failure.json'') \<noteq> None"
    using assms(1) reported_cases unfolding candidate_main_def publish_main_def by fastforce
  then have "files t (Evidence ''failure.json'') \<noteq> None" using assms(2) by simp
  then show ?thesis using candidate_refused publisher_refused verify_failed by (metis isl_def)
qed

theorem failed_attempt_final_witness:
  "isl (verify demo_releaser (snd (candidate_main demo_releaser ''qualify'' demo_release)))"
proof -
  have "demo_file (Evidence ''candidate.json'') \<noteq> None" using demo_file_names(2) by simp
  then have "qualify demo_releaser demo_release = (Inl (ValueError ''Release qualification requires fresh evidence.''), demo_release)"
    by (simp add: qualify_def absent_def stale_names_def bindS_def demo_release_def)
  from refused_step [of "qualify demo_releaser" demo_release, OF this] obtain s' where s': "candidate_main demo_releaser ''qualify'' demo_release = (Inr 1, s')"
    by (simp add: candidate_main_def)
  from failed_attempt_final [of demo_releaser "''qualify''" demo_release s' s' "''verify''"] s' show ?thesis by simp
qed

end
