(* ===== verification/TransactionalRoute.thy ===== *)
theory TransactionalRoute
  imports Idempotency Json
begin

text \<open>
  The route class around transactional endpoints (\<^verbatim>\<open>common/handlers/application_route.py\<close>): which
  endpoints may be idempotent, the input that is fingerprinted, and which requests the transaction
  of \<open>Idempotency.handle\<close> serves. The dependency tree is the one FastAPI has resolved for the endpoint.
\<close>

subsection \<open>Declared inputs\<close>

datatype body_info = FormInfo | BodyInfo string | OtherInfo

record input_field =
  in_name :: string
  in_alias :: string
  in_info :: body_info

record dependant_params =
  request_param_name :: "string option"
  http_connection_param_name :: "string option"
  header_params :: "input_field list"
  cookie_params :: "input_field list"
  body_params :: "input_field list"
  path_params :: "input_field list"
  query_params :: "input_field list"

datatype dependant = Dependant (params: dependant_params) (dependencies: "dependant list")

definition named :: "string option \<Rightarrow> bool" where
  "named n \<longleftrightarrow> n \<noteq> None \<and> n \<noteq> Some []"

text \<open>\<^verbatim>\<open>re.findall(r'{([^}]+)}', path)\<close>\<close>

function placeholders :: "string \<Rightarrow> string list" where
  "placeholders [] = []"
| "placeholders (c # cs) =
     (let name = takeWhile (\<lambda>x. x \<noteq> CHR ''}'') cs; rest = dropWhile (\<lambda>x. x \<noteq> CHR ''}'') cs in
      if c = CHR ''{'' \<and> name \<noteq> [] \<and> rest \<noteq> [] then name # placeholders (tl rest) else placeholders cs)"
  by pat_completeness auto

termination
  by (relation "measure length") (auto simp: less_Suc_eq_le intro: order_trans [OF diff_le_self length_dropWhile_le])

definition json_body :: "input_field \<Rightarrow> bool" where
  "json_body f \<longleftrightarrow>
     (case in_info f of BodyInfo media \<Rightarrow> media = ''application/json'' \<or> removesuffix ''+json'' media \<noteq> media | _ \<Rightarrow> False)"

definition unique_aliases :: "input_field list \<Rightarrow> bool" where
  "unique_aliases fs \<longleftrightarrow> distinct (map in_alias fs)"

definition has_inputs :: "dependant_params \<Rightarrow> bool" where
  "has_inputs p \<longleftrightarrow> body_params p \<noteq> [] \<or> path_params p \<noteq> [] \<or> query_params p \<noteq> []"

lemma dependencies_size: "sum_list (map size (dependencies d)) < size d"
  by (cases d) (simp add: size_list_conv_sum_list)

lemma pending_size: "pending \<noteq> [] \<Longrightarrow>
    sum_list (map size (butlast pending @ dependencies (last pending))) < sum_list (map size pending)"
  using dependencies_size [of "last pending"] by (cases pending rule: rev_cases) auto

text \<open>The stack of dependencies that are still to be looked at.\<close>

function check_dependencies :: "dependant list \<Rightarrow> unit result" where
  "check_dependencies pending =
     (if pending = [] then Inr ()
      else if has_inputs (params (last pending))
      then Inl (RuntimeError (''Idempotent body/path/query inputs must be declared directly on the endpoint; '' @
        ''dependencies may provide authorization and services, not hidden mutation inputs.''))
      else check_dependencies (butlast pending @ dependencies (last pending)))"
  by auto

termination
  by (relation "measure (\<lambda>ds. sum_list (map size ds))") (use pending_size in auto)

declare check_dependencies.simps [simp del]

definition validate_idempotent_inputs :: "dependant \<Rightarrow> string \<Rightarrow> unit result" where
  "validate_idempotent_inputs dep path =
     (let p = params dep in
      if named (request_param_name p) \<or> named (http_connection_param_name p) \<or> header_params p \<noteq> [] \<or> cookie_params p \<noteq> []
      then Inl (RuntimeError (''Idempotent endpoints must declare business inputs as body/path/query parameters, not raw requests, '' @
        ''headers or cookies. Use dependencies for authorization and services.''))
      else if \<not> set (placeholders path) \<subseteq> set (map in_alias (path_params p))
      then Inl (RuntimeError ''Every idempotent route path parameter must be declared on its endpoint.'')
      else if \<not> (unique_aliases (body_params p) \<and> unique_aliases (path_params p) \<and> unique_aliases (query_params p))
      then Inl (RuntimeError ''Idempotent input parameter aliases must be unique within each input category.'')
      else if \<not> list_all json_body (body_params p)
      then Inl (RuntimeError ''Idempotent routes support declared JSON bodies only.'')
      else check_dependencies (dependencies dep))"

subsection \<open>Routes\<close>

datatype marker = Policy IdempotencyPolicy | OtherMarker

record endpoint =
  ep_marker :: "marker option"
  ep_transactional :: bool

definition transactional :: "endpoint \<Rightarrow> endpoint" where
  "transactional ep = ep \<lparr>ep_transactional := True\<rparr>"

text \<open>\<open>caller\<close> is the declared scope unless that is a function.\<close>

definition idempotent :: "string \<Rightarrow> string option \<Rightarrow> string option \<Rightarrow> endpoint \<Rightarrow> endpoint result" where
  "idempotent operation path caller ep =
     bindR (make_idempotency_policy operation path caller) (\<lambda>pol. Inr (ep \<lparr>ep_marker := Some (Policy pol)\<rparr>))"

datatype response_class = Placeholder string | Explicit string

definition route_response_class :: "response_class option \<Rightarrow> string" where
  "route_response_class given =
     (case given of None \<Rightarrow> ''JSONResponse'' | Some (Placeholder c) \<Rightarrow> c | Some (Explicit c) \<Rightarrow> c)"

definition error_doc :: "string \<Rightarrow> json" where
  "error_doc description = JObj [(''description'', JStr description), (''model'', JStr ''ErrorResponse'')]"

definition route_responses :: "endpoint \<Rightarrow> (int \<times> json) list option \<Rightarrow> (int \<times> json) list option" where
  "route_responses ep given =
     (if ep_marker ep = None then given
      else Some (fold (\<lambda>(st, doc) d. od_set st doc d) (case given of Some rs \<Rightarrow> rs | None \<Rightarrow> [])
        [(400, error_doc ''Invalid or duplicate Idempotency-Key header.''),
         (409, error_doc ''Idempotency-Key input conflict or matching request already processing.'')]))"

definition key_pattern :: string where
  "key_pattern = ''^['' @ [CHR 0x5C] @ ''x21-'' @ [CHR 0x5C] @ ''x2b'' @ [CHR 0x5C] @ ''x2d-'' @ [CHR 0x5C] @ ''x7e]+$''"

definition key_parameter :: json where
  "key_parameter = JObj [(''in'', JStr ''header''), (''name'', JStr ''Idempotency-Key''), (''required'', JBool False),
     (''description'', JStr (''Optional durable mutation retry key. Reuse the original key and validated input, '' @
       ''including expected_version.'')),
     (''schema'', JObj [(''type'', JStr ''string''), (''minLength'', JInt 1), (''maxLength'', JInt 128), (''pattern'', JStr key_pattern)])]"

text \<open>The parameters of a document are objects whose names are texts.\<close>

definition key_documented :: "json \<Rightarrow> bool" where
  "key_documented parameter \<longleftrightarrow>
     (case parameter of JObj fs \<Rightarrow> py_lower (plain_text (get_or fs ''name'' (JStr []))) = ''idempotency-key'' | _ \<Rightarrow> False)"

definition document_key :: "object \<Rightarrow> object" where
  "document_key extra =
     (let parameters = (case get_or extra ''parameters'' (JArr []) of JArr ps \<Rightarrow> ps | _ \<Rightarrow> []);
          parameters' = (if list_ex key_documented parameters then parameters else parameters @ [key_parameter]) in
      od_set ''parameters'' (JArr parameters') extra)"

text \<open>What building the handler of a route checks, and the extra documentation it leaves.\<close>

definition configure_route :: "endpoint \<Rightarrow> dependant \<Rightarrow> string \<Rightarrow> object option \<Rightarrow> object option result" where
  "configure_route ep dep path extra =
     (case ep_marker ep of
        None \<Rightarrow> Inr extra
      | Some m \<Rightarrow>
          if m = OtherMarker \<or> \<not> ep_transactional ep
          then Inl (RuntimeError ''Idempotency requires a transactional JSON route.'')
          else
            bindR (validate_idempotent_inputs dep path) (\<lambda>_.
              Inr (Some (document_key (case extra of Some e \<Rightarrow> e | None \<Rightarrow> [])))))"

subsection \<open>The input of a mutation\<close>

text \<open>A dictionary from the aliases of fields; FastAPI passes a value for every declared field.\<close>

definition field_values :: "input_field list \<Rightarrow> (string \<Rightarrow> val) \<Rightarrow> (string \<times> val) list" where
  "field_values fs vals = fold (\<lambda>f d. od_set (in_alias f) (vals (in_name f)) d) fs []"

definition body_value :: "input_field list \<Rightarrow> (string \<Rightarrow> val) \<Rightarrow> val" where
  "body_value fs vals =
     (case fs of [] \<Rightarrow> VNone | [f] \<Rightarrow> vals (in_name f) | _ \<Rightarrow> VMap (field_values fs vals))"

definition mapping_value :: "input_field list \<Rightarrow> (string \<Rightarrow> val) \<Rightarrow> val" where
  "mapping_value fs vals = (if fs = [] then VNone else VMap (field_values fs vals))"

definition input_value :: "dependant \<Rightarrow> (string \<Rightarrow> val) \<Rightarrow> val" where
  "input_value dep vals =
     VMap [(''body'', body_value (body_params (params dep)) vals), (''params'', mapping_value (path_params (params dep)) vals),
       (''query'', mapping_value (query_params (params dep)) vals)]"

subsection \<open>Ownership\<close>

text \<open>The entry of the scope that holds the activity of a request.\<close>

datatype activity_entry = NoActivity | Activity RequestActivity | ForeignActivity

definition request_activity :: "activity_entry \<Rightarrow> RequestActivity result \<times> activity_entry" where
  "request_activity e =
     (case e of
        NoActivity \<Rightarrow> (Inr new_activity, Activity new_activity)
      | Activity a \<Rightarrow> (Inr a, e)
      | ForeignActivity \<Rightarrow> (Inl (RuntimeError ''Invalid request activity owner.''), e))"

text \<open>
  A keyed execution pins the connection of its session: \<open>connect\<close> opens the connection and \<open>close\<close> leaves
  its block, \<open>unlock\<close> is told whether \<open>body\<close> failed.
\<close>

datatype binding = EngineBinding | ConnectionBinding | OtherBinding

record 's pinned =
  session_bind :: binding
  pinned_state :: 's

definition onS :: "('s, 'a) step \<Rightarrow> ('s pinned, 'a) step" where
  "onS m s = (case m (pinned_state s) of (r, t) \<Rightarrow> (r, s \<lparr>pinned_state := t\<rparr>))"

definition pinned_execution ::
  "('s, unit) step \<Rightarrow> ('s, unit) step \<Rightarrow> (bool \<Rightarrow> ('s, unit) step) \<Rightarrow> ('s, 'a) step \<Rightarrow> ('s pinned, 'a) step" where
  "pinned_execution connect close unlock body s =
     (if session_bind s \<noteq> EngineBinding
      then (Inl (RuntimeError ''Idempotent HTTP execution requires a request-owned engine session.''), s)
      else
        bindS (onS connect) (\<lambda>_.
          finallyS
            (\<lambda>s. (case onS body (s \<lparr>session_bind := ConnectionBinding\<rparr>) of (r, s') \<Rightarrow>
               finallyS (finallyS (\<lambda>s. (r, s)) (onS (unlock (isl r)))) (modifyS (\<lambda>s. s \<lparr>session_bind := EngineBinding\<rparr>)) s'))
            (onS close)) s)"

subsection \<open>Requests\<close>

text \<open>
  \<open>plain\<close> is FastAPI's own handler; \<open>owned\<close> says that a transaction is already in the scope of the
  request. Without a policy the key of a request is not read.
\<close>

definition route_handle ::
  "(string \<Rightarrow> string) \<Rightarrow> settings \<Rightarrow> env \<Rightarrow> endpoint \<Rightarrow> 'd request \<Rightarrow> bool \<Rightarrow>
   ('d database \<times> RequestActivity \<Rightarrow> response result \<times> 'd database) \<Rightarrow>
   'd database \<times> RequestActivity \<Rightarrow> response result \<times> 'd database" where
  "route_handle H cfg en ep rq owned plain s =
     (if \<not> ep_transactional ep then plain s
      else if owned then (Inl (RuntimeError ''A mutation transaction already owns this request.''), fst s)
      else
        (case ep_marker ep of
           Some (Policy pol) \<Rightarrow> handle H cfg en pol rq s
         | _ \<Rightarrow> handle H cfg en \<lparr>pol_operation = [], pol_route = None\<rparr> (rq \<lparr>rq_keys := []\<rparr>) s))"

subsection \<open>Lemmas\<close>

text \<open>The whole tree of dependencies, and every input that is declared in it.\<close>

fun all_dependants :: "dependant \<Rightarrow> dependant list" where
  "all_dependants (Dependant p ds) = Dependant p ds # concat (map all_dependants ds)"

definition own_inputs :: "dependant_params \<Rightarrow> input_field list" where
  "own_inputs p = body_params p @ path_params p @ query_params p"

definition all_inputs :: "dependant \<Rightarrow> input_field list" where
  "all_inputs dep = concat (map (\<lambda>d. own_inputs (params d)) (all_dependants dep))"

lemma all_dependants_unfold: "all_dependants d = d # concat (map all_dependants (dependencies d))"
  by (cases d) simp

lemma has_inputs_own: "has_inputs p \<longleftrightarrow> own_inputs p \<noteq> []"
  by (simp add: has_inputs_def own_inputs_def)

lemma check_dependencies_Inr:
  "check_dependencies pending = Inr () \<longleftrightarrow> (\<forall>d \<in> set pending. \<forall>e \<in> set (all_dependants d). \<not> has_inputs (params e))"
proof (induction pending rule: check_dependencies.induct)
  case (1 pending)
  show ?case
  proof (cases "pending = []")
    case False
    then obtain rest d where p: "pending = rest @ [d]" by (cases pending rule: rev_cases) auto
    show ?thesis
    proof (cases "has_inputs (params d)")
      case True
      then show ?thesis using p by (subst check_dependencies.simps) (auto simp: all_dependants_unfold [of d])
    next
      case no: False
      have "check_dependencies pending = check_dependencies (rest @ dependencies d)"
        using p no by (subst check_dependencies.simps) simp
      then show ?thesis using 1 [OF False] p no by (auto simp: all_dependants_unfold [of d])
    qed
  qed (simp add: check_dependencies.simps)
qed

lemma validated_inputs:
  assumes "validate_idempotent_inputs dep path = Inr ()"
  shows "unique_aliases (body_params (params dep))" "unique_aliases (path_params (params dep))"
    "unique_aliases (query_params (params dep))" "set (all_inputs dep) = set (own_inputs (params dep))"
proof -
  show "unique_aliases (body_params (params dep))" "unique_aliases (path_params (params dep))"
    "unique_aliases (query_params (params dep))"
    using assms by (auto simp: validate_idempotent_inputs_def Let_def split: if_splits)
  have "check_dependencies (dependencies dep) = Inr ()"
    using assms by (auto simp: validate_idempotent_inputs_def Let_def split: if_splits)
  then have "\<forall>d \<in> set (dependencies dep). \<forall>e \<in> set (all_dependants d). own_inputs (params e) = []"
    by (simp add: check_dependencies_Inr has_inputs_own)
  then show "set (all_inputs dep) = set (own_inputs (params dep))"
    by (auto simp: all_inputs_def all_dependants_unfold [of dep])
qed

lemma od_set_absent: "k \<notin> fst ` set d \<Longrightarrow> od_set k v d = d @ [(k, v)]"
  by (induction d) auto

lemma field_values_map:
  assumes "unique_aliases fs"
  shows "field_values fs vals = map (\<lambda>f. (in_alias f, vals (in_name f))) fs"
proof -
  have "fold (\<lambda>f d. od_set (in_alias f) (vals (in_name f)) d) fs d0 = d0 @ map (\<lambda>f. (in_alias f, vals (in_name f))) fs"
    if "distinct (map fst d0 @ map in_alias fs)" for d0
    using that by (induction fs arbitrary: d0) (auto simp: od_set_absent)
  then show ?thesis using assms by (simp add: field_values_def unique_aliases_def)
qed

lemma normalized_map_keys: "normalized_map kvs = Inr xs \<Longrightarrow> map fst xs = map fst kvs"
  by (induction kvs arbitrary: xs) (auto simp: bindR_eq_Inr)

lemma normalized_map_lookup:
  "normalized_map kvs = Inr xs \<Longrightarrow> map_of kvs k = Some v \<Longrightarrow> \<exists>x. map_of xs k = Some x \<and> normalized v = Inr x"
  by (induction kvs arbitrary: xs) (auto simp: bindR_eq_Inr split: if_splits)

text \<open>A field of a mapping, and the mapping of the categories.\<close>

lemma field_same:
  assumes "unique_aliases fs" "f \<in> set fs" "normalized (VMap (field_values fs v)) = Inr x" "normalized (VMap (field_values fs w)) = Inr y"
    "same x y"
  shows "\<exists>a b. normalized (v (in_name f)) = Inr a \<and> normalized (w (in_name f)) = Inr b \<and> same a b"
proof -
  let ?m = "\<lambda>u. map (\<lambda>f. (in_alias f, u (in_name f))) fs"
  obtain xs where xs: "x = VMap xs" "normalized_map (?m v) = Inr xs"
    using assms(3) by (auto simp: field_values_map [OF assms(1)] bindR_eq_Inr)
  obtain ys where ys: "y = VMap ys" "normalized_map (?m w) = Inr ys"
    using assms(4) by (auto simp: field_values_map [OF assms(1)] bindR_eq_Inr)
  have d: "distinct (map fst (?m u))" for u using assms(1) by (simp add: unique_aliases_def comp_def)
  have l: "map_of (?m u) (in_alias f) = Some (u (in_name f))" for u
    using d [of u] assms(2) by (intro map_of_is_SomeI) auto
  obtain a where a: "map_of xs (in_alias f) = Some a" "normalized (v (in_name f)) = Inr a"
    using normalized_map_lookup [OF xs(2) l] by blast
  obtain b where b: "map_of ys (in_alias f) = Some b" "normalized (w (in_name f)) = Inr b"
    using normalized_map_lookup [OF ys(2) l] by blast
  have "same a b"
    using same_map_lookup [OF _ _ _ a(1) b(1)] assms(5) xs ys d [of v] d [of w] normalized_map_keys [OF xs(2)] normalized_map_keys [OF ys(2)]
    by simp
  then show ?thesis using a(2) b(2) by blast
qed

lemma input_value_same:
  assumes "normalized (input_value dep v) = Inr m" "normalized (input_value dep w) = Inr n" "same m n"
    "part \<in> {body_value (body_params (params dep)), mapping_value (path_params (params dep)), mapping_value (query_params (params dep))}"
  shows "\<exists>x y. normalized (part v) = Inr x \<and> normalized (part w) = Inr y \<and> same x y"
proof -
  let ?b = "body_value (body_params (params dep))" and ?p = "mapping_value (path_params (params dep))"
    and ?q = "mapping_value (query_params (params dep))"
  have parts: "\<exists>b p q. normalized (?b u) = Inr b \<and> normalized (?p u) = Inr p \<and> normalized (?q u) = Inr q \<and>
      o' = VMap [(''body'', b), (''params'', p), (''query'', q)]" if "normalized (input_value dep u) = Inr o'" for u o'
    using that by (auto simp: input_value_def bindR_eq_Inr)
  obtain b p q where 1: "normalized (?b v) = Inr b" "normalized (?p v) = Inr p" "normalized (?q v) = Inr q"
      "m = VMap [(''body'', b), (''params'', p), (''query'', q)]" using parts [OF assms(1)] by blast
  obtain b' p' q' where 2: "normalized (?b w) = Inr b'" "normalized (?p w) = Inr p'" "normalized (?q w) = Inr q'"
      "n = VMap [(''body'', b'), (''params'', p'), (''query'', q')]" using parts [OF assms(2)] by blast
  note look = same_map_lookup [OF assms(3) [unfolded 1(4) 2(4)]]
  have "same b b'" "same p p'" "same q q'"
    using look [of "''body''"] look [of "''params''"] look [of "''query''"] by simp_all
  then show ?thesis using assms(4) 1 2 by auto
qed

lemma field_same_mapping:
  assumes "unique_aliases fs" "f \<in> set fs" "normalized (mapping_value fs v) = Inr x" "normalized (mapping_value fs w) = Inr y" "same x y"
  shows "\<exists>a b. normalized (v (in_name f)) = Inr a \<and> normalized (w (in_name f)) = Inr b \<and> same a b"
proof -
  have m: "mapping_value fs u = VMap (field_values fs u)" for u using assms(2) by (auto simp: mapping_value_def)
  show ?thesis using field_same [OF assms(1,2) _ _ assms(5)] assms(3,4) unfolding m by blast
qed

lemma field_same_body:
  assumes "unique_aliases fs" "f \<in> set fs" "normalized (body_value fs v) = Inr x" "normalized (body_value fs w) = Inr y" "same x y"
  shows "\<exists>a b. normalized (v (in_name f)) = Inr a \<and> normalized (w (in_name f)) = Inr b \<and> same a b"
proof (cases "\<exists>g. fs = [g]")
  case True
  then show ?thesis using assms(2-5) by (auto simp: body_value_def)
next
  case False
  then have m: "body_value fs u = VMap (field_values fs u)" for u using assms(2) by (auto simp: body_value_def split: list.splits)
  show ?thesis using field_same [OF assms(1,2) _ _ assms(5)] assms(3,4) unfolding m by blast
qed

subsection \<open>Properties\<close>


text \<open>An update of an item: its identifier, its body and the version that is expected.\<close>

definition demo_field :: "string \<Rightarrow> string \<Rightarrow> input_field" where
  "demo_field n a = \<lparr>in_name = n, in_alias = a, in_info = BodyInfo ''application/json''\<rparr>"

definition demo_dependant :: dependant where
  "demo_dependant = Dependant
     \<lparr>request_param_name = None, http_connection_param_name = None, header_params = [], cookie_params = [],
      body_params = [demo_field ''payload'' ''payload''], path_params = [demo_field ''item'' ''item_id''],
      query_params = [demo_field ''version'' ''expected_version'', demo_field ''notify'' ''notify'']\<rparr>
     [Dependant \<lparr>request_param_name = Some ''request'', http_connection_param_name = None, header_params = [], cookie_params = [],
        body_params = [], path_params = [], query_params = []\<rparr> []]"

definition demo_values :: "decimal \<Rightarrow> string \<Rightarrow> val" where
  "demo_values version n = (if n = ''version'' then VNum version else if n = ''notify'' then VBool True else VStr n)"


lemma onS_bind: "session_bind (snd (onS m s)) = session_bind s"
  by (simp add: onS_def split: prod.split)

text \<open>However an execution ends, its session is bound to its engine again.\<close>

lemma pinned_execution_rebinds:
  "session_bind (snd (pinned_execution connect close unlock body s)) = session_bind s"
proof -
  show ?thesis
  proof (cases "session_bind s = EngineBinding")
    case True
    obtain r1 s1 where 1: "onS connect s = (r1, s1)" by force
    obtain r2 s2 where 2: "onS body (s1 \<lparr>session_bind := ConnectionBinding\<rparr>) = (r2, s2)" by force
    obtain r3 s3 where 3: "onS (unlock (isl r2)) s2 = (r3, s3)" by force
    obtain r4 s4 where 4: "onS close (s3 \<lparr>session_bind := EngineBinding\<rparr>) = (r4, s4)" by force
    have "session_bind s4 = EngineBinding" "session_bind s1 = EngineBinding"
      using onS_bind [of close "s3 \<lparr>session_bind := EngineBinding\<rparr>"] onS_bind [of connect s] 1 4 True by simp_all
    then show ?thesis using True 1 2 3 4
      by (auto simp: pinned_execution_def bindS_def finallyS_def split: sum.split)
  qed (simp add: pinned_execution_def)
qed

text \<open>The lock is released with the failure of the body, when a connection could be opened.\<close>

lemma pinned_execution_releases:
  assumes "session_bind s = EngineBinding" "connect (pinned_state s) = (Inr (), t)" "body t = (r, u)"
    "unlock (isl r) u = (Inr (), v)" "close v = (Inr (), w)"
  shows "pinned_execution connect close unlock body s = (r, s \<lparr>pinned_state := w\<rparr>)"
  using assms by (simp add: pinned_execution_def bindS_def finallyS_def onS_def)

text \<open>A route that does not own a transaction, or already has one, leaves the database alone.\<close>

lemma route_handle_owned:
  "ep_transactional ep \<Longrightarrow> route_handle H cfg en ep rq True plain (db, act) =
     (Inl (RuntimeError ''A mutation transaction already owns this request.''), db)"
  by (simp add: route_handle_def)

text \<open>The checks accept exactly the routes whose inputs are declared on the endpoint itself.\<close>

lemma validated_exact:
  "validate_idempotent_inputs dep path = Inr () \<longleftrightarrow>
     (let p = params dep in
      \<not> named (request_param_name p) \<and> \<not> named (http_connection_param_name p) \<and> header_params p = [] \<and> cookie_params p = [] \<and>
      set (placeholders path) \<subseteq> set (map in_alias (path_params p)) \<and>
      unique_aliases (body_params p) \<and> unique_aliases (path_params p) \<and> unique_aliases (query_params p) \<and>
      list_all json_body (body_params p) \<and>
      (\<forall>d \<in> set (dependencies dep). \<forall>e \<in> set (all_dependants d). \<not> has_inputs (params e)))"
  by (auto simp: validate_idempotent_inputs_def Let_def check_dependencies_Inr)

end
