(* ===== verification/Stack.thy ===== *)
theory Stack
  imports Application Routing Timeout
begin

text \<open>
  The whole application (\<^verbatim>\<open>ObservedFastAPI\<close> and \<^verbatim>\<open>create_app\<close> of \<^verbatim>\<open>app/config/application.py\<close>): around
  the stack of \<open>Application\<close> are admission, the framework's last resort for errors, the suppression of
  bodies for HEAD and the observation of the outcome, whose subscribers are the access log and the
  metrics. The last resort is a parameter \<open>errors\<close>.
\<close>

subsection \<open>The application\<close>

record application_state =
  ap_work :: RequestWork
  ap_limiter :: RateLimiter

definition application_program ::
  "request_env \<Rightarrow> configuration \<Rightarrow> (app \<Rightarrow> app) \<Rightarrow> (app \<Rightarrow> app) \<Rightarrow> app \<Rightarrow> nat \<Rightarrow> application_state \<Rightarrow> app" where
  "application_program re cf errors deadline router task st =
     head_response_call
       (errors (\<lambda>sc. fst (admission_call (re_framework re) (re_timestamp re) task
          (request_stack re cf deadline router (ap_limiter st)) sc (ap_work st))))"

definition request_admitted :: "scope \<Rightarrow> application_state \<Rightarrow> bool" where
  "request_admitted sc st \<longleftrightarrow> is_http sc \<and> draining_at (ap_work st) = None"

text \<open>The state while the request runs, and when it has ended.\<close>

definition application_started :: "request_env \<Rightarrow> configuration \<Rightarrow> nat \<Rightarrow> scope \<Rightarrow> application_state \<Rightarrow> application_state" where
  "application_started re cf task sc st =
     (if request_admitted sc st
      then \<lparr>ap_work = track task (ap_work st), ap_limiter = limiter_after re cf sc (ap_limiter st)\<rparr> else st)"

definition application_ended :: "bool \<Rightarrow> nat \<Rightarrow> application_state \<Rightarrow> application_state" where
  "application_ended was_admitted task st = (if was_admitted then st \<lparr>ap_work := discard task (ap_work st)\<rparr> else st)"

text \<open>
  The subscribers of the observation: the access log, and inside of it the metrics; both are
  behind admission and the request context.
\<close>

definition request_subscribers :: "configuration \<Rightarrow> scope \<Rightarrow> application_state \<Rightarrow> string list" where
  "request_subscribers cf sc st =
     (if \<not> request_admitted sc st then []
      else
        (case context_client (resolved_scope cf sc) of
           Inl e \<Rightarrow> []
         | Inr ip \<Rightarrow> ''logging'' # (if metrics_subscribes (sc_path sc) then [''metrics''] else [])))"

text \<open>What a history of moments has seen of the transport and of the subscribers.\<close>

fun moment_event :: "moment \<Rightarrow> event list" where
  "moment_event (Observe now ev) = [ev]"
| "moment_event m = []"

fun moment_key :: "moment \<Rightarrow> string list" where
  "moment_key (Subscribe key) = [key]"
| "moment_key m = []"

definition seen_events :: "moment list \<Rightarrow> event list" where
  "seen_events ms = concat (map moment_event ms)"

definition seen_keys :: "moment list \<Rightarrow> string list" where
  "seen_keys ms = concat (map moment_key ms)"

subsection \<open>Construction\<close>

definition documentation_urls :: "Settings \<Rightarrow> string option list" where
  "documentation_urls s = map (\<lambda>url. if DOCS_ENABLED s then Some url else None) [''/docs'', ''/redoc'', ''/openapi.json'']"

definition new_runtime :: "Settings \<Rightarrow> lifespan_state result" where
  "new_runtime s =
     bindR (new_handler 1) (\<lambda>h.
       Inr \<lparr>lifecycle = register [''database'', ''idempotency cleanup''] h,
         request_work = new_work (of_int (HTTP_DRAIN_TIMEOUT_MS s) / 1000)\<rparr>)"

definition request_timeouts :: "Settings \<Rightarrow> RequestTimeout result" where
  "request_timeouts s =
     new_timeout (Some (of_int (REQUEST_FIRST_BODY_TIMEOUT_MS s) / 1000)) (Some (of_int (REQUEST_CHUNK_TIMEOUT_MS s) / 1000))
       (Some (of_int (REQUEST_TIMEOUT_MS s) / 1000))"

text \<open>The registered exception handlers; the framework picks the most specific one.\<close>

definition exception_response :: "framework \<Rightarrow> int \<Rightarrow> exn \<Rightarrow> prog" where
  "exception_response fw ts e =
     (case e of
        RequestValidationError errs json_invalid \<Rightarrow> validation_exception_handler fw ts errs json_invalid
      | _ \<Rightarrow>
          (case http_exception e of
             Some exc \<Rightarrow> http_exception_handler fw ts exc
           | None \<Rightarrow> unhandled_exception_handler fw ts e))"

text \<open>Route classes by their name and what they derive from, the most specific first.\<close>

record route_class =
  rc_name :: string
  rc_ancestors :: "string list"

definition flexible_route_class :: "route_class \<Rightarrow> route_class" where
  "flexible_route_class c =
     (if ''FlexibleRoute'' \<in> set (rc_name c # rc_ancestors c) then c
      else (let name = ''Flexible'' @ rc_name c in \<lparr>rc_name = name, rc_ancestors = ''FlexibleRoute'' # rc_name c # rc_ancestors c\<rparr>))"

subsection \<open>Lemmas\<close>

text \<open>Making a class flexible keeps its behaviour below and is idempotent, as nested routers need.\<close>

lemma flexible_route_class_idem:
  "flexible_route_class (flexible_route_class c) = flexible_route_class c"
  "set (rc_name c # rc_ancestors c) \<subseteq> set (rc_name (flexible_route_class c) # rc_ancestors (flexible_route_class c))"
  by (auto simp: flexible_route_class_def Let_def)

text \<open>A fresh application meets the conditions under which the lifespan is shown to shut down.\<close>

lemma new_runtime_fresh:
  assumes "new_runtime s = Inr st"
  shows "handler_ok (lifecycle st) \<and> \<not> startup_started (lifecycle st) \<and> \<not> shutdown_started (lifecycle st) \<and>
    services (lifecycle st) = [''database'', ''idempotency cleanup''] \<and> bounded_work {} [] (request_work st)"
proof -
  obtain h where h: "new_handler 1 = Inr h" "st = \<lparr>lifecycle = register [''database'', ''idempotency cleanup''] h,
      request_work = new_work (of_int (HTTP_DRAIN_TIMEOUT_MS s) / 1000)\<rparr>"
    using assms by (auto simp: new_runtime_def bindR_eq_Inr)
  have ok: "handler_ok (register [''database'', ''idempotency cleanup''] h)"
    by (rule register_ok [OF new_handler_ok [OF h(1)]])
  then show ?thesis using h by (auto simp: new_handler_def register_def bounded_work_def new_work_def)
qed

lemma exception_status:
  assumes "framework_ok fw"
  shows "\<exists>st hs body. exception_response fw ts e = send_all st hs body"
proof -
  have json: "\<exists>st hs body. error_response fw ts status msg hs' = send_all st hs body" for status msg hs'
    using assms unfolding framework_ok_def error_response_def by blast
  show ?thesis
  proof (cases "http_exception e")
    case None
    then show ?thesis using json
      by (cases e) (simp_all add: exception_response_def validation_exception_handler_def unhandled_exception_handler_def)
  next
    case (Some exc)
    then show ?thesis using json
      by (cases e; cases exc) (simp_all add: exception_response_def http_exception_handler_def)
  qed
qed

definition backed :: "event list \<Rightarrow> RequestObservation \<Rightarrow> bool" where
  "backed seen ob \<longleftrightarrow>
     (\<forall>st. ob_status ob = Some st \<longrightarrow> (\<exists>hs. Sent (ResponseStart st hs) None \<in> set seen)) \<and>
     (\<forall>r. ob_result ob = Some r \<longrightarrow>
        (oc_outcome r = Completed \<longrightarrow> (\<exists>b. Sent (ResponseBody b False) None \<in> set seen)) \<and>
        oc_headers_sent r = (oc_status r \<noteq> None) \<and>
        (\<forall>st. oc_status r = Some st \<longrightarrow> (\<exists>hs. Sent (ResponseStart st hs) None \<in> set seen)))"

lemma backed_settle:
  "backed seen ob \<Longrightarrow> (kind = Completed \<Longrightarrow> \<exists>b. Sent (ResponseBody b False) None \<in> set seen) \<Longrightarrow> backed seen (settle kind now ob)"
  by (auto simp: backed_def settle_def outcome_record_def Let_def)

lemma backed_mono: "backed seen ob \<Longrightarrow> backed (seen @ later) ob"
  unfolding backed_def by (auto; blast)

lemma backed_step: "backed seen ob \<Longrightarrow> backed (seen @ moment_event m) (observation_step m ob)"
proof (cases m)
  case (Observe now ev)
  assume b: "backed seen ob"
  note more = backed_mono [OF b, of "[ev]"]
  show ?thesis
  proof (cases "(now, ev, ob)" rule: observe_event.cases)
    case (4 now msg ob')
    have start: "backed (seen @ [Sent (ResponseStart st hs) None]) (ob \<lparr>ob_status := Some st\<rparr>)" for st hs
      using b unfolding backed_def by (auto; blast)
    have last: "backed (seen @ [Sent (ResponseBody x False) None]) (settle Completed t ob)" for x t
      using backed_settle [OF backed_mono [OF b], of Completed "[Sent (ResponseBody x False) None]" t] by auto
    show ?thesis using 4 Observe more start last by (cases msg) auto
  qed (use Observe more backed_settle [OF more, of Aborted] in auto)
next
  case (Subscribe key)
  assume b: "backed seen ob"
  then show ?thesis using Subscribe by (auto simp: backed_def subscribe_def Let_def split: option.splits)
next
  case (Abort now)
  assume "backed seen ob"
  then show ?thesis using Abort backed_settle [of seen ob Aborted now] by simp
qed

lemma backed_steps: "backed seen ob \<Longrightarrow> backed (seen @ seen_events ms) (fold observation_step ms ob)"
proof (induction ms arbitrary: seen ob)
  case (Cons m ms)
  then show ?case using Cons.IH [OF backed_step [OF Cons.prems, of m]] by (simp add: seen_events_def)
qed (simp add: seen_events_def)

lemma step_subscribers: "ob_subscribers (observation_step m ob) = ob_subscribers ob \<union> set (moment_key m)"
proof (cases m)
  case (Observe now ev)
  then show ?thesis
    by (cases "(now, ev, ob)" rule: observe_event.cases) (auto simp: settle_keeps split: message.splits)
qed (auto simp: settle_keeps subscribe_def Let_def split: option.splits)

lemma steps_subscribers: "ob_subscribers (fold observation_step ms ob) = ob_subscribers ob \<union> set (seen_keys ms)"
  by (induction ms arbitrary: ob) (auto simp: seen_keys_def step_subscribers)

lemma observed_backed:
  assumes "ob_result (observed_call meth label t0 ms t1) = Some r"
  shows "(oc_outcome r = Completed \<longrightarrow> (\<exists>b. Sent (ResponseBody b False) None \<in> set (seen_events ms))) \<and>
    oc_headers_sent r = (oc_status r \<noteq> None) \<and>
    (\<forall>st. oc_status r = Some st \<longrightarrow> (\<exists>hs. Sent (ResponseStart st hs) None \<in> set (seen_events ms)))"
proof -
  have "backed [] (new_observation meth label t0)" by (simp add: backed_def new_observation_def)
  from backed_steps [OF this, of ms] have "backed (seen_events ms) (observed_call meth label t0 ms t1)"
    unfolding observed_call_def by (intro backed_settle) simp_all
  then show ?thesis using assms by (simp add: backed_def)
qed

lemma observed_subscribers: "ob_subscribers (observed_call meth label t0 ms t1) = set (seen_keys ms)"
  by (simp add: observed_call_def settle_keeps steps_subscribers new_observation_def)

text \<open>While the application drains, the response does not depend on what is behind admission.\<close>

lemma draining_independent:
  assumes "draining_at (ap_work st) \<noteq> None" "is_http sc" "layer errors"
  shows "application_program re cf errors d1 r1 t1 st sc = application_program re cf' errors d2 r2 t2 (st \<lparr>ap_limiter := l\<rparr>) sc"
    and "application_started re cf t1 sc st = st"
proof -
  let ?gate = "\<lambda>cf d r t st sc. fst (admission_call (re_framework re) (re_timestamp re) t
    (request_stack re cf d r (ap_limiter st)) sc (ap_work st))"
  have "agree sc (?gate cf d1 r1 t1 st) (?gate cf' d2 r2 t2 (st \<lparr>ap_limiter := l\<rparr>))"
    using assms(1,2) by (simp add: agree_def same_route_def is_http_def admission_call_def)
  then have "errors (?gate cf d1 r1 t1 st) sc = errors (?gate cf' d2 r2 t2 (st \<lparr>ap_limiter := l\<rparr>)) sc"
    by (rule layer.call_local [OF assms(3)])
  then show "application_program re cf errors d1 r1 t1 st sc = application_program re cf' errors d2 r2 t2 (st \<lparr>ap_limiter := l\<rparr>) sc"
    by (simp add: application_program_def head_response_call_def)
  show "application_started re cf t1 sc st = st" using assms(1) by (auto simp: application_started_def request_admitted_def)
qed

text \<open>A request leaves no task behind.\<close>

lemma request_untracked:
  assumes "task \<notin> tasks (ap_work st)"
  shows "ap_work (application_ended (request_admitted sc st) task (application_started re cf task sc st)) = ap_work st"
  using assms by (auto simp: application_ended_def application_started_def request_admitted_def track_def discard_def)

text \<open>No body is sent for HEAD.\<close>

lemma head_bodies:
  assumes "is_http sc" "sc_method sc = ''HEAD''" "Sent (ResponseBody b more_body) r \<in> set (events (application_program re cf errors d rt t st sc) as)"
  shows "b = []"
proof -
  have m: "Sent m r \<in> set es \<Longrightarrow> m \<in> set (sent es)" for m r es
    by (induction es rule: sent.induct) auto
  have "list_all (\<lambda>m. case m of ResponseBody b more_body \<Rightarrow> b = [] | _ \<Rightarrow> True)
      (sent (events (application_program re cf errors d rt t st sc) as))"
    using head_response_empty [OF assms(1,2)] unfolding application_program_def sends_only_def by blast
  then show ?thesis using m [OF assms(3)] by (auto simp: list_all_iff)
qed

subsection \<open>Properties\<close>

text \<open>
  Property C27. What is reported of a request is what the transport has seen of the whole
  application: the access log and the metrics are told once each, and only for requests that are
  admitted and have a context; they are told the same outcome, \<open>completed\<close> only if the last body
  message was accepted and with a status only if the response start with that status was; and no response
  to HEAD has a body.
\<close>

theorem request_reported:
  assumes "is_http sc" "seen_events ms = events (application_program re cf errors deadline router task st sc) as"
    and "seen_keys ms = request_subscribers cf sc st"
    and "ob = observed_call (sc_method sc) label t0 ms t1"
  shows "\<exists>r. ob_result ob = Some r \<and> distinct (map fst (ob_calls ob)) \<and>
    set (map fst (ob_calls ob)) = set (request_subscribers cf sc st) \<and> snd ` set (ob_calls ob) \<subseteq> {r} \<and>
    (oc_outcome r = Completed \<longrightarrow>
      (\<exists>b. Sent (ResponseBody b False) None \<in> set (events (application_program re cf errors deadline router task st sc) as))) \<and>
    (\<forall>code. oc_status r = Some code \<longrightarrow>
      (\<exists>hs. Sent (ResponseStart code hs) None \<in> set (events (application_program re cf errors deadline router task st sc) as))) \<and>
    (sc_method sc = ''HEAD'' \<longrightarrow> (\<forall>b more_body x. Sent (ResponseBody b more_body) x \<in>
       set (events (application_program re cf errors deadline router task st sc) as) \<longrightarrow> b = []))"
proof -
  obtain r where r: "ob_result ob = Some r" "distinct (map fst (ob_calls ob))"
      "set (map fst (ob_calls ob)) = ob_subscribers ob" "list_all (\<lambda>c. snd c = r) (ob_calls ob)"
    using observation_reported [of "sc_method sc" label t0 ms t1] unfolding assms(4) by blast
  note b = observed_backed [OF r(1) [unfolded assms(4)], unfolded assms(2)]
  have "ob_subscribers ob = set (request_subscribers cf sc st)"
    unfolding assms(4) observed_subscribers assms(3) by (rule refl)
  then show ?thesis
    using r b head_bodies [OF assms(1)] by (intro exI [of _ r]) (auto simp: list_all_iff)
qed

text \<open>A request for HEAD while the application drains, answered and reported.\<close>

definition demo_draining :: application_state where
  "demo_draining = \<lparr>ap_work = quiesce_work 5 (new_work 10), ap_limiter = new_limiter demo_policy\<rparr>"

definition demo_head :: scope where
  "demo_head = demo_scope \<lparr>sc_method := ''HEAD''\<rparr>"

definition demo_answers :: "answer list" where
  "demo_answers = [SendAnswer None, SendAnswer None]"

definition demo_events :: "event list" where
  "demo_events = events (application_program demo_request demo_config (\<lambda>a. a) (\<lambda>a. a) (\<lambda>sc. Return) 1 demo_draining demo_head) demo_answers"

theorem request_reported_witness:
  "\<exists>r. ob_result (observed_call ''HEAD'' ''/'' 0 (map (Observe 1) demo_events) 2) = Some r \<and> oc_outcome r = Completed \<and>
     (\<exists>b. Sent (ResponseBody b False) None \<in> set demo_events)"
proof -
  let ?ms = "map (Observe 1) demo_events"
  let ?ob = "observed_call (sc_method demo_head) ''/'' 0 ?ms 2"
  have http: "is_http demo_head" by code_simp
  have events: "seen_events ?ms =
      events (application_program demo_request demo_config (\<lambda>a. a) (\<lambda>a. a) (\<lambda>sc. Return) 1 demo_draining demo_head) demo_answers"
    unfolding demo_events_def [symmetric] by (simp add: seen_events_def comp_def)
  have keys: "seen_keys ?ms = request_subscribers demo_config demo_head demo_draining"
    by (simp add: seen_keys_def comp_def request_subscribers_def request_admitted_def demo_draining_def quiesce_work_def new_work_def)
  from request_reported [OF http events keys refl, of "''/''" 0 2, folded demo_events_def] obtain r where
    r: "ob_result ?ob = Some r" "oc_outcome r = Completed \<longrightarrow> (\<exists>b. Sent (ResponseBody b False) None \<in> set demo_events)"
    by blast
  have "map_option oc_outcome (ob_result ?ob) = Some Completed" by code_simp
  then show ?thesis using r by (auto simp: demo_head_def demo_scope_def)
qed

end
