(* ===== verification/AccessLog.thy ===== *)
theory AccessLog
  imports Stack Logging
begin

text \<open>
  The access log (\<^verbatim>\<open>app/common/middleware/request_logger.py\<close>) as an event of the application's logger:
  what the record of a request holds when the outcome has passed the filters of \<open>Logging\<close>.
\<close>

definition level_method :: "level \<Rightarrow> string" where
  "level_method l = (case l of ERROR \<Rightarrow> ''error'' | WARNING \<Rightarrow> ''warning'' | DEBUG \<Rightarrow> ''debug'')"

definition outcome_name :: "result_kind \<Rightarrow> string" where
  "outcome_name k = (case k of Completed \<Rightarrow> ''completed'' | Aborted \<Rightarrow> ''aborted'')"

definition optional_text :: "string option \<Rightarrow> object" where
  "optional_text t = (case t of Some s \<Rightarrow> StrObj s | None \<Rightarrow> NoneObj)"

definition access_event :: "string option \<Rightarrow> RequestOutcome \<Rightarrow> string \<times> event_dict" where
  "access_event rid r =
     (level_method (log_level r),
      [(''event'', StrObj (log_line r)), (''requestId'', optional_text rid), (''method'', StrObj (oc_method r)),
       (''route'', StrObj (oc_route r)), (''status'', case oc_status r of Some st \<Rightarrow> IntObj st | None \<Rightarrow> NoneObj),
       (''durationMs'', NumObj (Some (oc_duration_ms r))), (''outcome'', StrObj (outcome_name (oc_outcome r))),
       (''headersSent'', BoolObj (oc_headers_sent r))])"

text \<open>The record is logged with the request id bound to the context.\<close>

definition access_record :: "(string \<Rightarrow> string) \<Rightarrow> process \<Rightarrow> string option \<Rightarrow> RequestOutcome \<Rightarrow> log_record" where
  "access_record H pr rid r =
     (case access_event rid r of (meth, ev) \<Rightarrow>
        safe_event H pr meth (merge_contextvars [(''request_id'', optional_text rid)] ev))"

lemma map_of_map_value: "map_of (map (\<lambda>(k, v). (k, f k v)) fs) k = map_option (f k) (map_of fs k)"
  by (induction fs) auto

lemma map_of_known_method:
  "map_of (known_method fs) k =
     map_option (\<lambda>v. if k = ''method'' \<and> v \<notin> LStr ` set LOGGED_METHODS then LStr ''<other>'' else v) (map_of fs k)"
proof -
  have "known_method fs =
      map (\<lambda>(k, v). (k, if k = ''method'' \<and> v \<notin> LStr ` set LOGGED_METHODS then LStr ''<other>'' else v)) fs"
    unfolding known_method_def by (rule map_cong [OF refl]) (simp only: split_beta if_distrib [of "Pair _"] prod.collapse)
  then show ?thesis by (simp only: map_of_map_value)
qed

lemma merge_get: "map_of ev k = Some v \<Longrightarrow> map_of (merge_contextvars ctx ev) k = Some v"
  by (simp add: merge_contextvars_def map_add_def split: option.split)

lemma merge_get_None: "map_of ev k = None \<Longrightarrow> map_of ctx k = None \<Longrightarrow> map_of (merge_contextvars ctx ev) k = None"
  unfolding merge_contextvars_def by (simp only: map_of_eq_None_iff) auto

lemma map_of_copied_list:
  "distinct (map fst fl) \<Longrightarrow>
   map_of (concat (map (\<lambda>(k, t). case Option.bind (map_of ev k) (field_value t) of None \<Rightarrow> [] | Some v \<Rightarrow> [(k, v)]) fl)) k =
     Option.bind (map_of fl k) (\<lambda>t. Option.bind (map_of ev k) (field_value t))"
proof (induction fl)
  case (Cons f fl)
  obtain j t where f: "f = (j, t)" by (cases f)
  have "map_of fl j = None" using Cons.prems f by (auto simp: map_of_eq_None_iff)
  then show ?case using Cons f
    by (cases "Option.bind (map_of ev j) (field_value t)") (auto simp: map_add_def split: option.split)
qed simp

lemma map_of_copied_fields:
  "map_of (copied_fields ev) k = Option.bind (map_of FIELDS k) (\<lambda>t. Option.bind (map_of ev k) (field_value t))"
  unfolding copied_fields_def by (rule map_of_copied_list) (simp add: FIELDS_def)

text \<open>The event as it is logged, with the id of the context.\<close>

definition merged_event :: "string option \<Rightarrow> RequestOutcome \<Rightarrow> event_dict" where
  "merged_event rid r = merge_contextvars [(''request_id'', optional_text rid)] (snd (access_event rid r))"

lemma merged_event_get:
  "map_of (merged_event rid r) ''status'' = Some (case oc_status r of Some st \<Rightarrow> IntObj st | None \<Rightarrow> NoneObj)"
  "map_of (merged_event rid r) ''outcome'' = Some (StrObj (outcome_name (oc_outcome r)))"
  "map_of (merged_event rid r) ''route'' = Some (StrObj (oc_route r))"
  "map_of (merged_event rid r) ''durationMs'' = Some (NumObj (Some (oc_duration_ms r)))"
  "map_of (merged_event rid r) ''event'' = Some (StrObj (log_line r))"
  unfolding merged_event_def by (rule merge_get, simp add: access_event_def)+

lemma merged_event_aliases: "a \<in> set ALIASES \<Longrightarrow> map_of (merged_event rid r) a = None"
  unfolding merged_event_def by (rule merge_get_None; auto simp: access_event_def ALIASES_def)

lemma merged_event_id: "with_request_id (merged_event rid r) = merged_event rid r"
proof -
  have "map_of (merged_event rid r) ''requestId'' = Some (optional_text rid)"
    unfolding merged_event_def by (rule merge_get) (simp add: access_event_def)
  then show ?thesis by (auto simp: with_request_id_def split: option.split)
qed

lemma access_record_eq:
  "access_record H pr rid r =
     [(''time'', LStr (pr_time pr)), (''pid'', LInt (pr_pid pr)), (''hostname'', LStr (pr_hostname pr)),
      (''levelLabel'', LStr (level_method (log_level r))), (''msg'', LStr (single_line (log_line r)))] @
     known_method (copied_fields (merged_event rid r))"
proof -
  have "access_record H pr rid r = safe_event H pr (level_method (log_level r)) (merged_event rid r)"
    by (simp add: access_record_def merged_event_def access_event_def)
  moreover have "error_fields H (merged_event rid r) rec = rec" for rec
    using merged_event_aliases [of _ rid r] by (simp add: error_fields_def ALIASES_def)
  moreover have "event_message (merged_event rid r) = single_line (log_line r)"
    by (simp add: event_message_def merged_event_get)
  ultimately show ?thesis by (simp only: safe_event_def Let_def merged_event_id)
qed

text \<open>The filters let the outcome through: its status, its kind, its route, its time and its line.\<close>

lemma access_record_fields:
  "map_of (access_record H pr rid r) ''status'' = map_option LInt (oc_status r)"
  "map_of (access_record H pr rid r) ''outcome'' = Some (LStr (single_line (outcome_name (oc_outcome r))))"
  "map_of (access_record H pr rid r) ''route'' = Some (LStr (single_line (oc_route r)))"
  "map_of (access_record H pr rid r) ''durationMs'' = Some (LNum (oc_duration_ms r))"
  "map_of (access_record H pr rid r) ''msg'' = Some (LStr (single_line (log_line r)))"
proof -
  let ?c = "copied_fields (merged_event rid r)"
  have "map_of ?c ''status'' = map_option LInt (oc_status r)"
    by (cases "oc_status r") (simp_all add: map_of_copied_fields merged_event_get FIELDS_def)
  then show "map_of (access_record H pr rid r) ''status'' = map_option LInt (oc_status r)"
    by (cases "oc_status r") (simp_all add: access_record_eq map_of_known_method)
  show "map_of (access_record H pr rid r) ''outcome'' = Some (LStr (single_line (outcome_name (oc_outcome r))))"
    "map_of (access_record H pr rid r) ''route'' = Some (LStr (single_line (oc_route r)))"
    "map_of (access_record H pr rid r) ''durationMs'' = Some (LNum (oc_duration_ms r))"
    "map_of (access_record H pr rid r) ''msg'' = Some (LStr (single_line (log_line r)))"
    by (simp_all add: access_record_eq map_of_known_method map_of_copied_fields merged_event_get FIELDS_def)
qed

end
