(* ===== verification/Process.thy ===== *)
theory Process
  imports Server Steps
begin

text \<open>
  The process around the server: the configuration it is given (\<^verbatim>\<open>app/main.py\<close>), the event loops
  (\<^verbatim>\<open>app/config/event_loop.py\<close>), the metrics that are registered (\<^verbatim>\<open>app/config/metrics.py\<close>), the handlers of
  signals and the search for the application object (\<^verbatim>\<open>app/common/handlers/http_server.py\<close>).
\<close>

subsection \<open>Configuration\<close>

record server_config =
  sc_app :: string
  sc_host :: string
  sc_port :: int
  sc_reload :: bool
  sc_reload_dirs :: "string list option"
  sc_ws :: string
  sc_loop :: string
  sc_proxy_headers :: bool

definition server_configuration :: "string \<Rightarrow> Settings \<Rightarrow> server_config" where
  "server_configuration package s =
     (let development = (ENV s = ''development'') in
      \<lparr>sc_app = ''app.config.application:app'', sc_host = HOST s, sc_port = PORT s, sc_reload = development,
       sc_reload_dirs = (if development then Some [package] else None), sc_ws = ''none'',
       sc_loop = ''app.config.event_loop:server_loop_factory'', sc_proxy_headers = False\<rparr>)"

text \<open>With reloading the server runs in processes of a supervisor, which is a parameter.\<close>

definition main_run :: "server_config \<Rightarrow> unit result \<Rightarrow> unit result \<Rightarrow> unit result" where
  "main_run cfg supervised direct = (if sc_reload cfg then supervised else direct)"

datatype loop = SelectorLoop | DefaultLoop | AutoLoop bool

definition database_loop_factory :: "string \<Rightarrow> Settings \<Rightarrow> loop" where
  "database_loop_factory platform s = (if platform = ''win32'' \<and> DB_SSL s then SelectorLoop else DefaultLoop)"

definition server_loop_factory :: "string \<Rightarrow> Settings \<Rightarrow> loop" where
  "server_loop_factory platform s =
     (if platform = ''win32'' \<and> DB_SSL s then SelectorLoop else AutoLoop (ENV s = ''development''))"

text \<open>The name, labels and buckets of the metrics.\<close>

definition METRICS :: "(string \<times> string list \<times> rat list) list" where
  "METRICS =
     [(''http_requests_total'', [''method'', ''route'', ''status''], []),
      (''http_request_duration_ms'', [''method'', ''route'', ''status''], [5, 15, 50, 100, 250, 500, 1000]),
      (''http_requests_aborted_total'', [''method'', ''route''], [])]"

subsection \<open>The application object\<close>

text \<open>Wrappers have no state; an object with neither a state nor an application raises.\<close>

datatype 'a wrapped = Stateful 'a | Wrapping "'a wrapped" | Stateless

fun find_application :: "'a wrapped \<Rightarrow> 'a result" where
  "find_application (Stateful a) = Inr a"
| "find_application (Wrapping w) = find_application w"
| "find_application Stateless = Inl (TypeError ''The object has no application.'')"

subsection \<open>Signals\<close>

text \<open>
  \<open>'h\<close> are handlers of signals, in the order in which they are restored; outside the main thread
  nothing is installed.
\<close>

type_synonym 'h handlers = "int \<Rightarrow> 'h"

definition capture_signals :: "bool \<Rightarrow> int list \<Rightarrow> 'h \<Rightarrow> ('h handlers, 'a) step \<Rightarrow> ('h handlers, 'a) step" where
  "capture_signals main_thread signals handler body hs =
     (if \<not> main_thread then body hs
      else
        (let previous = map (\<lambda>sig. (sig, hs sig)) signals in
         finallyS body (modifyS (\<lambda>hs. fold (\<lambda>(sig, h) hs. hs(sig := h)) previous hs))
           (fold (\<lambda>sig hs. hs(sig := handler)) signals hs)))"

subsection \<open>Lemmas\<close>

lemma fold_restore:
  "fold (\<lambda>(sig, h) hs. hs(sig := h)) (map (\<lambda>sig. (sig, old sig)) sigs) hs =
     (\<lambda>sig. if sig \<in> set sigs then old sig else hs sig)"
  by (induction sigs arbitrary: hs) (auto simp: fun_eq_iff)

text \<open>The handlers of the captured signals are what they were, however the server ends.\<close>

lemma signals_restored:
  assumes "main_thread" "sig \<in> set signals"
  shows "snd (capture_signals main_thread signals handler body hs) sig = hs sig"
  using assms by (auto simp: capture_signals_def Let_def finallyS_def fold_restore split: prod.split)

text \<open>The server never applies a proxy policy of its own, and reloads only in development.\<close>

lemma production_configuration:
  assumes "ENV s \<noteq> ''development''"
  shows "\<not> sc_proxy_headers (server_configuration package s) \<and>
    main_run (server_configuration package s) supervised direct = direct \<and>
    sc_reload_dirs (server_configuration package s) = None"
  using assms by (simp add: server_configuration_def main_run_def)

end
