(* ===== verification/Cleanup.thy ===== *)
theory Cleanup
  imports Background Steps
begin

text \<open>
  The task of the idempotency cleanup (\<^verbatim>\<open>app/common/services/idempotency_cleanup_service.py\<close>): its timer,
  the sweeps the timer makes, and the order in which stopping waits for them.
\<close>

text \<open>
  One turn of the timer: the service is stopped while it waits, or the interval is over and the
  sweep it makes or joins ends with a result; \<open>stopped\<close> says whether the service was quiesced meanwhile.
\<close>

datatype turn = StopSet | IntervalOver (sweep_task: nat) (sweep_result: "int result") (stopped: bool)

definition sweep_turn :: "nat \<Rightarrow> int result \<Rightarrow> bool \<Rightarrow> IdempotencyCleanupService \<Rightarrow> unit result \<times> IdempotencyCleanupService \<times> exn list" where
  "sweep_turn fresh res quiesced c =
     (case cl_sweep fresh c of
        (None, c1) \<Rightarrow> (Inr (), c1, [])
      | (Some t, c1) \<Rightarrow>
          (let c2 = cl_sweep_done t (if quiesced then cl_quiesce c1 else c1) in
           case res of
             Inr removed \<Rightarrow> (Inr (), c2, [])
           | Inl e \<Rightarrow> if is_exception e then (Inr (), c2, [e]) else (Inl e, c2, [])))"

text \<open>The result \<open>None\<close> says that the timer is still waiting; the exceptions are those it has logged.\<close>

fun cl_run :: "turn list \<Rightarrow> IdempotencyCleanupService \<Rightarrow> unit result option \<times> IdempotencyCleanupService \<times> exn list" where
  "cl_run ts c =
     (if \<not> cl_accepting c then (Some (Inr ()), c, [])
      else
        (case ts of
           [] \<Rightarrow> (None, c, [])
         | StopSet # rest \<Rightarrow> cl_run rest (cl_quiesce c)
         | IntervalOver fresh res quiesced # rest \<Rightarrow>
             (case sweep_turn fresh res quiesced c of
                (Inl e, c1, es) \<Rightarrow> (Some (Inl e), c1, es)
              | (Inr _, c1, es) \<Rightarrow> (case cl_run rest c1 of (r, c2, es') \<Rightarrow> (r, c2, es @ es')))))"

declare cl_run.simps [simp del]

text \<open>The tasks that stopping waits for, one after the other.\<close>

definition cl_stop_awaits :: "IdempotencyCleanupService \<Rightarrow> nat list" where
  "cl_stop_awaits c =
     (case cl_timer c of Some t \<Rightarrow> [t] | None \<Rightarrow> []) @ (case cl_pending c of Some t \<Rightarrow> [t] | None \<Rightarrow> [])"

text \<open>A failing sweep does not end the timer; only a stop or a cancellation does.\<close>

lemma cl_run_survives:
  assumes "cl_run ts c = (Some (Inr ()), c', es)"
  shows "\<not> cl_accepting c'" and "list_all is_exception es"
proof -
  have "(fst (cl_run ts c) = Some (Inr ()) \<longrightarrow> \<not> cl_accepting (fst (snd (cl_run ts c)))) \<and> list_all is_exception (snd (snd (cl_run ts c)))"
  proof (induction ts arbitrary: c)
    case Nil
    show ?case by (subst cl_run.simps, subst (2) cl_run.simps, subst (3) cl_run.simps) simp
  next
    case (Cons t ts)
    show ?case
    proof (cases "cl_accepting c")
      case False
      then have "cl_run (t # ts) c = (Some (Inr ()), c, [])" by (subst cl_run.simps) simp
      then show ?thesis using False by simp
    next
      case True
      show ?thesis
      proof (cases t)
        case StopSet
        then have "cl_run (t # ts) c = cl_run ts (cl_quiesce c)" using True by (subst cl_run.simps) simp
        then show ?thesis using Cons.IH by simp
      next
        case (IntervalOver f r q)
        obtain x c1 es1 where x: "sweep_turn f r q c = (x, c1, es1)" by (metis prod_cases3)
        have es1: "list_all is_exception es1" using x
          by (auto simp: sweep_turn_def Let_def split: prod.splits option.splits sum.splits if_splits)
        obtain y c2 es2 where y: "cl_run ts c1 = (y, c2, es2)" by (metis prod_cases3)
        have "cl_run (t # ts) c = (case x of Inl e \<Rightarrow> (Some (Inl e), c1, es1) | Inr _ \<Rightarrow> (y, c2, es1 @ es2))"
          using True IntervalOver x y by (subst cl_run.simps) (simp split: sum.split)
        then show ?thesis using Cons.IH [of c1] y es1 by (auto split: sum.splits)
      qed
    qed
  qed
  then show "\<not> cl_accepting c'" "list_all is_exception es" using assms by simp_all
qed

lemma cl_run_stops: "fst (cl_run (StopSet # ts) c) = Some (Inr ())"
proof -
  have "cl_run ts (cl_quiesce c) = (Some (Inr ()), cl_quiesce c, [])"
    by (subst cl_run.simps) (simp add: cl_quiesce_def)
  then show ?thesis by (subst cl_run.simps) simp
qed

end
