(* ===== verification/OpenApi.thy ===== *)
theory OpenApi
  imports Json
begin

text \<open>
  The OpenAPI document (\<^verbatim>\<open>app/common/docs/openapi.py\<close>): what is rewritten in the document that the
  framework generates, once. A value that is not the object the code takes it for raises.
\<close>

subsection \<open>Rewriting\<close>

definition as_object :: "json \<Rightarrow> object result" where
  "as_object v = (case v of JObj fs \<Rightarrow> Inr fs | _ \<Rightarrow> Inl (TypeError ''Expected an object.''))"

text \<open>\<^verbatim>\<open>document[k1]...[kn] = v\<close>, and \<^verbatim>\<open>setdefault\<close>.\<close>

fun set_path :: "string list \<Rightarrow> json \<Rightarrow> json \<Rightarrow> json result" where
  "set_path [] v doc = Inr v"
| "set_path [k] v doc = bindR (as_object doc) (\<lambda>fs. Inr (JObj (od_set k v fs)))"
| "set_path (k # ks) v doc =
     bindR (as_object doc) (\<lambda>fs. bindR (entry_of fs k) (\<lambda>child. bindR (set_path ks v child) (\<lambda>child'.
       Inr (JObj (od_set k child' fs)))))"

definition set_default :: "string \<Rightarrow> json \<Rightarrow> object \<Rightarrow> object" where
  "set_default k v fs = (if map_of fs k = None then fs @ [(k, v)] else fs)"

definition error_ref :: json where
  "error_ref = JObj [(''$ref'', JStr ''#/components/schemas/ErrorResponse'')]"

definition error_document :: "string \<Rightarrow> json" where
  "error_document description =
     JObj [(''description'', JStr description), (''content'', JObj [(''application/json'', JObj [(''schema'', error_ref)])])]"

definition accepts_json :: "object \<Rightarrow> bool result" where
  "accepts_json method_data =
     bindR (as_object (get_or method_data ''requestBody'' (JObj []))) (\<lambda>body.
     bindR (as_object (get_or body ''content'' (JObj []))) (\<lambda>content.
       Inr (map_of content ''application/json'' \<noteq> None)))"

definition rewrite_responses :: "bool \<Rightarrow> object \<Rightarrow> object result" where
  "rewrite_responses takes_json responses =
     (let responses = (if takes_json then set_default ''400'' (error_document ''Malformed JSON request body.'') responses else responses) in
      bindR (if map_of responses ''422'' = None then Inr responses
             else bindR (set_path [''422'', ''content'', ''application/json'', ''schema''] error_ref (JObj responses)) as_object)
        (\<lambda>responses. Inr (set_default ''500'' (error_document ''Unexpected server error.'') responses)))"

text \<open>Responses that are missing in an operation are not added: they are set in a dictionary that is dropped.\<close>

definition rewrite_operation :: "json \<Rightarrow> json result" where
  "rewrite_operation method_data =
     (case method_data of
        JObj fs \<Rightarrow>
          (case get_or fs ''responses'' (JObj []) of
             JObj responses \<Rightarrow>
               bindR (accepts_json fs) (\<lambda>takes_json. bindR (rewrite_responses takes_json responses) (\<lambda>responses'.
                 Inr (if map_of fs ''responses'' = None then JObj fs else JObj (od_set ''responses'' (JObj responses') fs))))
           | _ \<Rightarrow> Inr method_data)
      | _ \<Rightarrow> Inr method_data)"

definition rewrite_values :: "(json \<Rightarrow> json result) \<Rightarrow> object \<Rightarrow> object result" where
  "rewrite_values f fs = mapR (\<lambda>(k, v). bindR (f v) (\<lambda>v'. Inr (k, v'))) fs"

definition rewrite_path :: "json \<Rightarrow> json result" where
  "rewrite_path path_item =
     (case path_item of
        JObj fs \<Rightarrow> bindR (rewrite_values rewrite_operation fs) (\<lambda>fs'. Inr (JObj fs'))
      | _ \<Rightarrow> Inr path_item)"

definition rewrite_document :: "object \<Rightarrow> object result" where
  "rewrite_document schema =
     bindR (set_path [''components'', ''schemas'', ''ValidationError''] error_ref (JObj schema)) (\<lambda>doc.
     bindR (set_path [''components'', ''schemas'', ''HTTPValidationError''] error_ref doc) (\<lambda>doc.
     bindR (as_object doc) (\<lambda>schema.
     bindR (as_object (get_or schema ''paths'' (JObj []))) (\<lambda>paths.
     bindR (rewrite_values rewrite_path paths) (\<lambda>paths'.
       Inr (if map_of schema ''paths'' = None then schema else od_set ''paths'' (JObj paths') schema))))))"

text \<open>The document of the application and the one it keeps; an empty one is generated again.\<close>

definition custom_openapi :: "object result \<Rightarrow> object option \<Rightarrow> object result \<times> object option" where
  "custom_openapi generated cached =
     (case cached of
        Some (f # fs) \<Rightarrow> (Inr (f # fs), cached)
      | _ \<Rightarrow>
          (case bindR generated rewrite_document of
             Inl e \<Rightarrow> (Inl e, cached)
           | Inr schema \<Rightarrow> (Inr schema, Some schema)))"

subsection \<open>Lemmas\<close>

lemma map_of_set_default:
  "map_of (set_default k v fs) j = (if j = k \<and> map_of fs k = None then Some v else map_of fs j)"
  by (auto simp: set_default_def map_add_def split: option.splits)

lemma set_path_other:
  assumes "set_path (k # ks) v (JObj fs) = Inr (JObj gs)" "j \<noteq> k"
  shows "map_of gs j = map_of fs j"
  using assms by (cases ks) (auto simp: as_object_def bindR_eq_Inr)

lemma set_path_keeps:
  assumes "set_path (k # ks) v (JObj fs) = Inr (JObj gs)" "map_of fs j \<noteq> None"
  shows "map_of gs j \<noteq> None"
  using assms by (cases "j = k"; cases ks) (auto simp: as_object_def bindR_eq_Inr)

text \<open>
  Rewritten responses keep what was documented, but for the body of 422, and document the
  unexpected error, and a malformed body where one is read.
\<close>

lemma rewrite_responses_sound:
  assumes "rewrite_responses takes_json rs = Inr rs'"
  shows "(\<forall>k. k \<noteq> ''422'' \<and> map_of rs k \<noteq> None \<longrightarrow> map_of rs' k = map_of rs k) \<and>
    map_of rs' ''500'' \<noteq> None \<and> (takes_json \<longrightarrow> map_of rs' ''400'' \<noteq> None) \<and>
    (map_of rs ''422'' = None \<longleftrightarrow> map_of rs' ''422'' = None)"
proof -
  let ?rs = "if takes_json then set_default ''400'' (error_document ''Malformed JSON request body.'') rs else rs"
  obtain mid where m: "(if map_of ?rs ''422'' = None then Inr ?rs
      else bindR (set_path [''422'', ''content'', ''application/json'', ''schema''] error_ref (JObj ?rs)) as_object) = Inr mid"
      "rs' = set_default ''500'' (error_document ''Unexpected server error.'') mid"
    using assms by (auto simp: rewrite_responses_def Let_def bindR_eq_Inr)
  have mid: "map_of mid k = map_of ?rs k" if "k \<noteq> ''422''" for k
    using m(1) that set_path_other [of "''422''" _ error_ref ?rs mid k]
    by (auto simp: bindR_eq_Inr as_object_def split: if_splits json.splits)
  have mid422: "map_of mid ''422'' = None \<longleftrightarrow> map_of ?rs ''422'' = None"
    using m(1) set_path_keeps [of "''422''" _ error_ref ?rs mid "''422''"]
    by (auto simp: bindR_eq_Inr as_object_def split: if_splits json.splits)
  have rs: "map_of ?rs k = (if takes_json \<and> k = ''400'' \<and> map_of rs ''400'' = None
      then Some (error_document ''Malformed JSON request body.'') else map_of rs k)" for k
    by (auto simp: map_of_set_default)
  show ?thesis unfolding m(2) map_of_set_default using mid mid422 by (auto simp: rs)
qed

text \<open>The document is rewritten once.\<close>

lemma openapi_once:
  assumes "custom_openapi g None = (Inr doc, kept)" "doc \<noteq> []"
  shows "custom_openapi g' kept = (Inr doc, kept)"
  using assms by (cases doc) (auto simp: custom_openapi_def split: sum.splits)

end
