(* ===== verification/Migrations.thy ===== *)
theory Migrations
  imports Steps
begin

text \<open>
  The migrations of the database (\<^verbatim>\<open>app/database/migrations\<close>) and the tables that the entities declare
  (\<^verbatim>\<open>app/database/entities\<close>). The operations of Alembic act on tables with their rows, as MySQL
  documents them; a row has a cell for every column.
\<close>

subsection \<open>Tables\<close>

record column =
  col_type :: string
  col_nullable :: bool
  col_default :: "string option"

datatype cell = Null | Cell string

type_synonym row = "string \<Rightarrow> cell option"

record table =
  columns :: "string \<Rightarrow> column option"
  primary_key :: "string list"
  indexes :: "string \<Rightarrow> (string list \<times> bool) option"
  rows :: "row list"

type_synonym tables = "string \<Rightarrow> table option"

definition column :: "string \<Rightarrow> bool \<Rightarrow> column" where
  "column ty nullable = \<lparr>col_type = ty, col_nullable = nullable, col_default = None\<rparr>"

definition defaulted :: "string \<Rightarrow> string \<Rightarrow> column" where
  "defaulted ty v = \<lparr>col_type = ty, col_nullable = False, col_default = Some v\<rparr>"

definition create_table :: "string \<Rightarrow> (string \<times> column) list \<Rightarrow> string list \<Rightarrow> tables \<Rightarrow> tables result" where
  "create_table name cols key db =
     (if db name \<noteq> None then Inl (SQLAlchemyError ''Table already exists'')
      else Inr (db(name \<mapsto> \<lparr>columns = map_of cols, primary_key = key, indexes = Map.empty, rows = []\<rparr>)))"

definition drop_table :: "string \<Rightarrow> tables \<Rightarrow> tables result" where
  "drop_table name db = (if db name = None then Inl (SQLAlchemyError ''Unknown table'') else Inr (db(name := None)))"

definition alter :: "string \<Rightarrow> (table \<Rightarrow> table result) \<Rightarrow> tables \<Rightarrow> tables result" where
  "alter name f db =
     (case db name of
        None \<Rightarrow> Inl (SQLAlchemyError ''Unknown table'')
      | Some t \<Rightarrow> bindR (f t) (\<lambda>t'. Inr (db(name \<mapsto> t'))))"

definition create_index :: "string \<Rightarrow> string \<Rightarrow> string list \<Rightarrow> tables \<Rightarrow> tables result" where
  "create_index index name cols =
     alter name (\<lambda>t.
       if indexes t index \<noteq> None \<or> \<not> list_all (\<lambda>c. columns t c \<noteq> None) cols then Inl (SQLAlchemyError ''Cannot create the index'')
       else Inr (t \<lparr>indexes := (indexes t)(index \<mapsto> (cols, False))\<rparr>))"

definition drop_index :: "string \<Rightarrow> string \<Rightarrow> tables \<Rightarrow> tables result" where
  "drop_index index name =
     alter name (\<lambda>t. if indexes t index = None then Inl (SQLAlchemyError ''Unknown index'')
       else Inr (t \<lparr>indexes := (indexes t)(index := None)\<rparr>))"

text \<open>Existing rows get the default of a new column.\<close>

definition default_cell :: "column \<Rightarrow> cell" where
  "default_cell c = (case col_default c of Some v \<Rightarrow> Cell v | None \<Rightarrow> Null)"

definition add_column :: "string \<Rightarrow> string \<Rightarrow> column \<Rightarrow> tables \<Rightarrow> tables result" where
  "add_column name col c =
     alter name (\<lambda>t. if columns t col \<noteq> None then Inl (SQLAlchemyError ''Duplicate column name'')
       else Inr (t \<lparr>columns := (columns t)(col \<mapsto> c), rows := map (\<lambda>r. r(col \<mapsto> default_cell c)) (rows t)\<rparr>))"

definition drop_column :: "string \<Rightarrow> string \<Rightarrow> tables \<Rightarrow> tables result" where
  "drop_column name col =
     alter name (\<lambda>t. if columns t col = None then Inl (SQLAlchemyError ''Unknown column'')
       else Inr (t \<lparr>columns := (columns t)(col := None), rows := map (\<lambda>r. r(col := None)) (rows t)\<rparr>))"

subsection \<open>Versions\<close>

definition create_items :: "tables \<Rightarrow> tables result" where
  "create_items db =
     bindR (create_table ''items''
       [(''name'', column ''VARCHAR(120)'' False), (''price'', column ''NUMERIC(10, 2)'' False), (''description'', column ''TEXT'' True),
        (''id'', column ''VARCHAR(16)'' False), (''createdAt'', defaulted ''DATETIME'' ''now()''),
        (''updatedAt'', defaulted ''DATETIME'' ''now()'')] [''id''] db)
       (create_index ''ix_items_name'' ''items'' [''name''])"

definition uncreate_items :: "tables \<Rightarrow> tables result" where
  "uncreate_items db = bindR (drop_index ''ix_items_name'' ''items'' db) (drop_table ''items'')"

definition item_versions :: "tables \<Rightarrow> tables result" where
  "item_versions = add_column ''items'' ''version'' (defaulted ''INTEGER UNSIGNED'' ''1'')"

definition unitem_versions :: "tables \<Rightarrow> tables result" where
  "unitem_versions = drop_column ''items'' ''version''"

definition idempotency_columns :: "(string \<times> column) list" where
  "idempotency_columns =
     [(''scope_hash'', column ''VARCHAR(64)'' False), (''namespace'', column ''VARCHAR(256)'' False),
      (''caller_scope'', column ''VARCHAR(128)'' False), (''operation'', column ''VARCHAR(128)'' False),
      (''route'', column ''VARCHAR(512)'' False), (''fingerprint'', column ''VARCHAR(64)'' False),
      (''state'', column ''VARCHAR(16)'' False), (''response_status'', column ''SMALLINT UNSIGNED'' True),
      (''response_body'', column ''MEDIUMBLOB'' True), (''completed_at'', column ''DATETIME(3)'' True),
      (''expires_at'', column ''DATETIME(3)'' True)]"

definition request_idempotency :: "tables \<Rightarrow> tables result" where
  "request_idempotency db =
     bindR (create_table ''request_idempotency'' idempotency_columns [''scope_hash''] db)
       (create_index ''ix_request_idempotency_expiry'' ''request_idempotency'' [''state'', ''expires_at''])"

definition unrequest_idempotency :: "tables \<Rightarrow> tables result" where
  "unrequest_idempotency = drop_table ''request_idempotency''"

record version =
  revision :: string
  down_revision :: "string option"
  upgrade :: "tables \<Rightarrow> tables result"
  downgrade :: "tables \<Rightarrow> tables result"

definition version_0001 :: version where
  "version_0001 = \<lparr>revision = ''0001_create_items'', down_revision = None, upgrade = create_items, downgrade = uncreate_items\<rparr>"

definition version_0002 :: version where
  "version_0002 = \<lparr>revision = ''0002_item_versions'', down_revision = Some ''0001_create_items'', upgrade = item_versions,
     downgrade = unitem_versions\<rparr>"

definition version_0003 :: version where
  "version_0003 = \<lparr>revision = ''0003_request_idempotency'', down_revision = Some ''0002_item_versions'',
     upgrade = request_idempotency, downgrade = unrequest_idempotency\<rparr>"

definition versions :: "version list" where
  "versions = [version_0001, version_0002, version_0003]"

text \<open>Alembic applies the version that revises the current one, until there is none.\<close>

fun run_migrations :: "version list \<Rightarrow> string option \<times> tables \<Rightarrow> (string option \<times> tables) result" where
  "run_migrations [] st = Inr st"
| "run_migrations (v # vs) (current, db) =
     (if down_revision v = current
      then bindR (upgrade v db) (\<lambda>db'. run_migrations vs (Some (revision v), db'))
      else run_migrations vs (current, db))"

text \<open>With an engine of its own a run ends with its disposal.\<close>

definition run_async_migrations :: "('s, unit) step \<Rightarrow> ('s, unit) step \<Rightarrow> ('s, unit) step \<Rightarrow> ('s, unit) step" where
  "run_async_migrations connect migrate dispose = finallyS (bindS connect (\<lambda>_. migrate)) dispose"

datatype migration_mode = Offline | GivenConnection | OwnEngine

definition migration_mode :: "bool \<Rightarrow> bool \<Rightarrow> migration_mode" where
  "migration_mode offline given = (if offline then Offline else if given then GivenConnection else OwnEngine)"

subsection \<open>Entities\<close>

text \<open>The tables that the entities declare, without rows.\<close>

definition base_columns :: "(string \<times> column) list" where
  "base_columns =
     [(''id'', column ''VARCHAR(16)'' False), (''createdAt'', defaulted ''DATETIME'' ''now()''),
      (''updatedAt'', defaulted ''DATETIME'' ''now()'')]"

definition declared_items :: table where
  "declared_items =
     \<lparr>columns = map_of (base_columns @ [(''version'', defaulted ''INTEGER UNSIGNED'' ''1''), (''name'', column ''VARCHAR(120)'' False),
        (''price'', column ''NUMERIC(10, 2)'' False), (''description'', column ''TEXT'' True)]),
      primary_key = [''id''], indexes = [''ix_items_name'' \<mapsto> ([''name''], False)], rows = []\<rparr>"

definition declared_idempotency :: table where
  "declared_idempotency =
     \<lparr>columns = map_of idempotency_columns, primary_key = [''scope_hash''],
      indexes = [''ix_request_idempotency_expiry'' \<mapsto> ([''state'', ''expires_at''], False)], rows = []\<rparr>"

subsection \<open>Lemmas\<close>

text \<open>Rows have cells for the columns of their table only.\<close>

definition rows_fit :: "table \<Rightarrow> bool" where
  "rows_fit t \<longleftrightarrow> list_all (\<lambda>r. dom r = dom (columns t)) (rows t)"

definition tables_fit :: "tables \<Rightarrow> bool" where
  "tables_fit db \<longleftrightarrow> (\<forall>name t. db name = Some t \<longrightarrow> rows_fit t)"

lemma add_drop_column:
  assumes "tables_fit db" "add_column name col c db = Inr db'"
  shows "drop_column name col db' = Inr db"
proof -
  obtain t where t: "db name = Some t" "columns t col = None"
      "db' = db(name \<mapsto> t \<lparr>columns := (columns t)(col \<mapsto> c), rows := map (\<lambda>r. r(col \<mapsto> default_cell c)) (rows t)\<rparr>)"
    using assms(2) by (auto simp: add_column_def alter_def bindR_eq_Inr split: option.splits if_splits)
  have fit: "r col = None" if "r \<in> set (rows t)" for r
    using assms(1) t(1,2) that by (force simp: tables_fit_def rows_fit_def list_all_iff dom_def)
  have "(columns t)(col := None) = columns t" "map (\<lambda>r. r(col := None)) (rows t) = rows t"
    using t(2) fit by (auto intro!: map_idI fun_upd_idem)
  then have "t \<lparr>columns := (columns t)(col := None), rows := map (\<lambda>r. r(col := None)) (rows t)\<rparr> = t" by simp
  moreover have "db(name \<mapsto> t) = db" using t(1) by auto
  ultimately show ?thesis
    by (simp add: t(3) drop_column_def alter_def comp_def)
qed

lemma create_drop_table: "create_table name cols key db = Inr db' \<Longrightarrow> db'(name := None) = db \<and> db' name \<noteq> None \<and> db name = None"
  by (auto simp: create_table_def split: if_splits)

lemma create_index_Inr:
  "create_index i name cols db = Inr db' \<Longrightarrow>
     \<exists>t. db name = Some t \<and> indexes t i = None \<and> db' = db(name \<mapsto> t \<lparr>indexes := (indexes t)(i \<mapsto> (cols, False))\<rparr>)"
  by (cases "db name"; cases "indexes (the (db name)) i") (auto simp: create_index_def alter_def split: if_splits)

lemma versions_undone:
  assumes "v \<in> set versions" "tables_fit db" "upgrade v db = Inr db'"
  shows "downgrade v db' = Inr db"
proof -
  have 1: "uncreate_items db' = Inr db" if u: "create_items db = Inr db'"
  proof -
    obtain mid cols where m: "create_table ''items'' cols [''id''] db = Inr mid" "create_index ''ix_items_name'' ''items'' [''name''] mid = Inr db'"
      using u by (auto simp: create_items_def bindR_eq_Inr)
    then show ?thesis using create_drop_table [OF m(1)] create_index_Inr [OF m(2)]
      by (auto simp: uncreate_items_def drop_index_def drop_table_def alter_def)
  qed
  have 2: "unrequest_idempotency db' = Inr db" if u: "request_idempotency db = Inr db'"
  proof -
    obtain mid where m: "create_table ''request_idempotency'' idempotency_columns [''scope_hash''] db = Inr mid"
        "create_index ''ix_request_idempotency_expiry'' ''request_idempotency'' [''state'', ''expires_at''] mid = Inr db'"
      using u by (auto simp: request_idempotency_def bindR_eq_Inr)
    then show ?thesis using create_drop_table [OF m(1)] create_index_Inr [OF m(2)]
      by (auto simp: unrequest_idempotency_def drop_table_def)
  qed
  have 3: "unitem_versions db' = Inr db" if "item_versions db = Inr db'"
    using add_drop_column [OF assms(2)] that by (simp add: item_versions_def unitem_versions_def)
  show ?thesis using assms(1,3) 1 2 3 by (auto simp: versions_def version_0001_def version_0002_def version_0003_def)
qed

text \<open>The rows that were there keep their cells, and the new ones are of the new columns.\<close>

definition keeps_rows :: "tables \<Rightarrow> tables \<Rightarrow> bool" where
  "keeps_rows db db' \<longleftrightarrow>
     (\<forall>name t. db name = Some t \<longrightarrow> (\<exists>t'. db' name = Some t' \<and> map (\<lambda>r. r |` dom (columns t)) (rows t') = rows t))"

lemma keeps_rows_upd:
  assumes "tables_fit db" "\<And>t. db name = Some t \<Longrightarrow> map (\<lambda>r. r |` dom (columns t)) (rows t') = rows t"
  shows "keeps_rows db (db(name \<mapsto> t'))"
proof -
  have "r |` dom (columns u) = r" if "db n = Some u" "r \<in> set (rows u)" for n u r
  proof -
    have "dom r = dom (columns u)" using assms(1) that by (auto simp: tables_fit_def rows_fit_def list_all_iff)
    moreover have "r |` dom r = r" by (auto simp: fun_eq_iff restrict_map_def domIff)
    ultimately show ?thesis by simp
  qed
  then have "map (\<lambda>r. r |` dom (columns u)) (rows u) = rows u" if "db n = Some u" for n u
    using that by (intro map_idI) simp
  then show ?thesis using assms(2) by (auto simp: keeps_rows_def)
qed

lemma versions_keep_rows:
  assumes "v \<in> set versions" "tables_fit db" "upgrade v db = Inr db'"
  shows "keeps_rows db db' \<and> tables_fit db'"
proof -
  have fit_upd: "tables_fit (db(name \<mapsto> t'))" if "rows_fit t'" for name t'
    using assms(2) that by (auto simp: tables_fit_def)
  have make: "keeps_rows db d' \<and> tables_fit d'"
    if tab: "create_table name cols key db = Inr mid" and ind: "create_index i name ics mid = Inr d'" for name cols key mid i ics d'
  proof -
    obtain t where "d' = db(name \<mapsto> t)" "rows t = []" "db name = None"
      using tab create_index_Inr [OF ind] by (auto simp: create_table_def split: if_splits)
    then show ?thesis using keeps_rows_upd [OF assms(2), of name t] fit_upd [of t name] by (simp add: rows_fit_def)
  qed
  have "keeps_rows db db' \<and> tables_fit db'" if u: "item_versions db = Inr db'"
  proof -
    let ?c = "defaulted ''INTEGER UNSIGNED'' ''1''"
    obtain t where t: "db ''items'' = Some t" "columns t ''version'' = None"
        "db' = db(''items'' \<mapsto> t \<lparr>columns := (columns t)(''version'' \<mapsto> ?c), rows := map (\<lambda>r. r(''version'' \<mapsto> default_cell ?c)) (rows t)\<rparr>)"
      using u by (auto simp: item_versions_def add_column_def alter_def bindR_eq_Inr split: option.splits if_splits)
    have fit: "dom r = dom (columns t)" if "r \<in> set (rows t)" for r
      using assms(2) t(1) that by (auto simp: tables_fit_def rows_fit_def list_all_iff)
    have "(r(''version'' \<mapsto> x)) |` dom (columns t) = r" if "r \<in> set (rows t)" for r x
    proof -
      have none: "columns t k = None \<Longrightarrow> r k = None" for k using fit [OF that] by (metis domIff)
      have "((r(''version'' \<mapsto> x)) |` dom (columns t)) k = r k" for k
        using t(2) none [of k] by (cases "columns t k") (auto simp: restrict_map_def domIff)
      then show ?thesis by (rule ext)
    qed
    then have "map (\<lambda>r. r |` dom (columns t)) (map (\<lambda>r. r(''version'' \<mapsto> default_cell ?c)) (rows t)) = rows t"
      by (auto simp: comp_def intro!: map_idI)
    moreover have "rows_fit (t \<lparr>columns := (columns t)(''version'' \<mapsto> ?c), rows := map (\<lambda>r. r(''version'' \<mapsto> default_cell ?c)) (rows t)\<rparr>)"
      using fit by (auto simp: rows_fit_def list_all_iff)
    ultimately show ?thesis unfolding t(3) using t(1)
      by (intro conjI keeps_rows_upd [OF assms(2)] fit_upd) simp_all
  qed
  then show ?thesis using assms(1,3) make
    by (auto simp: versions_def version_0001_def version_0002_def version_0003_def create_items_def request_idempotency_def
        bindR_eq_Inr)
qed

text \<open>The migrations and the entities declare the same tables.\<close>

lemma fresh_schema:
  "run_migrations versions (None, Map.empty) =
     Inr (Some ''0003_request_idempotency'', [''items'' \<mapsto> declared_items, ''request_idempotency'' \<mapsto> declared_idempotency])"
proof -
  let ?items = "\<lambda>cols. \<lparr>columns = cols, primary_key = [''id''], indexes = [''ix_items_name'' \<mapsto> ([''name''], False)], rows = []\<rparr>"
  let ?cols = "map_of [(''name'', column ''VARCHAR(120)'' False), (''price'', column ''NUMERIC(10, 2)'' False),
      (''description'', column ''TEXT'' True), (''id'', column ''VARCHAR(16)'' False), (''createdAt'', defaulted ''DATETIME'' ''now()''),
      (''updatedAt'', defaulted ''DATETIME'' ''now()'')]"
  have 1: "create_items Map.empty = Inr [''items'' \<mapsto> ?items ?cols]"
    by (simp add: create_items_def create_table_def create_index_def alter_def)
  have cols: "?cols(''version'' \<mapsto> defaulted ''INTEGER UNSIGNED'' ''1'') = columns declared_items"
    by (auto simp: declared_items_def base_columns_def fun_eq_iff)
  have 2: "item_versions [''items'' \<mapsto> ?items ?cols] = Inr [''items'' \<mapsto> declared_items]"
    unfolding item_versions_def add_column_def alter_def using cols by (simp add: declared_items_def)
  have 3: "request_idempotency [''items'' \<mapsto> declared_items] =
      Inr [''items'' \<mapsto> declared_items, ''request_idempotency'' \<mapsto> declared_idempotency]"
    by (simp add: request_idempotency_def create_table_def create_index_def alter_def declared_idempotency_def idempotency_columns_def)
  have "run_migrations versions (None, Map.empty) = bindR (create_items Map.empty) (\<lambda>db. bindR (item_versions db) (\<lambda>db.
      bindR (request_idempotency db) (\<lambda>db. Inr (Some ''0003_request_idempotency'', db))))"
    by (simp add: versions_def version_0001_def version_0002_def version_0003_def)
  then show ?thesis by (simp only: 1 2 3 bindR_simps)
qed

text \<open>However a run ends, its engine is disposed of last.\<close>

lemma run_disposes:
  "\<exists>s'. snd (run_async_migrations connect migrate dispose s) = snd (dispose s')"
proof -
  obtain r s1 where "bindS connect (\<lambda>_. migrate) s = (r, s1)" by force
  then have "snd (run_async_migrations connect migrate dispose s) = snd (dispose s1)"
    by (simp add: run_async_migrations_def finallyS_def split: prod.split sum.split)
  then show ?thesis by blast
qed

subsection \<open>Properties\<close>


text \<open>A table of items with one row gets its versions.\<close>

definition demo_items :: table where
  "demo_items = \<lparr>columns = [''id'' \<mapsto> column ''VARCHAR(16)'' False], primary_key = [''id''], indexes = Map.empty,
     rows = [[''id'' \<mapsto> Cell ''a1'']]\<rparr>"


end
