(* ===== verification/Formatter.thy ===== *)
theory Formatter
  imports Host
begin

text \<open>
  The formatter of the repository's Python sources (\<^verbatim>\<open>scripts/format_code.py\<close>): blank lines between
  statements on top of the layout of Black, the selection of files, and the script.

  The parser, the tokenizer, Black and the codecs are parameters. Lines and their numbers are those
  the parser gives, counted from 1; they lie within the text that was parsed.
\<close>

subsection \<open>Syntax trees\<close>

text \<open>
  A node has the name of its class, its first and last line and its fields in order; a field holds
  one value or a list. Values that are not nodes are given by whether they are texts and by their rendering.
\<close>

datatype ast = Node string nat "nat option" "(string \<times> ast_field) list" | Value bool string
  and ast_field = One ast | Many "ast list"

type_synonym fields = "(string \<times> ast_field) list"

definition ASSIGNMENTS :: "string list" where
  "ASSIGNMENTS = [''Assign'', ''AnnAssign'', ''AugAssign'']"

definition BLOCKS :: "string list" where
  "BLOCKS = [''If'', ''For'', ''AsyncFor'', ''While'', ''With'', ''AsyncWith'', ''Try'', ''TryStar'', ''Match'', ''FunctionDef'',
     ''AsyncFunctionDef'', ''ClassDef'']"

definition SEPARATED :: "string list" where
  "SEPARATED = [''Return'', ''Raise'', ''Try'', ''TryStar'']"

definition IGNORED_DIRS :: "string list" where
  "IGNORED_DIRS = [''__pycache__'', ''node_modules'', ''venv'', ''env'', ''build'', ''dist'']"

definition DEFINITIONS :: "string list" where
  "DEFINITIONS = [''FunctionDef'', ''AsyncFunctionDef'', ''ClassDef'']"

text \<open>The subclasses of \<^verbatim>\<open>ast.stmt\<close>.\<close>

definition STATEMENTS :: "string list" where
  "STATEMENTS = ASSIGNMENTS @ BLOCKS @ [''Return'', ''Raise'', ''Delete'', ''TypeAlias'', ''Assert'', ''Import'', ''ImportFrom'',
     ''Global'', ''Nonlocal'', ''Expr'', ''Pass'', ''Break'', ''Continue'']"

definition class_in :: "string list \<Rightarrow> ast \<Rightarrow> bool" where
  "class_in cs t = (case t of Node c l e fs \<Rightarrow> c \<in> set cs | Value b r \<Rightarrow> False)"

definition lineno :: "ast \<Rightarrow> nat" where
  "lineno t = (case t of Node c l e fs \<Rightarrow> l | Value b r \<Rightarrow> 0)"

definition end_lineno :: "ast \<Rightarrow> nat option" where
  "end_lineno t = (case t of Node c l e fs \<Rightarrow> e | Value b r \<Rightarrow> None)"

definition fields_of :: "ast \<Rightarrow> fields" where
  "fields_of t = (case t of Node c l e fs \<Rightarrow> fs | Value b r \<Rightarrow> [])"

definition items_of :: "ast_field \<Rightarrow> ast list" where
  "items_of f = (case f of Many ts \<Rightarrow> ts | One t \<Rightarrow> [])"

text \<open>\<^verbatim>\<open>ast.walk\<close>, in some order.\<close>

fun walk :: "ast \<Rightarrow> ast list"
  and walk_field :: "ast_field \<Rightarrow> ast list"
  and walk_fields :: "fields \<Rightarrow> ast list"
  and walk_items :: "ast list \<Rightarrow> ast list" where
  "walk (Value b r) = []"
| "walk (Node c l e fs) = Node c l e fs # walk_fields fs"
| "walk_field (One t) = walk t"
| "walk_field (Many ts) = walk_items ts"
| "walk_fields [] = []"
| "walk_fields ((n, f) # fs) = walk_field f @ walk_fields fs"
| "walk_items [] = []"
| "walk_items (t # ts) = walk t @ walk_items ts"

text \<open>A tree without positions, which is what \<^verbatim>\<open>ast.dump\<close> without attributes shows.\<close>

fun unlocated :: "ast \<Rightarrow> ast"
  and unlocated_field :: "ast_field \<Rightarrow> ast_field"
  and unlocated_fields :: "fields \<Rightarrow> fields"
  and unlocated_items :: "ast list \<Rightarrow> ast list" where
  "unlocated (Value b r) = Value b r"
| "unlocated (Node c l e fs) = Node c 0 None (unlocated_fields fs)"
| "unlocated_field (One t) = One (unlocated t)"
| "unlocated_field (Many ts) = Many (unlocated_items ts)"
| "unlocated_fields [] = []"
| "unlocated_fields ((n, f) # fs) = (n, unlocated_field f) # unlocated_fields fs"
| "unlocated_items [] = []"
| "unlocated_items (t # ts) = unlocated t # unlocated_items ts"

subsection \<open>Spacing\<close>

record token =
  tk_comment :: bool
  tk_string :: string
  tk_start :: nat
  tk_end :: nat

record mode =
  line_length :: int
  target_versions :: "string list"
  string_normalization :: bool

text \<open>
  \<open>black\<close> is \<^verbatim>\<open>format_file_contents\<close>, with \<open>None\<close> for \<^verbatim>\<open>NothingChanged\<close>; \<open>options\<close> are those of
  the project file, \<open>versions\<close> the names of Black's target versions. \<open>writable\<close> says whether a file can be written.
\<close>

type_synonym file_path = "string list"

record formatter =
  parse :: "string \<Rightarrow> ast result"
  tokens :: "string \<Rightarrow> token list result"
  black :: "mode \<Rightarrow> (int \<times> int) list \<Rightarrow> string \<Rightarrow> string option result"
  options :: "object result"
  versions :: "string list"
  detect_encoding :: "bytes \<Rightarrow> string result"
  decode_text :: "string \<Rightarrow> bytes \<Rightarrow> string result"
  encode_text :: "string \<Rightarrow> string \<Rightarrow> bytes result"
  resolve_path :: "file_path \<Rightarrow> file_path"
  writable :: "file_path \<Rightarrow> bool"
  error_text :: "exn \<Rightarrow> string"
  black_version :: string

text \<open>\<^verbatim>\<open>splitlines(keepends=True)\<close>\<close>

function lines_with_ends :: "string \<Rightarrow> string \<Rightarrow> string list" where
  "lines_with_ends acc [] = (if acc = [] then [] else [rev acc])"
| "lines_with_ends acc (c # cs) =
     (let n = line_boundary (c # cs) in
      if n = 0 then lines_with_ends (c # acc) cs
      else (rev acc @ take n (c # cs)) # lines_with_ends [] (drop n (c # cs)))"
  by pat_completeness auto

termination
  by (relation "measure (\<lambda>(acc, s). length s)") (auto simp: Let_def)

definition source_lines :: "string \<Rightarrow> string list" where
  "source_lines s = lines_with_ends [] s"

definition directive :: "token \<Rightarrow> string" where
  "directive tk = py_strip (dropWhile (\<lambda>c. c = CHR ''#'') (tk_string tk))"

fun protected_loop :: "token list \<Rightarrow> nat option \<Rightarrow> nat list \<Rightarrow> nat option \<times> nat list" where
  "protected_loop [] disabled protected = (disabled, protected)"
| "protected_loop (tk # tks) disabled protected =
     (if \<not> tk_comment tk then protected_loop tks disabled protected
      else if directive tk = ''fmt: off'' \<and> disabled = None then protected_loop tks (Some (tk_start tk)) protected
      else
        (case (directive tk = ''fmt: on'', disabled) of
           (True, Some d) \<Rightarrow> protected_loop tks None (protected @ [d ..< tk_end tk + 1])
         | _ \<Rightarrow>
             if directive tk = ''fmt: skip'' then protected_loop tks disabled (protected @ [tk_start tk])
             else protected_loop tks disabled protected))"

definition protected_lines :: "formatter \<Rightarrow> string \<Rightarrow> nat list result" where
  "protected_lines lib source =
     bindR (tokens lib source) (\<lambda>tks.
       Inr (case protected_loop tks None [] of
              (None, protected) \<Rightarrow> protected
            | (Some d, protected) \<Rightarrow> protected @ [d ..< length (py_splitlines source) + 1]))"

definition statement_start :: "ast \<Rightarrow> nat" where
  "statement_start t =
     (if class_in DEFINITIONS t
      then
        (let decorators = (case map_of (fields_of t) ''decorator_list'' of Some f \<Rightarrow> items_of f | None \<Rightarrow> []) in
         Min (set (lineno t # map lineno decorators)))
      else lineno t)"

definition text_expression :: "ast \<Rightarrow> bool" where
  "text_expression t \<longleftrightarrow>
     class_in [''Expr''] t \<and>
     (case map_of (fields_of t) ''value'' of
        Some (One v) \<Rightarrow>
          class_in [''Constant''] v \<and> (case map_of (fields_of v) ''value'' of Some (One (Value is_text r)) \<Rightarrow> is_text | _ \<Rightarrow> False)
      | _ \<Rightarrow> False)"

definition required :: "ast \<Rightarrow> ast \<Rightarrow> bool" where
  "required previous following \<longleftrightarrow>
     class_in ASSIGNMENTS previous \<and> \<not> class_in ASSIGNMENTS following \<or>
     class_in BLOCKS previous \<or> class_in SEPARATED following"

definition line_at :: "string list \<Rightarrow> nat \<Rightarrow> string" where
  "line_at lines n = (if n < length lines then lines ! n else [])"

text \<open>Comments in front of a statement stay with it; \<open>n\<close> is the number of lines before the insertion.\<close>

fun attach :: "string list \<Rightarrow> nat \<Rightarrow> nat \<Rightarrow> nat" where
  "attach lines last_line 0 = 0"
| "attach lines last_line (Suc n) =
     (if last_line < Suc n \<and> startswith (dropWhile py_isspace (line_at lines n)) ''#'' then attach lines last_line n else Suc n)"

definition blank :: "string \<Rightarrow> bool" where
  "blank line \<longleftrightarrow> py_strip line = []"

text \<open>
  Whether two siblings are to be separated: \<open>first\<close> says that they are the first two of the list
  \<open>field\<close> of \<open>node\<close>.
\<close>

definition separated :: "nat list \<Rightarrow> ast \<Rightarrow> string \<Rightarrow> bool \<Rightarrow> ast \<Rightarrow> ast \<Rightarrow> bool" where
  "separated protected node field first previous following \<longleftrightarrow>
     \<not> (field = ''body'' \<and> class_in (''Module'' # DEFINITIONS) node \<and> first \<and> text_expression previous) \<and>
     required previous following \<and>
     \<not> list_ex (\<lambda>line. line \<in> set protected)
       [lineno previous ..< (case end_lineno following of Some e \<Rightarrow> e | None \<Rightarrow> statement_start following) + 1]"

definition insertion :: "string list \<Rightarrow> nat list \<Rightarrow> ast \<Rightarrow> string \<Rightarrow> bool \<Rightarrow> ast \<Rightarrow> ast \<Rightarrow> nat option" where
  "insertion lines protected node field first previous following =
     (case end_lineno previous of
        None \<Rightarrow> None
      | Some e \<Rightarrow>
          (let start = statement_start following in
           if start \<le> e \<or> \<not> separated protected node field first previous following \<or>
             list_ex blank (take (start - 1 - e) (drop e lines))
           then None
           else Some (attach lines e (start - 1))))"

text \<open>The pairs of neighbours in the lists of statements of a node.\<close>

definition siblings :: "ast \<Rightarrow> (string \<times> bool \<times> ast \<times> ast) list" where
  "siblings node =
     concat (map (\<lambda>(field, f).
       (let statements = filter (class_in STATEMENTS) (items_of f) in
        map (\<lambda>(i, previous, following). (field, i = 0, previous, following))
          (zip [0 ..< length statements] (zip statements (drop 1 statements)))))
       (fields_of node))"

definition insertions :: "string list \<Rightarrow> nat list \<Rightarrow> ast \<Rightarrow> nat list" where
  "insertions lines protected program =
     concat (map (\<lambda>node.
       List.map_filter (\<lambda>(field, first, previous, following). insertion lines protected node field first previous following)
         (siblings node)) (walk program))"

text \<open>\<^verbatim>\<open>lines.insert(n, '\n')\<close>, from the last position to the first.\<close>

definition insert_line :: "nat \<Rightarrow> string list \<Rightarrow> string list" where
  "insert_line n lines = take n lines @ [newline] @ drop n lines"

definition insert_lines :: "nat list \<Rightarrow> string list \<Rightarrow> string list" where
  "insert_lines ns lines = fold insert_line (rev (sorted_list_of_set (set ns))) lines"

definition spaced_source :: "formatter \<Rightarrow> string \<Rightarrow> string result" where
  "spaced_source lib source =
     bindR (parse lib source) (\<lambda>program.
     bindR (protected_lines lib source) (\<lambda>protected.
       let lines = source_lines source; result = concat (insert_lines (insertions lines protected program) lines) in
       bindR (parse lib result) (\<lambda>program'.
         if unlocated program \<noteq> unlocated program'
         then Inl (ValueError ''Spacing changed Python syntax; refusing to format.'')
         else Inr result)))"

subsection \<open>Formatting\<close>

definition TextList :: "json \<Rightarrow> string list result" where
  "TextList v =
     (case v of
        JArr vs \<Rightarrow> mapR (\<lambda>t. case t of JStr s \<Rightarrow> Inr s | _ \<Rightarrow> Inl (TypeError ''Expected a text.'')) vs
      | _ \<Rightarrow> Inl (TypeError ''Expected a list.''))"

definition target_version :: "formatter \<Rightarrow> string \<Rightarrow> string result" where
  "target_version lib target = (if py_upper target \<in> set (versions lib) then Inr (py_upper target) else Inl (KeyError (py_upper target)))"

definition project_mode :: "formatter \<Rightarrow> mode result" where
  "project_mode lib =
     bindR (options lib) (\<lambda>opts.
     bindR (json_int (get_or opts ''line_length'' (JInt 88))) (\<lambda>len.
     bindR (TextList (get_or opts ''target_version'' (JArr [JStr ''py312'']))) (\<lambda>targets.
     bindR (mapR (target_version lib) targets) (\<lambda>targets.
       Inr \<lparr>line_length = len, target_versions = targets,
         string_normalization = (\<not> truthy (get_or opts ''skip_string_normalization'' (JBool False)))\<rparr>))))"

definition black_source :: "formatter \<Rightarrow> mode \<Rightarrow> (int \<times> int) list \<Rightarrow> string \<Rightarrow> string result" where
  "black_source lib md ranges source =
     bindR (black lib md ranges source) (\<lambda>r. Inr (case r of None \<Rightarrow> source | Some t \<Rightarrow> t))"

definition crlf :: string where
  "crlf = [CHR 0x0D, CHR 0x0A]"

text \<open>\<^verbatim>\<open>replace\<close> of line ends, in both directions.\<close>

fun unix_lines :: "string \<Rightarrow> string" where
  "unix_lines [] = []"
| "unix_lines [c] = [c]"
| "unix_lines (c # d # cs) = (if [c, d] = crlf then d # unix_lines cs else c # unix_lines (d # cs))"

definition with_line_end :: "string \<Rightarrow> string \<Rightarrow> string" where
  "with_line_end e s = concat (map (\<lambda>c. if c = CHR 0x0A then e else [c]) s)"

definition format_source :: "formatter \<Rightarrow> mode \<Rightarrow> string \<Rightarrow> string result" where
  "format_source lib md source =
     (let e = (if py_contains source crlf then crlf else newline) in
      bindR (black_source lib md [] (unix_lines source)) (\<lambda>initial.
      bindR (spaced_source lib initial) (\<lambda>spaced.
      bindR (black_source lib md [] spaced) (\<lambda>text.
      bindR (spaced_source lib text) (\<lambda>again.
        if again \<noteq> text then Inl (ValueError ''Black and spacing rules disagree; refusing to format.'')
        else Inr (with_line_end e text))))))"

subsection \<open>The selection of files\<close>

text \<open>
  What is found at a path when links are followed; the members of a directory have a name, and may be
  links. Directories that cannot be listed count as empty.
\<close>

datatype entry = FileEntry | DirEntry "(string \<times> bool \<times> entry) list"

record target =
  tg_path :: file_path
  tg_link :: bool
  tg_entry :: "entry option"

definition py_suffix :: "string \<Rightarrow> bool" where
  "py_suffix name \<longleftrightarrow> removesuffix ''.py'' name \<noteq> name \<and> name \<noteq> ''.py''"

fun python_members :: "file_path \<Rightarrow> (string \<times> bool \<times> entry) list \<Rightarrow> file_path list" where
  "python_members dir [] = []"
| "python_members dir ((name, link, FileEntry) # es) =
     (if removesuffix ''.py'' name \<noteq> name \<and> \<not> link then [dir @ [name]] else []) @ python_members dir es"
| "python_members dir ((name, link, DirEntry members) # es) =
     (if \<not> startswith name ''.'' \<and> name \<notin> set IGNORED_DIRS \<and> \<not> link then python_members (dir @ [name]) members else []) @
     python_members dir es"

definition target_files :: "formatter \<Rightarrow> target \<Rightarrow> file_path list result" where
  "target_files lib tg =
     (let shown = py_join ''/'' (tg_path tg) in
      if tg_link tg then Inl (ValueError (''Refusing symbolic-link target: '' @ shown))
      else
        (case tg_entry tg of
           Some FileEntry \<Rightarrow>
             if tg_path tg \<noteq> [] \<and> py_suffix (last (tg_path tg)) then Inr [resolve_path lib (tg_path tg)]
             else Inl (ValueError (''Expected an existing Python file or directory: '' @ shown))
         | Some (DirEntry members) \<Rightarrow> Inr (map (resolve_path lib) (python_members (tg_path tg) members))
         | None \<Rightarrow> Inl (ValueError (''Expected an existing Python file or directory: '' @ shown))))"

definition python_files :: "formatter \<Rightarrow> target list \<Rightarrow> file_path list result" where
  "python_files lib targets =
     bindR (mapR (target_files lib) targets) (\<lambda>fss.
       if concat fss = [] then Inl (ValueError ''No Python files selected.'') else Inr (sort (remdups (concat fss))))"

text \<open>\<open>None\<close> is a range that the command line refuses.\<close>

definition line_range :: "string \<Rightarrow> (int \<times> int) option" where
  "line_range v =
     (let first = takeWhile (\<lambda>c. c \<noteq> CHR ''-'') v; rest = dropWhile (\<lambda>c. c \<noteq> CHR ''-'') v in
      if rest = [] then None
      else
        (case (py_int first, py_int (drop 1 rest)) of
           (Some start, Some stop) \<Rightarrow> if start < 1 \<or> stop < start then None else Some (start, stop)
         | _ \<Rightarrow> None))"

subsection \<open>The script\<close>

record arguments =
  arg_paths :: "target list"
  arg_check :: bool
  arg_quiet :: bool
  arg_version :: bool
  arg_ranges :: "(int \<times> int) list"
  arg_stdin :: string
  arg_input :: bytes
  arg_default :: "target list"

text \<open>\<open>arg_stdin\<close> is empty when the option is not given; \<open>arg_default\<close> are the directories of the repository.\<close>

record desk =
  disk :: "file_path \<Rightarrow> bytes option"
  stdout :: string
  stderr :: string

definition print_line :: "string \<Rightarrow> (desk, unit) step" where
  "print_line s = modifyS (\<lambda>d. d \<lparr>stdout := stdout d @ s @ newline\<rparr>)"

definition print_error :: "string \<Rightarrow> (desk, unit) step" where
  "print_error s = modifyS (\<lambda>d. d \<lparr>stderr := stderr d @ s @ newline\<rparr>)"

definition write_source :: "formatter \<Rightarrow> file_path \<Rightarrow> bytes \<Rightarrow> (desk, unit) step" where
  "write_source lib p b =
     (if writable lib p then modifyS (\<lambda>d. d \<lparr>disk := (disk d)(p \<mapsto> b)\<rparr>) else raiseS OSError)"

text \<open>The exceptions of the two handlers.\<close>

fun format_failure :: "exn \<Rightarrow> bool" where
  "format_failure (SyntaxError m) = True"
| "format_failure (TokenError m) = True"
| "format_failure (ValueError m) = True"
| "format_failure UnicodeDecodeError = True"
| "format_failure e = False"

definition formatted_bytes :: "formatter \<Rightarrow> mode \<Rightarrow> string \<Rightarrow> bytes \<Rightarrow> bytes result" where
  "formatted_bytes lib md enc raw =
     bindR (decode_text lib enc raw) (\<lambda>source. bindR (format_source lib md source) (encode_text lib enc))"

text \<open>One file: its bytes and the formatted ones.\<close>

definition check_file :: "formatter \<Rightarrow> mode \<Rightarrow> (file_path \<Rightarrow> bytes option) \<Rightarrow> file_path \<Rightarrow> (file_path \<times> bytes \<times> bytes) result" where
  "check_file lib md contents p =
     (case contents p of
        None \<Rightarrow> Inl OSError
      | Some raw \<Rightarrow>
          bindR (detect_encoding lib raw) (\<lambda>enc.
            (case formatted_bytes lib md enc raw of
               Inl e \<Rightarrow> Inl (if format_failure e then ValueError (py_join ''/'' p @ '': '' @ error_text lib e) else e)
             | Inr formatted \<Rightarrow> Inr (p, raw, formatted))))"

definition apply_change :: "formatter \<Rightarrow> arguments \<Rightarrow> file_path \<times> bytes \<times> bytes \<Rightarrow> (desk, unit) step" where
  "apply_change lib args change =
     (case change of (p, raw, formatted) \<Rightarrow>
        bindS (if arg_check args then returnS () else write_source lib p formatted) (\<lambda>_.
          if arg_quiet args then returnS ()
          else print_line ((if arg_check args then ''Would reformat'' else ''Reformatted'') @ '': '' @ py_join ''/'' p)))"

definition format_files :: "formatter \<Rightarrow> arguments \<Rightarrow> mode \<Rightarrow> (desk, int) step" where
  "format_files lib args md =
     bindS (liftS (python_files lib (if arg_paths args = [] then arg_default args else arg_paths args))) (\<lambda>paths.
     bindS (readS (\<lambda>d. mapR (check_file lib md (disk d)) paths)) (\<lambda>checked.
       let changes = filter (\<lambda>(p, raw, formatted). formatted \<noteq> raw) checked in
       bindS (mapS (apply_change lib args) changes) (\<lambda>_.
       bindS (if arg_quiet args then returnS ()
              else print_line (show_nat (length paths) @ '' Python files checked; '' @ show_nat (length changes) @ '' formatting changes.'')) (\<lambda>_.
         returnS (if arg_check args \<and> changes \<noteq> [] then 1 else 0)))))"

definition usage_error :: "string \<Rightarrow> (desk, int) step" where
  "usage_error m = bindS (print_error m) (\<lambda>_. returnS 2)"

definition format_buffer :: "formatter \<Rightarrow> arguments \<Rightarrow> mode \<Rightarrow> (desk, int) step" where
  "format_buffer lib args md =
     (if map tg_path (arg_paths args) \<noteq> [[''-'']] then usage_error ''--stdin-filename requires the single input path -''
      else
        bindS (liftS (if utf8_valid (arg_input args) then Inr (arg_input args) else Inl UnicodeDecodeError)) (\<lambda>source.
        bindS (liftS (if arg_ranges args \<noteq> [] then black_source lib md (arg_ranges args) source
                      else format_source lib md source)) (\<lambda>text.
          if arg_check args then returnS (if source \<noteq> text then 1 else 0)
          else bindS (modifyS (\<lambda>d. d \<lparr>stdout := stdout d @ text\<rparr>)) (\<lambda>_. returnS 0))))"

definition format_main :: "formatter \<Rightarrow> arguments \<Rightarrow> (desk, int) step" where
  "format_main lib args =
     (if arg_version args
      then bindS (print_line (''black, '' @ black_version lib @ '' (project logical spacing)'')) (\<lambda>_. returnS 0)
      else
        tryS
          (bindS (liftS (project_mode lib)) (\<lambda>md.
             if arg_stdin args \<noteq> [] then format_buffer lib args md
             else if arg_ranges args \<noteq> [] then usage_error ''--line-ranges is only supported with --stdin-filename''
             else format_files lib args md))
          (\<lambda>e. if e = OSError \<or> format_failure e
               then bindS (print_error (''Formatting failed: '' @ error_text lib e)) (\<lambda>_. returnS 2)
               else raiseS e))"

subsection \<open>Lemmas\<close>

text \<open>The policy: neighbours that are to be separated have a blank line between them.\<close>

definition well_spaced :: "formatter \<Rightarrow> string \<Rightarrow> bool" where
  "well_spaced lib text \<longleftrightarrow>
     (\<exists>program protected. parse lib text = Inr program \<and> protected_lines lib text = Inr protected \<and>
       (\<forall>node \<in> set (walk program). \<forall>(field, first, previous, following) \<in> set (siblings node).
          case end_lineno previous of
            None \<Rightarrow> True
          | Some e \<Rightarrow>
              e < statement_start following \<and> separated protected node field first previous following \<longrightarrow>
              list_ex blank (take (statement_start following - 1 - e) (drop e (source_lines text)))))"

lemma concat_lines: "concat (lines_with_ends acc s) = rev acc @ s"
  by (induction acc s rule: lines_with_ends.induct) (auto simp: Let_def)

lemma concat_source_lines [simp]: "concat (source_lines s) = s"
  by (simp add: source_lines_def concat_lines)

lemma length_insert_line: "length (concat (insert_line n ls)) = Suc (length (concat ls))"
proof -
  have "length (concat ls) = length (concat (take n ls @ drop n ls))" by simp
  then show ?thesis unfolding insert_line_def by (simp only: concat_append length_append) (simp add: newline_def)
qed

lemma length_insert_lines: "length (concat (insert_lines ns ls)) = card (set ns) + length (concat ls)"
proof -
  have "length (concat (fold insert_line xs ls)) = length xs + length (concat ls)" for xs
    by (induction xs arbitrary: ls) (simp_all add: length_insert_line)
  then show ?thesis by (simp add: insert_lines_def)
qed

lemma insertions_Nil:
  "insertions lines protected program = [] \<longleftrightarrow>
     (\<forall>node \<in> set (walk program). \<forall>(field, first, previous, following) \<in> set (siblings node).
        insertion lines protected node field first previous following = None)"
  by (auto simp: insertions_def List.map_filter_def filter_empty_conv)

text \<open>The fixed points of the spacing are the texts that follow the policy.\<close>

lemma spaced_fixpoint: "spaced_source lib text = Inr text \<longleftrightarrow> well_spaced lib text"
proof -
  have none: "insertion lines protected node field first p q = None \<longleftrightarrow>
      (case end_lineno p of None \<Rightarrow> True
       | Some e \<Rightarrow> e < statement_start q \<and> separated protected node field first p q \<longrightarrow>
           list_ex blank (take (statement_start q - 1 - e) (drop e lines)))" for lines protected node field first p q
    by (auto simp: insertion_def Let_def split: option.splits)
  have same: "concat (insert_lines ns (source_lines text)) = text \<longleftrightarrow> ns = []" for ns
    using length_insert_lines [of ns "source_lines text"] by (auto simp: insert_lines_def)
  have quiet: "insertions (source_lines text) protected program = [] \<longleftrightarrow>
      (\<forall>node \<in> set (walk program). \<forall>(field, first, previous, following) \<in> set (siblings node).
          case end_lineno previous of None \<Rightarrow> True
          | Some e \<Rightarrow> e < statement_start following \<and> separated protected node field first previous following \<longrightarrow>
              list_ex blank (take (statement_start following - 1 - e) (drop e (source_lines text))))" for program protected
    by (simp only: insertions_Nil none)
  have empty: "insert_lines [] ls = ls" for ls by (simp add: insert_lines_def)
  have "spaced_source lib text = Inr text \<longleftrightarrow> (\<exists>program protected. parse lib text = Inr program \<and>
      protected_lines lib text = Inr protected \<and> insertions (source_lines text) protected program = [])"
    using same empty by (auto simp: spaced_source_def bindR_eq_Inr Let_def split: if_splits)
  then show ?thesis by (simp only: well_spaced_def quiet)
qed

lemma spaced_same_tree:
  "spaced_source lib s = Inr t \<Longrightarrow> \<exists>a b. parse lib s = Inr a \<and> parse lib t = Inr b \<and> unlocated a = unlocated b"
  by (auto simp: spaced_source_def bindR_eq_Inr Let_def split: if_splits)

text \<open>
  \<open>E\<close> is what Black's own check compares: at least as coarse as equality up to positions, and kept
  by every change that Black makes.
\<close>

definition black_keeps :: "formatter \<Rightarrow> (ast \<Rightarrow> ast \<Rightarrow> bool) \<Rightarrow> bool" where
  "black_keeps lib E \<longleftrightarrow> equivp E \<and> (\<forall>a b. unlocated a = unlocated b \<longrightarrow> E a b) \<and>
     (\<forall>md ranges s t. black lib md ranges s = Inr (Some t) \<longrightarrow> (\<exists>a b. parse lib s = Inr a \<and> parse lib t = Inr b \<and> E a b))"

definition same_program :: "formatter \<Rightarrow> (ast \<Rightarrow> ast \<Rightarrow> bool) \<Rightarrow> string \<Rightarrow> string \<Rightarrow> bool" where
  "same_program lib E s t \<longleftrightarrow> (\<exists>a b. parse lib s = Inr a \<and> parse lib t = Inr b \<and> E a b)"

lemma same_program_trans:
  "equivp E \<Longrightarrow> same_program lib E s t \<Longrightarrow> same_program lib E t u \<Longrightarrow> same_program lib E s u"
  unfolding same_program_def by (metis equivp_transp old.sum.inject(2))

lemma black_source_same:
  assumes "black_keeps lib E" "black_source lib md ranges s = Inr t" "parse lib s = Inr a \<or> parse lib t = Inr a"
  shows "same_program lib E s t"
proof -
  obtain r where r: "black lib md ranges s = Inr r" "t = (case r of None \<Rightarrow> s | Some t \<Rightarrow> t)"
    using assms(2) by (auto simp: black_source_def bindR_eq_Inr)
  show ?thesis
  proof (cases r)
    case None
    then show ?thesis using r assms(1,3) by (auto simp: same_program_def black_keeps_def intro: equivp_reflp)
  next
    case (Some u)
    then show ?thesis using r assms(1) unfolding same_program_def black_keeps_def by auto
  qed
qed

lemma spaced_same: "black_keeps lib E \<Longrightarrow> spaced_source lib s = Inr t \<Longrightarrow> same_program lib E s t"
  using spaced_same_tree [of lib s t] by (auto simp: black_keeps_def same_program_def)

lemma format_source_Inr:
  assumes "black_keeps lib E" "format_source lib md source = Inr t"
  shows "\<exists>text. t = with_line_end (if py_contains source crlf then crlf else newline) text \<and> well_spaced lib text \<and>
    same_program lib E (unix_lines source) text"
proof -
  obtain initial spaced res where s: "black_source lib md [] (unix_lines source) = Inr initial"
      "spaced_source lib initial = Inr spaced" "black_source lib md [] spaced = Inr res" "spaced_source lib res = Inr res"
      "t = with_line_end (if py_contains source crlf then crlf else newline) res"
    using assms(2) by (auto simp: format_source_def Let_def bindR_eq_Inr split: if_splits)
  have 2: "same_program lib E initial spaced" by (rule spaced_same [OF assms(1) s(2)])
  then have "same_program lib E (unix_lines source) initial" "same_program lib E spaced res"
    using black_source_same [OF assms(1) s(1)] black_source_same [OF assms(1) s(3)] by (auto simp: same_program_def)
  then have "same_program lib E (unix_lines source) res"
    using same_program_trans [OF conjunct1 [OF assms(1) [unfolded black_keeps_def]]] 2 by meson
  then show ?thesis using s(4,5) spaced_fixpoint by blast
qed

text \<open>What the script has done to the files it has changed.\<close>

definition formatted_from :: "formatter \<Rightarrow> (ast \<Rightarrow> ast \<Rightarrow> bool) \<Rightarrow> bytes option \<Rightarrow> bytes option \<Rightarrow> bool" where
  "formatted_from lib E old new \<longleftrightarrow>
     (\<exists>raw enc source text bytes. old = Some raw \<and> new = Some bytes \<and> detect_encoding lib raw = Inr enc \<and>
        decode_text lib enc raw = Inr source \<and> well_spaced lib text \<and> same_program lib E (unix_lines source) text \<and>
        encode_text lib enc (with_line_end (if py_contains source crlf then crlf else newline) text) = Inr bytes)"

lemma check_file_Inr:
  assumes "check_file lib md contents p = Inr (q, raw, bytes)"
  shows "q = p \<and> contents p = Some raw \<and> (\<exists>enc. detect_encoding lib raw = Inr enc \<and> formatted_bytes lib md enc raw = Inr bytes)"
proof -
  obtain raw' enc where r: "contents p = Some raw'" "detect_encoding lib raw' = Inr enc"
    using assms by (auto simp: check_file_def bindR_eq_Inr split: option.split_asm)
  then obtain b where "formatted_bytes lib md enc raw' = Inr b"
    using assms by (cases "formatted_bytes lib md enc raw'") (simp_all add: check_file_def)
  then show ?thesis using assms r by (simp add: check_file_def)
qed

lemma checked_from:
  assumes "black_keeps lib E" "check_file lib md contents p = Inr (q, raw, bytes)"
  shows "formatted_from lib E (contents p) (Some bytes)"
proof -
  obtain enc source t where s: "contents p = Some raw" "detect_encoding lib raw = Inr enc" "decode_text lib enc raw = Inr source"
      "format_source lib md source = Inr t" "encode_text lib enc t = Inr bytes"
    using check_file_Inr [OF assms(2)] by (auto simp: formatted_bytes_def bindR_eq_Inr)
  then show ?thesis using format_source_Inr [OF assms(1) s(4)] unfolding formatted_from_def by blast
qed

lemma apply_change_cases:
  "disk (snd (apply_change lib args (p, raw, b) d)) = disk d \<or>
   \<not> arg_check args \<and> disk (snd (apply_change lib args (p, raw, b) d)) = (disk d)(p \<mapsto> b)"
  by (auto simp: apply_change_def write_source_def print_line_def bindS_def)

lemma apply_change_Inr:
  "apply_change lib args (p, raw, b) d = (Inr u, d') \<Longrightarrow> disk d' = (if arg_check args then disk d else (disk d)(p \<mapsto> b))"
  by (auto simp: apply_change_def write_source_def print_line_def bindS_def split: if_splits)

lemma apply_changes_cases:
  "disk (snd (mapS (apply_change lib args) cs d)) p = disk d p \<or>
   \<not> arg_check args \<and> (\<exists>raw b. (p, raw, b) \<in> set cs \<and> disk (snd (mapS (apply_change lib args) cs d)) p = Some b)"
proof (induction cs arbitrary: d)
  case (Cons c cs)
  obtain q raw b where c: "c = (q, raw, b)" by (cases c)
  obtain r d1 where d1: "apply_change lib args c d = (r, d1)" by force
  have one: "disk d1 p = disk d p \<or> \<not> arg_check args \<and> p = q \<and> disk d1 p = Some b"
    using apply_change_cases [of lib args q raw b d] d1 c by (auto split: if_splits)
  show ?case
  proof (cases r)
    case (Inl e)
    then show ?thesis using one d1 c by auto
  next
    case (Inr u)
    have "disk (snd (mapS (apply_change lib args) (c # cs) d)) = disk (snd (mapS (apply_change lib args) cs d1))"
      using d1 Inr by (auto simp: bindS_def split: prod.splits sum.splits)
    then show ?thesis using Cons.IH [of d1] one c by auto
  qed
qed simp

lemma apply_changes_Inr:
  assumes "mapS (apply_change lib args) cs d = (Inr us, d')" "distinct (map fst cs)"
  shows "disk d' p = (case map_of cs p of Some (raw, b) \<Rightarrow> if arg_check args then disk d p else Some b | None \<Rightarrow> disk d p)"
  using assms
proof (induction cs arbitrary: d us)
  case (Cons c cs)
  obtain q raw b where c: "c = (q, raw, b)" by (cases c)
  obtain u d1 us1 where d1: "apply_change lib args c d = (Inr u, d1)" "mapS (apply_change lib args) cs d1 = (Inr us1, d')"
    using Cons.prems(1) by (auto simp: bindS_Inr)
  have "map_of cs q = None" using Cons.prems(2) c by (auto simp: map_of_eq_None_iff)
  then show ?case using Cons.IH [OF d1(2)] Cons.prems(2) apply_change_Inr [OF d1(1) [unfolded c]] c
    by (auto split: option.splits)
qed simp

text \<open>The steps of the script that leave the files alone.\<close>

lemma keeps_disk [intro]:
  "keeps (\<lambda>d. disk d = f) (print_line m)" "keeps (\<lambda>d. disk d = f) (print_error m)" "keeps (\<lambda>d. disk d = f) (usage_error m)"
  "keeps (\<lambda>d. disk d = f) (format_buffer lib args md)"
  unfolding usage_error_def format_buffer_def
  by (auto simp: print_line_def print_error_def keeps_def bindS_def split: if_splits sum.splits)

lemma format_main_stdin: "arg_stdin args \<noteq> [] \<Longrightarrow> disk (snd (format_main lib args d)) = disk d"
proof -
  assume "arg_stdin args \<noteq> []"
  then have "keeps (\<lambda>x. disk x = disk d) (format_main lib args)"
    unfolding format_main_def by (auto intro!: keeps_tryS keeps_bindS keeps_disk)
  then show ?thesis by (simp add: keeps_def)
qed

lemma format_main_files:
  assumes "disk (snd (format_main lib args d)) \<noteq> disk d \<or> fst (format_main lib args d) = Inr 0 \<and> \<not> arg_version args"
    and "arg_stdin args = []"
  shows "\<exists>md r d1. project_mode lib = Inr md \<and> format_files lib args md d = (r, d1) \<and>
    disk (snd (format_main lib args d)) = disk d1 \<and> (\<forall>n. fst (format_main lib args d) = Inr n \<longrightarrow> n = 2 \<or> r = Inr n)"
  using assms
  by (auto simp: format_main_def tryS_def bindS_def print_line_def print_error_def usage_error_def
      split: if_splits sum.splits prod.splits)

text \<open>The files of a run, each checked before the first is written.\<close>

definition selected :: "formatter \<Rightarrow> arguments \<Rightarrow> file_path list result" where
  "selected lib args = python_files lib (if arg_paths args = [] then arg_default args else arg_paths args)"

lemma mapR_check_keys:
  "mapR (check_file lib md contents) ps = Inr cs \<Longrightarrow> map fst cs = ps"
proof (induction ps arbitrary: cs)
  case (Cons p ps)
  then show ?case using check_file_Inr by (fastforce simp: bindR_eq_Inr)
qed simp

lemma selected_distinct: "selected lib args = Inr ps \<Longrightarrow> distinct ps"
  by (auto simp: selected_def python_files_def bindR_eq_Inr Let_def split: if_splits)

text \<open>Changes of files, and the state of all files after a success.\<close>

lemma format_files_changes:
  assumes "disk (snd (format_files lib args md d)) p \<noteq> disk d p"
  shows "\<not> arg_check args \<and> (\<exists>ps cs raw b. selected lib args = Inr ps \<and> mapR (check_file lib md (disk d)) ps = Inr cs \<and>
    (p, raw, b) \<in> set cs \<and> disk (snd (format_files lib args md d)) p = Some b)"
proof -
  obtain ps where ps: "selected lib args = Inr ps"
    using assms by (auto simp: format_files_def selected_def bindS_def readS_def split: sum.splits)
  obtain cs where cs: "mapR (check_file lib md (disk d)) ps = Inr cs"
    using assms ps by (auto simp: format_files_def selected_def bindS_def readS_def split: sum.splits)
  let ?changes = "filter (\<lambda>(p, raw, formatted). formatted \<noteq> raw) cs"
  have "disk (snd (format_files lib args md d)) = disk (snd (mapS (apply_change lib args) ?changes d))"
    using ps cs by (auto simp: format_files_def selected_def bindS_def readS_def Let_def print_line_def split: sum.splits prod.splits)
  then show ?thesis using apply_changes_cases [of lib args ?changes d p] assms ps cs by auto
qed

lemma format_files_done:
  assumes "format_files lib args md d = (Inr n, d')"
  shows "\<exists>ps cs. selected lib args = Inr ps \<and> mapR (check_file lib md (disk d)) ps = Inr cs \<and>
    (n = 0 \<longrightarrow> (\<forall>(p, raw, b) \<in> set cs. disk d' p = Some b))"
proof -
  obtain ps cs us d1 where s: "selected lib args = Inr ps" "mapR (check_file lib md (disk d)) ps = Inr cs"
      "mapS (apply_change lib args) (filter (\<lambda>(p, raw, formatted). formatted \<noteq> raw) cs) d = (Inr us, d1)" "disk d' = disk d1"
      "n = (if arg_check args \<and> filter (\<lambda>(p, raw, formatted). formatted \<noteq> raw) cs \<noteq> [] then 1 else 0)"
    using assms by (auto simp: format_files_def selected_def bindS_Inr readS_def Let_def print_line_def split: if_splits)
  let ?changes = "filter (\<lambda>(p, raw, formatted). formatted \<noteq> raw) cs"
  have dist: "distinct (map fst cs)" using mapR_check_keys [OF s(2)] selected_distinct [OF s(1)] by simp
  have distc: "distinct (map fst ?changes)" using dist by (simp add: distinct_map_filter)
  have "disk d' p = Some b" if "n = 0" "(p, raw, b) \<in> set cs" for p raw b
  proof (cases "b = raw")
    case True
    have "map_of ?changes p = None"
      using that(2) True dist by (auto simp: map_of_eq_None_iff) (metis Pair_inject eq_key_imp_eq_value)
    moreover have "disk d p = Some raw"
      using mapR_source [OF s(2) that(2)] check_file_Inr by fastforce
    ultimately show ?thesis using apply_changes_Inr [OF s(3) distc, of p] s(4) True by simp
  next
    case False
    then have "map_of ?changes p = Some (raw, b)" using that(2) distc by (intro map_of_is_SomeI) auto
    moreover have "\<not> arg_check args" using s(5) that False by (auto simp: filter_empty_conv split: if_splits)
    ultimately show ?thesis using apply_changes_Inr [OF s(3) distc, of p] s(4) by simp
  qed
  then show ?thesis using s(1,2) by blast
qed

subsection \<open>An instance for witnesses\<close>

definition demo_line :: "string \<Rightarrow> string" where
  "demo_line l = l @ newline"

definition demo_raw :: string where
  "demo_raw = demo_line ''a=1'' @ demo_line ''go()''"

definition demo_laid_out :: string where
  "demo_laid_out = demo_line ''a = 1'' @ demo_line ''go()''"

definition demo_spaced :: string where
  "demo_spaced = demo_line ''a = 1'' @ newline @ demo_line ''go()''"

definition demo_program :: "nat \<Rightarrow> ast" where
  "demo_program n = Node ''Module'' 0 None [(''body'', Many
     [Node ''Assign'' 1 (Some 1) [(''value'', One (Value False ''1''))], Node ''Expr'' n (Some n) []])]"

definition demo_formatter :: formatter where
  "demo_formatter = \<lparr>parse = (\<lambda>s. if s = demo_raw \<or> s = demo_laid_out then Inr (demo_program 2)
       else if s = demo_spaced then Inr (demo_program 3) else Inl (SyntaxError s)),
     tokens = (\<lambda>s. Inr []), black = (\<lambda>md ranges s. Inr (if s = demo_raw then Some demo_laid_out else None)),
     options = Inr [], versions = [''PY312''], detect_encoding = (\<lambda>b. Inr ''utf-8''), decode_text = (\<lambda>enc b. Inr b),
     encode_text = (\<lambda>enc s. Inr s), resolve_path = id, writable = (\<lambda>p. True), error_text = (\<lambda>e. []), black_version = ''1''\<rparr>"

definition demo_arguments :: arguments where
  "demo_arguments = \<lparr>arg_paths = [\<lparr>tg_path = [''m.py''], tg_link = False, tg_entry = Some FileEntry\<rparr>], arg_check = False,
     arg_quiet = True, arg_version = False, arg_ranges = [], arg_stdin = [], arg_input = [], arg_default = []\<rparr>"

definition demo_desk :: desk where
  "demo_desk = \<lparr>disk = [[''m.py''] \<mapsto> demo_raw], stdout = [], stderr = []\<rparr>"

lemma demo_black_keeps: "black_keeps demo_formatter (\<lambda>a b. unlocated a = unlocated b)"
proof -
  have "parse demo_formatter demo_raw = Inr (demo_program 2)" "parse demo_formatter demo_laid_out = Inr (demo_program 2)"
    by (simp_all add: demo_formatter_def)
  then show ?thesis by (auto simp: black_keeps_def demo_formatter_def equivp_def fun_eq_iff split: if_splits)
qed

subsection \<open>Properties\<close>

text \<open>
  Property C20. The formatter keeps programs and its policy: a file it changes held a program that
  Black and the spacing leave the same, holds a text in which all neighbours that the policy
  separates have a blank line between them, is one of the selected files, and was not changed
  before every selected file had been formatted without an error; checking and formatting a buffer change nothing. When
  formatting ends with success every selected file follows the policy.
\<close>

theorem formatting_sound:
  assumes "black_keeps lib E" "\<not> arg_version args" "format_main lib args d = (r, d')"
  shows "(disk d' p \<noteq> disk d p \<longrightarrow>
      \<not> arg_check args \<and> arg_stdin args = [] \<and> formatted_from lib E (disk d p) (disk d' p) \<and>
      (\<exists>md ps cs. selected lib args = Inr ps \<and> p \<in> set ps \<and> mapR (check_file lib md (disk d)) ps = Inr cs)) \<and>
    (r = Inr 0 \<and> arg_stdin args = [] \<and> selected lib args = Inr ps \<and> p \<in> set ps \<longrightarrow>
      formatted_from lib E (disk d p) (disk d' p))"
proof (intro conjI impI)
  assume ch: "disk d' p \<noteq> disk d p"
  have st: "arg_stdin args = []"
    using ch assms(3) format_main_stdin [of args lib d] by (metis snd_conv)
  have "disk (snd (format_main lib args d)) \<noteq> disk d" using ch assms(3) by auto
  then obtain md r1 d1 where f: "format_files lib args md d = (r1, d1)" "disk d' = disk d1"
    using format_main_files [OF _ st, of lib d] assms(3) by auto
  obtain ps cs raw b where c: "\<not> arg_check args" "selected lib args = Inr ps" "mapR (check_file lib md (disk d)) ps = Inr cs"
      "(p, raw, b) \<in> set cs" "disk d1 p = Some b"
    using format_files_changes [of lib args md d p] ch f by auto
  obtain q where q: "q \<in> set ps" "check_file lib md (disk d) q = Inr (p, raw, b)" using mapR_source [OF c(3,4)] by blast
  have qp: "q = p" using check_file_Inr [OF q(2)] by simp
  show "\<not> arg_check args" "arg_stdin args = []" by fact+
  show "formatted_from lib E (disk d p) (disk d' p)" using checked_from [OF assms(1) q(2)] qp f(2) c(5) by simp
  show "\<exists>md ps cs. selected lib args = Inr ps \<and> p \<in> set ps \<and> mapR (check_file lib md (disk d)) ps = Inr cs"
    using c(2,3) q(1) qp by blast
next
  assume a: "r = Inr 0 \<and> arg_stdin args = [] \<and> selected lib args = Inr ps \<and> p \<in> set ps"
  obtain md d1 where f: "format_files lib args md d = (Inr 0, d1)" "disk d' = disk d1"
    using format_main_files [of lib args d] a assms(2,3) by auto
  obtain cs where cs: "mapR (check_file lib md (disk d)) ps = Inr cs" "\<forall>(p, raw, b) \<in> set cs. disk d1 p = Some b"
    using format_files_done [OF f(1)] a by auto
  obtain q raw b where y: "(q, raw, b) \<in> set cs" "check_file lib md (disk d) p = Inr (q, raw, b)"
    using mapR_mem [OF cs(1)] a by (metis prod_cases3)
  have "disk d1 p = Some b" using cs(2) y(1) check_file_Inr [OF y(2)] by auto
  then show "formatted_from lib E (disk d p) (disk d' p)" using checked_from [OF assms(1) y(2)] f(2) by simp
qed

theorem formatting_sound_witness:
  "formatted_from demo_formatter (\<lambda>a b. unlocated a = unlocated b) (Some demo_raw) (Some demo_spaced)"
proof -
  obtain r d' where run: "format_main demo_formatter demo_arguments demo_desk = (r, d')" by force
  have "\<not> arg_version demo_arguments" by code_simp
  note sound = formatting_sound [OF demo_black_keeps this run, of "[''m.py'']" "[]"]
  have "disk (snd (format_main demo_formatter demo_arguments demo_desk)) [''m.py''] = Some demo_spaced" by code_simp
  moreover have "disk demo_desk [''m.py''] = Some demo_raw" by (simp add: demo_desk_def)
  moreover have "demo_raw \<noteq> demo_spaced" by code_simp
  ultimately show ?thesis using sound run by simp
qed

end
