(* ===== verification/Spec2Isabelle.thy ===== *)
theory Spec2Isabelle
  imports RateLimit Asgi Gates Responses Proxy Cors Items Idempotency Environment Lifecycle Pool
    Outcome Timeout Background Application Routing Logging Database System Server ScanPolicy
    ReleasePublish TransactionalRoute AccessLog Process Cleanup OpenApi Migrations Formatter
begin

text \<open>
  A model of the FastAPI service QuickAPI, translated from the Python sources under
  \<^verbatim>\<open>src/app\<close>, and of the scripts that release it (\<^verbatim>\<open>src/scripts\<close>). This theory only collects the development and documents it.

  \<^bold>\<open>The program.\<close> The service is an ASGI application. \<^verbatim>\<open>create_app\<close> (\<^verbatim>\<open>config/application.py\<close>) reads
  validated settings, stacks middleware around the router and hands the lifespan to a lifecycle
  handler. A request passes, from the outside in: the observation of its outcome, admission,
  cleanup of the request context, trusted proxies, the request context, logging and metrics,
  security headers, the rate limit, header sanitization and limits, the request deadline, media
  types, methods, CORS, the body limit, error rendering, the exposure of operational routes, and
  finally a route. Mutations of items run through a transactional route that stores responses for
  idempotent replay. A bounded pool hands out database connections. A release is a commit of main
  whose tests passed; its image is built elsewhere, and the scripts inspect the archive of the
  build, scan it, bind the evidence to it and publish it.

  \<^bold>\<open>Conventions.\<close> Python strings and bytes are character lists in UTF-8; integers are unbounded, as
  in Python; times and durations are rationals (seconds or milliseconds as in the code), since
  the code only adds and compares them. Raising an exception is \<open>Inl\<close> of \<open>exn\<close>, in order of the
  statements. \<open>async\<close> code that talks to the server is a program (\<open>prog\<close>) that sends, receives,
  returns or raises; its possible traces are computed by \<open>events\<close>. Code whose tasks interleave is
  an inductive step relation whose steps are the code between two \<^verbatim>\<open>await\<close>s. A script is a step
  on the files of a host (\<open>step\<close>), which the tools it runs can change as well. What is not
  source code here (the framework's response classes, database collation, hashes, clocks, the
  \<^verbatim>\<open>ipaddress\<close> and URL libraries where they are not modelled) is a parameter: records
  \<open>framework\<close>, \<open>libraries\<close>, \<open>env\<close> and function arguments.

  \<^bold>\<open>Theories, in the order of dependency.\<close>

  \<^item> \<open>Prelude\<close>: results and exceptions, ordered dictionaries, the Python string operations the
    code uses, decimal rendering, \<open>isort_by\<close>, and generic lemmas.
  \<^item> \<open>RateLimit\<close> (\<^verbatim>\<open>config/rate_limit_policy.py\<close>, \<^verbatim>\<open>common/store/rate_limit.py\<close>, \<^verbatim>\<open>config/rate_limiter.py\<close>):
    the ring of timestamps per client, the client dictionary ordered by expiry, and \<open>admit\<close>. The
    ring is an instance of the locale \<open>bounded_fifo\<close>. The lemmas culminate in a simulation
    (\<open>simulates\<close>) of a reference limiter that scans the full log of admissions, from which the
    quota, the storage bound and the soundness of Retry-After follow.
  \<^item> \<open>Asgi\<close> (\<^verbatim>\<open>common/models/error_model.py\<close>, \<^verbatim>\<open>common/handlers/exception_handler.py\<close>): messages, scopes, programs, their traces,
    error responses, and the predicates \<open>sends_only\<close> and \<open>protocol_ok\<close> with their rules.
  \<^item> \<open>Gates\<close> (\<^verbatim>\<open>common/middleware/\<close>: header limits and sanitization, content types, methods,
    operational exposure): each as a check and a middleware around it, with exact
    characterisations of what passes.
  \<^item> \<open>Responses\<close> (the request context, security headers, error rendering, the rate limit
    middleware and the body limit): what they make of the application's traffic.
  \<^item> \<open>Proxy\<close> (\<^verbatim>\<open>trusted_proxy.py\<close>): addresses and networks, the choice of the client from the
    forwarding chain.
  \<^item> \<open>Cors\<close> (\<^verbatim>\<open>cors.py\<close>): the decision and the headers of a cross-origin request.
  \<^item> \<open>ItemModels\<close>, \<open>Items\<close> (\<^verbatim>\<open>api/v1/items\<close>, \<^verbatim>\<open>database/repositories/item_repo.py\<close>, \<^verbatim>\<open>common/models\<close>): validated inputs,
    the table, repository, service and handlers; versions, pages, and rendering.
  \<^item> \<open>Fingerprint\<close> (\<^verbatim>\<open>canonical_fingerprint\<close> of \<^verbatim>\<open>common/models/idempotency_model.py\<close>): the canonical encoding of
    inputs; \<open>same\<close> is the equality it decides.
  \<^item> \<open>Steps\<close>: state and exceptions together, with rules for sequences, handlers and \<^verbatim>\<open>finally\<close>.
  \<^item> \<open>Activity\<close> (\<^verbatim>\<open>common/handlers/request_activity.py\<close>): expiry and abandonment of a request.
  \<^item> \<open>Idempotency\<close> (\<^verbatim>\<open>idempotency_repo.py\<close>, \<^verbatim>\<open>idempotency_service.py\<close>, \<^verbatim>\<open>application_route.py\<close>): one call
    of the transactional handler as a function of the committed database, and histories of calls
    and purges.
  \<^item> \<open>TransactionalRoute\<close> (\<^verbatim>\<open>application_route.py\<close>): which endpoints may be idempotent, the input that is
    fingerprinted, and the requests that \<open>Idempotency.handle\<close> serves.
  \<^item> \<open>Environment\<close> (\<^verbatim>\<open>config/environment.py\<close>): the settings, their validation and the error report.
  \<^item> \<open>Lifecycle\<close> (\<^verbatim>\<open>common/handlers/lifecycle_handler.py\<close>): registration, startup with rollback, readiness
    checks, quiescing and shutdown, with the trace of starts and stops as a ghost component.
  \<^item> \<open>Pool\<close> (\<^verbatim>\<open>common/handlers/database_pool.py\<close>): admission to the connection pool and its waiting tasks.
  \<^item> \<open>Outcome\<close> (\<^verbatim>\<open>request_outcome.py\<close>, \<^verbatim>\<open>request_logger.py\<close>, \<^verbatim>\<open>prometheus_metrics.py\<close>): the one outcome of a
    request, its labels, and the log line and metrics made of it.
  \<^item> \<open>Timeout\<close> (\<^verbatim>\<open>request_timeout.py\<close>): the owner, the reader and the application of a request with
    a deadline.
  \<^item> \<open>Background\<close> (\<^verbatim>\<open>request_work.py\<close>, \<^verbatim>\<open>database_readiness.py\<close>, \<^verbatim>\<open>request_cleanup.py\<close>, the control of
    \<^verbatim>\<open>idempotency_cleanup_service.py\<close>): admission and draining, the shared readiness probe.
  \<^item> \<open>Application\<close> (\<^verbatim>\<open>config/application.py\<close>): the stack and the lifespan as compositions of the above; the
    locale \<open>layer\<close> states what every middleware owes to its neighbours.
  \<^item> \<open>Routing\<close> (\<^verbatim>\<open>common/handlers/flexible_router.py\<close>, \<^verbatim>\<open>query_validation.py\<close>, \<^verbatim>\<open>api/api_routes.py\<close>): which route
    takes a request, aliases, HEAD, repeated query parameters, and the routers that the settings
    open. The match of one path with one pattern is a parameter.
  \<^item> \<open>Logging\<close> (\<^verbatim>\<open>common/helpers/error_diagnostics.py\<close>, \<^verbatim>\<open>config/logging.py\<close>): the record made of a log
    event and what it can reveal.
  \<^item> \<open>Database\<close> (\<^verbatim>\<open>config/database_transport.py\<close>, \<^verbatim>\<open>config/database.py\<close>, \<^verbatim>\<open>check_revision\<close> of
    \<^verbatim>\<open>config/migrations.py\<close>): the connection policy, opening a connection, sessions and the
    lifecycle service.
  \<^item> \<open>System\<close> (\<^verbatim>\<open>api/system\<close>): probes, runtime identity and diagnostics with their response models;
    what the platform answers is the record \<open>platform\<close>.
  \<^item> \<open>Server\<close> (\<^verbatim>\<open>common/handlers/http_server.py\<close>): signals, the watchdog and the exit of the process, as
    histories of occurrences.
  \<^item> \<open>Stack\<close> (\<^verbatim>\<open>config/application.py\<close>): the whole application around the stack, the services it starts and
    the exception handlers; what the observation of a request reports of it.
  \<^item> \<open>AccessLog\<close> (\<^verbatim>\<open>request_logger.py\<close>): the event of a request and what the filters of \<open>Logging\<close> leave of it.
  \<^item> \<open>Process\<close> (\<^verbatim>\<open>main.py\<close>, \<^verbatim>\<open>config/event_loop.py\<close>, \<^verbatim>\<open>config/metrics.py\<close>, \<^verbatim>\<open>http_server.py\<close>): configuration, event
    loops, the search for the application and the handlers of signals.
  \<^item> \<open>Cleanup\<close> (\<^verbatim>\<open>idempotency_cleanup_service.py\<close>): the timer of the cleanup task.
  \<^item> \<open>Migrations\<close> (\<^verbatim>\<open>database/migrations\<close>, \<^verbatim>\<open>database/entities\<close>): versions as operations on tables with rows, and
    the declared tables.
  \<^item> \<open>OpenApi\<close> (\<^verbatim>\<open>common/docs/openapi.py\<close>): what is rewritten in the generated document.
  \<^item> \<open>Json\<close> (\<^verbatim>\<open>scripts/security_policy.py\<close>): documents, their strict reading and Python's operations on them.
  \<^item> \<open>ScanPolicy\<close> (\<^verbatim>\<open>scripts/security_policy.py\<close>, \<^verbatim>\<open>scripts/ci_gate.py\<close>): the gates a release has to pass.
  \<^item> \<open>ReleaseSource\<close> (\<^verbatim>\<open>scripts/release_source.py\<close>): the choice of a tested commit. The pages of jobs
    are a \<open>partial_function\<close>, and \<open>job_pages_total\<close> says when it returns.
  \<^item> \<open>ReleaseOci\<close> (\<^verbatim>\<open>scripts/release_oci.py\<close>): the archive of a candidate, where every document is
    named by its digest; what an inspection establishes, and that the digest of the index determines it.
  \<^item> \<open>Host\<close>: files, tools and the clock, with the helpers the scripts share; \<open>reaches\<close> relates the states
    that a script goes through.
  \<^item> \<open>SecurityScan\<close> (\<^verbatim>\<open>scripts/security_scan.py\<close>): the scans and what they leave when they fail.
  \<^item> \<open>ReleaseCandidate\<close> (\<^verbatim>\<open>scripts/release_candidate.py\<close>): qualification and verification; \<open>verify_Inr\<close>
    is what a verification has checked.
  \<^item> \<open>ReleasePublish\<close> (\<^verbatim>\<open>scripts/release_publish.py\<close>): rehearsal and publication; \<open>answered\<close> is an answer
    of the registry in the course of a publication.
  \<^item> \<open>Formatter\<close> (\<^verbatim>\<open>scripts/format_code.py\<close>): the spacing of statements over syntax trees, whose fixed points are
    the texts that follow the policy (\<open>well_spaced\<close>), and the script, which writes after all files are checked.

  \<^bold>\<open>Bounds and fuel.\<close> Loops of the source are structural recursions or have termination proofs.
  Two definitions are driven by a list of what the environment does: \<open>drain_loop\<close> by its waits,
  where \<open>bounded_work\<close> together with as many waits as tasks is shown to be enough, and
  \<open>sweep_loop\<close>, whose length is the configured number of batches. Traces of programs are driven
  by the list of answers of the server. Nothing else is bounded.

  \<^bold>\<open>Not modelled.\<close> The framework's compilation of path patterns, its dependency injection and the
  parsing of requests into models are parameters; so are the transport of Uvicorn, its supervisor, structlog's
  wrappers and the collection of metrics. The operations of Alembic are those MySQL documents, without locks and
  collations; the SQL that SQLAlchemy renders is left out. The scripts under \<^verbatim>\<open>src/scripts\<close> that drive tests of
  a deployment are sequences of commands and assertions and are left out as well. Tar archives, JSON, hashes,
  Python's parser and tokenizer, Black and the tools that scripts run are parameters, and so is the API of
  the repository's host. Writing a file succeeds, but for the formatter. Row locks and the advisory lock are taken to
  work as MySQL documents them.
\<close>

end
